(* ===== verification/Operator_Prelude.thy ===== *)
theory Operator_Prelude
  imports Main "HOL-Library.Finite_Map" "HOL-Library.List_Lexorder" "HOL-Library.Char_ord"
    "HOL-Library.Product_Lexorder"
begin

text \<open>
  The prelude of the development: a fact collection that the component theories fill, the
  values Go code passes around (error values with their wrapping chain, decimal text of
  integers), and the few generic lemmas on lists and finite maps that several components use.

  A Go map is a finite map, a Go slice is a list and a Go string is a list of bytes
  (\<^typ>\<open>char list\<close>). A function that returns an error returns \<^typ>\<open>'e + 'a\<close>, or an
  optional error where it returns nothing else. Code that talks to the cluster threads the
  state of the outside world explicitly.
\<close>

named_theorems workload_defs "constants and constructors of the objects the operator creates"

type_synonym ('s, 'a) effect = "'s \<Rightarrow> 'a \<times> 's"

section \<open>Error values\<close>

text \<open>
  The reasons an API server puts into a failure status. The first constructor stands for the
  empty reason (unknown), the last for a reason that the client library does not know.
\<close>

datatype status_reason =
    StatusReasonUnknown
  | StatusReasonUnauthorized
  | StatusReasonForbidden
  | StatusReasonNotFound
  | StatusReasonAlreadyExists
  | StatusReasonConflict
  | StatusReasonGone
  | StatusReasonInvalid
  | StatusReasonServerTimeout
  | StatusReasonTimeout
  | StatusReasonTooManyRequests
  | StatusReasonBadRequest
  | StatusReasonMethodNotAllowed
  | StatusReasonNotAcceptable
  | StatusReasonRequestEntityTooLarge
  | StatusReasonUnsupportedMediaType
  | StatusReasonInternalError
  | StatusReasonExpired
  | StatusReasonServiceUnavailable
  | StatusReasonOther string

definition knownReason :: "status_reason \<Rightarrow> bool" where
  "knownReason r = (case r of StatusReasonUnknown \<Rightarrow> False | StatusReasonOther _ \<Rightarrow> False | _ \<Rightarrow> True)"

text \<open>
  An error value: an API status (reason, HTTP code, message), a plain text, or a text that
  wraps another error (\<^verbatim>\<open>%w\<close> in a format string).
\<close>

datatype go_error =
    StatusError status_reason int string
  | TextError string
  | WrapError string go_error

fun error_text :: "go_error \<Rightarrow> string" where
  "error_text (StatusError _ _ m) = m"
| "error_text (TextError m) = m"
| "error_text (WrapError m _) = m"

text \<open>The status found by walking the chain of wrapped errors, as \<^verbatim>\<open>errors.As\<close> does.\<close>

fun reasonAndCodeForError :: "go_error \<Rightarrow> status_reason \<times> int" where
  "reasonAndCodeForError (StatusError r c _) = (r, c)"
| "reasonAndCodeForError (TextError _) = (StatusReasonUnknown, 0)"
| "reasonAndCodeForError (WrapError _ e) = reasonAndCodeForError e"

definition IsNotFound :: "go_error \<Rightarrow> bool" where
  "IsNotFound err =
     (let (reason, code) = reasonAndCodeForError err
      in if reason = StatusReasonNotFound then True
         else if \<not> knownReason reason \<and> code = 404 then True
         else False)"

text \<open>\<^verbatim>\<open>fmt.Errorf\<close> with a final \<^verbatim>\<open>%v\<close> keeps the text only; with a final \<^verbatim>\<open>%w\<close> it wraps.\<close>

definition errorf_v :: "string \<Rightarrow> go_error \<Rightarrow> go_error" where
  "errorf_v prefix e = TextError (prefix @ error_text e)"

definition errorf_w :: "string \<Rightarrow> go_error \<Rightarrow> go_error" where
  "errorf_w prefix e = WrapError (prefix @ error_text e) e"

lemma error_text_errorf [simp]:
  "error_text (errorf_v p e) = p @ error_text e" "error_text (errorf_w p e) = p @ error_text e"
  by (simp_all add: errorf_v_def errorf_w_def)

lemma IsNotFound_TextError [simp]: "\<not> IsNotFound (TextError m)"
  by (simp add: IsNotFound_def)

lemma IsNotFound_WrapError [simp]: "IsNotFound (WrapError m e) = IsNotFound e"
  by (simp add: IsNotFound_def)

lemma IsNotFound_StatusError:
  "IsNotFound (StatusError r c m) \<longleftrightarrow>
     r = StatusReasonNotFound \<or> (\<not> knownReason r \<and> c = 404)"
  by (simp add: IsNotFound_def)

lemma errorf_v_forgets [simp]: "\<not> IsNotFound (errorf_v p e)"
  by (simp add: errorf_v_def)

lemma errorf_w_keeps [simp]: "IsNotFound (errorf_w p e) = IsNotFound e"
  by (simp add: errorf_w_def)

section \<open>Decimal text of unsigned integers\<close>

definition digit_char :: "nat \<Rightarrow> char" where
  "digit_char d = char_of (48 + d)"

fun decimal :: "nat \<Rightarrow> string" where
  "decimal n = (if n < 10 then [digit_char n] else decimal (n div 10) @ [digit_char (n mod 10)])"

declare decimal.simps [simp del]

definition digit_value :: "char \<Rightarrow> int option" where
  "digit_value c =
     (let n = of_char c :: nat in if 48 \<le> n \<and> n \<le> 57 then Some (int (n - 48)) else None)"

fun read_digits :: "int \<Rightarrow> string \<Rightarrow> int option" where
  "read_digits acc [] = Some acc"
| "read_digits acc (c # cs) =
     (case digit_value c of None \<Rightarrow> None | Some d \<Rightarrow> read_digits (10 * acc + d) cs)"

definition parse_decimal :: "string \<Rightarrow> int option" where
  "parse_decimal s = (if s = [] then None else read_digits 0 s)"

lemma digit_value_digit_char [simp]: "d < 10 \<Longrightarrow> digit_value (digit_char d) = Some (int d)"
  by (simp add: digit_value_def digit_char_def)

lemma read_digits_append:
  "read_digits acc (xs @ ys) =
     (case read_digits acc xs of None \<Rightarrow> None | Some n \<Rightarrow> read_digits n ys)"
  by (induction acc xs rule: read_digits.induct) (auto split: option.splits)

lemma decimal_nonempty [simp]: "decimal n \<noteq> []"
  by (subst decimal.simps) simp

lemma read_digits_decimal: "read_digits 0 (decimal n) = Some (int n)"
proof (induction n rule: decimal.induct)
  case (1 n)
  show ?case
  proof (cases "n < 10")
    case True
    then show ?thesis by (subst decimal.simps) simp
  next
    case False
    with "1.IH" have "read_digits 0 (decimal (n div 10)) = Some (int (n div 10))" by simp
    moreover have "10 * int (n div 10) + int (n mod 10) = int n" by presburger
    ultimately show ?thesis using False by (subst decimal.simps) (simp add: read_digits_append)
  qed
qed

lemma parse_decimal_decimal [simp]: "parse_decimal (decimal n) = Some (int n)"
  by (simp add: parse_decimal_def read_digits_decimal)

lemma decimal_inject [simp]: "decimal m = decimal n \<longleftrightarrow> m = n"
  by (metis parse_decimal_decimal option.inject of_nat_eq_iff)

section \<open>Machine integers\<close>

text \<open>
  Conversion to a signed integer of 32 and of 64 bits (two's complement wrap-around), and
  \<^verbatim>\<open>strconv.ParseInt(s, 10, 64)\<close>: an optional sign, at least one decimal digit, and a value
  within 64 bits; everything else is an error.
\<close>

definition int32 :: "int \<Rightarrow> int" where
  "int32 v = (v + 2 ^ 31) mod 2 ^ 32 - 2 ^ 31"

definition int64 :: "int \<Rightarrow> int" where
  "int64 v = (v + 2 ^ 63) mod 2 ^ 64 - 2 ^ 63"

definition ParseInt64 :: "string \<Rightarrow> int option" where
  "ParseInt64 s =
     (let (neg, ds) =
        (case s of [] \<Rightarrow> (False, [])
         | c # cs \<Rightarrow> if c = CHR ''+'' then (False, cs) else if c = CHR ''-'' then (True, cs) else (False, s))
      in case parse_decimal ds of
           None \<Rightarrow> None
         | Some n \<Rightarrow>
             (let v = (if neg then - n else n)
              in if - (2 ^ 63) \<le> v \<and> v < 2 ^ 63 then Some v else None))"

lemma int32_id: "- (2 ^ 31) \<le> v \<Longrightarrow> v < 2 ^ 31 \<Longrightarrow> int32 v = v"
  by (simp add: int32_def)

lemma int64_id: "- (2 ^ 63) \<le> v \<Longrightarrow> v < 2 ^ 63 \<Longrightarrow> int64 v = v"
  by (simp add: int64_def)

lemma int64_range: "- (2 ^ 63) \<le> int64 v \<and> int64 v < 2 ^ 63"
  by (simp add: int64_def)

section \<open>Lists and finite maps\<close>

lemma map_fst_sorted_list_of_fmap [simp]:
  "map fst (sorted_list_of_fmap m) = sorted_list_of_fset (fmdom m)"
  by (simp add: sorted_list_of_fmap_def comp_def)

lemma distinct_keys_sorted_list_of_fmap: "distinct (map fst (sorted_list_of_fmap m))"
  by (simp add: sorted_list_of_fset.rep_eq)

lemma set_sorted_list_of_fmap: "set (sorted_list_of_fmap m) = {(k, v). fmlookup m k = Some v}"
proof -
  have "(k, v) \<in> set (sorted_list_of_fmap m) \<longleftrightarrow> fmlookup m k = Some v" for k v
    using map_of_eq_Some_iff [OF distinct_keys_sorted_list_of_fmap, of m k v] by simp
  then show ?thesis by auto
qed

section \<open>Steps that may fail\<close>

text \<open>A list of named steps on a state is run up to the first one that fails; the result is its name and its error.\<close>

fun first_failure :: "('l \<times> ('s, go_error option) effect) list \<Rightarrow> ('s, ('l \<times> go_error) option) effect" where
  "first_failure [] s = (None, s)"
| "first_failure ((l, f) # steps) s =
     (case f s of
        (Some err, s') \<Rightarrow> (Some (l, err), s')
      | (None, s') \<Rightarrow> first_failure steps s')"

end
