(* ===== verification/Kube_Objects.thy ===== *)
theory Kube_Objects
  imports Operator_Prelude
begin

text \<open>
  Kubernetes objects as the operator sees them, and the operator's own API type, the
  \<open>DeviceConfig\<close> (\<^verbatim>\<open>api/v1alpha1\<close>). Every object is a record of object metadata, a
  specification and a status, so that the code that works on any object (the Go interface
  \<^verbatim>\<open>client.Object\<close>) is polymorphic in the last two.

  Of the object metadata the fields that this code reads or writes are kept. Type metadata
  (the kind and version of a Go value follow from its type), creation time, generation and
  managed fields are not modelled: no code under \<^verbatim>\<open>controllers\<close> or \<^verbatim>\<open>internal\<close> looks at them.
  A nil map of labels or annotations and an empty one have the same JSON and are the same
  value here; the node selector of a \<open>DeviceConfig\<close>, where the code compares with nil, is an
  optional map.
\<close>

section \<open>Group, version and kind\<close>

record group_version =
  gv_group :: string
  gv_version :: string

record group_version_kind = group_version +
  gvk_kind :: string

definition gv_string :: "'a group_version_scheme \<Rightarrow> string" where
  "gv_string gv = (if gv_group gv \<noteq> [] then gv_group gv @ ''/'' @ gv_version gv else gv_version gv)"

text \<open>\<open>before_slash\<close> and \<open>after_slash\<close> split a string at its first slash.\<close>

definition before_slash :: "string \<Rightarrow> string" where
  "before_slash s = takeWhile (\<lambda>c. c \<noteq> CHR ''/'') s"

definition after_slash :: "string \<Rightarrow> string" where
  "after_slash s = drop 1 (dropWhile (\<lambda>c. c \<noteq> CHR ''/'') s)"

definition ParseGroupVersion :: "string \<Rightarrow> go_error + group_version" where
  "ParseGroupVersion gv =
     (if length gv = 0 \<or> gv = ''/'' then Inr \<lparr>gv_group = '''', gv_version = ''''\<rparr>
      else if count_list gv (CHR ''/'') = 0 then Inr \<lparr>gv_group = '''', gv_version = gv\<rparr>
      else if count_list gv (CHR ''/'') = 1 then
        Inr \<lparr>gv_group = before_slash gv, gv_version = after_slash gv\<rparr>
      else Inl (TextError (''unexpected GroupVersion string: '' @ gv)))"

text \<open>
  The scheme: which group, version and kind a Go type is registered under. A type that is
  registered more than once is not used by this program.
\<close>

type_synonym scheme = "string \<Rightarrow> group_version_kind option"

definition GVKForObject :: "scheme \<Rightarrow> string \<Rightarrow> go_error + group_version_kind" where
  "GVKForObject scheme go_type =
     (case scheme go_type of
        None \<Rightarrow> Inl (TextError (''no kind is registered for the type '' @ go_type))
      | Some gvk \<Rightarrow> Inr gvk)"

section \<open>Object metadata\<close>

text \<open>Points in time, in seconds; \<open>0\<close> is Go's zero time.\<close>

type_synonym time = nat

definition time_IsZero :: "time option \<Rightarrow> bool" where
  "time_IsZero t = (case t of None \<Rightarrow> True | Some x \<Rightarrow> x = 0)"

type_synonym labels = "(string, string) fmap"

record owner_reference =
  or_apiVersion :: string
  or_kind :: string
  or_name :: string
  or_uid :: string
  or_controller :: "bool option"
  or_blockOwnerDeletion :: "bool option"

record object_meta =
  om_name :: string
  om_namespace :: string
  om_uid :: string
  om_resourceVersion :: string
  om_deletionTimestamp :: "time option"
  om_finalizers :: "string list"
  om_ownerReferences :: "owner_reference list"
  om_labels :: labels
  om_annotations :: labels

definition empty_meta :: object_meta where
  "empty_meta = \<lparr>om_name = '''', om_namespace = '''', om_uid = '''', om_resourceVersion = '''',
     om_deletionTimestamp = None, om_finalizers = [], om_ownerReferences = [],
     om_labels = fmempty, om_annotations = fmempty\<rparr>"

record ('spec, 'status) k8s_object =
  metadata :: object_meta
  spec :: 'spec
  status :: 'status

text \<open>A namespaced name: the namespace first, then the name.\<close>

type_synonym object_key = "string \<times> string"

definition ObjectKeyFromObject :: "('sp, 'st) k8s_object \<Rightarrow> object_key" where
  "ObjectKeyFromObject obj = (om_namespace (metadata obj), om_name (metadata obj))"

definition set_resourceVersion :: "string \<Rightarrow> ('sp, 'st) k8s_object \<Rightarrow> ('sp, 'st) k8s_object" where
  "set_resourceVersion rv obj = obj\<lparr>metadata := (metadata obj)\<lparr>om_resourceVersion := rv\<rparr>\<rparr>"

lemma set_resourceVersion_simps [simp]:
  "om_resourceVersion (metadata (set_resourceVersion rv obj)) = rv"
  "om_name (metadata (set_resourceVersion rv obj)) = om_name (metadata obj)"
  "om_namespace (metadata (set_resourceVersion rv obj)) = om_namespace (metadata obj)"
  "om_uid (metadata (set_resourceVersion rv obj)) = om_uid (metadata obj)"
  "om_deletionTimestamp (metadata (set_resourceVersion rv obj)) = om_deletionTimestamp (metadata obj)"
  "om_finalizers (metadata (set_resourceVersion rv obj)) = om_finalizers (metadata obj)"
  "om_ownerReferences (metadata (set_resourceVersion rv obj)) = om_ownerReferences (metadata obj)"
  "om_labels (metadata (set_resourceVersion rv obj)) = om_labels (metadata obj)"
  "om_annotations (metadata (set_resourceVersion rv obj)) = om_annotations (metadata obj)"
  "spec (set_resourceVersion rv obj) = spec obj"
  "status (set_resourceVersion rv obj) = status obj"
  "ObjectKeyFromObject (set_resourceVersion rv obj) = ObjectKeyFromObject obj"
  by (simp_all add: set_resourceVersion_def ObjectKeyFromObject_def)

section \<open>The DeviceConfig API\<close>

datatype condition_status = ConditionTrue | ConditionFalse | ConditionUnknown

record condition =
  cond_type :: string
  cond_status :: condition_status
  cond_observedGeneration :: int
  cond_lastTransitionTime :: time
  cond_reason :: string
  cond_message :: string

record device_config_spec =
  driverImage :: string
  driverVersion :: string
  nodeSelector :: "labels option"

record device_config_status =
  conditions :: "condition list"

type_synonym device_config = "(device_config_spec, device_config_status) k8s_object"

definition DeviceConfigDeletionFinalizer :: string where
  "DeviceConfigDeletionFinalizer = ''device-config-deletion-finalizer''"

definition HabanaPCIVendorID :: string where
  "HabanaPCIVendorID = ''1da3''"

definition GroupVersion :: group_version where
  "GroupVersion = \<lparr>gv_group = ''habana.ai'', gv_version = ''v1alpha1''\<rparr>"

text \<open>\<^verbatim>\<open>SchemeBuilder.Register\<close> collects the two types, \<^verbatim>\<open>AddToScheme\<close> puts them under \<open>GroupVersion\<close>.\<close>

definition SchemeBuilder :: "string list" where
  "SchemeBuilder = [''DeviceConfig'', ''DeviceConfigList'']"

definition AddToScheme :: "scheme \<Rightarrow> scheme" where
  "AddToScheme scheme =
     fold (\<lambda>kind s. s(kind \<mapsto> \<lparr>gv_group = gv_group GroupVersion, gv_version = gv_version GroupVersion, gvk_kind = kind\<rparr>))
       SchemeBuilder scheme"

text \<open>
  The node selector in force. The Go function takes device types as variadic arguments; the
  \<^verbatim>\<open>switch\<close> of its body declares a new variable of the same name, initialised with the empty
  string, and switches on that one.
\<close>

definition GetNodeSelector :: "device_config \<Rightarrow> string list \<Rightarrow> labels" where
  "GetNodeSelector dc deviceType =
     (case nodeSelector (spec dc) of
        Some ns \<Rightarrow> ns
      | None \<Rightarrow>
          (let ns = fmempty; deviceType = '''' in
           if deviceType = ''gaudi''
           then fmupd (''habana.ai/hpu.'' @ deviceType @ ''.present'') ''true'' ns
           else fmupd (''feature.node.kubernetes.io/pci-'' @ HabanaPCIVendorID @ ''.present'') ''true'' ns))"

lemma GVK_DeviceConfig [simp]:
  "GVKForObject (AddToScheme scheme) ''DeviceConfig'' =
     Inr \<lparr>gv_group = ''habana.ai'', gv_version = ''v1alpha1'', gvk_kind = ''DeviceConfig''\<rparr>"
  by (simp add: GVKForObject_def AddToScheme_def SchemeBuilder_def GroupVersion_def)

lemma GetNodeSelector_Some: "nodeSelector (spec dc) = Some ns \<Longrightarrow> GetNodeSelector dc ts = ns"
  by (simp add: GetNodeSelector_def)

lemma GetNodeSelector_None:
  "nodeSelector (spec dc) = None \<Longrightarrow>
     GetNodeSelector dc ts = fmap_of_list [(''feature.node.kubernetes.io/pci-1da3.present'', ''true'')]"
  by (simp add: GetNodeSelector_def HabanaPCIVendorID_def)

lemma before_slash_no_slash: "CHR ''/'' \<notin> set s \<Longrightarrow> before_slash (s @ CHR ''/'' # t) = s"
  unfolding before_slash_def by (subst takeWhile_append2) auto

lemma after_slash_no_slash: "CHR ''/'' \<notin> set s \<Longrightarrow> after_slash (s @ CHR ''/'' # t) = t"
  unfolding after_slash_def by (subst dropWhile_append2) auto

lemma count_list_0: "x \<notin> set xs \<Longrightarrow> count_list xs x = 0"
  by (induction xs) auto

lemma ParseGroupVersion_gv_string:
  assumes "CHR ''/'' \<notin> set (gv_group gv)" "CHR ''/'' \<notin> set (gv_version gv)"
  shows "ParseGroupVersion (gv_string gv) =
           Inr \<lparr>gv_group = gv_group gv, gv_version = gv_version gv\<rparr>"
  using assms
  by (auto simp: ParseGroupVersion_def gv_string_def count_list_0 before_slash_no_slash
      after_slash_no_slash Cons_eq_append_conv append_eq_Cons_conv)

text \<open>
  A group and version written out and parsed again are the same ones (API versions have no
  further slash); the legacy group, whose name is empty, is written without a slash.
\<close>

theorem group_version_roundtrip:
  assumes "CHR ''/'' \<notin> set (gv_group gv)" "CHR ''/'' \<notin> set (gv_version gv)"
  shows "ParseGroupVersion (gv_string gv) = Inr (group_version.truncate gv) \<and>
         (gv_group gv = [] \<longrightarrow> CHR ''/'' \<notin> set (gv_string gv))"
  using ParseGroupVersion_gv_string [OF assms] assms
  by (simp add: group_version.truncate_def gv_string_def)

end
