(* ===== verification/Label_Selectors.thy ===== *)
theory Label_Selectors
  imports Kube_Objects "HOL-Library.Multiset"
begin

text \<open>
  Label selectors, from the vendored \<^verbatim>\<open>k8s.io/apimachinery/pkg/labels\<close>: requirements with
  their operators, matching of a label set, and the conversion of a label set to a selector
  that the node selector validation uses. A selector is the list of its requirements, all of
  which must match; the empty list selects everything.
\<close>

datatype operator =
  OpIn | OpNotIn | OpEquals | OpDoubleEquals | OpNotEquals | OpExists | OpDoesNotExist
  | OpGreaterThan | OpLessThan

record requirement =
  req_key :: string
  req_operator :: operator
  req_strValues :: "string list"

type_synonym selector = "requirement list"

definition labels_Has :: "labels \<Rightarrow> string \<Rightarrow> bool" where
  "labels_Has ls label = (case fmlookup ls label of None \<Rightarrow> False | Some _ \<Rightarrow> True)"

definition labels_Get :: "labels \<Rightarrow> string \<Rightarrow> string" where
  "labels_Get ls label = (case fmlookup ls label of None \<Rightarrow> '''' | Some v \<Rightarrow> v)"

definition hasValue :: "requirement \<Rightarrow> string \<Rightarrow> bool" where
  "hasValue r v = list_ex (\<lambda>x. x = v) (req_strValues r)"

definition requirement_Matches :: "requirement \<Rightarrow> labels \<Rightarrow> bool" where
  "requirement_Matches r ls =
     (let has = labels_Has ls (req_key r); val = labels_Get ls (req_key r);
          compare_ints = (\<lambda>less.
            if \<not> has then False
            else case ParseInt64 val of
                None \<Rightarrow> False
              | Some lsValue \<Rightarrow>
                  (case req_strValues r of
                     [v] \<Rightarrow> (case ParseInt64 v of None \<Rightarrow> False | Some rValue \<Rightarrow> less lsValue rValue)
                   | _ \<Rightarrow> False))
      in case req_operator r of
           OpIn \<Rightarrow> has \<and> hasValue r val
         | OpEquals \<Rightarrow> has \<and> hasValue r val
         | OpDoubleEquals \<Rightarrow> has \<and> hasValue r val
         | OpNotIn \<Rightarrow> (if \<not> has then True else \<not> hasValue r val)
         | OpNotEquals \<Rightarrow> (if \<not> has then True else \<not> hasValue r val)
         | OpExists \<Rightarrow> has
         | OpDoesNotExist \<Rightarrow> \<not> has
         | OpGreaterThan \<Rightarrow> compare_ints (\<lambda>a b. b < a)
         | OpLessThan \<Rightarrow> compare_ints (\<lambda>a b. a < b))"

fun selector_Matches :: "selector \<Rightarrow> labels \<Rightarrow> bool" where
  "selector_Matches [] ls = True"
| "selector_Matches (r # rs) ls = (if \<not> requirement_Matches r ls then False else selector_Matches rs ls)"

text \<open>
  The requirements of a label set, one equality per label. \<open>equality_requirements\<close> is the
  loop over the Go map for one enumeration of its entries; the result is then sorted by key.
\<close>

definition equality_requirements :: "(string \<times> string) list \<Rightarrow> requirement list" where
  "equality_requirements entries =
     map (\<lambda>(label, value). \<lparr>req_key = label, req_operator = OpEquals, req_strValues = [value]\<rparr>) entries"

definition SelectorFromValidatedSet :: "labels \<Rightarrow> selector" where
  "SelectorFromValidatedSet ls =
     (if sorted_list_of_fmap ls = [] then []
      else sort_key req_key (equality_requirements (sorted_list_of_fmap ls)))"

definition SelectorFromSet :: "labels \<Rightarrow> selector" where
  "SelectorFromSet ls = SelectorFromValidatedSet ls"

definition AsSelector :: "labels \<Rightarrow> selector" where
  "AsSelector ls = SelectorFromSet ls"

section \<open>What a selector built from a label set matches\<close>

lemma selector_Matches_iff: "selector_Matches rs ls \<longleftrightarrow> (\<forall>r \<in> set rs. requirement_Matches r ls)"
  by (induction rs) auto

lemma requirement_Matches_equality [simp]:
  "requirement_Matches \<lparr>req_key = k, req_operator = OpEquals, req_strValues = [v]\<rparr> ls
     \<longleftrightarrow> fmlookup ls k = Some v"
  by (auto simp: requirement_Matches_def labels_Has_def labels_Get_def hasValue_def
      split: option.splits)

lemma selector_Matches_equality_requirements:
  "selector_Matches (equality_requirements es) ls
     \<longleftrightarrow> (\<forall>(k, v) \<in> set es. fmlookup ls k = Some v)"
  by (auto simp: selector_Matches_iff equality_requirements_def)

lemma AsSelector_unfold:
  "AsSelector ls = sort_key req_key (equality_requirements (sorted_list_of_fmap ls))"
  by (auto simp: AsSelector_def SelectorFromSet_def SelectorFromValidatedSet_def
      equality_requirements_def)

lemma AsSelector_Matches:
  "selector_Matches (AsSelector ls) l \<longleftrightarrow> (\<forall>k v. fmlookup ls k = Some v \<longrightarrow> fmlookup l k = Some v)"
proof -
  have "selector_Matches (AsSelector ls) l
      \<longleftrightarrow> selector_Matches (equality_requirements (sorted_list_of_fmap ls)) l"
    by (simp add: AsSelector_unfold selector_Matches_iff)
  also have "\<dots> \<longleftrightarrow> (\<forall>k v. fmlookup ls k = Some v \<longrightarrow> fmlookup l k = Some v)"
    by (auto simp: selector_Matches_equality_requirements set_sorted_list_of_fmap)
  finally show ?thesis .
qed

lemma AsSelector_subset: "selector_Matches (AsSelector ls) l \<longleftrightarrow> ls \<subseteq>\<^sub>f l"
  by (auto simp: AsSelector_Matches fmsubset.rep_eq map_le_def dom_def)

text \<open>Go enumerates a map in any order: sorting by key makes the selector independent of it.\<close>

lemma AsSelector_enumeration:
  assumes "mset entries = mset (sorted_list_of_fmap ls)"
  shows "sort_key req_key (equality_requirements entries) = AsSelector ls"
proof -
  have keys: "map req_key (equality_requirements es) = map fst es" for es
    by (auto simp: equality_requirements_def)
  have "mset (map fst entries) = mset (map fst (sorted_list_of_fmap ls))"
    using assms by (metis mset_map)
  then have "distinct (map fst entries)"
    using distinct_keys_sorted_list_of_fmap mset_eq_imp_distinct_iff by blast
  then have inj: "inj_on req_key (set (equality_requirements entries))"
    using keys distinct_map by metis
  have "mset (equality_requirements entries)
      = mset (equality_requirements (sorted_list_of_fmap ls))"
    using assms by (simp add: equality_requirements_def)
  then show ?thesis
    unfolding AsSelector_unfold by (intro sort_key_inj_key_eq [OF _ inj]) simp_all
qed

text \<open>
  The selector of a label set does not depend on the order in which Go enumerates the map,
  and it matches exactly the label sets that contain every one of its labels.
\<close>

theorem label_set_selector:
  assumes "mset entries = mset (sorted_list_of_fmap ls)"
  shows "sort_key req_key (equality_requirements entries) = AsSelector ls \<and>
         (selector_Matches (AsSelector ls) l \<longleftrightarrow> ls \<subseteq>\<^sub>f l)"
  using AsSelector_enumeration [OF assms] AsSelector_subset by simp

end
