(* ===== verification/Resource_Quantity.thy ===== *)
theory Resource_Quantity
  imports Operator_Prelude
begin

text \<open>
  Resource quantities, from the vendored \<^verbatim>\<open>k8s.io/apimachinery/pkg/api/resource\<close>: the scanner
  that splits a quantity into sign, digits and suffix, the table of suffixes, and
  \<^verbatim>\<open>ParseQuantity\<close> with its fast path on 64-bit integers and its fallback to
  arbitrary-precision decimals. The operator calls \<^verbatim>\<open>MustParse\<close>, which panics where parsing
  fails, on its constants.

  An amount is a 64-bit integer with a decimal scale (\<open>value * 10 ^ scale\<close>), or a decimal with
  an unbounded integer and a scale counted the other way (\<open>unscaled / 10 ^ scale\<close>). Scales and precisions are 32-bit
  integers and wrap.
\<close>

datatype quantity_format = DecimalExponent | BinarySI | DecimalSI

datatype amount =
    Int64Amount int int
  | InfDecAmount int int

record quantity =
  q_amount :: amount
  q_string :: string
  q_format :: quantity_format

definition ErrFormatWrong :: go_error where
  "ErrFormatWrong = TextError
     (''quantities must match the regular expression '' @ [CHR 0x27]
      @ ''^([+-]?[0-9.]+)([eEinumkKMGTP]*[-+]?[0-9]*)$'' @ [CHR 0x27])"

definition ErrNumeric :: go_error where
  "ErrNumeric = TextError ''unable to parse numeric part of quantity''"

definition ErrSuffix :: go_error where
  "ErrSuffix = TextError (''unable to parse quantity'' @ [CHR 0x27] @ ''s suffix'')"

definition is_digit :: "char \<Rightarrow> bool" where
  "is_digit c = (c \<in> set ''0123456789'')"

section \<open>The scanner\<close>

record scanned =
  sc_positive :: bool
  sc_value :: string
  sc_num :: string
  sc_denom :: string
  sc_suffix :: string

text \<open>The suffix part: letters, then an optional sign, then digits up to the end of the string.\<close>

definition scan_suffix :: "string \<Rightarrow> bool" where
  "scan_suffix s =
     (let s1 = dropWhile (\<lambda>c. c \<in> set ''eEinumkKMGTP'') s;
          s2 = (case s1 of [] \<Rightarrow> [] | c # cs \<Rightarrow> if c = CHR ''-'' \<or> c = CHR ''+'' then cs else s1)
      in dropWhile is_digit s2 = [])"

definition parseQuantityString :: "string \<Rightarrow> go_error + scanned" where
  "parseQuantityString str =
     (let positive = (case str of [] \<Rightarrow> True | c # _ \<Rightarrow> c \<noteq> CHR ''-'');
          unsigned = (case str of [] \<Rightarrow> []
             | c # cs \<Rightarrow> if c = CHR ''-'' \<or> c = CHR ''+'' then cs else str);
          stripped = dropWhile (\<lambda>c. c = CHR ''0'') unsigned
      in if stripped = [] then
           Inr \<lparr>sc_positive = positive, sc_value = ''0'', sc_num = ''0'', sc_denom = '''', sc_suffix = ''''\<rparr>
         else
           (let num = takeWhile is_digit stripped; rest = dropWhile is_digit stripped
            in if rest = [] then
                 Inr \<lparr>sc_positive = positive, sc_value = str, sc_num = num, sc_denom = '''', sc_suffix = ''''\<rparr>
               else
                 (let num' = (if num = [] then ''0'' else num);
                      dotted = (hd rest = CHR ''.'');
                      denom = (if dotted then takeWhile is_digit (tl rest) else []);
                      rest' = (if dotted then dropWhile is_digit (tl rest) else rest)
                  in if dotted \<and> rest' = [] then
                       Inr \<lparr>sc_positive = positive, sc_value = str, sc_num = num', sc_denom = denom,
                            sc_suffix = ''''\<rparr>
                     else
                       (let value = take (length str - length rest') str
                        in if scan_suffix rest' then
                             Inr \<lparr>sc_positive = positive, sc_value = value, sc_num = num',
                                  sc_denom = denom, sc_suffix = rest'\<rparr>
                           else Inl ErrFormatWrong))))"

section \<open>Suffixes\<close>

text \<open>The tables of the suffixer: suffix, base and exponent.\<close>

definition decSuffixes :: "(string \<times> int \<times> int) list" where
  "decSuffixes = [('''', 10, 0), (''n'', 10, -9), (''u'', 10, -6), (''m'', 10, -3), (''k'', 10, 3),
     (''M'', 10, 6), (''G'', 10, 9), (''T'', 10, 12), (''P'', 10, 15), (''E'', 10, 18)]"

definition binSuffixes :: "(string \<times> int \<times> int) list" where
  "binSuffixes = [(''Ki'', 2, 10), (''Mi'', 2, 20), (''Gi'', 2, 30), (''Ti'', 2, 40), (''Pi'', 2, 50),
     (''Ei'', 2, 60)]"

definition interpret_suffix :: "string \<Rightarrow> (int \<times> int \<times> quantity_format) option" where
  "interpret_suffix s =
     (case map_of decSuffixes s of
        Some (b, e) \<Rightarrow> Some (b, e, DecimalSI)
      | None \<Rightarrow>
          (case map_of binSuffixes s of
             Some (b, e) \<Rightarrow> Some (b, e, BinarySI)
           | None \<Rightarrow>
               if length s > 1 \<and> (hd s = CHR ''E'' \<or> hd s = CHR ''e'') then
                 (case ParseInt64 (tl s) of
                    None \<Rightarrow> None
                  | Some parsed \<Rightarrow> Some (10, int32 parsed, DecimalExponent))
               else None))"

section \<open>Arithmetic\<close>

definition quot :: "int \<Rightarrow> int \<Rightarrow> int" where
  "quot a b = sgn a * sgn b * (\<bar>a\<bar> div \<bar>b\<bar>)"

definition int64Multiply :: "int \<Rightarrow> int \<Rightarrow> int option" where
  "int64Multiply a b =
     (if a = 0 \<or> b = 0 \<or> a = 1 \<or> b = 1 then Some (int64 (a * b))
      else if a = - (2 ^ 63) \<or> b = - (2 ^ 63) then None
      else (let c = int64 (a * b) in if quot c b = a then Some c else None))"

text \<open>\<^verbatim>\<open>inf.Dec.SetString\<close> on a decimal numeral: the digits as one integer, and the number of
  digits after the point.\<close>

definition dec_of_string :: "string \<Rightarrow> (int \<times> int) option" where
  "dec_of_string s =
     (let neg = (s \<noteq> [] \<and> hd s = CHR ''-'');
          ds = (if s \<noteq> [] \<and> (hd s = CHR ''-'' \<or> hd s = CHR ''+'') then tl s else s);
          whole = takeWhile is_digit ds; rest = dropWhile is_digit ds;
          frac = (if rest = [] then [] else tl rest)
      in if (rest \<noteq> [] \<and> hd rest \<noteq> CHR ''.'') \<or> \<not> list_all is_digit frac then None
         else case parse_decimal (whole @ frac) of
             None \<Rightarrow> None
           | Some n \<Rightarrow> Some (if neg then - n else n, int (length frac)))"

text \<open>\<open>dec_round_up\<close> rounds to nine decimal places, away from zero.\<close>

definition dec_round_up :: "int \<Rightarrow> int \<Rightarrow> int \<times> int" where
  "dec_round_up unscaled scale =
     (if scale \<le> 9 then (unscaled * 10 ^ nat (9 - scale), 9)
      else (let d = 10 ^ nat (scale - 9)
            in (if unscaled mod d = 0 then unscaled div d
                else if 0 < unscaled then unscaled div d + 1 else quot unscaled d - 1, 9)))"

text \<open>Comparison of two decimals, by cross multiplication.\<close>

definition dec_less :: "int \<times> int \<Rightarrow> int \<times> int \<Rightarrow> bool" where
  "dec_less a b =
     (let m = max (snd a) (snd b)
      in fst a * 10 ^ nat (m - snd a) < fst b * 10 ^ nat (m - snd b))"

definition dec_of_amount :: "amount \<Rightarrow> int \<times> int" where
  "dec_of_amount a = (case a of Int64Amount v s \<Rightarrow> (v, - s) | InfDecAmount u s \<Rightarrow> (u, s))"

definition quantity_less :: "quantity \<Rightarrow> quantity \<Rightarrow> bool" where
  "quantity_less p q = dec_less (dec_of_amount (q_amount p)) (dec_of_amount (q_amount q))"

section \<open>Parsing\<close>

text \<open>The decimal fallback: scale by the suffix, round up to nano, cap binary quantities.\<close>

definition parse_slow ::
    "string \<Rightarrow> int \<Rightarrow> int \<Rightarrow> quantity_format \<Rightarrow> go_error + quantity" where
  "parse_slow value base exponent format =
     (case dec_of_string value of
        None \<Rightarrow> Inl ErrNumeric
      | Some (u, sc) \<Rightarrow>
          (let (u1, sc1) = (if base = 10 then (u, int32 (sc + int32 (- exponent)))
                            else if base = 2 then (u * 2 ^ nat exponent, sc) else (u, sc));
               negative = u1 < 0;
               (u2, sc2) = (if u1 \<noteq> 0 then dec_round_up \<bar>u1\<bar> sc1 else (0, sc1));
               (u3, sc3) = (if format = BinarySI \<and> dec_less (2 ^ 63 - 1, 0) (u2, sc2)
                            then (2 ^ 63 - 1, 0) else (u2, sc2));
               format' = (if format = BinarySI \<and> dec_less (u3, sc3) (1, 0) \<and> dec_less (0, 0) (u3, sc3)
                          then DecimalSI else format)
           in Inr \<lparr>q_amount = InfDecAmount (if negative then - u3 else u3) sc3,
                   q_string = '''', q_format = format'\<rparr>))"

definition ends_with :: "string \<Rightarrow> string \<Rightarrow> bool" where
  "ends_with s t = (drop (length s - length t) s = t)"

text \<open>
  The fast path applies when the digits fit (\<open>precision\<close>) and the scale is at least nano; the
  text is kept when it is already canonical. \<open>None\<close>: fall back to decimals.
\<close>

definition parse_fast ::
    "string \<Rightarrow> scanned \<Rightarrow> int \<Rightarrow> quantity_format \<Rightarrow> (go_error + quantity) option" where
  "parse_fast str sc exponent format =
     (let len_num = int (length (sc_num sc)); len_denom = int (length (sc_denom sc));
          (precision, scale, mantissa) =
            (case format of
               BinarySI \<Rightarrow>
                 if exponent \<ge> 0 \<and> len_denom = 0
                 then (int32 (15 - int32 len_num - exponent * 3 div 10 - 1), 0, int64 (2 ^ nat exponent))
                 else (- 1, 0, 1)
             | _ \<Rightarrow> (int32 (18 - int32 (len_num + len_denom)), exponent, 1))
      in if precision < 0 then None
         else if int32 (scale - int32 len_denom) < - 9 then None
         else
           (let shifted = sc_num sc @ sc_denom sc; scale' = int32 (scale - int32 len_denom)
            in case ParseInt64 shifted of
                 None \<Rightarrow> Some (Inl ErrNumeric)
               | Some value \<Rightarrow>
                   (case int64Multiply value mantissa of
                      None \<Rightarrow> None
                    | Some result \<Rightarrow>
                        (let canonical =
                           (case format of
                              BinarySI \<Rightarrow> exponent mod 10 = 0 \<and> value mod 8 \<noteq> 0
                            | _ \<Rightarrow> scale' mod 3 = 0 \<and> \<not> ends_with shifted ''000'' \<and> hd shifted \<noteq> CHR ''0'')
                         in Some (Inr \<lparr>q_amount = Int64Amount (if sc_positive sc then result else - result) scale',
                                       q_string = (if canonical then str else ''''), q_format = format\<rparr>)))))"

definition ParseQuantity :: "string \<Rightarrow> go_error + quantity" where
  "ParseQuantity str =
     (if length str = 0 then Inl ErrFormatWrong
      else if str = ''0'' then Inr \<lparr>q_amount = Int64Amount 0 0, q_string = str, q_format = DecimalSI\<rparr>
      else case parseQuantityString str of
          Inl err \<Rightarrow> Inl err
        | Inr sc \<Rightarrow>
            (case interpret_suffix (sc_suffix sc) of
               None \<Rightarrow> Inl ErrSuffix
             | Some (base, exponent, format) \<Rightarrow>
                 (case parse_fast str sc exponent format of
                    Some r \<Rightarrow> r
                  | None \<Rightarrow> parse_slow (sc_value sc) base exponent format)))"

text \<open>
  \<^verbatim>\<open>MustParse\<close> panics where \<^verbatim>\<open>ParseQuantity\<close> fails. The model returns the zero quantity there,
  and every call site is shown to parse.
\<close>

definition zero_quantity :: quantity where
  "zero_quantity = \<lparr>q_amount = Int64Amount 0 0, q_string = '''', q_format = DecimalExponent\<rparr>"

definition MustParse :: "string \<Rightarrow> quantity" where
  "MustParse str = (case ParseQuantity str of Inr q \<Rightarrow> q | Inl _ \<Rightarrow> zero_quantity)"

definition parses :: "string \<Rightarrow> bool" where
  "parses str = (case ParseQuantity str of Inr _ \<Rightarrow> True | Inl _ \<Rightarrow> False)"

end
