(* ===== verification/Workload_Types.thy ===== *)
theory Workload_Types
  imports Label_Selectors Resource_Quantity
begin

text \<open>
  The objects the operator creates: DaemonSets and Services of Kubernetes, Modules of the
  Kernel Module Management operator, and the Nodes it lists. Each record has the fields the
  operator sets. The fields that it never mentions are kept together as \<open>other_fields\<close> (JSON
  field name to JSON text, absent where the field has its zero value): a Go composite literal
  resets them, an assignment to one field keeps them, and a server that fills in defaults
  writes them.
\<close>

type_synonym other_fields = "(string, string) fmap"

definition no_fields :: other_fields where
  "no_fields = fmempty"

section \<open>Pods\<close>

record resource_requirements =
  rr_limits :: "(string, quantity) fmap"
  rr_requests :: "(string, quantity) fmap"

record security_context =
  sec_privileged :: "bool option"
  sec_runAsUser :: "int option"
  sec_other :: other_fields

record volume_mount =
  vm_name :: string
  vm_mountPath :: string
  vm_readOnly :: bool
  vm_other :: other_fields

record host_path_volume_source =
  hp_path :: string
  hp_type :: "string option"

record volume =
  vol_name :: string
  vol_hostPath :: "host_path_volume_source option"
  vol_other :: other_fields

record container_port =
  cp_name :: string
  cp_hostPort :: int
  cp_containerPort :: int
  cp_protocol :: string
  cp_other :: other_fields

record container =
  c_name :: string
  c_image :: string
  c_imagePullPolicy :: string
  c_ports :: "container_port list"
  c_resources :: resource_requirements
  c_volumeMounts :: "volume_mount list"
  c_securityContext :: "security_context option"
  c_other :: other_fields

definition no_resources :: resource_requirements where
  "no_resources = \<lparr>rr_limits = fmempty, rr_requests = fmempty\<rparr>"

text \<open>The value of \<^verbatim>\<open>corev1.Container{Name: name}\<close>.\<close>

definition new_container :: "string \<Rightarrow> container" where
  "new_container name = \<lparr>c_name = name, c_image = '''', c_imagePullPolicy = '''', c_ports = [],
     c_resources = no_resources, c_volumeMounts = [], c_securityContext = None, c_other = no_fields\<rparr>"

record pod_spec =
  ps_containers :: "container list"
  ps_hostPID :: bool
  ps_nodeSelector :: labels
  ps_priorityClassName :: string
  ps_serviceAccountName :: string
  ps_volumes :: "volume list"
  ps_other :: other_fields

definition empty_pod_spec :: pod_spec where
  "empty_pod_spec = \<lparr>ps_containers = [], ps_hostPID = False, ps_nodeSelector = fmempty,
     ps_priorityClassName = '''', ps_serviceAccountName = '''', ps_volumes = [], ps_other = no_fields\<rparr>"

record pod_template_spec =
  pt_metadata :: object_meta
  pt_spec :: pod_spec

section \<open>DaemonSets, Services and Nodes\<close>

record label_selector =
  lsel_matchLabels :: labels
  lsel_matchExpressions :: selector

record daemon_set_spec =
  ds_selector :: "label_selector option"
  ds_template :: pod_template_spec
  ds_other :: other_fields

type_synonym daemon_set = "(daemon_set_spec, other_fields) k8s_object"

text \<open>The zero value of the specification, as in \<^verbatim>\<open>&appsv1.DaemonSet{}\<close>.\<close>

definition empty_daemon_set_spec :: daemon_set_spec where
  "empty_daemon_set_spec = \<lparr>ds_selector = None,
     ds_template = \<lparr>pt_metadata = empty_meta, pt_spec = empty_pod_spec\<rparr>, ds_other = no_fields\<rparr>"

datatype int_or_string = IntVal int | StrVal string

definition FromInt :: "int \<Rightarrow> int_or_string" where
  "FromInt val = IntVal (int32 val)"

record service_port =
  sp_name :: string
  sp_protocol :: string
  sp_port :: int
  sp_targetPort :: int_or_string
  sp_other :: other_fields

record service_spec =
  svc_ports :: "service_port list"
  svc_selector :: labels
  svc_other :: other_fields

type_synonym service = "(service_spec, other_fields) k8s_object"

definition empty_service_spec :: service_spec where
  "empty_service_spec = \<lparr>svc_ports = [], svc_selector = fmempty, svc_other = no_fields\<rparr>"

type_synonym node = "(other_fields, other_fields) k8s_object"

section \<open>Modules\<close>

record kernel_mapping =
  km_containerImage :: string
  km_literal :: string
  km_regexp :: string
  km_other :: other_fields

record modprobe_spec =
  mp_moduleName :: string
  mp_firmwarePath :: string
  mp_other :: other_fields

record module_loader_container_spec =
  mlc_imagePullPolicy :: string
  mlc_kernelMappings :: "kernel_mapping list"
  mlc_modprobe :: modprobe_spec
  mlc_other :: other_fields

record module_loader_spec =
  ml_container :: module_loader_container_spec
  ml_serviceAccountName :: string

record device_plugin_container_spec =
  dpc_command :: "string list"
  dpc_args :: "string list"
  dpc_image :: string
  dpc_imagePullPolicy :: string
  dpc_resources :: resource_requirements
  dpc_other :: other_fields

record device_plugin_spec =
  dp_container :: device_plugin_container_spec
  dp_serviceAccountName :: string
  dp_other :: other_fields

record module_spec =
  ms_devicePlugin :: "device_plugin_spec option"
  ms_moduleLoader :: module_loader_spec
  ms_selector :: "labels option"
  ms_other :: other_fields

type_synonym kmm_module = "(module_spec, other_fields) k8s_object"

definition empty_module_spec :: module_spec where
  "empty_module_spec = \<lparr>ms_devicePlugin = None,
     ms_moduleLoader = \<lparr>ml_container = \<lparr>mlc_imagePullPolicy = '''', mlc_kernelMappings = [],
          mlc_modprobe = \<lparr>mp_moduleName = '''', mp_firmwarePath = '''', mp_other = no_fields\<rparr>,
          mlc_other = no_fields\<rparr>, ml_serviceAccountName = ''''\<rparr>,
     ms_selector = None, ms_other = no_fields\<rparr>"

text \<open>An object of which only the name and the namespace are set.\<close>

definition named_object ::
    "string \<Rightarrow> string \<Rightarrow> 'sp \<Rightarrow> ('sp, other_fields) k8s_object" where
  "named_object name ns sp =
     \<lparr>metadata = empty_meta\<lparr>om_name := name, om_namespace := ns\<rparr>, spec = sp, status = no_fields\<rparr>"

lemma named_object_simps [simp]:
  "ObjectKeyFromObject (named_object name ns sp) = (ns, name)"
  "om_name (metadata (named_object name ns sp)) = name"
  "om_namespace (metadata (named_object name ns sp)) = ns"
  "om_resourceVersion (metadata (named_object name ns sp)) = ''''"
  "om_ownerReferences (metadata (named_object name ns sp)) = []"
  "om_finalizers (metadata (named_object name ns sp)) = []"
  "om_deletionTimestamp (metadata (named_object name ns sp)) = None"
  "spec (named_object name ns sp) = sp"
  "status (named_object name ns sp) = no_fields"
  by (simp_all add: named_object_def ObjectKeyFromObject_def empty_meta_def)

end
