(* ===== verification/Client_Interface.thy ===== *)
theory Client_Interface
  imports Workload_Types
begin

text \<open>
  The interface of the Kubernetes API client (\<^verbatim>\<open>sigs.k8s.io/controller-runtime/pkg/client\<close>)
  as the operator uses it, one record of operations per kind of object, over an arbitrary
  state \<open>'s\<close> of the outside world. An operation that changes its argument in place returns
  the changed object. Nothing is assumed about the operations here: they may fail, and they
  may change the world in any way (other clients act between two calls). The locales below
  state the promises of a well-behaved server, which the convergence results rely on and which
  the in-memory client of \<^verbatim>\<open>Fake_Client\<close> keeps.
\<close>

record ('s, 'sp, 'st) kind_client =
  kc_get :: "object_key \<Rightarrow> ('s, go_error + ('sp, 'st) k8s_object) effect"
  kc_list :: "selector option \<Rightarrow> ('s, go_error + ('sp, 'st) k8s_object list) effect"
  kc_create :: "('sp, 'st) k8s_object \<Rightarrow> ('s, go_error + ('sp, 'st) k8s_object) effect"
  kc_update :: "('sp, 'st) k8s_object \<Rightarrow> ('s, go_error + ('sp, 'st) k8s_object) effect"
  kc_patch :: "('sp, 'st) k8s_object \<Rightarrow> ('sp, 'st) k8s_object
                 \<Rightarrow> ('s, go_error + ('sp, 'st) k8s_object) effect"
  kc_delete :: "('sp, 'st) k8s_object \<Rightarrow> ('s, go_error option) effect"
  kc_status_update :: "('sp, 'st) k8s_object \<Rightarrow> ('s, go_error + ('sp, 'st) k8s_object) effect"
  kc_status_patch :: "('sp, 'st) k8s_object \<Rightarrow> ('sp, 'st) k8s_object
                 \<Rightarrow> ('s, go_error + ('sp, 'st) k8s_object) effect"

text \<open>
  The world of the operator: the clients of the five kinds it uses, and the clock.
  \<open>api_now s i\<close> is the \<open>i\<close>-th reading of the clock while the world is in state \<open>s\<close>.
  \<open>kc_patch before after\<close> is a merge patch made from the difference of its two arguments.
\<close>

record 's api =
  api_deviceconfigs :: "('s, device_config_spec, device_config_status) kind_client"
  api_modules :: "('s, module_spec, other_fields) kind_client"
  api_daemonsets :: "('s, daemon_set_spec, other_fields) kind_client"
  api_services :: "('s, service_spec, other_fields) kind_client"
  api_nodes :: "('s, other_fields, other_fields) kind_client"
  api_now :: "'s \<Rightarrow> nat \<Rightarrow> time"

section \<open>The promises of a server\<close>

text \<open>
  \<open>view s k\<close> is the object a get would find under \<open>k\<close>, \<open>others s\<close> is everything in the world
  but the objects of this kind, and \<open>inv\<close> is what the server keeps true of its state.
\<close>

locale object_reader =
  fixes kc :: "('s, 'sp, 'st) kind_client"
    and view :: "'s \<Rightarrow> object_key \<Rightarrow> ('sp, 'st) k8s_object option"
    and inv :: "'s \<Rightarrow> bool"
  assumes get_present: "inv s \<Longrightarrow> view s k = Some x \<Longrightarrow> kc_get kc k s = (Inr x, s)"
    and get_absent: "inv s \<Longrightarrow> view s k = None \<Longrightarrow> \<exists>e. kc_get kc k s = (Inl e, s) \<and> IsNotFound e"
    and view_key: "inv s \<Longrightarrow> view s k = Some x \<Longrightarrow> ObjectKeyFromObject x = k"
begin

lemma get_cases:
  assumes "inv s"
  obtains (present) x where "view s k = Some x" "kc_get kc k s = (Inr x, s)"
  | (absent) e where "view s k = None" "kc_get kc k s = (Inl e, s)" "IsNotFound e"
  using assms get_present get_absent by (cases "view s k") blast+

lemma get_error_absent:
  assumes "inv s" "kc_get kc k s = (Inl e, s')"
  shows "view s k = None" "IsNotFound e" "s' = s"
  using assms(1) by (rule get_cases [where k = k]; use assms(2) in auto)+

end

text \<open>What the operator relies on for the objects it creates.\<close>

locale child_client = object_reader kc view inv
  for kc :: "('s, 'sp, 'st) kind_client" and view inv +
  fixes others :: "'s \<Rightarrow> 'r"
  assumes create_new:
      "inv s \<Longrightarrow> view s (ObjectKeyFromObject x) = None \<Longrightarrow> om_name (metadata x) \<noteq> [] \<Longrightarrow>
       om_resourceVersion (metadata x) = [] \<Longrightarrow> om_deletionTimestamp (metadata x) = None \<Longrightarrow>
       \<exists>rv s'. kc_create kc x s = (Inr (set_resourceVersion rv x), s') \<and> inv s' \<and>
         view s' = (view s)(ObjectKeyFromObject x \<mapsto> set_resourceVersion rv x) \<and> others s' = others s"
    and patch_stored:
      "inv s \<Longrightarrow> view s (ObjectKeyFromObject x) = Some x \<Longrightarrow>
       ObjectKeyFromObject y = ObjectKeyFromObject x \<Longrightarrow>
       om_resourceVersion (metadata y) = om_resourceVersion (metadata x) \<Longrightarrow>
       om_finalizers (metadata y) = om_finalizers (metadata x) \<Longrightarrow>
       om_deletionTimestamp (metadata y) = om_deletionTimestamp (metadata x) \<Longrightarrow>
       status y = status x \<Longrightarrow>
       \<exists>rv s'. kc_patch kc x y s = (Inr (set_resourceVersion rv y), s') \<and> inv s' \<and>
         view s' = (view s)(ObjectKeyFromObject x \<mapsto> set_resourceVersion rv y) \<and> others s' = others s"
    and delete_absent:
      "inv s \<Longrightarrow> view s (ObjectKeyFromObject x) = None \<Longrightarrow>
       \<exists>e. kc_delete kc x s = (Some e, s) \<and> IsNotFound e"
    and delete_plain:
      "inv s \<Longrightarrow> view s (ObjectKeyFromObject x) = Some y \<Longrightarrow> om_finalizers (metadata y) = [] \<Longrightarrow>
       \<exists>s'. kc_delete kc x s = (None, s') \<and> inv s' \<and>
         view s' = (view s)(ObjectKeyFromObject x := None) \<and> others s' = others s"
    and delete_finalized:
      "inv s \<Longrightarrow> view s (ObjectKeyFromObject x) = Some y \<Longrightarrow> om_finalizers (metadata y) \<noteq> [] \<Longrightarrow>
       \<exists>rv t s'. kc_delete kc x s = (None, s') \<and> inv s' \<and> t \<noteq> 0 \<and>
         view s' = (view s)(ObjectKeyFromObject x \<mapsto>
           set_resourceVersion rv (y\<lparr>metadata := (metadata y)\<lparr>om_deletionTimestamp := Some t\<rparr>\<rparr>)) \<and>
         others s' = others s"

text \<open>
  What it relies on for the resource it reconciles. \<open>canonical\<close> holds of the specifications
  that survive the client's JSON encoding unchanged; what a server returns is of that form.
\<close>

locale owner_client = object_reader kc view inv
  for kc :: "('s, 'sp, 'st) kind_client" and view inv +
  fixes others :: "'s \<Rightarrow> 'r"
    and canonical :: "'sp \<Rightarrow> bool"
  assumes view_canonical: "inv s \<Longrightarrow> view s k = Some x \<Longrightarrow> canonical (spec x)"
    and update_stored:
      "inv s \<Longrightarrow> view s (ObjectKeyFromObject y) = Some x \<Longrightarrow>
       om_resourceVersion (metadata y) = om_resourceVersion (metadata x) \<Longrightarrow> canonical (spec y) \<Longrightarrow>
       om_deletionTimestamp (metadata y) = om_deletionTimestamp (metadata x) \<Longrightarrow> status y = status x \<Longrightarrow>
       time_IsZero (om_deletionTimestamp (metadata y)) \<or> om_finalizers (metadata y) \<noteq> [] \<Longrightarrow>
       \<exists>rv s'. kc_update kc y s = (Inr (set_resourceVersion rv y), s') \<and> inv s' \<and>
         view s' = (view s)(ObjectKeyFromObject y \<mapsto> set_resourceVersion rv y) \<and> others s' = others s"
    and update_last_finalizer:
      "inv s \<Longrightarrow> view s (ObjectKeyFromObject y) = Some x \<Longrightarrow>
       om_resourceVersion (metadata y) = om_resourceVersion (metadata x) \<Longrightarrow>
       om_deletionTimestamp (metadata y) = om_deletionTimestamp (metadata x) \<Longrightarrow>
       \<not> time_IsZero (om_deletionTimestamp (metadata y)) \<Longrightarrow> om_finalizers (metadata y) = [] \<Longrightarrow>
       \<exists>rv s'. kc_update kc y s = (Inr (set_resourceVersion rv y), s') \<and> inv s' \<and>
         view s' = (view s)(ObjectKeyFromObject y := None) \<and> others s' = others s"
    and status_update_stored:
      "inv s \<Longrightarrow> view s (ObjectKeyFromObject y) = Some x \<Longrightarrow> metadata y = metadata x \<Longrightarrow>
       spec y = spec x \<Longrightarrow> time_IsZero (om_deletionTimestamp (metadata y)) \<Longrightarrow>
       \<exists>rv s'. kc_status_update kc y s = (Inr (set_resourceVersion rv y), s') \<and> inv s' \<and>
         view s' = (view s)(ObjectKeyFromObject y \<mapsto> set_resourceVersion rv y) \<and> others s' = others s"

text \<open>What the node selector validation relies on: lists are complete, and change nothing.\<close>

locale object_lister =
  fixes kc :: "('s, 'sp, 'st) kind_client"
    and view :: "'s \<Rightarrow> object_key \<Rightarrow> ('sp, 'st) k8s_object option"
    and inv :: "'s \<Rightarrow> bool"
  assumes list_complete:
      "inv s \<Longrightarrow> \<exists>xs. kc_list kc sel s = (Inr xs, s) \<and> distinct (map ObjectKeyFromObject xs) \<and>
         set xs = {x. \<exists>k. view s k = Some x \<and>
                      (case sel of None \<Rightarrow> True | Some rs \<Rightarrow> selector_Matches rs (om_labels (metadata x)))}"

end
