(* ===== verification/Controller_Util.thy ===== *)
theory Controller_Util
  imports Client_Interface
begin

text \<open>
  The helpers of the vendored \<^verbatim>\<open>controller-runtime/pkg/controller/controllerutil\<close> that the
  operator builds on: controller references, \<^verbatim>\<open>CreateOrPatch\<close> and finalizers.
\<close>

section \<open>Controller references\<close>

text \<open>\<^verbatim>\<open>metav1.GetControllerOf\<close>: the first owner reference whose controller flag is set.\<close>

fun first_controller :: "owner_reference list \<Rightarrow> owner_reference option" where
  "first_controller [] = None"
| "first_controller (r # rs) = (if or_controller r = Some True then Some r else first_controller rs)"

definition GetControllerOf :: "object_meta \<Rightarrow> owner_reference option" where
  "GetControllerOf m = first_controller (om_ownerReferences m)"

definition validateOwner :: "object_meta \<Rightarrow> object_meta \<Rightarrow> go_error option" where
  "validateOwner owner object =
     (let ownerNs = om_namespace owner in
      if ownerNs \<noteq> [] then
        (let objNs = om_namespace object in
         if objNs = [] then
           Some (TextError (''cluster-scoped resource must not have a namespace-scoped owner, owner'' @
             [CHR 0x27] @ ''s namespace '' @ ownerNs))
         else if ownerNs \<noteq> objNs then
           Some (TextError (''cross-namespace owner references are disallowed, owner'' @ [CHR 0x27] @
             ''s namespace '' @ ownerNs @ '', obj'' @ [CHR 0x27] @ ''s namespace '' @ objNs))
         else None)
      else None)"

definition referSameObject :: "owner_reference \<Rightarrow> owner_reference \<Rightarrow> bool" where
  "referSameObject a b =
     (case ParseGroupVersion (or_apiVersion a) of
        Inl _ \<Rightarrow> False
      | Inr aGV \<Rightarrow>
          (case ParseGroupVersion (or_apiVersion b) of
             Inl _ \<Rightarrow> False
           | Inr bGV \<Rightarrow> gv_group aGV = gv_group bGV \<and> or_kind a = or_kind b \<and> or_name a = or_name b))"

text \<open>The index of the first reference to the same object (\<open>None\<close> for Go's \<open>-1\<close>).\<close>

fun indexOwnerRef :: "owner_reference list \<Rightarrow> owner_reference \<Rightarrow> nat option" where
  "indexOwnerRef [] ref = None"
| "indexOwnerRef (r # rs) ref =
     (if referSameObject r ref then Some 0 else map_option Suc (indexOwnerRef rs ref))"

definition upsertOwnerRef :: "owner_reference \<Rightarrow> object_meta \<Rightarrow> object_meta" where
  "upsertOwnerRef ref object =
     (let owners = om_ownerReferences object in
      case indexOwnerRef owners ref of
        None \<Rightarrow> object\<lparr>om_ownerReferences := owners @ [ref]\<rparr>
      | Some idx \<Rightarrow> object\<lparr>om_ownerReferences := owners[idx := ref]\<rparr>)"

definition AlreadyOwnedError :: "object_meta \<Rightarrow> owner_reference \<Rightarrow> go_error" where
  "AlreadyOwnedError obj owner = TextError
     (''Object '' @ om_namespace obj @ ''/'' @ om_name obj @ '' is already owned by another '' @
      or_kind owner @ '' controller '' @ or_name owner)"

definition controller_ref :: "group_version_kind \<Rightarrow> object_meta \<Rightarrow> owner_reference" where
  "controller_ref gvk owner =
     \<lparr>or_apiVersion = gv_string gvk, or_kind = gvk_kind gvk, or_name = om_name owner,
      or_uid = om_uid owner, or_controller = Some True, or_blockOwnerDeletion = Some True\<rparr>"

text \<open>\<open>go_type\<close> is the Go type of the owner, by which the scheme knows its group, version and kind.\<close>

definition SetControllerReference ::
    "string \<Rightarrow> object_meta \<Rightarrow> object_meta \<Rightarrow> scheme \<Rightarrow> go_error + object_meta" where
  "SetControllerReference go_type owner controlled scheme =
     (case validateOwner owner controlled of
        Some err \<Rightarrow> Inl err
      | None \<Rightarrow>
          (case GVKForObject scheme go_type of
             Inl err \<Rightarrow> Inl err
           | Inr gvk \<Rightarrow>
               (let ref = controller_ref gvk owner in
                case GetControllerOf controlled of
                  Some existing \<Rightarrow>
                    if \<not> referSameObject existing ref then Inl (AlreadyOwnedError controlled existing)
                    else Inr (upsertOwnerRef ref controlled)
                | None \<Rightarrow> Inr (upsertOwnerRef ref controlled))))"

section \<open>Create or patch\<close>

datatype operation_result =
    OperationResultNone
  | OperationResultCreated
  | OperationResultUpdated
  | OperationResultUpdatedStatus
  | OperationResultUpdatedStatusOnly

type_synonym ('sp, 'st) mutate_fn = "('sp, 'st) k8s_object \<Rightarrow> go_error + ('sp, 'st) k8s_object"

text \<open>
  Where the mutation fails, the callers do not look at the object again; the model then leaves it as
  it was read.
\<close>

definition mutate ::
    "('sp, 'st) mutate_fn \<Rightarrow> object_key \<Rightarrow> ('sp, 'st) k8s_object \<Rightarrow> go_error + ('sp, 'st) k8s_object" where
  "mutate f key obj =
     (case f obj of
        Inl err \<Rightarrow> Inl err
      | Inr obj' \<Rightarrow>
          (let newKey = ObjectKeyFromObject obj' in
           if key \<noteq> newKey then
             Inl (TextError ''MutateFn cannot mutate object name and/or object namespace'')
           else Inr obj'))"

text \<open>
  The patch of everything but the status, when that differs. The unstructured form of an object
  is a function of its fields here, so the comparison of the unstructured copies without their
  status is the comparison of metadata and specification.
\<close>

definition patch_object ::
    "('s, 'sp, 'st) kind_client \<Rightarrow> ('sp, 'st) k8s_object \<Rightarrow> ('sp, 'st) k8s_object \<Rightarrow> 's
      \<Rightarrow> (go_error + operation_result \<times> ('sp, 'st) k8s_object) \<times> 's" where
  "patch_object kc prior after s =
     (if (metadata prior, spec prior) \<noteq> (metadata after, spec after) then
        (case kc_patch kc prior after s of
           (Inl err, s') \<Rightarrow> (Inl err, s')
         | (Inr obj, s') \<Rightarrow> (Inr (OperationResultUpdated, obj), s'))
      else (Inr (OperationResultNone, after), s))"

text \<open>The patch of the status, when that differs; the first patch may have replaced it.\<close>

definition patch_status ::
    "('s, 'sp, 'st) kind_client \<Rightarrow> ('sp, 'st) k8s_object \<Rightarrow> ('sp, 'st) k8s_object \<Rightarrow> operation_result
      \<Rightarrow> ('sp, 'st) k8s_object \<Rightarrow> 's
      \<Rightarrow> (operation_result \<times> go_error option \<times> ('sp, 'st) k8s_object) \<times> 's" where
  "patch_status kc prior after result obj s =
     (if status prior \<noteq> status after then
        (let obj1 = (if result = OperationResultUpdated then obj\<lparr>status := status after\<rparr> else obj) in
         case kc_status_patch kc prior obj1 s of
           (Inl err, s') \<Rightarrow> ((result, Some err, obj1), s')
         | (Inr obj2, s') \<Rightarrow>
             ((if result = OperationResultUpdated then OperationResultUpdatedStatus
               else OperationResultUpdatedStatusOnly, None, obj2), s'))
      else ((result, None, obj), s))"

definition CreateOrPatch ::
    "('s, 'sp, 'st) kind_client \<Rightarrow> ('sp, 'st) k8s_object \<Rightarrow> ('sp, 'st) mutate_fn \<Rightarrow> 's
      \<Rightarrow> (operation_result \<times> go_error option \<times> ('sp, 'st) k8s_object) \<times> 's" where
  "CreateOrPatch kc obj f s =
     (let key = ObjectKeyFromObject obj in
      case kc_get kc key s of
        (Inl err, s1) \<Rightarrow>
          (if \<not> IsNotFound err then ((OperationResultNone, Some err, obj), s1)
           else case mutate f key obj of
               Inl err \<Rightarrow> ((OperationResultNone, Some err, obj), s1)
             | Inr obj1 \<Rightarrow>
                 (case kc_create kc obj1 s1 of
                    (Inl err, s2) \<Rightarrow> ((OperationResultNone, Some err, obj1), s2)
                  | (Inr obj2, s2) \<Rightarrow> ((OperationResultCreated, None, obj2), s2)))
      | (Inr prior, s1) \<Rightarrow>
          (case mutate f key prior of
             Inl err \<Rightarrow> ((OperationResultNone, Some err, prior), s1)
           | Inr after \<Rightarrow>
               (case patch_object kc prior after s1 of
                  (Inl err, s2) \<Rightarrow> ((OperationResultNone, Some err, after), s2)
                | (Inr (result, obj1), s2) \<Rightarrow> patch_status kc prior after result obj1 s2)))"

section \<open>Finalizers\<close>

fun finalizer_present :: "string list \<Rightarrow> string \<Rightarrow> bool" where
  "finalizer_present [] finalizer = False"
| "finalizer_present (e # f) finalizer = (if e = finalizer then True else finalizer_present f finalizer)"

definition ContainsFinalizer :: "object_meta \<Rightarrow> string \<Rightarrow> bool" where
  "ContainsFinalizer o_meta finalizer = finalizer_present (om_finalizers o_meta) finalizer"

definition AddFinalizer :: "object_meta \<Rightarrow> string \<Rightarrow> object_meta \<times> bool" where
  "AddFinalizer o_meta finalizer =
     (if finalizer_present (om_finalizers o_meta) finalizer then (o_meta, False)
      else (o_meta\<lparr>om_finalizers := om_finalizers o_meta @ [finalizer]\<rparr>, True))"

text \<open>
  The removal loop: an index over a slice that is spliced in place, stepping back after each
  removal so that the next element is not skipped.
\<close>

function remove_finalizer_loop :: "string \<Rightarrow> nat \<Rightarrow> string list \<Rightarrow> bool \<Rightarrow> string list \<times> bool" where
  "remove_finalizer_loop finalizer i f updated =
     (if i < length f then
        (if f ! i = finalizer
         then remove_finalizer_loop finalizer i (take i f @ drop (i + 1) f) True
         else remove_finalizer_loop finalizer (i + 1) f updated)
      else (f, updated))"
  by pat_completeness auto
termination
  by (relation "measure (\<lambda>(_, i, f, _). length f - i)") auto

declare remove_finalizer_loop.simps [simp del]

definition RemoveFinalizer :: "object_meta \<Rightarrow> string \<Rightarrow> object_meta \<times> bool" where
  "RemoveFinalizer o_meta finalizer =
     (let (f, updated) = remove_finalizer_loop finalizer 0 (om_finalizers o_meta) False
      in (o_meta\<lparr>om_finalizers := f\<rparr>, updated))"

section \<open>Facts about controller references\<close>

text \<open>The API version of a reference made by this code parses back.\<close>

definition parsable_ref :: "owner_reference \<Rightarrow> bool" where
  "parsable_ref r = (case ParseGroupVersion (or_apiVersion r) of Inl _ \<Rightarrow> False | Inr _ \<Rightarrow> True)"

lemma referSameObject_self: "referSameObject r r \<longleftrightarrow> parsable_ref r"
  by (auto simp: referSameObject_def parsable_ref_def split: sum.splits)

lemma referSameObject_parsable: "referSameObject a b \<Longrightarrow> parsable_ref b"
  by (auto simp: referSameObject_def parsable_ref_def split: sum.splits)

lemma first_controller_None: "first_controller rs = None \<longleftrightarrow> (\<forall>r \<in> set rs. or_controller r \<noteq> Some True)"
  by (induction rs) auto

lemma first_controller_Some:
  "first_controller rs = Some r \<Longrightarrow> r \<in> set rs \<and> or_controller r = Some True"
  by (induction rs) (auto split: if_splits)

lemma indexOwnerRef_None: "indexOwnerRef rs ref = None \<longleftrightarrow> (\<forall>r \<in> set rs. \<not> referSameObject r ref)"
  by (induction rs) auto

lemma indexOwnerRef_less: "indexOwnerRef rs ref = Some i \<Longrightarrow> i < length rs"
  by (induction rs arbitrary: i) (auto split: if_splits)

lemma first_controller_append:
  "first_controller (xs @ ys) =
     (case first_controller xs of None \<Rightarrow> first_controller ys | Some r \<Rightarrow> Some r)"
  by (induction xs) auto

lemma first_controller_upsert:
  assumes "indexOwnerRef rs ref = Some i" "or_controller ref = Some True"
    and "\<And>e. first_controller rs = Some e \<Longrightarrow> referSameObject e ref"
  shows "first_controller (rs[i := ref]) = Some ref"
  using assms(1,3)
proof (induction rs arbitrary: i)
  case Nil
  then show ?case by simp
next
  case (Cons r rs)
  then show ?case using assms(2) by (fastforce split: if_splits nat.splits)
qed

lemma indexOwnerRef_upsert:
  assumes "indexOwnerRef rs ref = Some i" "parsable_ref ref"
  shows "indexOwnerRef (rs[i := ref]) ref = Some i"
  using assms(1)
  by (induction rs arbitrary: i) (auto simp: referSameObject_self assms(2) split: if_splits)

lemma indexOwnerRef_append_new:
  "indexOwnerRef rs ref = None \<Longrightarrow> parsable_ref ref \<Longrightarrow> indexOwnerRef (rs @ [ref]) ref = Some (length rs)"
  by (induction rs) (auto simp: referSameObject_self split: if_splits)

lemma upsertOwnerRef_unchanged [simp]:
  "om_name (upsertOwnerRef ref m) = om_name m"
  "om_namespace (upsertOwnerRef ref m) = om_namespace m"
  "om_uid (upsertOwnerRef ref m) = om_uid m"
  "om_resourceVersion (upsertOwnerRef ref m) = om_resourceVersion m"
  "om_deletionTimestamp (upsertOwnerRef ref m) = om_deletionTimestamp m"
  "om_finalizers (upsertOwnerRef ref m) = om_finalizers m"
  "om_labels (upsertOwnerRef ref m) = om_labels m"
  "om_annotations (upsertOwnerRef ref m) = om_annotations m"
  by (simp_all add: upsertOwnerRef_def Let_def split: option.splits)

text \<open>No foreign controller: nothing controls the object, or the owner already does.\<close>

definition controllable :: "group_version_kind \<Rightarrow> object_meta \<Rightarrow> object_meta \<Rightarrow> bool" where
  "controllable gvk owner m =
     (case GetControllerOf m of None \<Rightarrow> True | Some r \<Rightarrow> referSameObject r (controller_ref gvk owner))"

lemma controller_of_upsert:
  assumes "controllable gvk owner m"
  shows "GetControllerOf (upsertOwnerRef (controller_ref gvk owner) m) = Some (controller_ref gvk owner)"
proof -
  let ?ref = "controller_ref gvk owner"
  have flag: "or_controller ?ref = Some True" by (simp add: controller_ref_def)
  show ?thesis
  proof (cases "indexOwnerRef (om_ownerReferences m) ?ref")
    case None
    then have "first_controller (om_ownerReferences m) = None"
      using assms first_controller_Some
      by (fastforce simp: controllable_def GetControllerOf_def indexOwnerRef_None split: option.splits)
    with None flag show ?thesis
      by (simp add: upsertOwnerRef_def GetControllerOf_def first_controller_append)
  next
    case (Some i)
    then have "first_controller ((om_ownerReferences m)[i := ?ref]) = Some ?ref"
      using flag
      by (rule first_controller_upsert)
         (use assms in \<open>simp add: controllable_def GetControllerOf_def split: option.splits\<close>)
    with Some show ?thesis by (simp add: upsertOwnerRef_def GetControllerOf_def)
  qed
qed

lemma upsertOwnerRef_idem:
  assumes "parsable_ref ref"
  shows "upsertOwnerRef ref (upsertOwnerRef ref m) = upsertOwnerRef ref m"
  using assms indexOwnerRef_less
  by (cases "indexOwnerRef (om_ownerReferences m) ref")
     (simp_all add: upsertOwnerRef_def indexOwnerRef_upsert indexOwnerRef_append_new)

lemma SetControllerReference_ok:
  assumes "validateOwner owner m = None" "GVKForObject scheme go_type = Inr gvk" "controllable gvk owner m"
  shows "SetControllerReference go_type owner m scheme = Inr (upsertOwnerRef (controller_ref gvk owner) m)"
  using assms by (simp add: SetControllerReference_def controllable_def split: option.splits)

lemma SetControllerReference_cases:
  assumes "SetControllerReference go_type owner m scheme = Inr m'"
  obtains gvk where "validateOwner owner m = None" "GVKForObject scheme go_type = Inr gvk"
    "controllable gvk owner m" "m' = upsertOwnerRef (controller_ref gvk owner) m"
  using assms
  by (auto simp: SetControllerReference_def controllable_def Let_def
      split: option.splits sum.splits if_splits)

lemma validateOwner_same: "om_namespace owner = om_namespace m \<Longrightarrow> validateOwner owner m = None"
  by (simp add: validateOwner_def Let_def)

lemma validateOwner_upsert [simp]: "validateOwner owner (upsertOwnerRef ref m) = validateOwner owner m"
  by (simp add: validateOwner_def Let_def)

section \<open>Facts about finalizers\<close>

lemma finalizer_present_iff [simp]: "finalizer_present f x \<longleftrightarrow> x \<in> set f"
  by (induction f) auto

lemma remove_finalizer_loop_eq:
  "remove_finalizer_loop finalizer i f updated =
     (take i f @ filter (\<lambda>e. e \<noteq> finalizer) (drop i f), updated \<or> finalizer \<in> set (drop i f))"
proof (induction finalizer i f updated rule: remove_finalizer_loop.induct)
  case (1 finalizer i f updated)
  show ?case
  proof (cases "i < length f")
    case True
    then have split: "drop i f = f ! i # drop (Suc i) f" by (simp add: Cons_nth_drop_Suc)
    show ?thesis
    proof (cases "f ! i = finalizer")
      case True
      with 1 \<open>i < length f\<close> split show ?thesis
        by (subst remove_finalizer_loop.simps) (simp add: min_def)
    next
      case False
      with 1 \<open>i < length f\<close> split show ?thesis
        by (subst remove_finalizer_loop.simps) (auto simp: take_Suc_conv_app_nth)
    qed
  next
    case False
    then show ?thesis by (subst remove_finalizer_loop.simps) simp
  qed
qed

lemma RemoveFinalizer_eq:
  "RemoveFinalizer m finalizer =
     (m\<lparr>om_finalizers := filter (\<lambda>e. e \<noteq> finalizer) (om_finalizers m)\<rparr>, finalizer \<in> set (om_finalizers m))"
  by (simp add: RemoveFinalizer_def remove_finalizer_loop_eq)

lemma ContainsFinalizer_iff: "ContainsFinalizer m x \<longleftrightarrow> x \<in> set (om_finalizers m)"
  by (simp add: ContainsFinalizer_def)

section \<open>What the helpers do\<close>

text \<open>
  C40. The in-place removal loop removes every occurrence of the finalizer, keeps the order of the
  others and reports whether there was one; adding is reported exactly when it was missing, and
  adding before removing makes no difference.
\<close>

theorem remove_finalizer_filters:
  "RemoveFinalizer m x =
     (m\<lparr>om_finalizers := filter (\<lambda>e. e \<noteq> x) (om_finalizers m)\<rparr>, ContainsFinalizer m x) \<and>
   \<not> ContainsFinalizer (fst (RemoveFinalizer m x)) x \<and>
   ContainsFinalizer (fst (AddFinalizer m x)) x \<and>
   snd (AddFinalizer m x) = (\<not> ContainsFinalizer m x) \<and>
   fst (RemoveFinalizer (fst (AddFinalizer m x)) x) = fst (RemoveFinalizer m x)"
  by (auto simp: RemoveFinalizer_eq ContainsFinalizer_iff AddFinalizer_def)

lemma upsert_keeps_others:
  assumes "referSameObject ref ref"
  shows "filter (\<lambda>r. \<not> referSameObject r ref) (om_ownerReferences (upsertOwnerRef ref m)) =
         filter (\<lambda>r. \<not> referSameObject r ref) (om_ownerReferences m)"
proof -
  have "filter (\<lambda>r. \<not> referSameObject r ref) (rs[i := ref]) = filter (\<lambda>r. \<not> referSameObject r ref) rs"
    if "indexOwnerRef rs ref = Some i" for rs i
    using that assms by (induction rs arbitrary: i) (auto split: if_splits)
  then show ?thesis using assms by (auto simp: upsertOwnerRef_def Let_def split: option.split)
qed

text \<open>
  C24. Setting the controller reference, when it succeeds, makes the owner the controller, keeps
  every reference to another object in its order and everything else of the metadata, and does
  so only if no other object was the controller; done again it changes nothing.
\<close>

theorem controller_reference_set:
  assumes "SetControllerReference go_type owner m scheme = Inr m'" "GVKForObject scheme go_type = Inr gvk"
    and "parsable_ref (controller_ref gvk owner)"
  shows "GetControllerOf m' = Some (controller_ref gvk owner) \<and>
         filter (\<lambda>r. \<not> referSameObject r (controller_ref gvk owner)) (om_ownerReferences m') =
           filter (\<lambda>r. \<not> referSameObject r (controller_ref gvk owner)) (om_ownerReferences m) \<and>
         m'\<lparr>om_ownerReferences := om_ownerReferences m\<rparr> = m \<and>
         (GetControllerOf m = None \<or> (\<exists>r. GetControllerOf m = Some r \<and> referSameObject r (controller_ref gvk owner))) \<and>
         SetControllerReference go_type owner m' scheme = Inr m'"
proof -
  note cases = SetControllerReference_cases [OF assms(1)]
  have c: "validateOwner owner m = None" "controllable gvk owner m" "m' = upsertOwnerRef (controller_ref gvk owner) m"
    by (rule cases; use assms(2) in auto)+
  have "controllable gvk owner m'"
    using controller_of_upsert [OF c(2)] assms(3) by (simp add: controllable_def c(3) referSameObject_self)
  then have "SetControllerReference go_type owner m' scheme = Inr m'"
    using SetControllerReference_ok [of owner m' scheme go_type gvk] c(1) assms(2) upsertOwnerRef_idem [OF assms(3)]
    by (simp add: c(3))
  moreover have "m'\<lparr>om_ownerReferences := om_ownerReferences m\<rparr> = m"
    by (cases m) (simp add: c(3) upsertOwnerRef_def Let_def split: option.split)
  ultimately show ?thesis
    using controller_of_upsert [OF c(2)] upsert_keeps_others [of "controller_ref gvk owner" m] assms(3) c
    by (auto simp: controllable_def referSameObject_self split: option.splits)
qed

lemma CreateOrPatch_found:
  "kc_get kc (ObjectKeyFromObject obj) s = (Inr x, s1) \<Longrightarrow>
   CreateOrPatch kc obj f s =
     (case mutate f (ObjectKeyFromObject obj) x of
        Inl err \<Rightarrow> ((OperationResultNone, Some err, x), s1)
      | Inr y \<Rightarrow>
          (case patch_object kc x y s1 of
             (Inl err, s2) \<Rightarrow> ((OperationResultNone, Some err, y), s2)
           | (Inr (result, obj1), s2) \<Rightarrow> patch_status kc x y result obj1 s2))"
  by (simp add: CreateOrPatch_def)

lemma CreateOrPatch_missing:
  "kc_get kc (ObjectKeyFromObject obj) s = (Inl e, s1) \<Longrightarrow>
   CreateOrPatch kc obj f s =
     (if \<not> IsNotFound e then ((OperationResultNone, Some e, obj), s1)
      else case mutate f (ObjectKeyFromObject obj) obj of
          Inl err \<Rightarrow> ((OperationResultNone, Some err, obj), s1)
        | Inr obj1 \<Rightarrow>
            (case kc_create kc obj1 s1 of
               (Inl err, s2) \<Rightarrow> ((OperationResultNone, Some err, obj1), s2)
             | (Inr obj2, s2) \<Rightarrow> ((OperationResultCreated, None, obj2), s2)))"
  by (simp add: CreateOrPatch_def)

text \<open>
  When \<^verbatim>\<open>CreateOrPatch\<close> writes, on any client: an object that was found is never created, and
  nothing is sent when the mutation leaves it as it is, renames it, or fails; an object that was
  not found is never patched, and an error other than not-found is returned with nothing sent.
\<close>

theorem create_or_patch_writes:
  "(\<forall>x s1. kc_get kc (ObjectKeyFromObject obj) s = (Inr x, s1) \<longrightarrow>
      CreateOrPatch (kc\<lparr>kc_create := c\<rparr>) obj f s = CreateOrPatch kc obj f s \<and>
      (f x = Inr x \<and> ObjectKeyFromObject x = ObjectKeyFromObject obj \<longrightarrow>
         CreateOrPatch kc obj f s = ((OperationResultNone, None, x), s1)) \<and>
      (\<forall>y. f x = Inr y \<and> ObjectKeyFromObject y \<noteq> ObjectKeyFromObject obj \<longrightarrow>
         (\<exists>left. CreateOrPatch kc obj f s = ((OperationResultNone,
           Some (TextError ''MutateFn cannot mutate object name and/or object namespace''), left), s1))) \<and>
      (\<forall>err. f x = Inl err \<longrightarrow> (\<exists>left. CreateOrPatch kc obj f s = ((OperationResultNone, Some err, left), s1)))) \<and>
   (\<forall>e s1. kc_get kc (ObjectKeyFromObject obj) s = (Inl e, s1) \<longrightarrow>
      CreateOrPatch (kc\<lparr>kc_patch := p, kc_status_patch := p'\<rparr>) obj f s = CreateOrPatch kc obj f s \<and>
      (\<not> IsNotFound e \<longrightarrow> CreateOrPatch kc obj f s = ((OperationResultNone, Some e, obj), s1)))"
  by (simp add: CreateOrPatch_found CreateOrPatch_missing mutate_def patch_object_def patch_status_def
      cong: option.case_cong sum.case_cong prod.case_cong if_cong)

end
