(* ===== verification/Operator_Settings.thy ===== *)
theory Operator_Settings
  imports Operator_Prelude
begin

text \<open>
  The settings of the operator (\<^verbatim>\<open>internal/settings\<close>), read once from the environment, and its
  name (\<^verbatim>\<open>internal/constants\<close>). The environment is a partial map from variable names to
  values, as \<^verbatim>\<open>os.LookupEnv\<close> reads it.
\<close>

definition HabanaAIOperatorName :: string where
  "HabanaAIOperatorName = ''habana-ai-operator''"

definition DevicePluginImageEnvVar :: string where
  "DevicePluginImageEnvVar = ''DEVICE_PLUGIN_IMAGE''"

definition DriverHabanaImageBasenameEnvVar :: string where
  "DriverHabanaImageBasenameEnvVar = ''DRIVER_HABANA_IMAGE_BASENAME''"

definition NodeMetricsImageEnvVar :: string where
  "NodeMetricsImageEnvVar = ''NODE_METRICS_IMAGE''"

definition NodeLabelerImageEnvVar :: string where
  "NodeLabelerImageEnvVar = ''NODE_LABELER_IMAGE''"

lemmas env_vars = DevicePluginImageEnvVar_def DriverHabanaImageBasenameEnvVar_def
  NodeMetricsImageEnvVar_def NodeLabelerImageEnvVar_def

type_synonym environment = "string \<rightharpoonup> string"

definition LookupEnv :: "environment \<Rightarrow> string \<Rightarrow> string \<times> bool" where
  "LookupEnv env var = (case env var of None \<Rightarrow> ('''', False) | Some v \<Rightarrow> (v, True))"

definition errEnvVarNotSet :: go_error where
  "errEnvVarNotSet = TextError ''environment variable is not set''"

record controller_settings =
  DevicePluginImage :: string
  DriverHabanaImageBasename :: string
  NodeMetricsImage :: string
  NodeLabelerImage :: string

text \<open>The text of a slice under \<^verbatim>\<open>%v\<close>: its elements in brackets, separated by spaces.\<close>

fun join_spaces :: "string list \<Rightarrow> string" where
  "join_spaces [] = ''''"
| "join_spaces [x] = x"
| "join_spaces (x # xs) = x @ '' '' @ join_spaces xs"

definition format_errors :: "go_error list \<Rightarrow> string" where
  "format_errors errs = ''['' @ join_spaces (map error_text errs) @ '']''"

text \<open>\<^verbatim>\<open>Load\<close> assigns every field, found or not, and collects an error per missing variable.\<close>

definition Load :: "environment \<Rightarrow> controller_settings \<Rightarrow> go_error option \<times> controller_settings" where
  "Load env r =
     (let errs = [];
          (v, found) = LookupEnv env DevicePluginImageEnvVar;
          r = r\<lparr>DevicePluginImage := v\<rparr>;
          errs = (if \<not> found then errs @ [errorf_w (DevicePluginImageEnvVar @ '': '') errEnvVarNotSet] else errs);
          (v, found) = LookupEnv env DriverHabanaImageBasenameEnvVar;
          r = r\<lparr>DriverHabanaImageBasename := v\<rparr>;
          errs = (if \<not> found then errs @ [errorf_w (DriverHabanaImageBasenameEnvVar @ '': '') errEnvVarNotSet] else errs);
          (v, found) = LookupEnv env NodeMetricsImageEnvVar;
          r = r\<lparr>NodeMetricsImage := v\<rparr>;
          errs = (if \<not> found then errs @ [errorf_w (NodeMetricsImageEnvVar @ '': '') errEnvVarNotSet] else errs);
          (v, found) = LookupEnv env NodeLabelerImageEnvVar;
          r = r\<lparr>NodeLabelerImage := v\<rparr>;
          errs = (if \<not> found then errs @ [errorf_w (NodeLabelerImageEnvVar @ '': '') errEnvVarNotSet] else errs)
      in if length errs > 0
         then (Some (TextError (''the following errors were detected: '' @ format_errors errs)), r)
         else (None, r))"

section \<open>What loading does\<close>

definition required_vars :: "string list" where
  "required_vars = [DevicePluginImageEnvVar, DriverHabanaImageBasenameEnvVar,
                    NodeMetricsImageEnvVar, NodeLabelerImageEnvVar]"

definition missing_vars :: "environment \<Rightarrow> string list" where
  "missing_vars env = filter (\<lambda>v. env v = None) required_vars"

definition settings_of :: "environment \<Rightarrow> controller_settings" where
  "settings_of env =
     (let value = (\<lambda>v. case env v of None \<Rightarrow> '''' | Some x \<Rightarrow> x) in
      \<lparr>DevicePluginImage = value DevicePluginImageEnvVar,
       DriverHabanaImageBasename = value DriverHabanaImageBasenameEnvVar,
       NodeMetricsImage = value NodeMetricsImageEnvVar,
       NodeLabelerImage = value NodeLabelerImageEnvVar\<rparr>)"

lemma Load_eq:
  "Load env r =
     (if missing_vars env = [] then None
      else Some (TextError (''the following errors were detected: '' @
             format_errors (map (\<lambda>v. errorf_w (v @ '': '') errEnvVarNotSet) (missing_vars env)))),
      settings_of env)"
  by (simp add: Load_def LookupEnv_def missing_vars_def required_vars_def settings_of_def
      split: option.split)

text \<open>
  C32. Loading the settings succeeds exactly when all four image variables are set; whether it
  succeeds or not, every field holds the value of its variable (the empty string where it is
  missing), and the error names exactly the missing variables, in the order of the source.
\<close>

theorem load_settings:
  "(fst (Load env r) = None \<longleftrightarrow> set required_vars \<subseteq> dom env) \<and>
   snd (Load env r) = settings_of env \<and>
   map_option error_text (fst (Load env r)) =
     (if missing_vars env = [] then None
      else Some (''the following errors were detected: ['' @
                 join_spaces (map (\<lambda>v. v @ '': environment variable is not set'') (missing_vars env)) @ '']''))"
  by (auto simp: Load_eq missing_vars_def required_vars_def filter_empty_conv format_errors_def
      errEnvVarNotSet_def comp_def)

end
