(* ===== verification/Desired_State.thy ===== *)
theory Desired_State
  imports Controller_Util Operator_Settings
begin

text \<open>
  What the three reconcilers of cluster objects (\<^verbatim>\<open>internal/module\<close>,
  \<^verbatim>\<open>internal/node/labeler\<close>, \<^verbatim>\<open>internal/node/metrics\<close>) have in common: each gets its object,
  and creates or patches it with a function that writes the desired fields and the controller
  reference. The locale \<open>desired_state\<close> is the contract of such a function; its extension by a
  well-behaved server of the kind proves the outcome of the whole step once.
\<close>

section \<open>Shared steps\<close>

text \<open>The copy of a map into a fresh one, a loop over its entries in any order.\<close>

definition copy_entries :: "(string \<times> string) list \<Rightarrow> labels" where
  "copy_entries kvs = fold (\<lambda>(k, v) m. fmupd k v m) kvs fmempty"

definition copy_labels :: "labels \<Rightarrow> labels" where
  "copy_labels m = copy_entries (sorted_list_of_fmap m)"

text \<open>
  The body shared by the four \<^verbatim>\<open>Reconcile\<close> functions: a first get to see whether the object
  exists, then \<^verbatim>\<open>CreateOrPatch\<close> on the object found or on a new one, and a wrapped error text.
\<close>

definition ensure_object ::
    "('s, 'sp, other_fields) kind_client \<Rightarrow> string \<Rightarrow> string \<Rightarrow> 'sp \<Rightarrow> ('sp, other_fields) mutate_fn \<Rightarrow> string
      \<Rightarrow> ('s, go_error option) effect" where
  "ensure_object kc name ns zero f prefix s =
     (case kc_get kc (ns, name) s of
        (Inl err, s1) \<Rightarrow>
          if \<not> IsNotFound err then (Some err, s1)
          else (case CreateOrPatch kc (named_object name ns zero) f s1 of
                  ((_, Some err, _), s2) \<Rightarrow> (Some (errorf_v prefix err), s2)
                | ((_, None, _), s2) \<Rightarrow> (None, s2))
      | (Inr existing, s1) \<Rightarrow>
          (case CreateOrPatch kc existing f s1 of
             ((_, Some err, _), s2) \<Rightarrow> (Some (errorf_v prefix err), s2)
           | ((_, None, _), s2) \<Rightarrow> (None, s2)))"

text \<open>The body shared by the \<^verbatim>\<open>Delete\<close> functions: an object that is gone already is no error.\<close>

definition remove_object ::
    "('s, 'sp, 'st) kind_client \<Rightarrow> ('sp, 'st) k8s_object \<Rightarrow> string \<Rightarrow> ('s, go_error option) effect" where
  "remove_object kc obj prefix s =
     (case kc_delete kc obj s of
        (Some err, s') \<Rightarrow>
          if \<not> IsNotFound err then (Some (errorf_w (prefix @ om_name (metadata obj) @ '': '') err), s') else (None, s')
      | (None, s') \<Rightarrow> (None, s'))"

text \<open>
  A function that sets the desired state, as a method of an interface: it touches nothing but the object, and
  gives back the pointer, which an implementation may have been given as nil.
\<close>

definition sets_desired :: "go_error + 'a \<Rightarrow> ('s, go_error + 'a option) effect" where
  "sets_desired r s = (case r of Inl err \<Rightarrow> (Inl err, s) | Inr obj \<Rightarrow> (Inr (Some obj), s))"

lemma fold_fmupd_lookup:
  "distinct (map fst kvs) \<Longrightarrow> fmlookup (fold (\<lambda>(k, v) m. fmupd k v m) kvs m) k =
     (case map_of kvs k of None \<Rightarrow> fmlookup m k | Some v \<Rightarrow> Some v)"
proof (induction kvs arbitrary: m)
  case Nil
  show ?case by simp
next
  case (Cons kv kvs)
  obtain k' v where kv: "kv = (k', v)" by (cases kv)
  with Cons.prems have "map_of kvs k' = None" by (simp add: map_of_eq_None_iff)
  with Cons kv show ?case by (auto split: option.split)
qed

lemma copy_entries_lookup:
  "distinct (map fst kvs) \<Longrightarrow> fmlookup (copy_entries kvs) k = map_of kvs k"
  by (simp add: copy_entries_def fold_fmupd_lookup split: option.split)

lemma copy_labels_eq [simp]: "copy_labels m = m"
  by (rule fmap_ext) (simp add: copy_labels_def copy_entries_lookup [OF distinct_keys_sorted_list_of_fmap])

section \<open>The contract of a function that writes the desired state\<close>

text \<open>
  \<open>f\<close> may fail. Where it succeeds it leaves alone everything that identifies the object to the
  server, and applying it again changes nothing; it does not look at the resource version.
\<close>

locale desired_state =
  fixes f :: "('sp, other_fields) mutate_fn"
  assumes keeps_key: "f x = Inr y \<Longrightarrow> ObjectKeyFromObject y = ObjectKeyFromObject x"
    and keeps_version: "f x = Inr y \<Longrightarrow> om_resourceVersion (metadata y) = om_resourceVersion (metadata x)"
    and keeps_lifetime: "f x = Inr y \<Longrightarrow> om_finalizers (metadata y) = om_finalizers (metadata x) \<and>
                           om_deletionTimestamp (metadata y) = om_deletionTimestamp (metadata x)"
    and keeps_status: "f x = Inr y \<Longrightarrow> status y = status x"
    and settles: "f x = Inr y \<Longrightarrow> f (set_resourceVersion rv y) = Inr (set_resourceVersion rv y)"
begin

lemma mutate_eq: "f x = Inr y \<Longrightarrow> mutate f (ObjectKeyFromObject x) x = Inr y"
  by (simp add: mutate_def keeps_key)

lemma idempotent: "f x = Inr y \<Longrightarrow> f y = Inr y"
proof -
  assume "f x = Inr y"
  then have "f (set_resourceVersion (om_resourceVersion (metadata y)) y) =
      Inr (set_resourceVersion (om_resourceVersion (metadata y)) y)" by (rule settles)
  then show "f y = Inr y" by (simp add: set_resourceVersion_def)
qed

end

lemma patch_object_same [simp]:
  "patch_object kc x x s = (Inr (OperationResultNone, x), s)"
  by (simp add: patch_object_def)

lemma patch_status_same:
  "status before = status after \<Longrightarrow> patch_status kc before after r obj s = ((r, None, obj), s)"
  by (simp add: patch_status_def)

text \<open>The same function on a well-behaved server of the objects it writes.\<close>

locale ensured = child_client kc view inv others + desired_state f
  for kc :: "('s, 'sp, other_fields) kind_client" and view inv
    and others :: "'s \<Rightarrow> 'r" and f :: "('sp, other_fields) mutate_fn"
begin

lemma ensure_missing:
  assumes "inv s" "view s (ns, name) = None" "f (named_object name ns zero) = Inr y" "name \<noteq> []"
  shows "\<exists>rv s'. ensure_object kc name ns zero f prefix s = (None, s') \<and> inv s' \<and>
           view s' = (view s)((ns, name) \<mapsto> set_resourceVersion rv y) \<and> others s' = others s"
proof -
  have key: "ObjectKeyFromObject y = (ns, name)" and rv: "om_resourceVersion (metadata y) = []"
    and del: "om_deletionTimestamp (metadata y) = None"
    using keeps_key [OF assms(3)] keeps_version [OF assms(3)] keeps_lifetime [OF assms(3)] by simp_all
  have nm: "om_name (metadata y) \<noteq> []"
    using key assms(4) by (simp add: ObjectKeyFromObject_def)
  obtain rv s' where "kc_create kc y s = (Inr (set_resourceVersion rv y), s')" "inv s'"
    "view s' = (view s)((ns, name) \<mapsto> set_resourceVersion rv y)" "others s' = others s"
    using create_new [OF assms(1), of y] assms(2) key nm rv del by auto
  moreover obtain e where "kc_get kc (ns, name) s = (Inl e, s)" "IsNotFound e"
    using get_absent [OF assms(1,2)] by blast
  moreover have "mutate f (ns, name) (named_object name ns zero) = Inr y"
    using mutate_eq [OF assms(3)] by simp
  ultimately show ?thesis by (auto simp: ensure_object_def CreateOrPatch_def)
qed

lemma ensure_present:
  assumes "inv s" "view s (ns, name) = Some x" "f x = Inr y"
  shows "\<exists>rv s'. ensure_object kc name ns zero f prefix s = (None, s') \<and> inv s' \<and>
           view s' = (view s)((ns, name) \<mapsto> set_resourceVersion rv y) \<and> others s' = others s \<and>
           (x = y \<longrightarrow> s' = s)"
proof -
  have kx: "ObjectKeyFromObject x = (ns, name)" using view_key [OF assms(1,2)] .
  have get: "kc_get kc (ns, name) s = (Inr x, s)" using get_present [OF assms(1,2)] .
  have mut: "mutate f (ns, name) x = Inr y" using mutate_eq [OF assms(3)] kx by simp
  have st: "status x = status y" using keeps_status [OF assms(3)] by simp
  show ?thesis
  proof (cases "x = y")
    case True
    then have "ensure_object kc name ns zero f prefix s = (None, s)"
      using get mut kx by (simp add: ensure_object_def CreateOrPatch_def patch_status_same)
    moreover have "set_resourceVersion (om_resourceVersion (metadata y)) y = y"
      by (simp add: set_resourceVersion_def)
    ultimately show ?thesis using assms(1,2) True by (metis fun_upd_triv)
  next
    case False
    then have diff: "(metadata x, spec x) \<noteq> (metadata y, spec y)" using st by auto
    obtain rv s' where "kc_patch kc x y s = (Inr (set_resourceVersion rv y), s')" "inv s'"
      "view s' = (view s)((ns, name) \<mapsto> set_resourceVersion rv y)" "others s' = others s"
      using patch_stored [OF assms(1), of x y] assms(2) kx st keeps_key [OF assms(3)]
        keeps_version [OF assms(3)] keeps_lifetime [OF assms(3)] by auto
    then show ?thesis using False get mut diff kx
      by (auto simp: ensure_object_def CreateOrPatch_def patch_object_def patch_status_same st)
  qed
qed

text \<open>
  The outcome in one statement: \<open>base\<close> is the object in force before (a new one where there is
  none). After the step it holds the desired state, other objects are untouched, and where it was
  in that state already nothing was sent.
\<close>

lemma ensure_converges:
  assumes "inv s" "name \<noteq> []"
    and "f (case view s (ns, name) of None \<Rightarrow> named_object name ns zero | Some x \<Rightarrow> x) = Inr y"
  shows "\<exists>rv s'. ensure_object kc name ns zero f prefix s = (None, s') \<and> inv s' \<and>
           view s' = (view s)((ns, name) \<mapsto> set_resourceVersion rv y) \<and> others s' = others s \<and>
           f (set_resourceVersion rv y) = Inr (set_resourceVersion rv y) \<and>
           (view s (ns, name) = Some y \<longrightarrow> s' = s)"
proof (cases "view s (ns, name)")
  case None
  with assms settles show ?thesis using ensure_missing [OF assms(1) None _ assms(2), of zero y prefix] by fastforce
next
  case (Some x)
  with assms settles show ?thesis using ensure_present [OF assms(1) Some, of y zero prefix] by fastforce
qed

lemma ensure_stable:
  assumes "inv s" "view s (ns, name) = Some x" "f x = Inr x"
  shows "ensure_object kc name ns zero f prefix s = (None, s)"
  using ensure_present [OF assms, of zero prefix] by auto

text \<open>Where the function refuses the object, nothing is sent and its error is reported.\<close>

lemma ensure_refused:
  assumes "inv s" "f (case view s (ns, name) of None \<Rightarrow> named_object name ns zero | Some x \<Rightarrow> x) = Inl err"
  shows "ensure_object kc name ns zero f prefix s = (Some (errorf_v prefix err), s)"
  using assms(1)
proof (cases rule: get_cases [where k = "(ns, name)"])
  case (present x)
  then show ?thesis using assms view_key [OF assms(1) present(1)]
    by (simp add: ensure_object_def CreateOrPatch_def mutate_def)
next
  case (absent e)
  then show ?thesis using assms(2)
    by (simp add: ensure_object_def CreateOrPatch_def mutate_def)
qed

end

context child_client
begin

lemma remove_present:
  assumes "inv s" "view s (ObjectKeyFromObject x) = Some y" "om_finalizers (metadata y) = []"
  shows "\<exists>s'. remove_object kc x prefix s = (None, s') \<and> inv s' \<and>
           view s' = (view s)((ObjectKeyFromObject x) := None) \<and> others s' = others s"
  using delete_plain [OF assms(1), of x y] assms(2,3)
  by (auto simp: remove_object_def)

lemma remove_absent:
  assumes "inv s" "view s (ObjectKeyFromObject x) = None"
  shows "remove_object kc x prefix s = (None, s)"
  using delete_absent [OF assms(1), of x] assms(2)
  by (auto simp: remove_object_def)

lemma remove_gone:
  assumes "inv s" "\<And>y. view s (ObjectKeyFromObject x) = Some y \<Longrightarrow> om_finalizers (metadata y) = []"
  shows "\<exists>s'. remove_object kc x prefix s = (None, s') \<and> inv s' \<and>
           view s' = (view s)((ObjectKeyFromObject x) := None) \<and> others s' = others s"
proof (cases "view s (ObjectKeyFromObject x)")
  case None
  then have "(view s)((ObjectKeyFromObject x) := None) = view s" by (simp add: fun_upd_idem)
  with remove_absent [OF assms(1) None, of prefix] assms(1) show ?thesis by simp
next
  case (Some y)
  with assms show ?thesis by (intro remove_present) auto
qed

end

section \<open>Desired fields and a controller reference\<close>

text \<open>\<^verbatim>\<open>ctrl.SetControllerReference(cr, obj, scheme)\<close>, which changes \<open>obj\<close> in place.\<close>

definition set_controller_reference ::
    "scheme \<Rightarrow> device_config \<Rightarrow> ('sp, 'st) k8s_object \<Rightarrow> go_error + ('sp, 'st) k8s_object" where
  "set_controller_reference scheme cr obj =
     (case SetControllerReference ''DeviceConfig'' (metadata cr) (metadata obj) scheme of
        Inl err \<Rightarrow> Inl err
      | Inr m \<Rightarrow> Inr (obj\<lparr>metadata := m\<rparr>))"

text \<open>The controller reference to a \<open>DeviceConfig\<close>, under the scheme that registers it.\<close>

definition dc_gvk :: group_version_kind where
  "dc_gvk = \<lparr>gv_group = ''habana.ai'', gv_version = ''v1alpha1'', gvk_kind = ''DeviceConfig''\<rparr>"

definition dc_ref :: "device_config \<Rightarrow> owner_reference" where
  "dc_ref cr = controller_ref dc_gvk (metadata cr)"

definition owned_by :: "device_config \<Rightarrow> ('sp, 'st) k8s_object \<Rightarrow> ('sp, 'st) k8s_object" where
  "owned_by cr obj = obj\<lparr>metadata := upsertOwnerRef (dc_ref cr) (metadata obj)\<rparr>"

definition adoptable :: "device_config \<Rightarrow> ('sp, 'st) k8s_object \<Rightarrow> bool" where
  "adoptable cr obj \<longleftrightarrow>
     validateOwner (metadata cr) (metadata obj) = None \<and> controllable dc_gvk (metadata cr) (metadata obj)"

lemma dc_ref_parsable [simp]: "parsable_ref (dc_ref cr)"
  by (simp add: parsable_ref_def dc_ref_def controller_ref_def gv_string_def dc_gvk_def
      ParseGroupVersion_def split: sum.split)

lemma set_controller_reference_iff:
  "set_controller_reference (AddToScheme base) cr obj = Inr obj' \<longleftrightarrow>
     adoptable cr obj \<and> obj' = owned_by cr obj"
  by (auto simp: set_controller_reference_def adoptable_def owned_by_def dc_ref_def dc_gvk_def
      SetControllerReference_def controllable_def Let_def split: option.splits if_splits)

lemma set_controller_reference_foreign:
  assumes "validateOwner (metadata cr) (metadata obj) = None"
    and "GetControllerOf (metadata obj) = Some r" "\<not> referSameObject r (dc_ref cr)"
  shows "set_controller_reference (AddToScheme base) cr obj = Inl (AlreadyOwnedError (metadata obj) r)"
  using assms
  by (simp add: set_controller_reference_def SetControllerReference_def dc_ref_def dc_gvk_def Let_def)

lemma owned_by_simps [simp]:
  "ObjectKeyFromObject (owned_by cr obj) = ObjectKeyFromObject obj"
  "spec (owned_by cr obj) = spec obj" "status (owned_by cr obj) = status obj"
  "om_name (metadata (owned_by cr obj)) = om_name (metadata obj)"
  "om_namespace (metadata (owned_by cr obj)) = om_namespace (metadata obj)"
  "om_uid (metadata (owned_by cr obj)) = om_uid (metadata obj)"
  "om_resourceVersion (metadata (owned_by cr obj)) = om_resourceVersion (metadata obj)"
  "om_finalizers (metadata (owned_by cr obj)) = om_finalizers (metadata obj)"
  "om_deletionTimestamp (metadata (owned_by cr obj)) = om_deletionTimestamp (metadata obj)"
  "om_labels (metadata (owned_by cr obj)) = om_labels (metadata obj)"
  "om_annotations (metadata (owned_by cr obj)) = om_annotations (metadata obj)"
  by (simp_all add: owned_by_def ObjectKeyFromObject_def)

lemma owned_by_controller:
  "adoptable cr obj \<Longrightarrow> GetControllerOf (metadata (owned_by cr obj)) = Some (dc_ref cr)"
  by (simp add: adoptable_def owned_by_def dc_ref_def controller_of_upsert)

lemma adoptable_iff:
  "adoptable cr obj \<longleftrightarrow>
     (om_namespace (metadata cr) = [] \<or> om_namespace (metadata obj) = om_namespace (metadata cr)) \<and>
     (case first_controller (om_ownerReferences (metadata obj)) of
        None \<Rightarrow> True | Some r \<Rightarrow> referSameObject r (dc_ref cr))"
  unfolding adoptable_def validateOwner_def controllable_def GetControllerOf_def dc_ref_def Let_def
  by auto

lemma adoptable_owned [simp]: "adoptable cr obj \<Longrightarrow> adoptable cr (owned_by cr obj)"
  using owned_by_controller [of cr obj]
  by (simp add: adoptable_iff GetControllerOf_def referSameObject_self)

definition upsert_refs :: "owner_reference \<Rightarrow> owner_reference list \<Rightarrow> owner_reference list" where
  "upsert_refs ref rs = (case indexOwnerRef rs ref of None \<Rightarrow> rs @ [ref] | Some i \<Rightarrow> rs[i := ref])"

lemma upsertOwnerRef_refs:
  "upsertOwnerRef ref m = m\<lparr>om_ownerReferences := upsert_refs ref (om_ownerReferences m)\<rparr>"
  by (simp add: upsertOwnerRef_def upsert_refs_def split: option.split)

lemma upsert_refs_idem [simp]:
  "upsert_refs (dc_ref cr) (upsert_refs (dc_ref cr) rs) = upsert_refs (dc_ref cr) rs"
  using indexOwnerRef_less [of rs "dc_ref cr"]
  by (cases "indexOwnerRef rs (dc_ref cr)")
     (simp_all add: upsert_refs_def indexOwnerRef_upsert indexOwnerRef_append_new)

text \<open>
  The form of the four functions of this operator: functions \<open>fl\<close> of the labels, \<open>fa\<close> of the
  annotations and \<open>fs\<close> of the specification, then the controller reference.
\<close>

definition write_desired ::
    "(labels \<Rightarrow> labels) \<Rightarrow> (labels \<Rightarrow> labels) \<Rightarrow> ('sp \<Rightarrow> 'sp) \<Rightarrow> ('sp, 'st) k8s_object \<Rightarrow> ('sp, 'st) k8s_object" where
  "write_desired fl fa fs obj =
     obj\<lparr>metadata := (metadata obj)\<lparr>om_labels := fl (om_labels (metadata obj)),
                                   om_annotations := fa (om_annotations (metadata obj))\<rparr>,
         spec := fs (spec obj)\<rparr>"

lemma write_desired_simps [simp]:
  "ObjectKeyFromObject (write_desired fl fa fs obj) = ObjectKeyFromObject obj"
  "spec (write_desired fl fa fs obj) = fs (spec obj)" "status (write_desired fl fa fs obj) = status obj"
  "om_name (metadata (write_desired fl fa fs obj)) = om_name (metadata obj)"
  "om_namespace (metadata (write_desired fl fa fs obj)) = om_namespace (metadata obj)"
  "om_resourceVersion (metadata (write_desired fl fa fs obj)) = om_resourceVersion (metadata obj)"
  "om_finalizers (metadata (write_desired fl fa fs obj)) = om_finalizers (metadata obj)"
  "om_deletionTimestamp (metadata (write_desired fl fa fs obj)) = om_deletionTimestamp (metadata obj)"
  "om_ownerReferences (metadata (write_desired fl fa fs obj)) = om_ownerReferences (metadata obj)"
  "om_labels (metadata (write_desired fl fa fs obj)) = fl (om_labels (metadata obj))"
  "om_annotations (metadata (write_desired fl fa fs obj)) = fa (om_annotations (metadata obj))"
  "adoptable cr (write_desired fl fa fs obj) = adoptable cr obj"
  by (simp_all add: write_desired_def ObjectKeyFromObject_def adoptable_iff)

locale owned_writer =
  fixes f :: "('sp, other_fields) mutate_fn"
    and base :: scheme and cr :: device_config
    and fl fa :: "labels \<Rightarrow> labels" and fs :: "'sp \<Rightarrow> 'sp"
  assumes f_eq: "f x = set_controller_reference (AddToScheme base) cr (write_desired fl fa fs x)"
    and fl_idem: "fl (fl l) = fl l" and fa_idem: "fa (fa l) = fa l" and fs_idem: "fs (fs sp) = fs sp"
begin

lemma accepted_iff:
  "f x = Inr y \<longleftrightarrow> adoptable cr x \<and> y = owned_by cr (write_desired fl fa fs x)"
  by (simp add: f_eq set_controller_reference_iff)

lemma controlled: "f x = Inr y \<Longrightarrow> GetControllerOf (metadata y) = Some (dc_ref cr)"
  by (auto simp: accepted_iff owned_by_controller)

lemma foreign:
  assumes "om_namespace (metadata x) = om_namespace (metadata cr)"
    and "GetControllerOf (metadata x) = Some r" "\<not> referSameObject r (dc_ref cr)"
  shows "f x = Inl (AlreadyOwnedError (metadata x) r)"
proof -
  have "GetControllerOf (metadata (write_desired fl fa fs x)) = Some r"
    using assms(2) by (simp add: GetControllerOf_def)
  moreover have "validateOwner (metadata cr) (metadata (write_desired fl fa fs x)) = None"
    using assms(1) by (simp add: validateOwner_same)
  moreover have "AlreadyOwnedError (metadata (write_desired fl fa fs x)) r = AlreadyOwnedError (metadata x) r"
    by (simp add: AlreadyOwnedError_def)
  ultimately show ?thesis using assms(3) by (simp add: f_eq set_controller_reference_foreign)
qed

lemma accepts_new:
  "f (named_object name (om_namespace (metadata cr)) zero) =
     Inr (owned_by cr (write_desired fl fa fs (named_object name (om_namespace (metadata cr)) zero)))"
  by (simp add: accepted_iff adoptable_iff)

lemma written_again:
  "owned_by cr (write_desired fl fa fs (set_resourceVersion rv (owned_by cr (write_desired fl fa fs x)))) =
     set_resourceVersion rv (owned_by cr (write_desired fl fa fs x))"
  by (simp add: write_desired_def owned_by_def set_resourceVersion_def upsertOwnerRef_refs
      fl_idem fa_idem fs_idem)

end

sublocale owned_writer \<subseteq> desired_state f
proof
  fix x y rv
  assume fx: "f x = Inr y"
  then show "ObjectKeyFromObject y = ObjectKeyFromObject x" "status y = status x"
    "om_resourceVersion (metadata y) = om_resourceVersion (metadata x)"
    "om_finalizers (metadata y) = om_finalizers (metadata x) \<and>
     om_deletionTimestamp (metadata y) = om_deletionTimestamp (metadata x)"
    by (auto simp: accepted_iff)
  have "adoptable cr (set_resourceVersion rv y)"
    using fx adoptable_owned [of cr "write_desired fl fa fs x"] by (auto simp: accepted_iff adoptable_iff)
  then show "f (set_resourceVersion rv y) = Inr (set_resourceVersion rv y)"
    using fx written_again [of rv x] by (auto simp: accepted_iff)
qed

end
