(* ===== verification/Merge_Patch.thy ===== *)
theory Merge_Patch
  imports Workload_Types
begin

text \<open>
  Merge patches on typed objects. The client computes a JSON merge patch from the difference
  of two objects and the server applies it to the object it has stored; \<open>Json_Merge\<close> has both steps on
  JSON documents, and \<open>Json_Objects\<close> relates them to this theory. Here they are one function per type, of the object before, the object after, and the stored one: a field in
  which before and after agree keeps its stored value; a scalar or a list that differs is
  replaced; an object is merged field by field, a map entry by entry; a pointer that became nil
  is removed. Maps that JSON omits when they are empty (\<open>merge_map\<close>) are removed as a whole when
  they become empty.
\<close>

definition merge_atom :: "'a \<Rightarrow> 'a \<Rightarrow> 'a \<Rightarrow> 'a" where
  "merge_atom b a s = (if b = a then s else a)"

text \<open>On a map, entry by entry.\<close>

definition merge_entries :: "('k, 'v) fmap \<Rightarrow> ('k, 'v) fmap \<Rightarrow> ('k, 'v) fmap \<Rightarrow> ('k, 'v) fmap" where
  "merge_entries b a s =
     fmfilter (\<lambda>k. fmlookup b k = fmlookup a k) s ++\<^sub>f fmfilter (\<lambda>k. fmlookup b k \<noteq> fmlookup a k) a"

definition merge_map :: "('k, 'v) fmap \<Rightarrow> ('k, 'v) fmap \<Rightarrow> ('k, 'v) fmap \<Rightarrow> ('k, 'v) fmap" where
  "merge_map b a s = (if b \<noteq> a \<and> a = fmempty then fmempty else merge_entries b a s)"

text \<open>A pointer; \<open>z\<close> is the zero value of what it points to.\<close>

definition merge_pointer ::
    "'a \<Rightarrow> ('a \<Rightarrow> 'a \<Rightarrow> 'a \<Rightarrow> 'a) \<Rightarrow> 'a option \<Rightarrow> 'a option \<Rightarrow> 'a option \<Rightarrow> 'a option" where
  "merge_pointer z m b a s =
     (if b = a then s
      else case a of
          None \<Rightarrow> None
        | Some a' \<Rightarrow> Some (m (case b of None \<Rightarrow> z | Some b' \<Rightarrow> b') a' (case s of None \<Rightarrow> z | Some s' \<Rightarrow> s')))"

definition merge_meta :: "object_meta \<Rightarrow> object_meta \<Rightarrow> object_meta \<Rightarrow> object_meta" where
  "merge_meta b a s =
     \<lparr>om_name = merge_atom (om_name b) (om_name a) (om_name s),
      om_namespace = merge_atom (om_namespace b) (om_namespace a) (om_namespace s),
      om_uid = merge_atom (om_uid b) (om_uid a) (om_uid s),
      om_resourceVersion = merge_atom (om_resourceVersion b) (om_resourceVersion a) (om_resourceVersion s),
      om_deletionTimestamp =
        merge_atom (om_deletionTimestamp b) (om_deletionTimestamp a) (om_deletionTimestamp s),
      om_finalizers = merge_atom (om_finalizers b) (om_finalizers a) (om_finalizers s),
      om_ownerReferences = merge_atom (om_ownerReferences b) (om_ownerReferences a) (om_ownerReferences s),
      om_labels = merge_map (om_labels b) (om_labels a) (om_labels s),
      om_annotations = merge_map (om_annotations b) (om_annotations a) (om_annotations s)\<rparr>"

definition merge_object ::
    "('sp \<Rightarrow> 'sp \<Rightarrow> 'sp \<Rightarrow> 'sp) \<Rightarrow> ('st \<Rightarrow> 'st \<Rightarrow> 'st \<Rightarrow> 'st) \<Rightarrow>
     ('sp, 'st) k8s_object \<Rightarrow> ('sp, 'st) k8s_object \<Rightarrow> ('sp, 'st) k8s_object \<Rightarrow> ('sp, 'st) k8s_object" where
  "merge_object msp mst b a s =
     \<lparr>metadata = merge_meta (metadata b) (metadata a) (metadata s),
      spec = msp (spec b) (spec a) (spec s), status = mst (status b) (status a) (status s)\<rparr>"

section \<open>The specifications the operator patches\<close>

definition merge_label_selector :: "label_selector \<Rightarrow> label_selector \<Rightarrow> label_selector \<Rightarrow> label_selector" where
  "merge_label_selector b a s =
     \<lparr>lsel_matchLabels = merge_map (lsel_matchLabels b) (lsel_matchLabels a) (lsel_matchLabels s),
      lsel_matchExpressions =
        merge_atom (lsel_matchExpressions b) (lsel_matchExpressions a) (lsel_matchExpressions s)\<rparr>"

definition merge_pod_spec :: "pod_spec \<Rightarrow> pod_spec \<Rightarrow> pod_spec \<Rightarrow> pod_spec" where
  "merge_pod_spec b a s =
     \<lparr>ps_containers = merge_atom (ps_containers b) (ps_containers a) (ps_containers s),
      ps_hostPID = merge_atom (ps_hostPID b) (ps_hostPID a) (ps_hostPID s),
      ps_nodeSelector = merge_map (ps_nodeSelector b) (ps_nodeSelector a) (ps_nodeSelector s),
      ps_priorityClassName =
        merge_atom (ps_priorityClassName b) (ps_priorityClassName a) (ps_priorityClassName s),
      ps_serviceAccountName =
        merge_atom (ps_serviceAccountName b) (ps_serviceAccountName a) (ps_serviceAccountName s),
      ps_volumes = merge_atom (ps_volumes b) (ps_volumes a) (ps_volumes s),
      ps_other = merge_map (ps_other b) (ps_other a) (ps_other s)\<rparr>"

definition merge_daemon_set_spec ::
    "daemon_set_spec \<Rightarrow> daemon_set_spec \<Rightarrow> daemon_set_spec \<Rightarrow> daemon_set_spec" where
  "merge_daemon_set_spec b a s =
     \<lparr>ds_selector =
        merge_pointer \<lparr>lsel_matchLabels = fmempty, lsel_matchExpressions = []\<rparr> merge_label_selector
          (ds_selector b) (ds_selector a) (ds_selector s),
      ds_template =
        \<lparr>pt_metadata = merge_meta (pt_metadata (ds_template b)) (pt_metadata (ds_template a))
           (pt_metadata (ds_template s)),
         pt_spec = merge_pod_spec (pt_spec (ds_template b)) (pt_spec (ds_template a)) (pt_spec (ds_template s))\<rparr>,
      ds_other = merge_map (ds_other b) (ds_other a) (ds_other s)\<rparr>"

definition merge_service_spec :: "service_spec \<Rightarrow> service_spec \<Rightarrow> service_spec \<Rightarrow> service_spec" where
  "merge_service_spec b a s =
     \<lparr>svc_ports = merge_atom (svc_ports b) (svc_ports a) (svc_ports s),
      svc_selector = merge_map (svc_selector b) (svc_selector a) (svc_selector s),
      svc_other = merge_map (svc_other b) (svc_other a) (svc_other s)\<rparr>"

definition merge_resources ::
    "resource_requirements \<Rightarrow> resource_requirements \<Rightarrow> resource_requirements \<Rightarrow> resource_requirements" where
  "merge_resources b a s =
     \<lparr>rr_limits = merge_map (rr_limits b) (rr_limits a) (rr_limits s),
      rr_requests = merge_map (rr_requests b) (rr_requests a) (rr_requests s)\<rparr>"

definition merge_device_plugin ::
    "device_plugin_spec \<Rightarrow> device_plugin_spec \<Rightarrow> device_plugin_spec \<Rightarrow> device_plugin_spec" where
  "merge_device_plugin b a s =
     (let bc = dp_container b; ac = dp_container a; sc = dp_container s in
      \<lparr>dp_container =
         \<lparr>dpc_command = merge_atom (dpc_command bc) (dpc_command ac) (dpc_command sc),
          dpc_args = merge_atom (dpc_args bc) (dpc_args ac) (dpc_args sc),
          dpc_image = merge_atom (dpc_image bc) (dpc_image ac) (dpc_image sc),
          dpc_imagePullPolicy =
            merge_atom (dpc_imagePullPolicy bc) (dpc_imagePullPolicy ac) (dpc_imagePullPolicy sc),
          dpc_resources = merge_resources (dpc_resources bc) (dpc_resources ac) (dpc_resources sc),
          dpc_other = merge_map (dpc_other bc) (dpc_other ac) (dpc_other sc)\<rparr>,
       dp_serviceAccountName =
         merge_atom (dp_serviceAccountName b) (dp_serviceAccountName a) (dp_serviceAccountName s),
       dp_other = merge_map (dp_other b) (dp_other a) (dp_other s)\<rparr>)"

definition empty_device_plugin :: device_plugin_spec where
  "empty_device_plugin =
     \<lparr>dp_container = \<lparr>dpc_command = [], dpc_args = [], dpc_image = '''', dpc_imagePullPolicy = '''',
        dpc_resources = no_resources, dpc_other = no_fields\<rparr>,
      dp_serviceAccountName = '''', dp_other = no_fields\<rparr>"

definition merge_module_loader ::
    "module_loader_spec \<Rightarrow> module_loader_spec \<Rightarrow> module_loader_spec \<Rightarrow> module_loader_spec" where
  "merge_module_loader b a s =
     (let bc = ml_container b; ac = ml_container a; sc = ml_container s;
          bm = mlc_modprobe bc; am = mlc_modprobe ac; sm = mlc_modprobe sc in
      \<lparr>ml_container =
         \<lparr>mlc_imagePullPolicy =
            merge_atom (mlc_imagePullPolicy bc) (mlc_imagePullPolicy ac) (mlc_imagePullPolicy sc),
          mlc_kernelMappings =
            merge_atom (mlc_kernelMappings bc) (mlc_kernelMappings ac) (mlc_kernelMappings sc),
          mlc_modprobe =
            \<lparr>mp_moduleName = merge_atom (mp_moduleName bm) (mp_moduleName am) (mp_moduleName sm),
             mp_firmwarePath = merge_atom (mp_firmwarePath bm) (mp_firmwarePath am) (mp_firmwarePath sm),
             mp_other = merge_map (mp_other bm) (mp_other am) (mp_other sm)\<rparr>,
          mlc_other = merge_map (mlc_other bc) (mlc_other ac) (mlc_other sc)\<rparr>,
       ml_serviceAccountName =
         merge_atom (ml_serviceAccountName b) (ml_serviceAccountName a) (ml_serviceAccountName s)\<rparr>)"

definition merge_module_spec :: "module_spec \<Rightarrow> module_spec \<Rightarrow> module_spec \<Rightarrow> module_spec" where
  "merge_module_spec b a s =
     \<lparr>ms_devicePlugin =
        merge_pointer empty_device_plugin merge_device_plugin
          (ms_devicePlugin b) (ms_devicePlugin a) (ms_devicePlugin s),
      ms_moduleLoader = merge_module_loader (ms_moduleLoader b) (ms_moduleLoader a) (ms_moduleLoader s),
      ms_selector = merge_pointer fmempty merge_entries (ms_selector b) (ms_selector a) (ms_selector s),
      ms_other = merge_map (ms_other b) (ms_other a) (ms_other s)\<rparr>"

section \<open>A patch applied where it was made yields the object after\<close>

lemma merge_atom_self [simp]: "merge_atom b a b = a"
  by (simp add: merge_atom_def)

lemma merge_entries_lookup:
  "fmlookup (merge_entries b a s) k = (if fmlookup b k = fmlookup a k then fmlookup s k else fmlookup a k)"
  by (auto simp: merge_entries_def fmlookup_dom_iff)

lemma merge_entries_self [simp]: "merge_entries b a b = a"
  by (rule fmap_ext) (simp add: merge_entries_lookup)

lemma merge_map_self [simp]: "merge_map b a b = a"
  by (simp add: merge_map_def)

lemma merge_pointer_self: "(\<And>b a. m b a b = a) \<Longrightarrow> merge_pointer z m b a b = a"
  by (simp add: merge_pointer_def split: option.split)

lemma merge_meta_self [simp]: "merge_meta b a b = a"
  by (simp add: merge_meta_def)

lemma merge_specs_self [simp]:
  "merge_label_selector lb la lb = la" "merge_pod_spec pb pa pb = pa"
  "merge_service_spec vb va vb = va" "merge_resources rb ra rb = ra"
  "merge_device_plugin db da db = da" "merge_module_loader mb ma mb = ma"
  by (simp_all add: merge_label_selector_def merge_pod_spec_def merge_service_spec_def
      merge_resources_def merge_device_plugin_def merge_module_loader_def Let_def)

lemma merge_daemon_set_spec_self [simp]: "merge_daemon_set_spec b a b = a"
  by (simp add: merge_daemon_set_spec_def merge_pointer_self)

lemma merge_module_spec_self [simp]: "merge_module_spec b a b = a"
  by (simp add: merge_module_spec_def merge_pointer_self)

lemma merge_object_self:
  "(\<And>b a. msp b a b = a) \<Longrightarrow> (\<And>b a. mst b a b = a) \<Longrightarrow> merge_object msp mst b a b = a"
  by (simp add: merge_object_def)

text \<open>
  A patch that leaves the object before it as it was, whatever was stored, is no patch: wherever the two
  versions differ, the result has the value of the second.
\<close>

definition sharp :: "('a \<Rightarrow> 'a \<Rightarrow> 'a \<Rightarrow> 'a) \<Rightarrow> bool" where
  "sharp m \<longleftrightarrow> (\<forall>b a s. m b a s = b \<longrightarrow> a = b)"

lemma sharpD: "sharp m \<Longrightarrow> m b a s = b \<Longrightarrow> a = b"
  unfolding sharp_def by blast

lemma sharpI: "(\<And>b a s. m b a s = b \<Longrightarrow> a = b) \<Longrightarrow> sharp m"
  unfolding sharp_def by blast

lemma sharp_atom: "sharp merge_atom"
  by (rule sharpI) (simp add: merge_atom_def split: if_splits)

lemma sharp_entries: "sharp merge_entries"
proof (rule sharpI)
  fix b a s :: "('k, 'v) fmap"
  assume "merge_entries b a s = b"
  then have "fmlookup b k = (if fmlookup b k = fmlookup a k then fmlookup s k else fmlookup a k)" for k
    by (metis merge_entries_lookup)
  then show "a = b" by (intro fmap_ext) metis
qed

lemma sharp_map: "sharp merge_map"
  using sharpD [OF sharp_entries] by (intro sharpI) (auto simp: merge_map_def split: if_splits)

lemma sharp_pointer: "sharp m \<Longrightarrow> sharp (merge_pointer z m)"
  by (rule sharpI) (auto simp: merge_pointer_def dest: sharpD split: option.splits if_splits)

lemmas sharp_fields = sharp_atom [THEN sharpD] sharp_map [THEN sharpD] sharp_entries [THEN sharpD]

lemma sharp_label_selector: "sharp merge_label_selector"
proof (rule sharpI)
  fix b a s assume "merge_label_selector b a s = b"
  then show "a = b"
    by (cases b; cases a) (auto simp: merge_label_selector_def dest: sharp_fields)
qed

lemma sharp_meta: "sharp merge_meta"
proof (rule sharpI)
  fix b a s assume "merge_meta b a s = b"
  then show "a = b" by (cases b; cases a) (auto simp: merge_meta_def dest: sharp_fields)
qed

lemma sharp_pod_spec: "sharp merge_pod_spec"
proof (rule sharpI)
  fix b a s assume "merge_pod_spec b a s = b"
  then show "a = b"
    by (cases b; cases a) (auto simp: merge_pod_spec_def merge_atom_def [of True] merge_atom_def [of False]
      dest: sharp_fields split: if_splits)
qed

lemma sharp_resources: "sharp merge_resources"
proof (rule sharpI)
  fix b a s assume "merge_resources b a s = b"
  then show "a = b" by (cases b; cases a) (auto simp: merge_resources_def dest: sharp_fields)
qed

lemma sharp_daemon_set_spec: "sharp merge_daemon_set_spec"
proof (rule sharpI)
  fix b a s assume "merge_daemon_set_spec b a s = b"
  then show "a = b"
    by (cases b; cases a; cases "ds_template a"; cases "ds_template b")
       (auto simp: merge_daemon_set_spec_def
         dest: sharp_fields sharp_meta [THEN sharpD] sharp_pod_spec [THEN sharpD]
           sharp_pointer [OF sharp_label_selector, THEN sharpD])
qed

lemma sharp_device_plugin: "sharp merge_device_plugin"
proof (rule sharpI)
  fix b a s assume "merge_device_plugin b a s = b"
  then show "a = b"
    by (cases b; cases a; cases "dp_container a"; cases "dp_container b")
       (auto simp: merge_device_plugin_def Let_def dest: sharp_fields sharp_resources [THEN sharpD])
qed

lemma sharp_module_loader: "sharp merge_module_loader"
proof (rule sharpI)
  fix b a s assume "merge_module_loader b a s = b"
  then show "a = b"
    by (cases b; cases a; cases "ml_container a"; cases "ml_container b";
        cases "mlc_modprobe (ml_container a)"; cases "mlc_modprobe (ml_container b)")
       (auto simp: merge_module_loader_def Let_def dest: sharp_fields)
qed

lemma sharp_module_spec: "sharp merge_module_spec"
proof (rule sharpI)
  fix b a s assume "merge_module_spec b a s = b"
  then show "a = b"
    by (cases b; cases a)
       (auto simp: merge_module_spec_def
         dest: sharp_fields sharp_module_loader [THEN sharpD] sharp_pointer [OF sharp_device_plugin, THEN sharpD]
           sharp_pointer [OF sharp_entries, THEN sharpD])
qed

end
