(* ===== verification/Fake_Client.thy ===== *)
theory Fake_Client
  imports Desired_State Merge_Patch
begin

text \<open>
  The in-memory server of the vendored test client
  (\<^verbatim>\<open>sigs.k8s.io/controller-runtime/pkg/client/fake\<close> over the object tracker of
  \<^verbatim>\<open>k8s.io/client-go/testing\<close>): resource versions, conflicts, finalizers, label selection.
  Each kind of object has a tracker, a finite map from keys to objects. Lists enumerate a Go map
  in any order; here they are in the order of the keys.
\<close>

type_synonym ('sp, 'st) tracker = "(object_key, ('sp, 'st) k8s_object) fmap"

text \<open>
  What the server knows of a kind: its group, version and kind, the name of its resource, what
  encoding a specification as JSON and decoding it again does to it, and its merge patches.
\<close>

record ('sp, 'st) resource_kind =
  rk_gvk :: group_version_kind
  rk_resource :: string
  rk_decode :: "'sp \<Rightarrow> 'sp"
  rk_merge_spec :: "'sp \<Rightarrow> 'sp \<Rightarrow> 'sp \<Rightarrow> 'sp"
  rk_merge_status :: "'st \<Rightarrow> 'st \<Rightarrow> 'st \<Rightarrow> 'st"

section \<open>Errors\<close>

definition resource_string :: "('sp, 'st) resource_kind \<Rightarrow> string" where
  "resource_string rk =
     (if length (gv_group (rk_gvk rk)) = 0 then rk_resource rk
      else rk_resource rk @ ''.'' @ gv_group (rk_gvk rk))"

definition quoted :: "string \<Rightarrow> string" where
  "quoted s = [CHR 0x22] @ s @ [CHR 0x22]"

definition NewNotFound :: "string \<Rightarrow> string \<Rightarrow> go_error" where
  "NewNotFound resource name = StatusError StatusReasonNotFound 404 (resource @ '' '' @ quoted name @ '' not found'')"

definition NewAlreadyExists :: "string \<Rightarrow> string \<Rightarrow> go_error" where
  "NewAlreadyExists resource name =
     StatusError StatusReasonAlreadyExists 409 (resource @ '' '' @ quoted name @ '' already exists'')"

definition NewConflict :: "string \<Rightarrow> string \<Rightarrow> string \<Rightarrow> go_error" where
  "NewConflict resource name err = StatusError StatusReasonConflict 409
     (''Operation cannot be fulfilled on '' @ resource @ '' '' @ quoted name @ '': '' @ err)"

definition NewBadRequest :: "string \<Rightarrow> go_error" where
  "NewBadRequest reason = StatusError StatusReasonBadRequest 400 reason"

text \<open>The invalid-object error for a missing name.\<close>

definition name_required :: "('sp, 'st) resource_kind \<Rightarrow> go_error" where
  "name_required rk = StatusError StatusReasonInvalid 422
     (gvk_kind (rk_gvk rk) @ '' '' @ quoted '''' @ '' is invalid: metadata.name: Required value: name is required'')"

lemma IsNotFound_constructors [simp]:
  "IsNotFound (NewNotFound r n)" "\<not> IsNotFound (NewAlreadyExists r n)" "\<not> IsNotFound (NewConflict r n m)"
  "\<not> IsNotFound (NewBadRequest m)" "\<not> IsNotFound (name_required rk)"
  by (simp_all add: NewNotFound_def NewAlreadyExists_def NewConflict_def NewBadRequest_def
      name_required_def IsNotFound_StatusError)

section \<open>The object tracker\<close>

definition tracker_Get ::
    "string \<Rightarrow> string \<Rightarrow> string \<Rightarrow> ('sp, 'st) tracker \<Rightarrow> go_error + ('sp, 'st) k8s_object" where
  "tracker_Get gr ns name objs =
     (case fmlookup objs (ns, name) of None \<Rightarrow> Inl (NewNotFound gr name) | Some obj \<Rightarrow> Inr obj)"

definition set_namespace :: "string \<Rightarrow> ('sp, 'st) k8s_object \<Rightarrow> ('sp, 'st) k8s_object" where
  "set_namespace ns obj = obj\<lparr>metadata := (metadata obj)\<lparr>om_namespace := ns\<rparr>\<rparr>"

definition tracker_add ::
    "string \<Rightarrow> ('sp, 'st) k8s_object \<Rightarrow> string \<Rightarrow> bool \<Rightarrow> ('sp, 'st) tracker \<Rightarrow> go_error + ('sp, 'st) tracker" where
  "tracker_add gr obj ns replaceExisting objs =
     (let obj = (if length (om_namespace (metadata obj)) = 0 then set_namespace ns obj else obj) in
      if ns \<noteq> om_namespace (metadata obj) then
        Inl (NewBadRequest (''request namespace does not match object namespace, request: '' @ quoted ns @
          '' object: '' @ quoted (om_namespace (metadata obj))))
      else
        (let namespacedName = (om_namespace (metadata obj), om_name (metadata obj)) in
         if fmlookup objs namespacedName \<noteq> None then
           (if replaceExisting then Inr (fmupd namespacedName obj objs)
            else Inl (NewAlreadyExists gr (om_name (metadata obj))))
         else if replaceExisting then Inl (NewNotFound gr (om_name (metadata obj)))
         else Inr (fmupd namespacedName obj objs)))"

definition tracker_Delete ::
    "string \<Rightarrow> string \<Rightarrow> string \<Rightarrow> ('sp, 'st) tracker \<Rightarrow> go_error + ('sp, 'st) tracker" where
  "tracker_Delete gr ns name objs =
     (case fmlookup objs (ns, name) of
        None \<Rightarrow> Inl (NewNotFound gr name)
      | Some _ \<Rightarrow> Inr (fmdrop (ns, name) objs))"

section \<open>Resource versions\<close>

definition ParseUint64 :: "string \<Rightarrow> int option" where
  "ParseUint64 s = (case parse_decimal s of None \<Rightarrow> None | Some n \<Rightarrow> if n < 2 ^ 64 then Some n else None)"

definition next_version :: "int \<Rightarrow> string" where
  "next_version n = decimal (nat ((n + 1) mod 2 ^ 64))"

definition allowsUnconditionalUpdate :: "group_version_kind \<Rightarrow> bool" where
  "allowsUnconditionalUpdate gvk =
     (let g = gv_group gvk; k = gvk_kind gvk in
      if g = ''apps'' then k \<in> set [''ControllerRevision'', ''DaemonSet'', ''Deployment'', ''ReplicaSet'', ''StatefulSet'']
      else if g = ''autoscaling'' then k \<in> set [''HorizontalPodAutoscaler'']
      else if g = ''batch'' then k \<in> set [''CronJob'', ''Job'']
      else if g = ''certificates'' then k \<in> set [''Certificates'']
      else if g = ''flowcontrol'' then k \<in> set [''FlowSchema'', ''PriorityLevelConfiguration'']
      else if g = ''networking'' then k \<in> set [''Ingress'', ''IngressClass'', ''NetworkPolicy'']
      else if g = ''policy'' then k \<in> set [''PodSecurityPolicy'']
      else if g = ''rbac'' then k \<in> set [''ClusterRole'', ''ClusterRoleBinding'', ''Role'', ''RoleBinding'']
      else if g = ''scheduling'' then k \<in> set [''PriorityClass'']
      else if g = ''settings'' then k \<in> set [''PodPreset'']
      else if g = ''storage'' then k \<in> set [''StorageClass'']
      else if g = '''' then k \<in> set [''ConfigMap'', ''Endpoint'', ''Event'', ''LimitRange'', ''Namespace'',
        ''Node'', ''PersistentVolume'', ''PersistentVolumeClaim'', ''Pod'', ''PodTemplate'',
        ''ReplicationController'', ''ResourceQuota'', ''Secret'', ''Service'', ''ServiceAccount'',
        ''EndpointSlice'']
      else False)"

definition allowsCreateOnUpdate :: "group_version_kind \<Rightarrow> bool" where
  "allowsCreateOnUpdate gvk =
     (let g = gv_group gvk; k = gvk_kind gvk in
      if g = ''coordination'' then k \<in> set [''Lease'']
      else if g = ''node'' then k \<in> set [''RuntimeClass'']
      else if g = ''rbac'' then k \<in> set [''ClusterRole'', ''ClusterRoleBinding'', ''Role'', ''RoleBinding'']
      else if g = '''' then k \<in> set [''Endpoint'', ''Event'', ''LimitRange'', ''Service'']
      else False)"

text \<open>Both return the object with the changes they make in place, when they succeed.\<close>

definition versioned_Create ::
    "('sp, 'st) resource_kind \<Rightarrow> ('sp, 'st) k8s_object \<Rightarrow> string \<Rightarrow> ('sp, 'st) tracker
      \<Rightarrow> (go_error + ('sp, 'st) k8s_object) \<times> ('sp, 'st) tracker" where
  "versioned_Create rk obj ns objs =
     (if om_name (metadata obj) = [] then (Inl (name_required rk), objs)
      else if om_resourceVersion (metadata obj) \<noteq> [] then
        (Inl (NewBadRequest ''resourceVersion can not be set for Create requests''), objs)
      else
        (let obj = set_resourceVersion ''1'' obj in
         case tracker_add (resource_string rk) obj ns False objs of
           Inl err \<Rightarrow> (Inl err, objs)
         | Inr objs' \<Rightarrow> (Inr obj, objs')))"

definition versioned_Update ::
    "('sp, 'st) resource_kind \<Rightarrow> ('sp, 'st) k8s_object \<Rightarrow> string \<Rightarrow> ('sp, 'st) tracker
      \<Rightarrow> (go_error + ('sp, 'st) k8s_object) \<times> ('sp, 'st) tracker" where
  "versioned_Update rk obj ns objs =
     (if om_name (metadata obj) = [] then (Inl (name_required rk), objs)
      else case tracker_Get (resource_string rk) ns (om_name (metadata obj)) objs of
          Inl err \<Rightarrow>
            (if IsNotFound err \<and> allowsCreateOnUpdate (rk_gvk rk) then versioned_Create rk obj ns objs
             else (Inl err, objs))
        | Inr oldObject \<Rightarrow>
            (let oldVersion = om_resourceVersion (metadata oldObject);
                 obj = (if om_resourceVersion (metadata obj) = [] \<and> allowsUnconditionalUpdate (rk_gvk rk)
                        then set_resourceVersion oldVersion obj else obj)
             in if om_resourceVersion (metadata obj) \<noteq> oldVersion then
                  (Inl (NewConflict (resource_string rk) (om_name (metadata obj)) ''object was modified''), objs)
                else
                  (let oldVersion = (if oldVersion = [] then ''0'' else oldVersion) in
                   case ParseUint64 oldVersion of
                     None \<Rightarrow> (Inl (TextError (''can not convert resourceVersion '' @ quoted oldVersion @ '' to int'')), objs)
                   | Some intResourceVersion \<Rightarrow>
                       (let obj = set_resourceVersion (next_version intResourceVersion) obj in
                        case (if \<not> time_IsZero (om_deletionTimestamp (metadata obj))
                                  \<and> length (om_finalizers (metadata obj)) = 0
                              then tracker_Delete (resource_string rk) (om_namespace (metadata obj))
                                     (om_name (metadata obj)) objs
                              else tracker_add (resource_string rk) obj ns True objs) of
                          Inl err \<Rightarrow> (Inl err, objs)
                        | Inr objs' \<Rightarrow> (Inr obj, objs')))))"

section \<open>The client\<close>

text \<open>
  What a reader gets: the stored object after encoding and decoding. A pointer to the zero time
  is encoded as null.
\<close>

definition decode_object ::
    "('sp, 'st) resource_kind \<Rightarrow> ('sp, 'st) k8s_object \<Rightarrow> ('sp, 'st) k8s_object" where
  "decode_object rk obj =
     obj\<lparr>metadata := (metadata obj)\<lparr>om_deletionTimestamp :=
            (if time_IsZero (om_deletionTimestamp (metadata obj)) then None
             else om_deletionTimestamp (metadata obj))\<rparr>,
         spec := rk_decode rk (spec obj)\<rparr>"

definition fake_Get ::
    "('sp, 'st) resource_kind \<Rightarrow> object_key \<Rightarrow> ('sp, 'st) tracker \<Rightarrow> go_error + ('sp, 'st) k8s_object" where
  "fake_Get rk key objs =
     (case tracker_Get (resource_string rk) (fst key) (snd key) objs of
        Inl err \<Rightarrow> Inl err
      | Inr obj \<Rightarrow> Inr (decode_object rk obj))"

definition fake_List ::
    "('sp, 'st) resource_kind \<Rightarrow> selector option \<Rightarrow> ('sp, 'st) tracker \<Rightarrow> ('sp, 'st) k8s_object list" where
  "fake_List rk sel objs =
     (let items = map (decode_object rk) (map snd (sorted_list_of_fmap objs)) in
      case sel of None \<Rightarrow> items | Some ls \<Rightarrow> filter (\<lambda>obj. selector_Matches ls (om_labels (metadata obj))) items)"

definition deleteObject ::
    "('sp, 'st) resource_kind \<Rightarrow> time \<Rightarrow> object_meta \<Rightarrow> ('sp, 'st) tracker
      \<Rightarrow> go_error option \<times> ('sp, 'st) tracker" where
  "deleteObject rk now accessor objs =
     (let gr = resource_string rk; ns = om_namespace accessor; name = om_name accessor;
          delete = (case tracker_Delete gr ns name objs of Inl err \<Rightarrow> (Some err, objs) | Inr objs' \<Rightarrow> (None, objs'))
      in case tracker_Get gr ns name objs of
           Inl _ \<Rightarrow> delete
         | Inr old \<Rightarrow>
             if length (om_finalizers (metadata old)) > 0 then
               (let old = old\<lparr>metadata := (metadata old)\<lparr>om_deletionTimestamp := Some now\<rparr>\<rparr> in
                case versioned_Update rk old ns objs of
                  (Inl err, objs') \<Rightarrow> (Some err, objs')
                | (Inr _, objs') \<Rightarrow> (None, objs'))
             else delete)"

definition fake_Patch ::
    "('sp, 'st) resource_kind \<Rightarrow> ('sp, 'st) k8s_object \<Rightarrow> ('sp, 'st) k8s_object \<Rightarrow> ('sp, 'st) tracker
      \<Rightarrow> (go_error + ('sp, 'st) k8s_object) \<times> ('sp, 'st) tracker" where
  "fake_Patch rk prior after objs =
     (let ns = om_namespace (metadata after); name = om_name (metadata after) in
      case tracker_Get (resource_string rk) ns name objs of
        Inl err \<Rightarrow> (Inl err, objs)
      | Inr old \<Rightarrow>
          (let patched = decode_object rk
                 (merge_object (rk_merge_spec rk) (rk_merge_status rk) prior after (decode_object rk old))
           in case versioned_Update rk patched ns objs of
                (Inl err, objs') \<Rightarrow> (Inl err, objs')
              | (Inr obj, objs') \<Rightarrow> (Inr (decode_object rk obj), objs')))"

text \<open>
  The client of one kind in a world of which \<open>get\<close> reads the tracker and \<open>put\<close> replaces it. Writing the
  status sub-resource is a full update or patch of the object.
\<close>

definition on_tracker ::
    "('w \<Rightarrow> ('sp, 'st) tracker) \<Rightarrow> (('sp, 'st) tracker \<Rightarrow> 'w \<Rightarrow> 'w) \<Rightarrow>
     (('sp, 'st) tracker \<Rightarrow> 'a \<times> ('sp, 'st) tracker) \<Rightarrow> ('w, 'a) effect" where
  "on_tracker get put f w = (case f (get w) of (r, objs) \<Rightarrow> (r, put objs w))"

definition fake_client ::
    "('sp, 'st) resource_kind \<Rightarrow> ('w \<Rightarrow> time) \<Rightarrow> ('w \<Rightarrow> ('sp, 'st) tracker)
      \<Rightarrow> (('sp, 'st) tracker \<Rightarrow> 'w \<Rightarrow> 'w) \<Rightarrow> ('w, 'sp, 'st) kind_client" where
  "fake_client rk now get put =
     \<lparr>kc_get = \<lambda>key w. (fake_Get rk key (get w), w),
      kc_list = \<lambda>sel w. (Inr (fake_List rk sel (get w)), w),
      kc_create = \<lambda>obj. on_tracker get put (versioned_Create rk obj (om_namespace (metadata obj))),
      kc_update = \<lambda>obj. on_tracker get put (versioned_Update rk obj (om_namespace (metadata obj))),
      kc_patch = \<lambda>prior after. on_tracker get put (fake_Patch rk prior after),
      kc_delete = \<lambda>obj w. on_tracker get put (deleteObject rk (now w) (metadata obj)) w,
      kc_status_update = \<lambda>obj. on_tracker get put (versioned_Update rk obj (om_namespace (metadata obj))),
      kc_status_patch = \<lambda>prior after. on_tracker get put (fake_Patch rk prior after)\<rparr>"

section \<open>The server keeps its promises\<close>

text \<open>
  Stored objects lie under their key, have a name and a version, survive encoding, and if they
  are being deleted they have a finalizer left.
\<close>

definition kept_alive :: "('sp, 'st) k8s_object \<Rightarrow> bool" where
  "kept_alive obj \<longleftrightarrow>
     time_IsZero (om_deletionTimestamp (metadata obj)) \<or> om_finalizers (metadata obj) \<noteq> []"

definition version_ok :: "string \<Rightarrow> bool" where
  "version_ok rv \<longleftrightarrow> (\<exists>n < 2 ^ 64. rv = decimal n)"

definition stored_ok ::
    "('sp, 'st) resource_kind \<Rightarrow> object_key \<Rightarrow> ('sp, 'st) k8s_object \<Rightarrow> bool" where
  "stored_ok rk k obj \<longleftrightarrow>
     ObjectKeyFromObject obj = k \<and> om_name (metadata obj) \<noteq> [] \<and>
     version_ok (om_resourceVersion (metadata obj)) \<and> decode_object rk obj = obj \<and> kept_alive obj"

lemma kept_alive_set_version [simp]: "kept_alive (set_resourceVersion rv obj) = kept_alive obj"
  by (simp add: kept_alive_def)

definition tracker_ok :: "('sp, 'st) resource_kind \<Rightarrow> ('sp, 'st) tracker \<Rightarrow> bool" where
  "tracker_ok rk objs \<longleftrightarrow> (\<forall>k obj. fmlookup objs k = Some obj \<longrightarrow> stored_ok rk k obj)"

lemma set_namespace_own [simp]: "om_namespace (metadata obj) = ns \<Longrightarrow> set_namespace ns obj = obj"
  by (cases obj; cases "metadata obj") (auto simp: set_namespace_def)

lemma tracker_add_own:
  "tracker_add gr obj (om_namespace (metadata obj)) replaceExisting objs =
     (let k = ObjectKeyFromObject obj in
      if fmlookup objs k \<noteq> None
      then (if replaceExisting then Inr (fmupd k obj objs) else Inl (NewAlreadyExists gr (om_name (metadata obj))))
      else (if replaceExisting then Inl (NewNotFound gr (om_name (metadata obj))) else Inr (fmupd k obj objs)))"
  by (simp add: tracker_add_def ObjectKeyFromObject_def Let_def)

lemma tracker_ok_upd:
  "tracker_ok rk objs \<Longrightarrow> stored_ok rk k obj \<Longrightarrow> tracker_ok rk (fmupd k obj objs)"
  unfolding tracker_ok_def by auto

lemma tracker_ok_drop: "tracker_ok rk objs \<Longrightarrow> tracker_ok rk (fmdrop k objs)"
  by (simp add: tracker_ok_def fmlookup_drop)

lemma tracker_okD: "tracker_ok rk objs \<Longrightarrow> fmlookup objs k = Some obj \<Longrightarrow> stored_ok rk k obj"
  unfolding tracker_ok_def by blast

lemma stored_key: "stored_ok rk k obj \<Longrightarrow> k = (om_namespace (metadata obj), om_name (metadata obj))"
  by (auto simp: stored_ok_def ObjectKeyFromObject_def)

lemma version_ok_next [simp]: "version_ok (next_version n)"
proof -
  have "nat ((n + 1) mod 2 ^ 64) < 2 ^ 64" by (simp add: nat_less_iff)
  then show ?thesis unfolding version_ok_def next_version_def by blast
qed

lemma decimal_1: "decimal 1 = ''1''"
  by code_simp

lemma version_ok_1 [simp]: "version_ok ''1''"
proof -
  have "(1::nat) < 2 ^ 64" by simp
  then show ?thesis unfolding version_ok_def decimal_1 [symmetric] by blast
qed

lemma version_ok_parses: "version_ok rv \<Longrightarrow> rv \<noteq> [] \<and> (\<exists>n. ParseUint64 rv = Some n)"
  by (auto simp: version_ok_def ParseUint64_def)

lemma decode_set_resourceVersion [simp]:
  "decode_object rk (set_resourceVersion rv obj) = set_resourceVersion rv (decode_object rk obj)"
  by (simp add: decode_object_def set_resourceVersion_def)

lemma set_resourceVersion_twice [simp]:
  "set_resourceVersion rv (set_resourceVersion rv' obj) = set_resourceVersion rv obj"
  by (simp add: set_resourceVersion_def)

lemma stored_ok_set_version:
  "version_ok rv \<Longrightarrow> stored_ok rk k (set_resourceVersion rv obj) \<longleftrightarrow>
     ObjectKeyFromObject obj = k \<and> om_name (metadata obj) \<noteq> [] \<and>
     set_resourceVersion rv (decode_object rk obj) = set_resourceVersion rv obj \<and> kept_alive obj"
  by (simp add: stored_ok_def)

lemma decode_object_id:
  "decode_object rk obj = obj \<longleftrightarrow>
     om_deletionTimestamp (metadata obj) \<noteq> Some 0 \<and> rk_decode rk (spec obj) = spec obj"
proof -
  have "(if time_IsZero (om_deletionTimestamp (metadata obj)) then None
         else om_deletionTimestamp (metadata obj)) = om_deletionTimestamp (metadata obj) \<longleftrightarrow>
        om_deletionTimestamp (metadata obj) \<noteq> Some 0"
    by (auto simp: time_IsZero_def split: option.splits)
  then show ?thesis
    by (cases obj; cases "metadata obj") (auto simp: decode_object_def)
qed

text \<open>A create of a new name, and an update with the version that is stored.\<close>

lemma versioned_Create_new:
  assumes "fmlookup objs (ObjectKeyFromObject obj) = None" "om_name (metadata obj) \<noteq> []"
    and "om_resourceVersion (metadata obj) = []"
  shows "versioned_Create rk obj (om_namespace (metadata obj)) objs =
           (Inr (set_resourceVersion ''1'' obj),
            fmupd (ObjectKeyFromObject obj) (set_resourceVersion ''1'' obj) objs)"
  using assms tracker_add_own [of "resource_string rk" "set_resourceVersion ''1'' obj" False objs]
  by (simp add: versioned_Create_def Let_def)

lemma ParseUint64_decimal: "n < 2 ^ 64 \<Longrightarrow> ParseUint64 (decimal n) = Some (int n)"
  by (simp add: ParseUint64_def)

lemma ParseUint64_next: "ParseUint64 (next_version n) = Some ((n + 1) mod 2 ^ 64)"
  unfolding next_version_def by (subst ParseUint64_decimal) (simp_all add: nat_less_iff)

lemma successor_differs: "(n + 1) mod 2 ^ 64 \<noteq> (n :: int)"
proof
  assume eq: "(n + 1) mod 2 ^ 64 = n"
  have "0 \<le> (n + 1) mod 2 ^ 64" "(n + 1) mod 2 ^ 64 < 2 ^ 64" by simp_all
  with eq have "0 \<le> n" "n < 2 ^ 64" by simp_all
  with eq show False by (cases "n + 1 = 2 ^ 64") simp_all
qed

lemma next_version_new: "ParseUint64 rv = Some n \<Longrightarrow> next_version n \<noteq> rv"
  using ParseUint64_next [of n] successor_differs [of n] by auto

lemma versioned_Update_next:
  assumes "tracker_ok rk objs" "fmlookup objs (ObjectKeyFromObject obj) = Some old"
    and "om_resourceVersion (metadata obj) = om_resourceVersion (metadata old)"
  obtains n where "ParseUint64 (om_resourceVersion (metadata old)) = Some n"
    and "versioned_Update rk obj (om_namespace (metadata obj)) objs =
           (Inr (set_resourceVersion (next_version n) obj),
            if \<not> time_IsZero (om_deletionTimestamp (metadata obj)) \<and> om_finalizers (metadata obj) = []
            then fmdrop (ObjectKeyFromObject obj) objs
            else fmupd (ObjectKeyFromObject obj) (set_resourceVersion (next_version n) obj) objs)"
proof -
  have ok: "stored_ok rk (ObjectKeyFromObject obj) old" using assms(1,2) by (rule tracker_okD)
  then obtain n where n: "ParseUint64 (om_resourceVersion (metadata old)) = Some n"
    and ne: "om_resourceVersion (metadata old) \<noteq> []"
    using version_ok_parses by (auto simp: stored_ok_def)
  have name: "om_name (metadata obj) \<noteq> []"
    using ok by (auto simp: stored_ok_def ObjectKeyFromObject_def)
  have look: "fmlookup objs (om_namespace (metadata obj), om_name (metadata obj)) = Some old"
    using assms(2) by (simp add: ObjectKeyFromObject_def)
  show ?thesis
  proof (rule that [OF n])
    show "versioned_Update rk obj (om_namespace (metadata obj)) objs =
        (Inr (set_resourceVersion (next_version n) obj),
         if \<not> time_IsZero (om_deletionTimestamp (metadata obj)) \<and> om_finalizers (metadata obj) = []
         then fmdrop (ObjectKeyFromObject obj) objs
         else fmupd (ObjectKeyFromObject obj) (set_resourceVersion (next_version n) obj) objs)"
      using name look n ne assms(2,3)
        tracker_add_own [of "resource_string rk" "set_resourceVersion (next_version n) obj" True objs]
      by (simp add: versioned_Update_def tracker_Get_def tracker_Delete_def Let_def)
         (simp add: ObjectKeyFromObject_def)
  qed
qed

lemma versioned_Update_stored:
  assumes "tracker_ok rk objs" "fmlookup objs (ObjectKeyFromObject obj) = Some old"
    and "om_resourceVersion (metadata obj) = om_resourceVersion (metadata old)"
  obtains rv where "version_ok rv"
    and "versioned_Update rk obj (om_namespace (metadata obj)) objs =
           (Inr (set_resourceVersion rv obj),
            if \<not> time_IsZero (om_deletionTimestamp (metadata obj)) \<and> om_finalizers (metadata obj) = []
            then fmdrop (ObjectKeyFromObject obj) objs
            else fmupd (ObjectKeyFromObject obj) (set_resourceVersion rv obj) objs)"
  using versioned_Update_next [OF assms] version_ok_next by metis

section \<open>Optimistic concurrency\<close>

text \<open>
  An update made from a version that is no longer the stored one is refused as a conflict and
  stores nothing, unless it carries no version at all and the kind allows that.
\<close>

theorem stale_update_conflicts:
  assumes "fmlookup objs (ObjectKeyFromObject obj) = Some old" "om_name (metadata obj) \<noteq> []"
    and "om_resourceVersion (metadata obj) \<noteq> om_resourceVersion (metadata old)"
    and "om_resourceVersion (metadata obj) \<noteq> [] \<or> \<not> allowsUnconditionalUpdate (rk_gvk rk)"
  shows "versioned_Update rk obj (om_namespace (metadata obj)) objs =
     (Inl (NewConflict (resource_string rk) (om_name (metadata obj)) ''object was modified''), objs)"
  using assms by (auto simp: versioned_Update_def tracker_Get_def ObjectKeyFromObject_def Let_def)

text \<open>
  An update made from the stored version succeeds, stores exactly the object that was sent, and
  gives it a new version, the next number (modulo \<open>2 ^ 64\<close>, as the Go code counts).
\<close>

theorem update_advances_version:
  assumes "tracker_ok rk objs" "fmlookup objs (ObjectKeyFromObject obj) = Some old"
    and "om_resourceVersion (metadata obj) = om_resourceVersion (metadata old)"
    and "time_IsZero (om_deletionTimestamp (metadata obj))"
  shows "\<exists>n rv. ParseUint64 (om_resourceVersion (metadata old)) = Some n \<and>
     ParseUint64 rv = Some ((n + 1) mod 2 ^ 64) \<and> rv \<noteq> om_resourceVersion (metadata old) \<and>
     versioned_Update rk obj (om_namespace (metadata obj)) objs =
       (Inr (set_resourceVersion rv obj), fmupd (ObjectKeyFromObject obj) (set_resourceVersion rv obj) objs)"
proof -
  obtain n where n: "ParseUint64 (om_resourceVersion (metadata old)) = Some n"
    "versioned_Update rk obj (om_namespace (metadata obj)) objs =
       (Inr (set_resourceVersion (next_version n) obj),
        fmupd (ObjectKeyFromObject obj) (set_resourceVersion (next_version n) obj) objs)"
    using versioned_Update_next [OF assms(1-3)] assms(4) by auto
  with ParseUint64_next [of n] next_version_new [OF n(1)] show ?thesis by blast
qed

section \<open>Stored objects stay well formed\<close>

text \<open>
  The requests of a client, and what is asked of the objects in them: they survive encoding, and none is created that is being
  deleted without a finalizer. Of a patch nothing is asked, of a deletion that the clock does not show Go's zero time.
\<close>

datatype ('sp, 'st) request =
    CreateRequest "('sp, 'st) k8s_object"
  | UpdateRequest "('sp, 'st) k8s_object"
  | PatchRequest "('sp, 'st) k8s_object" "('sp, 'st) k8s_object"
  | DeleteRequest time object_meta

fun serve :: "('sp, 'st) resource_kind \<Rightarrow> ('sp, 'st) request \<Rightarrow> ('sp, 'st) tracker \<Rightarrow> ('sp, 'st) tracker" where
  "serve rk (CreateRequest obj) objs = snd (versioned_Create rk obj (om_namespace (metadata obj)) objs)"
| "serve rk (UpdateRequest obj) objs = snd (versioned_Update rk obj (om_namespace (metadata obj)) objs)"
| "serve rk (PatchRequest prior after) objs = snd (fake_Patch rk prior after objs)"
| "serve rk (DeleteRequest now m) objs = snd (deleteObject rk now m objs)"

fun request_ok :: "('sp, 'st) resource_kind \<Rightarrow> ('sp, 'st) request \<Rightarrow> bool" where
  "request_ok rk (CreateRequest obj) = (decode_object rk obj = obj \<and> kept_alive obj)"
| "request_ok rk (UpdateRequest obj) =
     (decode_object rk obj = obj \<and> (allowsCreateOnUpdate (rk_gvk rk) \<longrightarrow> kept_alive obj))"
| "request_ok rk (PatchRequest prior after) = True"
| "request_ok rk (DeleteRequest now m) = (now \<noteq> 0)"

lemma create_keeps:
  assumes "tracker_ok rk objs" "decode_object rk obj = obj" "kept_alive obj"
  shows "tracker_ok rk (snd (versioned_Create rk obj (om_namespace (metadata obj)) objs))"
  using assms tracker_add_own [of "resource_string rk" "set_resourceVersion ''1'' obj" False objs]
  by (auto simp: versioned_Create_def Let_def stored_ok_set_version intro!: tracker_ok_upd split: sum.splits if_splits)

lemma update_keeps:
  assumes "tracker_ok rk objs" "decode_object rk obj = obj"
    "fmlookup objs (ObjectKeyFromObject obj) = None \<Longrightarrow> allowsCreateOnUpdate (rk_gvk rk) \<Longrightarrow> kept_alive obj"
  shows "tracker_ok rk (snd (versioned_Update rk obj (om_namespace (metadata obj)) objs))"
proof (cases "om_name (metadata obj) = [] \<or> fmlookup objs (ObjectKeyFromObject obj) = None")
  case True
  then show ?thesis
    using assms create_keeps [OF assms(1,2)]
    by (auto simp: versioned_Update_def tracker_Get_def ObjectKeyFromObject_def split: sum.splits)
next
  case False
  then obtain old where old: "fmlookup objs (ObjectKeyFromObject obj) = Some old" "om_name (metadata obj) \<noteq> []" by blast
  define obj1 where "obj1 = (if om_resourceVersion (metadata obj) = [] \<and> allowsUnconditionalUpdate (rk_gvk rk)
    then set_resourceVersion (om_resourceVersion (metadata old)) obj else obj)"
  have o1: "decode_object rk obj1 = obj1" "ObjectKeyFromObject obj1 = ObjectKeyFromObject obj"
    "om_namespace (metadata obj1) = om_namespace (metadata obj)" "om_name (metadata obj1) = om_name (metadata obj)"
    using assms(2) by (simp_all add: obj1_def)
  show ?thesis
  proof (cases "om_resourceVersion (metadata obj1) = om_resourceVersion (metadata old)")
    case True
    have "versioned_Update rk obj (om_namespace (metadata obj)) objs = versioned_Update rk obj1 (om_namespace (metadata obj1)) objs"
    proof (cases "om_resourceVersion (metadata obj) = [] \<and> allowsUnconditionalUpdate (rk_gvk rk)")
      case True
      have "om_resourceVersion (metadata old) \<noteq> []"
        using tracker_okD [OF assms(1) old(1)] version_ok_parses by (auto simp: stored_ok_def)
      with True show ?thesis
        unfolding obj1_def using old by (simp add: versioned_Update_def tracker_Get_def ObjectKeyFromObject_def)
    qed (auto simp: obj1_def)
    moreover obtain rv where "version_ok rv" "versioned_Update rk obj1 (om_namespace (metadata obj1)) objs =
        (Inr (set_resourceVersion rv obj1),
         if \<not> time_IsZero (om_deletionTimestamp (metadata obj1)) \<and> om_finalizers (metadata obj1) = []
         then fmdrop (ObjectKeyFromObject obj1) objs
         else fmupd (ObjectKeyFromObject obj1) (set_resourceVersion rv obj1) objs)"
      using versioned_Update_stored [OF assms(1) _ True] old(1) o1(2) by metis
    ultimately show ?thesis
      using assms(1) o1 old(2)
      by (auto simp: stored_ok_set_version kept_alive_def intro!: tracker_ok_upd tracker_ok_drop)
  next
    case False
    then show ?thesis
      using old assms(1) unfolding obj1_def
      by (auto simp: versioned_Update_def tracker_Get_def ObjectKeyFromObject_def Let_def split: if_splits)
  qed
qed

lemma merged_object_key:
  assumes "ObjectKeyFromObject old = ObjectKeyFromObject after"
  shows "ObjectKeyFromObject (decode_object rk (merge_object f g prior after (decode_object rk old))) = ObjectKeyFromObject after"
  using assms by (simp add: ObjectKeyFromObject_def decode_object_def merge_object_def merge_meta_def merge_atom_def)

lemma patch_keeps:
  assumes "tracker_ok rk objs" "\<And>x. rk_decode rk (rk_decode rk x) = rk_decode rk x"
  shows "tracker_ok rk (snd (fake_Patch rk prior after objs))"
proof (cases "fmlookup objs (ObjectKeyFromObject after)")
  case None
  then show ?thesis using assms(1) by (simp add: fake_Patch_def tracker_Get_def ObjectKeyFromObject_def Let_def)
next
  case (Some old)
  let ?p = "decode_object rk (merge_object (rk_merge_spec rk) (rk_merge_status rk) prior after (decode_object rk old))"
  have "ObjectKeyFromObject old = ObjectKeyFromObject after" using tracker_okD [OF assms(1) Some] by (simp add: stored_ok_def)
  then have key: "ObjectKeyFromObject ?p = ObjectKeyFromObject after" by (rule merged_object_key)
  have dec: "decode_object rk ?p = ?p" using assms(2) by (simp add: decode_object_def time_IsZero_def split: option.split)
  have "tracker_ok rk (snd (versioned_Update rk ?p (om_namespace (metadata ?p)) objs))"
    using Some key by (intro update_keeps [OF assms(1) dec]) simp
  then show ?thesis
    using Some key by (auto simp: fake_Patch_def tracker_Get_def ObjectKeyFromObject_def Let_def split: prod.split sum.split)
qed

lemma delete_keeps:
  assumes "tracker_ok rk objs" "now \<noteq> 0"
  shows "tracker_ok rk (snd (deleteObject rk now m objs))"
proof (cases "fmlookup objs (om_namespace m, om_name m)")
  case None
  then show ?thesis using assms(1) by (simp add: deleteObject_def tracker_Get_def tracker_Delete_def Let_def)
next
  case (Some old)
  let ?old = "old\<lparr>metadata := (metadata old)\<lparr>om_deletionTimestamp := Some now\<rparr>\<rparr>"
  have ok: "stored_ok rk (om_namespace m, om_name m) old" by (rule tracker_okD [OF assms(1) Some])
  then have key: "ObjectKeyFromObject ?old = (om_namespace m, om_name m)" by (simp add: stored_ok_def ObjectKeyFromObject_def)
  then have ns: "om_namespace (metadata ?old) = om_namespace m" by (simp add: ObjectKeyFromObject_def)
  have "decode_object rk ?old = ?old" using ok assms(2) by (simp add: stored_ok_def decode_object_id)
  then have "tracker_ok rk (snd (versioned_Update rk ?old (om_namespace (metadata ?old)) objs))"
    using Some key by (intro update_keeps [OF assms(1)]) simp_all
  then show ?thesis
    using Some assms(1) ns
    by (auto simp: deleteObject_def tracker_Get_def tracker_Delete_def Let_def tracker_ok_drop split: prod.split sum.split)
qed


end
