(* ===== verification/Module_Reconciler.thy ===== *)
theory Module_Reconciler
  imports Desired_State
begin

text \<open>
  The reconciler of the Module that loads the driver and runs the device plugin
  (\<^verbatim>\<open>internal/module/module.go\<close>). A reconciler is a client and a scheme; the settings are a global
  of the Go program and an argument here. The pointer to the Module that \<^verbatim>\<open>SetDesiredModule\<close>
  fills in is optional, for the nil it checks.
\<close>

definition moduleSuffix :: string where "moduleSuffix = ''module''"
definition driverServiceAccount :: string where "driverServiceAccount = ''driver-habana''"
definition devicePluginLimitsCpu :: string where "devicePluginLimitsCpu = ''200m''"
definition devicePluginLimitsMemory :: string where "devicePluginLimitsMemory = ''100Mi''"
definition devicePluginRequestsCpu :: string where "devicePluginRequestsCpu = ''100m''"
definition devicePluginRequestsMemory :: string where "devicePluginRequestsMemory = ''50Mi''"
definition devicePluginServiceAccount :: string where "devicePluginServiceAccount = ''device-plugin''"
definition PullAlways :: string where "PullAlways = ''Always''"

definition GetModuleName :: "device_config \<Rightarrow> string" where
  "GetModuleName cr = om_name (metadata cr) @ ''-'' @ moduleSuffix"

text \<open>The regular expression of the kernel mapping; \<open>0x5C\<close> is the backslash.\<close>

definition kernel_regexp :: string where
  "kernel_regexp = ''^.*'' @ [CHR 0x5C] @ ''.el'' @ [CHR 0x5C] @ ''d_?'' @ [CHR 0x5C] @ ''d?'' @
     [CHR 0x5C] @ ''..*$''"

definition makeKernelMappings :: "device_config \<Rightarrow> kernel_mapping list" where
  "makeKernelMappings cr =
     [\<lparr>km_containerImage = driverImage (spec cr) @ '':'' @ driverVersion (spec cr) @ ''-${KERNEL_FULL_VERSION}'',
       km_literal = '''', km_regexp = kernel_regexp, km_other = no_fields\<rparr>]"

definition makeDevicePlugin :: "controller_settings \<Rightarrow> device_config \<Rightarrow> string \<Rightarrow> device_plugin_spec" where
  "makeDevicePlugin st cr deviceType =
     \<lparr>dp_container =
        \<lparr>dpc_command = [''habanalabs-device-plugin''],
         dpc_args = [''--dev_type'', deviceType],
         dpc_image = DevicePluginImage st,
         dpc_imagePullPolicy = PullAlways,
         dpc_resources =
           \<lparr>rr_limits = fmap_of_list [(''cpu'', MustParse devicePluginLimitsCpu),
                                      (''memory'', MustParse devicePluginLimitsMemory)],
            rr_requests = fmap_of_list [(''cpu'', MustParse devicePluginRequestsCpu),
                                        (''memory'', MustParse devicePluginRequestsMemory)]\<rparr>,
         dpc_other = no_fields\<rparr>,
      dp_serviceAccountName = devicePluginServiceAccount,
      dp_other = no_fields\<rparr>"

definition makeModuleLoader :: "device_config \<Rightarrow> module_loader_spec" where
  "makeModuleLoader cr =
     \<lparr>ml_container =
        \<lparr>mlc_imagePullPolicy = PullAlways,
         mlc_kernelMappings = makeKernelMappings cr,
         mlc_modprobe = \<lparr>mp_moduleName = ''habanalabs'', mp_firmwarePath = ''/opt/lib/firmware'',
                         mp_other = no_fields\<rparr>,
         mlc_other = no_fields\<rparr>,
      ml_serviceAccountName = driverServiceAccount\<rparr>"

definition SetDesiredModule ::
    "scheme \<Rightarrow> controller_settings \<Rightarrow> kmm_module option \<Rightarrow> device_config \<Rightarrow> go_error + kmm_module" where
  "SetDesiredModule scheme st m cr =
     (case m of
        None \<Rightarrow> Inl (TextError ''module cannot be nil'')
      | Some m \<Rightarrow>
          (let deviceType = ''gaudi'';
               devicePlugin = makeDevicePlugin st cr deviceType;
               ModuleLoader = makeModuleLoader cr;
               selector = GetNodeSelector cr [deviceType];
               m = m\<lparr>spec := \<lparr>ms_devicePlugin = Some devicePlugin, ms_moduleLoader = ModuleLoader,
                               ms_selector = Some selector, ms_other = no_fields\<rparr>\<rparr>
           in set_controller_reference scheme cr m))"

definition ReconcileModule ::
    "'s api \<Rightarrow> scheme \<Rightarrow> controller_settings \<Rightarrow> device_config \<Rightarrow> ('s, go_error option) effect" where
  "ReconcileModule api scheme st cr s =
     (let (got, s) = kc_get (api_modules api) (om_namespace (metadata cr), GetModuleName cr) s;
          m = named_object (GetModuleName cr) (om_namespace (metadata cr)) empty_module_spec
      in case (case got of
                 Inr existingModule \<Rightarrow> Inr existingModule
               | Inl err \<Rightarrow> if \<not> IsNotFound err then Inl err else Inr m) of
           Inl err \<Rightarrow> (Some err, s)
         | Inr m \<Rightarrow>
             (case CreateOrPatch (api_modules api) m (\<lambda>m. SetDesiredModule scheme st (Some m) cr) s of
                ((_, Some err, _), s) \<Rightarrow> (Some (errorf_v ''could not create or patch Module: '' err), s)
              | ((_, None, _), s) \<Rightarrow> (None, s)))"

definition DeleteModule :: "'s api \<Rightarrow> device_config \<Rightarrow> ('s, go_error option) effect" where
  "DeleteModule api cr s =
     (let m = named_object (GetModuleName cr) (om_namespace (metadata cr)) empty_module_spec
      in case kc_delete (api_modules api) m s of
           (Some err, s) \<Rightarrow>
             if \<not> IsNotFound err
             then (Some (errorf_w (''failed to delete Module '' @ om_name (metadata m) @ '': '') err), s)
             else (None, s)
         | (None, s) \<Rightarrow> (None, s))"

lemmas [workload_defs] = moduleSuffix_def driverServiceAccount_def devicePluginLimitsCpu_def
  devicePluginLimitsMemory_def devicePluginRequestsCpu_def devicePluginRequestsMemory_def
  devicePluginServiceAccount_def PullAlways_def makeDevicePlugin_def makeModuleLoader_def makeKernelMappings_def

section \<open>Facts\<close>

definition desired_module_spec :: "controller_settings \<Rightarrow> device_config \<Rightarrow> module_spec" where
  "desired_module_spec st cr =
     \<lparr>ms_devicePlugin = Some (makeDevicePlugin st cr ''gaudi''), ms_moduleLoader = makeModuleLoader cr,
      ms_selector = Some (GetNodeSelector cr [''gaudi'']), ms_other = no_fields\<rparr>"

lemma SetDesiredModule_eq:
  "SetDesiredModule scheme st (Some m) cr =
     set_controller_reference scheme cr (write_desired id id (\<lambda>_. desired_module_spec st cr) m)"
  by (simp add: SetDesiredModule_def write_desired_def desired_module_spec_def Let_def)

lemma ReconcileModule_eq:
  "ReconcileModule api scheme st cr s =
     ensure_object (api_modules api) (GetModuleName cr) (om_namespace (metadata cr)) empty_module_spec
       (\<lambda>m. SetDesiredModule scheme st (Some m) cr) ''could not create or patch Module: '' s"
  by (simp add: ReconcileModule_def ensure_object_def Let_def split: sum.split prod.split)

lemma DeleteModule_eq:
  "DeleteModule api cr s =
     remove_object (api_modules api)
       (named_object (GetModuleName cr) (om_namespace (metadata cr)) empty_module_spec)
       ''failed to delete Module '' s"
  by (simp add: DeleteModule_def remove_object_def Let_def)

interpretation module_writer:
  owned_writer "\<lambda>m. SetDesiredModule (AddToScheme base) st (Some m) cr" base cr id id
    "\<lambda>_. desired_module_spec st cr" for base st cr
  by unfold_locales (simp_all add: SetDesiredModule_eq)

text \<open>
  C25. The desired Module. Unless another controller owns the object (or it lies in another namespace),
  writing the desired state replaces the whole specification by the one computed from the
  \<open>DeviceConfig\<close> and the settings: the driver image is tagged with the driver version and the
  kernel's, the selector is the one in force, the device plugin image is the configured one.
  It makes the \<open>DeviceConfig\<close> the controller, keeps name, namespace, version, finalizers, status,
  labels and annotations, and applied again it changes nothing.
\<close>

theorem desired_module:
  "SetDesiredModule (AddToScheme base) st (Some m) cr = Inr m' \<longleftrightarrow>
     adoptable cr m \<and> m' = owned_by cr (m\<lparr>spec := desired_module_spec st cr\<rparr>) \<and>
     ms_selector (spec m') = Some (GetNodeSelector cr []) \<and>
     map km_containerImage (mlc_kernelMappings (ml_container (ms_moduleLoader (spec m')))) =
       [driverImage (spec cr) @ '':'' @ driverVersion (spec cr) @ ''-${KERNEL_FULL_VERSION}''] \<and>
     map_option (\<lambda>d. dpc_image (dp_container d)) (ms_devicePlugin (spec m')) = Some (DevicePluginImage st) \<and>
     GetControllerOf (metadata m') = Some (dc_ref cr) \<and>
     SetDesiredModule (AddToScheme base) st (Some m') cr = Inr m'"
proof -
  have "write_desired id id (\<lambda>_. desired_module_spec st cr) m = m\<lparr>spec := desired_module_spec st cr\<rparr>"
    by (simp add: write_desired_def)
  moreover have "GetNodeSelector cr [''gaudi''] = GetNodeSelector cr []"
    by (simp add: GetNodeSelector_def)
  ultimately show ?thesis
    using module_writer.accepted_iff [of base st m cr m'] module_writer.controlled [of base st m cr m']
      module_writer.idempotent [of base st m cr m']
    by (auto simp: desired_module_spec_def makeModuleLoader_def makeKernelMappings_def makeDevicePlugin_def)
qed

section \<open>The interface and its implementation\<close>

record 's module_interface =
  mod_ReconcileModule :: "device_config \<Rightarrow> ('s, go_error option) effect"
  mod_SetDesiredModule :: "kmm_module option \<Rightarrow> device_config \<Rightarrow> ('s, go_error + kmm_module option) effect"
  mod_DeleteModule :: "device_config \<Rightarrow> ('s, go_error option) effect"

text \<open>The settings are a global variable of the program.\<close>

definition module_NewReconciler :: "'s api \<Rightarrow> scheme \<Rightarrow> controller_settings \<Rightarrow> 's module_interface" where
  "module_NewReconciler c s st =
     \<lparr>mod_ReconcileModule = ReconcileModule c s st, mod_SetDesiredModule = (\<lambda>m cr. sets_desired (SetDesiredModule s st m cr)),
      mod_DeleteModule = DeleteModule c\<rparr>"

end
