(* ===== verification/Node_Labeler.thy ===== *)
theory Node_Labeler
  imports Module_Reconciler
begin

text \<open>
  The reconciler of the DaemonSet that labels the nodes (\<^verbatim>\<open>internal/node/labeler/labeler.go\<close>).
\<close>

definition nodeLabelerServiceAccount :: string where "nodeLabelerServiceAccount = ''node-labeler''"
definition nodeLabelerSuffix :: string where "nodeLabelerSuffix = ''node-labeler''"
definition nodeLabelerLimitsCpu :: string where "nodeLabelerLimitsCpu = ''1''"
definition nodeLabelerLimitsMemory :: string where "nodeLabelerLimitsMemory = ''200Mi''"
definition nodeLabelerRequestsCpu :: string where "nodeLabelerRequestsCpu = ''100m''"
definition nodeLabelerRequestsMemory :: string where "nodeLabelerRequestsMemory = ''200Mi''"

definition HostPathDirectory :: string where "HostPathDirectory = ''Directory''"

definition getNodeLabelerName :: "device_config \<Rightarrow> string" where
  "getNodeLabelerName cr = om_name (metadata cr) @ ''-'' @ nodeLabelerSuffix"

definition labelsForNodeLabelerDaemonSet :: "device_config \<Rightarrow> labels" where
  "labelsForNodeLabelerDaemonSet cr = fmap_of_list
     [(''app.kubernetes.io/name'', HabanaAIOperatorName), (''app.kubernetes.io/component'', nodeLabelerSuffix)]"

definition makeNodeLabelerContainer :: "controller_settings \<Rightarrow> device_config \<Rightarrow> container" where
  "makeNodeLabelerContainer st cr =
     (let nodeLabeler = new_container nodeLabelerSuffix;
          nodeLabeler = nodeLabeler\<lparr>c_image := NodeLabelerImage st\<rparr>;
          nodeLabeler = nodeLabeler\<lparr>c_imagePullPolicy := PullAlways\<rparr>;
          nodeLabeler = nodeLabeler\<lparr>c_securityContext :=
            Some \<lparr>sec_privileged = Some True, sec_runAsUser = Some 0, sec_other = no_fields\<rparr>\<rparr>;
          nodeLabeler = nodeLabeler\<lparr>c_resources :=
            \<lparr>rr_limits = fmap_of_list [(''cpu'', MustParse nodeLabelerLimitsCpu),
                                       (''memory'', MustParse nodeLabelerLimitsMemory)],
             rr_requests = fmap_of_list [(''cpu'', MustParse nodeLabelerRequestsCpu),
                                         (''memory'', MustParse nodeLabelerRequestsMemory)]\<rparr>\<rparr>;
          nodeLabeler = nodeLabeler\<lparr>c_volumeMounts :=
            [\<lparr>vm_name = ''pod-resources'',
              vm_mountPath = ''/etc/kubernetes/node-feature-discovery/features.d'',
              vm_readOnly = False, vm_other = no_fields\<rparr>]\<rparr>
      in nodeLabeler)"

definition SetDesiredNodeLabelerDaemonSet ::
    "scheme \<Rightarrow> controller_settings \<Rightarrow> daemon_set option \<Rightarrow> device_config \<Rightarrow> go_error + daemon_set" where
  "SetDesiredNodeLabelerDaemonSet scheme st ds cr =
     (case ds of
        None \<Rightarrow> Inl (TextError ''daemonset cannot be nil'')
      | Some ds \<Rightarrow>
          (let labels = labelsForNodeLabelerDaemonSet cr;
               ds = ds\<lparr>spec := (spec ds)\<lparr>ds_selector :=
                 Some \<lparr>lsel_matchLabels = labels, lsel_matchExpressions = []\<rparr>\<rparr>\<rparr>;
               ds = ds\<lparr>spec := (spec ds)\<lparr>ds_template :=
                 \<lparr>pt_metadata = empty_meta\<lparr>om_labels := labels\<rparr>, pt_spec = empty_pod_spec\<rparr>\<rparr>\<rparr>;
               volumes =
                 [\<lparr>vol_name = ''pod-resources'',
                   vol_hostPath = Some \<lparr>hp_path = ''/etc/kubernetes/node-feature-discovery/features.d'',
                                        hp_type = Some HostPathDirectory\<rparr>,
                   vol_other = no_fields\<rparr>];
               containers = [makeNodeLabelerContainer st cr];
               nodeSelector = copy_labels (GetNodeSelector cr []);
               ds = ds\<lparr>spec := (spec ds)\<lparr>ds_template := (ds_template (spec ds))\<lparr>pt_spec :=
                 \<lparr>ps_containers = containers, ps_hostPID = True, ps_nodeSelector = nodeSelector,
                  ps_priorityClassName = ''system-node-critical'',
                  ps_serviceAccountName = nodeLabelerServiceAccount,
                  ps_volumes = volumes, ps_other = no_fields\<rparr>\<rparr>\<rparr>\<rparr>
           in set_controller_reference scheme cr ds))"

definition ReconcileNodeLabelerDaemonSet ::
    "'s api \<Rightarrow> scheme \<Rightarrow> controller_settings \<Rightarrow> device_config \<Rightarrow> ('s, go_error option) effect" where
  "ReconcileNodeLabelerDaemonSet api scheme st cr s =
     (let (got, s) = kc_get (api_daemonsets api) (om_namespace (metadata cr), getNodeLabelerName cr) s;
          ds = named_object (getNodeLabelerName cr) (om_namespace (metadata cr)) empty_daemon_set_spec
      in case (case got of
                 Inr existingDS \<Rightarrow> Inr existingDS
               | Inl err \<Rightarrow> if \<not> IsNotFound err then Inl err else Inr ds) of
           Inl err \<Rightarrow> (Some err, s)
         | Inr ds \<Rightarrow>
             (case CreateOrPatch (api_daemonsets api) ds
                     (\<lambda>ds. SetDesiredNodeLabelerDaemonSet scheme st (Some ds) cr) s of
                ((_, Some err, _), s) \<Rightarrow> (Some (errorf_v ''could not create or patch DaemonSet: '' err), s)
              | ((_, None, _), s) \<Rightarrow> (None, s)))"

definition setNodeLabelerConditions :: "go_error option" where
  "setNodeLabelerConditions = None"

definition ReconcileNodeLabeler ::
    "'s api \<Rightarrow> scheme \<Rightarrow> controller_settings \<Rightarrow> device_config \<Rightarrow> ('s, go_error option) effect" where
  "ReconcileNodeLabeler api scheme st cr s =
     (case ReconcileNodeLabelerDaemonSet api scheme st cr s of
        (Some err, s) \<Rightarrow> (Some err, s)
      | (None, s) \<Rightarrow> (setNodeLabelerConditions, s))"

definition DeleteNodeLabelerDaemonSet :: "'s api \<Rightarrow> device_config \<Rightarrow> ('s, go_error option) effect" where
  "DeleteNodeLabelerDaemonSet api cr s =
     (let ds = named_object (getNodeLabelerName cr) (om_namespace (metadata cr)) empty_daemon_set_spec
      in case kc_delete (api_daemonsets api) ds s of
           (Some err, s) \<Rightarrow>
             if \<not> IsNotFound err
             then (Some (errorf_w (''failed to delete DaemonSet '' @ om_name (metadata ds) @ '': '') err), s)
             else (None, s)
         | (None, s) \<Rightarrow> (None, s))"

definition DeleteNodeLabeler :: "'s api \<Rightarrow> device_config \<Rightarrow> ('s, go_error option) effect" where
  "DeleteNodeLabeler api cr s = DeleteNodeLabelerDaemonSet api cr s"

lemmas [workload_defs] = nodeLabelerServiceAccount_def nodeLabelerSuffix_def nodeLabelerLimitsCpu_def
  nodeLabelerLimitsMemory_def nodeLabelerRequestsCpu_def nodeLabelerRequestsMemory_def HostPathDirectory_def
  labelsForNodeLabelerDaemonSet_def makeNodeLabelerContainer_def

section \<open>Facts\<close>

text \<open>The pod template the labeler writes, and the specification around it.\<close>

definition labeler_template :: "controller_settings \<Rightarrow> device_config \<Rightarrow> pod_template_spec" where
  "labeler_template st cr =
     \<lparr>pt_metadata = empty_meta\<lparr>om_labels := labelsForNodeLabelerDaemonSet cr\<rparr>,
      pt_spec =
        \<lparr>ps_containers = [makeNodeLabelerContainer st cr], ps_hostPID = True,
         ps_nodeSelector = GetNodeSelector cr [], ps_priorityClassName = ''system-node-critical'',
         ps_serviceAccountName = nodeLabelerServiceAccount,
         ps_volumes =
           [\<lparr>vol_name = ''pod-resources'',
             vol_hostPath = Some \<lparr>hp_path = ''/etc/kubernetes/node-feature-discovery/features.d'',
                                  hp_type = Some HostPathDirectory\<rparr>, vol_other = no_fields\<rparr>],
         ps_other = no_fields\<rparr>\<rparr>"

definition write_daemon_set :: "labels \<Rightarrow> pod_template_spec \<Rightarrow> daemon_set_spec \<Rightarrow> daemon_set_spec" where
  "write_daemon_set ls tmpl sp =
     sp\<lparr>ds_selector := Some \<lparr>lsel_matchLabels = ls, lsel_matchExpressions = []\<rparr>, ds_template := tmpl\<rparr>"

lemma write_daemon_set_simps [simp]:
  "ds_selector (write_daemon_set ls tmpl sp) = Some \<lparr>lsel_matchLabels = ls, lsel_matchExpressions = []\<rparr>"
  "ds_template (write_daemon_set ls tmpl sp) = tmpl"
  "ds_other (write_daemon_set ls tmpl sp) = ds_other sp"
  "write_daemon_set ls tmpl (write_daemon_set ls tmpl sp) = write_daemon_set ls tmpl sp"
  by (simp_all add: write_daemon_set_def)

lemma SetDesiredNodeLabelerDaemonSet_eq:
  "SetDesiredNodeLabelerDaemonSet scheme st (Some ds) cr =
     set_controller_reference scheme cr
       (write_desired id id (write_daemon_set (labelsForNodeLabelerDaemonSet cr) (labeler_template st cr)) ds)"
  by (simp add: SetDesiredNodeLabelerDaemonSet_def write_desired_def write_daemon_set_def
      labeler_template_def Let_def)

lemma ReconcileNodeLabelerDaemonSet_eq:
  "ReconcileNodeLabelerDaemonSet api scheme st cr s =
     ensure_object (api_daemonsets api) (getNodeLabelerName cr) (om_namespace (metadata cr)) empty_daemon_set_spec
       (\<lambda>ds. SetDesiredNodeLabelerDaemonSet scheme st (Some ds) cr) ''could not create or patch DaemonSet: '' s"
  by (simp add: ReconcileNodeLabelerDaemonSet_def ensure_object_def Let_def split: sum.split prod.split)

lemma ReconcileNodeLabeler_eq:
  "ReconcileNodeLabeler api scheme st cr s =
     ensure_object (api_daemonsets api) (getNodeLabelerName cr) (om_namespace (metadata cr)) empty_daemon_set_spec
       (\<lambda>ds. SetDesiredNodeLabelerDaemonSet scheme st (Some ds) cr) ''could not create or patch DaemonSet: '' s"
  by (simp add: ReconcileNodeLabeler_def ReconcileNodeLabelerDaemonSet_eq setNodeLabelerConditions_def split: prod.split option.split)

lemma DeleteNodeLabelerDaemonSet_eq:
  "DeleteNodeLabelerDaemonSet api cr s =
     remove_object (api_daemonsets api)
       (named_object (getNodeLabelerName cr) (om_namespace (metadata cr)) empty_daemon_set_spec)
       ''failed to delete DaemonSet '' s"
  by (simp add: DeleteNodeLabelerDaemonSet_def remove_object_def Let_def)

lemma DeleteNodeLabeler_eq:
  "DeleteNodeLabeler api cr s =
     remove_object (api_daemonsets api)
       (named_object (getNodeLabelerName cr) (om_namespace (metadata cr)) empty_daemon_set_spec)
       ''failed to delete DaemonSet '' s"
  by (simp add: DeleteNodeLabeler_def DeleteNodeLabelerDaemonSet_eq)

interpretation labeler_writer:
  owned_writer "\<lambda>ds. SetDesiredNodeLabelerDaemonSet (AddToScheme base) st (Some ds) cr" base cr id id
    "write_daemon_set (labelsForNodeLabelerDaemonSet cr) (labeler_template st cr)" for base st cr
  by unfold_locales (simp_all add: SetDesiredNodeLabelerDaemonSet_eq)

section \<open>The interface and its implementation\<close>

record 's labeler_interface =
  lab_ReconcileNodeLabeler :: "device_config \<Rightarrow> ('s, go_error option) effect"
  lab_DeleteNodeLabeler :: "device_config \<Rightarrow> ('s, go_error option) effect"
  lab_ReconcileNodeLabelerDaemonSet :: "device_config \<Rightarrow> ('s, go_error option) effect"
  lab_SetDesiredNodeLabelerDaemonSet :: "daemon_set option \<Rightarrow> device_config \<Rightarrow> ('s, go_error + daemon_set option) effect"
  lab_DeleteNodeLabelerDaemonSet :: "device_config \<Rightarrow> ('s, go_error option) effect"

definition labeler_NewReconciler :: "'s api \<Rightarrow> scheme \<Rightarrow> controller_settings \<Rightarrow> 's labeler_interface" where
  "labeler_NewReconciler c s st =
     \<lparr>lab_ReconcileNodeLabeler = ReconcileNodeLabeler c s st, lab_DeleteNodeLabeler = DeleteNodeLabeler c,
      lab_ReconcileNodeLabelerDaemonSet = ReconcileNodeLabelerDaemonSet c s st,
      lab_SetDesiredNodeLabelerDaemonSet = (\<lambda>ds cr. sets_desired (SetDesiredNodeLabelerDaemonSet s st ds cr)),
      lab_DeleteNodeLabelerDaemonSet = DeleteNodeLabelerDaemonSet c\<rparr>"

end
