(* ===== verification/Node_Metrics.thy ===== *)
theory Node_Metrics
  imports Node_Labeler
begin

text \<open>
  The reconciler of the DaemonSet that exports the nodes' metrics and of the Service that
  exposes it (\<^verbatim>\<open>internal/node/metrics/metrics.go\<close>).
\<close>

definition nodeMetricsServiceAccount :: string where "nodeMetricsServiceAccount = ''node-metrics''"
definition nodeMetricsSuffix :: string where "nodeMetricsSuffix = ''node-metrics''"
definition nodeMetricsPort :: int where "nodeMetricsPort = 41611"
definition nodeMetricsLimitsCpu :: string where "nodeMetricsLimitsCpu = ''1''"
definition nodeMetricsLimitsMemory :: string where "nodeMetricsLimitsMemory = ''200Mi''"
definition nodeMetricsRequestsCpu :: string where "nodeMetricsRequestsCpu = ''100m''"
definition nodeMetricsRequestsMemory :: string where "nodeMetricsRequestsMemory = ''200Mi''"

definition ProtocolTCP :: string where "ProtocolTCP = ''TCP''"

definition GetNodeMetricsName :: "device_config \<Rightarrow> string" where
  "GetNodeMetricsName cr = om_name (metadata cr) @ ''-'' @ nodeMetricsSuffix"

definition labelsForNodeMetricsDaemonSet :: "device_config \<Rightarrow> labels" where
  "labelsForNodeMetricsDaemonSet cr = fmap_of_list
     [(''app.kubernetes.io/name'', HabanaAIOperatorName), (''app.kubernetes.io/component'', nodeMetricsSuffix)]"

definition makeNodeMetricsContainer :: "controller_settings \<Rightarrow> device_config \<Rightarrow> container" where
  "makeNodeMetricsContainer st cr =
     (let nodeMetrics = new_container nodeMetricsSuffix;
          nodeMetrics = nodeMetrics\<lparr>c_image := NodeMetricsImage st\<rparr>;
          nodeMetrics = nodeMetrics\<lparr>c_imagePullPolicy := PullAlways\<rparr>;
          nodeMetrics = nodeMetrics\<lparr>c_securityContext :=
            Some \<lparr>sec_privileged = Some True, sec_runAsUser = Some 0, sec_other = no_fields\<rparr>\<rparr>;
          nodeMetrics = nodeMetrics\<lparr>c_ports :=
            [\<lparr>cp_name = nodeMetricsSuffix, cp_hostPort = nodeMetricsPort,
              cp_containerPort = nodeMetricsPort, cp_protocol = ProtocolTCP, cp_other = no_fields\<rparr>]\<rparr>;
          nodeMetrics = nodeMetrics\<lparr>c_resources :=
            \<lparr>rr_limits = fmap_of_list [(''cpu'', MustParse nodeMetricsLimitsCpu),
                                       (''memory'', MustParse nodeMetricsLimitsMemory)],
             rr_requests = fmap_of_list [(''cpu'', MustParse nodeMetricsRequestsCpu),
                                         (''memory'', MustParse nodeMetricsRequestsMemory)]\<rparr>\<rparr>;
          nodeMetrics = nodeMetrics\<lparr>c_volumeMounts :=
            [\<lparr>vm_name = ''pod-resources'', vm_mountPath = ''/var/lib/kubelet/pod-resources'',
              vm_readOnly = True, vm_other = no_fields\<rparr>]\<rparr>
      in nodeMetrics)"

definition SetDesiredNodeMetricsDaemonSet ::
    "scheme \<Rightarrow> controller_settings \<Rightarrow> daemon_set option \<Rightarrow> device_config \<Rightarrow> go_error + daemon_set" where
  "SetDesiredNodeMetricsDaemonSet scheme st ds cr =
     (case ds of
        None \<Rightarrow> Inl (TextError ''daemonset cannot be nil'')
      | Some ds \<Rightarrow>
          (let labels = labelsForNodeMetricsDaemonSet cr;
               ds = ds\<lparr>spec := (spec ds)\<lparr>ds_selector :=
                 Some \<lparr>lsel_matchLabels = labels, lsel_matchExpressions = []\<rparr>\<rparr>\<rparr>;
               ds = ds\<lparr>spec := (spec ds)\<lparr>ds_template :=
                 \<lparr>pt_metadata = empty_meta\<lparr>om_labels := labels\<rparr>, pt_spec = empty_pod_spec\<rparr>\<rparr>\<rparr>;
               volumes =
                 [\<lparr>vol_name = ''pod-resources'',
                   vol_hostPath = Some \<lparr>hp_path = ''/var/lib/kubelet/pod-resources'',
                                        hp_type = Some HostPathDirectory\<rparr>,
                   vol_other = no_fields\<rparr>];
               containers = [makeNodeMetricsContainer st cr];
               nodeSelector = copy_labels (GetNodeSelector cr [''gaudi'']);
               ds = ds\<lparr>spec := (spec ds)\<lparr>ds_template := (ds_template (spec ds))\<lparr>pt_spec :=
                 \<lparr>ps_containers = containers, ps_hostPID = True, ps_nodeSelector = nodeSelector,
                  ps_priorityClassName = ''system-node-critical'',
                  ps_serviceAccountName = nodeMetricsServiceAccount,
                  ps_volumes = volumes, ps_other = no_fields\<rparr>\<rparr>\<rparr>\<rparr>
           in set_controller_reference scheme cr ds))"

definition SetDesiredNodeMetricsService ::
    "scheme \<Rightarrow> service option \<Rightarrow> device_config \<Rightarrow> go_error + service" where
  "SetDesiredNodeMetricsService scheme s cr =
     (case s of
        None \<Rightarrow> Inl (TextError ''service cannot be nil'')
      | Some s \<Rightarrow>
          (let s = s\<lparr>metadata := (metadata s)\<lparr>om_labels := labelsForNodeMetricsDaemonSet cr\<rparr>\<rparr>;
               s = s\<lparr>metadata := (metadata s)\<lparr>om_annotations :=
                 fmap_of_list [(''prometheus.io/scrape'', ''true'')]\<rparr>\<rparr>;
               s = s\<lparr>spec :=
                 \<lparr>svc_ports =
                    [\<lparr>sp_name = nodeMetricsSuffix, sp_protocol = ProtocolTCP, sp_port = nodeMetricsPort,
                      sp_targetPort = FromInt nodeMetricsPort, sp_other = no_fields\<rparr>],
                  svc_selector = labelsForNodeMetricsDaemonSet cr, svc_other = no_fields\<rparr>\<rparr>
           in set_controller_reference scheme cr s))"

definition ReconcileNodeMetricsDaemonSet ::
    "'s api \<Rightarrow> scheme \<Rightarrow> controller_settings \<Rightarrow> device_config \<Rightarrow> ('s, go_error option) effect" where
  "ReconcileNodeMetricsDaemonSet api scheme st cr s =
     (let (got, s) = kc_get (api_daemonsets api) (om_namespace (metadata cr), GetNodeMetricsName cr) s;
          ds = named_object (GetNodeMetricsName cr) (om_namespace (metadata cr)) empty_daemon_set_spec
      in case (case got of
                 Inr existingDS \<Rightarrow> Inr existingDS
               | Inl err \<Rightarrow> if \<not> IsNotFound err then Inl err else Inr ds) of
           Inl err \<Rightarrow> (Some err, s)
         | Inr ds \<Rightarrow>
             (case CreateOrPatch (api_daemonsets api) ds
                     (\<lambda>ds. SetDesiredNodeMetricsDaemonSet scheme st (Some ds) cr) s of
                ((_, Some err, _), s) \<Rightarrow> (Some (errorf_v ''could not create or patch DaemonSet: '' err), s)
              | ((_, None, _), s) \<Rightarrow> (None, s)))"

definition ReconcileNodeMetricsService ::
    "'s api \<Rightarrow> scheme \<Rightarrow> device_config \<Rightarrow> ('s, go_error option) effect" where
  "ReconcileNodeMetricsService api scheme cr s =
     (let (got, s) = kc_get (api_services api) (om_namespace (metadata cr), GetNodeMetricsName cr) s;
          svc = named_object (GetNodeMetricsName cr) (om_namespace (metadata cr)) empty_service_spec
      in case (case got of
                 Inr existingService \<Rightarrow> Inr existingService
               | Inl err \<Rightarrow> if \<not> IsNotFound err then Inl err else Inr svc) of
           Inl err \<Rightarrow> (Some err, s)
         | Inr svc \<Rightarrow>
             (case CreateOrPatch (api_services api) svc
                     (\<lambda>svc. SetDesiredNodeMetricsService scheme (Some svc) cr) s of
                ((_, Some err, _), s) \<Rightarrow> (Some (errorf_v ''could not create or patch Service: '' err), s)
              | ((_, None, _), s) \<Rightarrow> (None, s)))"

definition setNodeMetricsConditions :: "go_error option" where
  "setNodeMetricsConditions = None"

definition ReconcileNodeMetrics ::
    "'s api \<Rightarrow> scheme \<Rightarrow> controller_settings \<Rightarrow> device_config \<Rightarrow> ('s, go_error option) effect" where
  "ReconcileNodeMetrics api scheme st cr s =
     (case ReconcileNodeMetricsDaemonSet api scheme st cr s of
        (Some err, s) \<Rightarrow> (Some err, s)
      | (None, s) \<Rightarrow>
          (case ReconcileNodeMetricsService api scheme cr s of
             (Some err, s) \<Rightarrow> (Some err, s)
           | (None, s) \<Rightarrow> (setNodeMetricsConditions, s)))"

definition DeleteNodeMetricsDaemonSet :: "'s api \<Rightarrow> device_config \<Rightarrow> ('s, go_error option) effect" where
  "DeleteNodeMetricsDaemonSet api cr s =
     (let ds = named_object (GetNodeMetricsName cr) (om_namespace (metadata cr)) empty_daemon_set_spec
      in case kc_delete (api_daemonsets api) ds s of
           (Some err, s) \<Rightarrow>
             if \<not> IsNotFound err
             then (Some (errorf_w (''failed to delete DaemonSet '' @ om_name (metadata ds) @ '': '') err), s)
             else (None, s)
         | (None, s) \<Rightarrow> (None, s))"

definition DeleteNodeMetricsService :: "'s api \<Rightarrow> device_config \<Rightarrow> ('s, go_error option) effect" where
  "DeleteNodeMetricsService api cr s =
     (let svc = named_object (GetNodeMetricsName cr) (om_namespace (metadata cr)) empty_service_spec
      in case kc_delete (api_services api) svc s of
           (Some err, s) \<Rightarrow>
             if \<not> IsNotFound err
             then (Some (errorf_w (''failed to delete Service '' @ om_name (metadata svc) @ '': '') err), s)
             else (None, s)
         | (None, s) \<Rightarrow> (None, s))"

definition DeleteNodeMetrics :: "'s api \<Rightarrow> device_config \<Rightarrow> ('s, go_error option) effect" where
  "DeleteNodeMetrics api cr s =
     (case DeleteNodeMetricsDaemonSet api cr s of
        (Some err, s) \<Rightarrow> (Some err, s)
      | (None, s) \<Rightarrow>
          (case DeleteNodeMetricsService api cr s of
             (Some err, s) \<Rightarrow> (Some err, s)
           | (None, s) \<Rightarrow> (None, s)))"

lemmas [workload_defs] = nodeMetricsServiceAccount_def nodeMetricsSuffix_def nodeMetricsPort_def
  nodeMetricsLimitsCpu_def nodeMetricsLimitsMemory_def nodeMetricsRequestsCpu_def nodeMetricsRequestsMemory_def
  ProtocolTCP_def labelsForNodeMetricsDaemonSet_def makeNodeMetricsContainer_def

section \<open>Facts\<close>

definition metrics_template :: "controller_settings \<Rightarrow> device_config \<Rightarrow> pod_template_spec" where
  "metrics_template st cr =
     \<lparr>pt_metadata = empty_meta\<lparr>om_labels := labelsForNodeMetricsDaemonSet cr\<rparr>,
      pt_spec =
        \<lparr>ps_containers = [makeNodeMetricsContainer st cr], ps_hostPID = True,
         ps_nodeSelector = GetNodeSelector cr [''gaudi''], ps_priorityClassName = ''system-node-critical'',
         ps_serviceAccountName = nodeMetricsServiceAccount,
         ps_volumes =
           [\<lparr>vol_name = ''pod-resources'',
             vol_hostPath = Some \<lparr>hp_path = ''/var/lib/kubelet/pod-resources'',
                                  hp_type = Some HostPathDirectory\<rparr>, vol_other = no_fields\<rparr>],
         ps_other = no_fields\<rparr>\<rparr>"

definition desired_service_spec :: "device_config \<Rightarrow> service_spec" where
  "desired_service_spec cr =
     \<lparr>svc_ports =
        [\<lparr>sp_name = nodeMetricsSuffix, sp_protocol = ProtocolTCP, sp_port = nodeMetricsPort,
          sp_targetPort = FromInt nodeMetricsPort, sp_other = no_fields\<rparr>],
      svc_selector = labelsForNodeMetricsDaemonSet cr, svc_other = no_fields\<rparr>"

definition scrape_annotations :: labels where
  "scrape_annotations = fmap_of_list [(''prometheus.io/scrape'', ''true'')]"

lemma SetDesiredNodeMetricsDaemonSet_eq:
  "SetDesiredNodeMetricsDaemonSet scheme st (Some ds) cr =
     set_controller_reference scheme cr
       (write_desired id id (write_daemon_set (labelsForNodeMetricsDaemonSet cr) (metrics_template st cr)) ds)"
  by (simp add: SetDesiredNodeMetricsDaemonSet_def write_desired_def write_daemon_set_def
      metrics_template_def Let_def)

lemma SetDesiredNodeMetricsService_eq:
  "SetDesiredNodeMetricsService scheme (Some s) cr =
     set_controller_reference scheme cr
       (write_desired (\<lambda>_. labelsForNodeMetricsDaemonSet cr) (\<lambda>_. scrape_annotations)
         (\<lambda>_. desired_service_spec cr) s)"
  by (simp add: SetDesiredNodeMetricsService_def write_desired_def desired_service_spec_def
      scrape_annotations_def Let_def)

lemma ReconcileNodeMetricsDaemonSet_eq:
  "ReconcileNodeMetricsDaemonSet api scheme st cr s =
     ensure_object (api_daemonsets api) (GetNodeMetricsName cr) (om_namespace (metadata cr)) empty_daemon_set_spec
       (\<lambda>ds. SetDesiredNodeMetricsDaemonSet scheme st (Some ds) cr) ''could not create or patch DaemonSet: '' s"
  by (simp add: ReconcileNodeMetricsDaemonSet_def ensure_object_def Let_def split: sum.split prod.split)

lemma ReconcileNodeMetricsService_eq:
  "ReconcileNodeMetricsService api scheme cr s =
     ensure_object (api_services api) (GetNodeMetricsName cr) (om_namespace (metadata cr)) empty_service_spec
       (\<lambda>svc. SetDesiredNodeMetricsService scheme (Some svc) cr) ''could not create or patch Service: '' s"
  by (simp add: ReconcileNodeMetricsService_def ensure_object_def Let_def split: sum.split prod.split)

lemma DeleteNodeMetricsDaemonSet_eq:
  "DeleteNodeMetricsDaemonSet api cr s =
     remove_object (api_daemonsets api)
       (named_object (GetNodeMetricsName cr) (om_namespace (metadata cr)) empty_daemon_set_spec)
       ''failed to delete DaemonSet '' s"
  by (simp add: DeleteNodeMetricsDaemonSet_def remove_object_def Let_def)

lemma DeleteNodeMetricsService_eq:
  "DeleteNodeMetricsService api cr s =
     remove_object (api_services api)
       (named_object (GetNodeMetricsName cr) (om_namespace (metadata cr)) empty_service_spec)
       ''failed to delete Service '' s"
  by (simp add: DeleteNodeMetricsService_def remove_object_def Let_def)

interpretation metrics_writer:
  owned_writer "\<lambda>ds. SetDesiredNodeMetricsDaemonSet (AddToScheme base) st (Some ds) cr" base cr id id
    "write_daemon_set (labelsForNodeMetricsDaemonSet cr) (metrics_template st cr)" for base st cr
  by unfold_locales (simp_all add: SetDesiredNodeMetricsDaemonSet_eq)

interpretation service_writer:
  owned_writer "\<lambda>s. SetDesiredNodeMetricsService (AddToScheme base) (Some s) cr" base cr
    "\<lambda>_. labelsForNodeMetricsDaemonSet cr" "\<lambda>_. scrape_annotations" "\<lambda>_. desired_service_spec cr"
    for base cr
  by unfold_locales (simp_all add: SetDesiredNodeMetricsService_eq)

section \<open>The interface and its implementation\<close>

record 's metrics_interface =
  met_ReconcileNodeMetrics :: "device_config \<Rightarrow> ('s, go_error option) effect"
  met_DeleteNodeMetrics :: "device_config \<Rightarrow> ('s, go_error option) effect"
  met_ReconcileNodeMetricsDaemonSet :: "device_config \<Rightarrow> ('s, go_error option) effect"
  met_SetDesiredNodeMetricsDaemonSet :: "daemon_set option \<Rightarrow> device_config \<Rightarrow> ('s, go_error + daemon_set option) effect"
  met_DeleteNodeMetricsDaemonSet :: "device_config \<Rightarrow> ('s, go_error option) effect"
  met_ReconcileNodeMetricsService :: "device_config \<Rightarrow> ('s, go_error option) effect"
  met_SetDesiredNodeMetricsService :: "service option \<Rightarrow> device_config \<Rightarrow> ('s, go_error + service option) effect"
  met_DeleteNodeMetricsService :: "device_config \<Rightarrow> ('s, go_error option) effect"

definition metrics_NewReconciler :: "'s api \<Rightarrow> scheme \<Rightarrow> controller_settings \<Rightarrow> 's metrics_interface" where
  "metrics_NewReconciler c s st =
     \<lparr>met_ReconcileNodeMetrics = ReconcileNodeMetrics c s st, met_DeleteNodeMetrics = DeleteNodeMetrics c,
      met_ReconcileNodeMetricsDaemonSet = ReconcileNodeMetricsDaemonSet c s st,
      met_SetDesiredNodeMetricsDaemonSet = (\<lambda>ds cr. sets_desired (SetDesiredNodeMetricsDaemonSet s st ds cr)),
      met_DeleteNodeMetricsDaemonSet = DeleteNodeMetricsDaemonSet c,
      met_ReconcileNodeMetricsService = ReconcileNodeMetricsService c s,
      met_SetDesiredNodeMetricsService = (\<lambda>svc cr. sets_desired (SetDesiredNodeMetricsService s svc cr)),
      met_DeleteNodeMetricsService = DeleteNodeMetricsService c\<rparr>"

end
