(* ===== verification/Fake_Cluster.thy ===== *)
theory Fake_Cluster
  imports Fake_Client Node_Metrics
begin

text \<open>
  A cluster on the in-memory server: one tracker per kind of object the operator uses and a
  clock. It keeps the promises of \<open>Client_Interface\<close>, so that what is proved from them holds of
  the operator running against it.
\<close>

section \<open>Clients keep the promises\<close>

text \<open>\<open>get\<close> and \<open>put\<close> form a lens on the world; the clock never reads the zero time.\<close>

locale fake_kind =
  fixes rk :: "('sp, 'st) resource_kind"
    and now :: "'w \<Rightarrow> time"
    and get :: "'w \<Rightarrow> ('sp, 'st) tracker"
    and put :: "('sp, 'st) tracker \<Rightarrow> 'w \<Rightarrow> 'w"
  assumes get_put [simp]: "get (put t w) = t"
    and put_put [simp]: "put t (put t' w) = put t w"
    and put_get [simp]: "put (get w) w = w"
    and now_pos: "now w \<noteq> 0"
begin

lemma get_stored:
  assumes "tracker_ok rk (get w)" "fmlookup (get w) k = Some x"
  shows "kc_get (fake_client rk now get put) k w = (Inr x, w)"
  using tracker_okD [OF assms] assms(2)
  by (cases k) (simp add: fake_client_def fake_Get_def tracker_Get_def stored_ok_def)

lemma list_items:
  assumes "tracker_ok rk (get w)"
  shows "map (decode_object rk) (map snd (sorted_list_of_fmap (get w))) = map snd (sorted_list_of_fmap (get w))"
proof (rule map_idI)
  fix x assume "x \<in> set (map snd (sorted_list_of_fmap (get w)))"
  then obtain k where "fmlookup (get w) k = Some x" by (auto simp: set_sorted_list_of_fmap)
  then show "decode_object rk x = x" using tracker_okD [OF assms] by (auto simp: stored_ok_def)
qed

lemma list_keys:
  assumes "tracker_ok rk (get w)"
  shows "map ObjectKeyFromObject (map snd (sorted_list_of_fmap (get w))) = map fst (sorted_list_of_fmap (get w))"
proof -
  have "ObjectKeyFromObject (snd kv) = fst kv" if "kv \<in> set (sorted_list_of_fmap (get w))" for kv
    using that tracker_okD [OF assms, of "fst kv" "snd kv"]
    by (auto simp: set_sorted_list_of_fmap stored_ok_def)
  then have "map (\<lambda>kv. ObjectKeyFromObject (snd kv)) (sorted_list_of_fmap (get w)) =
      map fst (sorted_list_of_fmap (get w))"
    by (rule map_cong [OF refl])
  then show ?thesis by (simp only: map_map comp_def)
qed

lemma update_result:
  assumes "tracker_ok rk (get w)" "fmlookup (get w) (ObjectKeyFromObject y) = Some x"
    and "om_resourceVersion (metadata y) = om_resourceVersion (metadata x)"
    and "decode_object rk y = y"
    and "time_IsZero (om_deletionTimestamp (metadata y)) \<or> om_finalizers (metadata y) \<noteq> []"
  shows "\<exists>rv. version_ok rv \<and>
           on_tracker get put (versioned_Update rk y (om_namespace (metadata y))) w =
             (Inr (set_resourceVersion rv y), put (fmupd (ObjectKeyFromObject y) (set_resourceVersion rv y) (get w)) w) \<and>
           tracker_ok rk (fmupd (ObjectKeyFromObject y) (set_resourceVersion rv y) (get w))"
proof -
  obtain rv where ok: "version_ok rv" and upd: "versioned_Update rk y (om_namespace (metadata y)) (get w) =
      (Inr (set_resourceVersion rv y),
       if \<not> time_IsZero (om_deletionTimestamp (metadata y)) \<and> om_finalizers (metadata y) = []
       then fmdrop (ObjectKeyFromObject y) (get w)
       else fmupd (ObjectKeyFromObject y) (set_resourceVersion rv y) (get w))"
    by (rule versioned_Update_stored [OF assms(1-3)])
  have rv: "version_ok rv" "versioned_Update rk y (om_namespace (metadata y)) (get w) =
      (Inr (set_resourceVersion rv y), fmupd (ObjectKeyFromObject y) (set_resourceVersion rv y) (get w))"
    using ok upd assms(5) by auto
  have "om_name (metadata y) \<noteq> []"
    using tracker_okD [OF assms(1,2)] by (auto simp: stored_ok_def ObjectKeyFromObject_def)
  then have "stored_ok rk (ObjectKeyFromObject y) (set_resourceVersion rv y)"
    using rv(1) assms(4,5) by (simp add: stored_ok_set_version kept_alive_def)
  then have "tracker_ok rk (fmupd (ObjectKeyFromObject y) (set_resourceVersion rv y) (get w))"
    by (rule tracker_ok_upd [OF assms(1)])
  moreover have "on_tracker get put (versioned_Update rk y (om_namespace (metadata y))) w =
      (Inr (set_resourceVersion rv y), put (fmupd (ObjectKeyFromObject y) (set_resourceVersion rv y) (get w)) w)"
    by (simp only: on_tracker_def rv(2) prod.case)
  ultimately show ?thesis using rv(1) by blast
qed

lemma stored_decoded:
  "tracker_ok rk (get w) \<Longrightarrow> fmlookup (get w) k = Some x \<Longrightarrow> decode_object rk x = x"
  by (drule (1) tracker_okD) (simp add: stored_ok_def)

lemma update_kept:
  assumes ok: "tracker_ok rk (get w)" and st: "fmlookup (get w) (ObjectKeyFromObject y) = Some x"
    and rv: "om_resourceVersion (metadata y) = om_resourceVersion (metadata x)"
    and sp: "rk_decode rk (spec y) = spec y"
    and dt: "om_deletionTimestamp (metadata y) = om_deletionTimestamp (metadata x)"
    and z: "time_IsZero (om_deletionTimestamp (metadata y)) \<or> om_finalizers (metadata y) \<noteq> []"
  shows "\<exists>rv w'. on_tracker get put (versioned_Update rk y (om_namespace (metadata y))) w =
            (Inr (set_resourceVersion rv y), w') \<and> tracker_ok rk (get w') \<and>
          fmlookup (get w') = (fmlookup (get w))(ObjectKeyFromObject y \<mapsto> set_resourceVersion rv y) \<and>
          put fmempty w' = put fmempty w"
proof -
  have "decode_object rk y = y"
    using stored_decoded [OF ok st] sp dt by (simp add: decode_object_id)
  from update_result [OF ok st rv this z]
  obtain rv where *: "on_tracker get put (versioned_Update rk y (om_namespace (metadata y))) w =
      (Inr (set_resourceVersion rv y), put (fmupd (ObjectKeyFromObject y) (set_resourceVersion rv y) (get w)) w)"
    "tracker_ok rk (fmupd (ObjectKeyFromObject y) (set_resourceVersion rv y) (get w))" by blast
  show ?thesis by (rule exI, rule exI, intro conjI, rule *(1)) (simp_all add: *(2) fun_eq_iff)
qed

lemma update_gone:
  assumes ok: "tracker_ok rk (get w)" and st: "fmlookup (get w) (ObjectKeyFromObject y) = Some x"
    and rv: "om_resourceVersion (metadata y) = om_resourceVersion (metadata x)"
    and z: "\<not> time_IsZero (om_deletionTimestamp (metadata y))" "om_finalizers (metadata y) = []"
  shows "\<exists>rv w'. on_tracker get put (versioned_Update rk y (om_namespace (metadata y))) w =
            (Inr (set_resourceVersion rv y), w') \<and> tracker_ok rk (get w') \<and>
          fmlookup (get w') = (fmlookup (get w))(ObjectKeyFromObject y := None) \<and>
          put fmempty w' = put fmempty w"
proof -
  obtain rv where upd: "versioned_Update rk y (om_namespace (metadata y)) (get w) =
      (Inr (set_resourceVersion rv y),
       if \<not> time_IsZero (om_deletionTimestamp (metadata y)) \<and> om_finalizers (metadata y) = []
       then fmdrop (ObjectKeyFromObject y) (get w)
       else fmupd (ObjectKeyFromObject y) (set_resourceVersion rv y) (get w))"
    by (rule versioned_Update_stored [OF ok st rv])
  then have *: "versioned_Update rk y (om_namespace (metadata y)) (get w) =
      (Inr (set_resourceVersion rv y), fmdrop (ObjectKeyFromObject y) (get w))"
    using z by simp
  have res: "on_tracker get put (versioned_Update rk y (om_namespace (metadata y))) w =
      (Inr (set_resourceVersion rv y), put (fmdrop (ObjectKeyFromObject y) (get w)) w)"
    by (simp only: on_tracker_def * prod.case)
  show ?thesis
    by (rule exI, rule exI, intro conjI, rule res) (simp_all add: tracker_ok_drop [OF ok] fun_eq_iff)
qed

lemma delete_result:
  assumes ok: "tracker_ok rk (get w)" and st: "fmlookup (get w) (ObjectKeyFromObject x) = Some y"
  shows "om_finalizers (metadata y) = [] \<Longrightarrow>
           kc_delete (fake_client rk now get put) x w = (None, put (fmdrop (ObjectKeyFromObject x) (get w)) w)"
    and "om_finalizers (metadata y) \<noteq> [] \<Longrightarrow>
           \<exists>rv w'. kc_delete (fake_client rk now get put) x w = (None, w') \<and> tracker_ok rk (get w') \<and>
             fmlookup (get w') = (fmlookup (get w))(ObjectKeyFromObject x \<mapsto>
               set_resourceVersion rv (y\<lparr>metadata := (metadata y)\<lparr>om_deletionTimestamp := Some (now w)\<rparr>\<rparr>)) \<and>
             put fmempty w' = put fmempty w"
proof -
  have look: "fmlookup (get w) (om_namespace (metadata x), om_name (metadata x)) = Some y"
    using st by (simp add: ObjectKeyFromObject_def)
  show "om_finalizers (metadata y) = [] \<Longrightarrow>
      kc_delete (fake_client rk now get put) x w = (None, put (fmdrop (ObjectKeyFromObject x) (get w)) w)"
    using look by (simp add: fake_client_def on_tracker_def deleteObject_def tracker_Get_def
        tracker_Delete_def ObjectKeyFromObject_def Let_def)
  assume fin: "om_finalizers (metadata y) \<noteq> []"
  let ?y = "y\<lparr>metadata := (metadata y)\<lparr>om_deletionTimestamp := Some (now w)\<rparr>\<rparr>"
  have key: "ObjectKeyFromObject y = ObjectKeyFromObject x"
    using tracker_okD [OF ok st] by (simp add: stored_ok_def)
  then have ky: "ObjectKeyFromObject ?y = ObjectKeyFromObject x" by (simp add: ObjectKeyFromObject_def)
  then have nsy: "om_namespace (metadata ?y) = om_namespace (metadata x)" by (simp add: ObjectKeyFromObject_def)
  have st': "fmlookup (get w) (ObjectKeyFromObject ?y) = Some y" using st ky by simp
  have dy: "decode_object rk ?y = ?y" using stored_decoded [OF ok st] by (simp add: decode_object_id now_pos)
  from update_result [OF ok st' _ dy] fin
  obtain rv where rv: "on_tracker get put (versioned_Update rk ?y (om_namespace (metadata ?y))) w =
      (Inr (set_resourceVersion rv ?y), put (fmupd (ObjectKeyFromObject ?y) (set_resourceVersion rv ?y) (get w)) w)"
    "tracker_ok rk (fmupd (ObjectKeyFromObject ?y) (set_resourceVersion rv ?y) (get w))"
    by auto
  have "kc_delete (fake_client rk now get put) x w =
      (None, put (fmupd (ObjectKeyFromObject ?y) (set_resourceVersion rv ?y) (get w)) w)"
    using rv(1) fin look unfolding nsy
    by (simp add: fake_client_def on_tracker_def deleteObject_def tracker_Get_def Let_def
        split: prod.splits sum.splits)
  then show "\<exists>rv w'. kc_delete (fake_client rk now get put) x w = (None, w') \<and> tracker_ok rk (get w') \<and>
      fmlookup (get w') = (fmlookup (get w))(ObjectKeyFromObject x \<mapsto> set_resourceVersion rv ?y) \<and>
      put fmempty w' = put fmempty w"
    using rv(2) unfolding ky
    by (intro exI [where x = rv]
        exI [where x = "put (fmupd (ObjectKeyFromObject x) (set_resourceVersion rv ?y) (get w)) w"])
       (simp add: fun_eq_iff)
qed

end

sublocale fake_kind \<subseteq> reader: object_reader "fake_client rk now get put"
  "\<lambda>w. fmlookup (get w)" "\<lambda>w. tracker_ok rk (get w)"
proof
  fix w k x
  assume ok: "tracker_ok rk (get w)"
  show "fmlookup (get w) k = Some x \<Longrightarrow> kc_get (fake_client rk now get put) k w = (Inr x, w)"
    using get_stored [OF ok] .
  show "fmlookup (get w) k = None \<Longrightarrow> \<exists>e. kc_get (fake_client rk now get put) k w = (Inl e, w) \<and> IsNotFound e"
    by (cases k) (simp add: fake_client_def fake_Get_def tracker_Get_def)
  show "fmlookup (get w) k = Some x \<Longrightarrow> ObjectKeyFromObject x = k"
    using tracker_okD [OF ok] by (auto simp: stored_ok_def)
qed

sublocale fake_kind \<subseteq> lister: object_lister "fake_client rk now get put"
  "\<lambda>w. fmlookup (get w)" "\<lambda>w. tracker_ok rk (get w)"
proof
  fix w sel
  assume ok: "tracker_ok rk (get w)"
  let ?all = "map snd (sorted_list_of_fmap (get w))"
  have list: "fake_List rk sel (get w) =
      (case sel of None \<Rightarrow> ?all | Some ls \<Rightarrow> filter (\<lambda>x. selector_Matches ls (om_labels (metadata x))) ?all)"
    unfolding fake_List_def Let_def list_items [OF ok] ..
  have all: "distinct (map ObjectKeyFromObject ?all)" "set ?all = {x. \<exists>k. fmlookup (get w) k = Some x}"
    unfolding list_keys [OF ok]
    by (rule distinct_keys_sorted_list_of_fmap, force simp: set_sorted_list_of_fmap)
  have "distinct (map ObjectKeyFromObject (fake_List rk sel (get w)))"
    unfolding list using all(1) by (auto split: option.split intro: distinct_map_filter)
  moreover have "set (fake_List rk sel (get w)) = {x. \<exists>k. fmlookup (get w) k = Some x \<and>
      (case sel of None \<Rightarrow> True | Some rs \<Rightarrow> selector_Matches rs (om_labels (metadata x)))}"
    unfolding list using all(2) by (auto split: option.split)
  ultimately show "\<exists>xs. kc_list (fake_client rk now get put) sel w = (Inr xs, w) \<and>
      distinct (map ObjectKeyFromObject xs) \<and>
      set xs = {x. \<exists>k. fmlookup (get w) k = Some x \<and>
        (case sel of None \<Rightarrow> True | Some rs \<Rightarrow> selector_Matches rs (om_labels (metadata x)))}"
    by (simp add: fake_client_def)
qed

sublocale fake_kind \<subseteq> owner: owner_client "fake_client rk now get put"
  "\<lambda>w. fmlookup (get w)" "\<lambda>w. tracker_ok rk (get w)" "put fmempty" "\<lambda>sp. rk_decode rk sp = sp"
proof (unfold_locales, goal_cases)
  case (1 w k x)
  then show ?case using stored_decoded [of w k x] by (simp add: decode_object_id)
next
  case (2 w y x)
  then show ?case using update_kept [of w y x] by (simp add: fake_client_def)
next
  case (3 w y x)
  then show ?case using update_gone [of w y x] by (simp add: fake_client_def)
next
  case (4 w y x)
  moreover from 4 have "rk_decode rk (spec y) = spec y"
    using stored_decoded [of w "ObjectKeyFromObject y" x] by (simp add: decode_object_id)
  ultimately show ?case using update_kept [of w y x] by (simp add: fake_client_def)
qed

text \<open>
  The kinds whose specifications survive encoding unchanged and whose merge patches are right
  also keep the promises about the objects the operator creates.
\<close>

locale fake_child = fake_kind rk now get put
  for rk :: "('sp, 'st) resource_kind" and now :: "'w \<Rightarrow> time" and get put +
  assumes decode_id: "rk_decode rk sp = sp"
    and merge_spec: "rk_merge_spec rk b a b = a"
    and merge_status: "rk_merge_status rk c d c = d"
begin

lemma create_result:
  assumes "tracker_ok rk (get w)" "fmlookup (get w) (ObjectKeyFromObject x) = None"
    and "om_name (metadata x) \<noteq> []" "om_resourceVersion (metadata x) = []"
    and "om_deletionTimestamp (metadata x) = None"
  shows "\<exists>rv w'. kc_create (fake_client rk now get put) x w = (Inr (set_resourceVersion rv x), w') \<and>
           tracker_ok rk (get w') \<and>
           fmlookup (get w') = (fmlookup (get w))(ObjectKeyFromObject x \<mapsto> set_resourceVersion rv x) \<and>
           put fmempty w' = put fmempty w"
proof -
  let ?t = "fmupd (ObjectKeyFromObject x) (set_resourceVersion ''1'' x) (get w)"
  have "decode_object rk x = x" "kept_alive x"
    using assms(5) by (simp_all add: decode_object_id decode_id kept_alive_def time_IsZero_def)
  then have "tracker_ok rk ?t"
    using assms(3) by (intro tracker_ok_upd [OF assms(1)]) (simp add: stored_ok_set_version)
  moreover have "kc_create (fake_client rk now get put) x w = (Inr (set_resourceVersion ''1'' x), put ?t w)"
    using versioned_Create_new [OF assms(2-4), of rk] by (simp add: fake_client_def on_tracker_def)
  ultimately show ?thesis by (intro exI [where x = "''1''"] exI [where x = "put ?t w"]) (simp add: fun_eq_iff)
qed

lemma patch_result:
  assumes ok: "tracker_ok rk (get w)" and st: "fmlookup (get w) (ObjectKeyFromObject x) = Some x"
    and key: "ObjectKeyFromObject y = ObjectKeyFromObject x"
    and rv: "om_resourceVersion (metadata y) = om_resourceVersion (metadata x)"
    and fin: "om_finalizers (metadata y) = om_finalizers (metadata x)"
    and dt: "om_deletionTimestamp (metadata y) = om_deletionTimestamp (metadata x)"
  shows "\<exists>rv w'. kc_patch (fake_client rk now get put) x y w = (Inr (set_resourceVersion rv y), w') \<and>
           tracker_ok rk (get w') \<and>
           fmlookup (get w') = (fmlookup (get w))(ObjectKeyFromObject x \<mapsto> set_resourceVersion rv y) \<and>
           put fmempty w' = put fmempty w"
proof -
  have z: "time_IsZero (om_deletionTimestamp (metadata y)) \<or> om_finalizers (metadata y) \<noteq> []"
    using tracker_okD [OF ok st] fin dt by (simp add: stored_ok_def kept_alive_def)
  have dx: "decode_object rk x = x" by (rule stored_decoded [OF ok st])
  then have dy: "decode_object rk y = y" using dt by (simp add: decode_object_id decode_id)
  have merged: "merge_object (rk_merge_spec rk) (rk_merge_status rk) x y x = y"
    by (rule merge_object_self) (simp_all add: merge_spec merge_status)
  have look: "fmlookup (get w) (ObjectKeyFromObject y) = Some x" using st key by simp
  then have nn: "fmlookup (get w) (om_namespace (metadata y), om_name (metadata y)) = Some x"
    by (simp add: ObjectKeyFromObject_def)
  obtain rv' w' where *: "on_tracker get put (versioned_Update rk y (om_namespace (metadata y))) w =
      (Inr (set_resourceVersion rv' y), w')" "tracker_ok rk (get w')"
      "fmlookup (get w') = (fmlookup (get w))(ObjectKeyFromObject y \<mapsto> set_resourceVersion rv' y)"
      "put fmempty w' = put fmempty w"
    using update_kept [OF ok look rv decode_id dt z] by blast
  have "kc_patch (fake_client rk now get put) x y w = (Inr (set_resourceVersion rv' y), w')"
    using *(1) dy by (auto simp: fake_client_def on_tracker_def fake_Patch_def tracker_Get_def nn dx merged
        split: prod.splits sum.splits)
  then show ?thesis using * key by auto
qed

end

sublocale fake_child \<subseteq> child: child_client "fake_client rk now get put"
  "\<lambda>w. fmlookup (get w)" "\<lambda>w. tracker_ok rk (get w)" "put fmempty"
proof (unfold_locales, goal_cases)
  case (1 w x)
  then show ?case by (intro create_result)
next
  case (2 w x y)
  then show ?case by (intro patch_result)
next
  case (3 w x)
  then show ?case
    by (simp add: fake_client_def on_tracker_def deleteObject_def tracker_Get_def tracker_Delete_def
        ObjectKeyFromObject_def Let_def)
next
  case (4 w x y)
  then show ?case using delete_result(1) [of w x y]
    by (simp add: tracker_ok_drop fun_eq_iff)
next
  case (5 w x y)
  then obtain rv w' where "kc_delete (fake_client rk now get put) x w = (None, w')" "tracker_ok rk (get w')"
    "fmlookup (get w') = (fmlookup (get w))(ObjectKeyFromObject x \<mapsto>
       set_resourceVersion rv (y\<lparr>metadata := (metadata y)\<lparr>om_deletionTimestamp := Some (now w)\<rparr>\<rparr>))"
    "put fmempty w' = put fmempty w"
    using delete_result(2) [of w x y] by blast
  then show ?case using now_pos [of w]
    by (intro exI [where x = rv] exI [where x = "now w"] exI [where x = w']) simp
qed

text \<open>
  A stage of the operator on such a kind: the function \<open>f\<close> writes the desired state of the object it
  finds, or of a new one. The tracker gets the object in the desired state at its key, and nothing
  else in the world changes; where it was in that state, nothing at all.
\<close>

definition found_or_new ::
    "('sp, other_fields) tracker \<Rightarrow> string \<Rightarrow> string \<Rightarrow> 'sp \<Rightarrow> ('sp, other_fields) k8s_object" where
  "found_or_new objs name ns zero =
     (case fmlookup objs (ns, name) of None \<Rightarrow> named_object name ns zero | Some x \<Rightarrow> x)"

lemma fmap_eq_upd: "fmlookup t' = (fmlookup t)(k \<mapsto> x) \<Longrightarrow> t' = fmupd k x t"
  by (rule fmap_ext) simp

lemma fmap_eq_drop: "fmlookup t' = (fmlookup t)(k := None) \<Longrightarrow> t' = fmdrop k t"
  by (rule fmap_ext) (simp add: fun_eq_iff)

context fake_kind
begin

lemma frame: "put fmempty w' = put fmempty w \<Longrightarrow> w' = put (get w') w"
  by (metis put_get put_put)

end

locale fake_stage = fake_child rk now get put + desired_state f
  for rk :: "('sp, other_fields) resource_kind" and now :: "'w \<Rightarrow> time" and get put
    and f :: "('sp, other_fields) mutate_fn"

sublocale fake_stage \<subseteq> step: ensured "fake_client rk now get put"
    "\<lambda>w. fmlookup (get w)" "\<lambda>w. tracker_ok rk (get w)" "put fmempty" f
  by unfold_locales

context fake_stage
begin

lemma stage:
  assumes "tracker_ok rk (get w)" "name \<noteq> []" "f (found_or_new (get w) name ns zero) = Inr y"
  shows "\<exists>x. ensure_object (fake_client rk now get put) name ns zero f prefix w =
               (None, put (fmupd (ns, name) x (get w)) w) \<and>
             tracker_ok rk (fmupd (ns, name) x (get w)) \<and> f x = Inr x"
proof -
  obtain rv w' where *: "ensure_object (fake_client rk now get put) name ns zero f prefix w = (None, w')"
    "tracker_ok rk (get w')" "fmlookup (get w') = (fmlookup (get w))((ns, name) \<mapsto> set_resourceVersion rv y)"
    "put fmempty w' = put fmempty w" "f (set_resourceVersion rv y) = Inr (set_resourceVersion rv y)"
    using step.ensure_converges [OF assms(1,2) assms(3) [unfolded found_or_new_def], of prefix]
    by blast
  have new: "get w' = fmupd (ns, name) (set_resourceVersion rv y) (get w)"
    using *(3) by (rule fmap_eq_upd)
  have "w' = put (fmupd (ns, name) (set_resourceVersion rv y) (get w)) w"
    using frame [OF *(4)] unfolding new .
  with * new show ?thesis by (intro exI [where x = "set_resourceVersion rv y"]) simp
qed

lemma stage_stable:
  assumes "tracker_ok rk (get w)" "fmlookup (get w) (ns, name) = Some x" "f x = Inr x"
  shows "ensure_object (fake_client rk now get put) name ns zero f prefix w = (None, w)"
  using step.ensure_stable [OF assms] .

lemma stage_refused:
  assumes "tracker_ok rk (get w)" "f (found_or_new (get w) name ns zero) = Inl err"
  shows "ensure_object (fake_client rk now get put) name ns zero f prefix w = (Some (errorf_v prefix err), w)"
  using step.ensure_refused [OF assms(1) assms(2) [unfolded found_or_new_def]] .

lemma stage_total:
  assumes "tracker_ok rk (get w)" "name \<noteq> []"
  obtains (refused) err where "f (found_or_new (get w) name ns zero) = Inl err"
    "ensure_object (fake_client rk now get put) name ns zero f prefix w = (Some (errorf_v prefix err), w)"
  | (written) x where "ensure_object (fake_client rk now get put) name ns zero f prefix w =
      (None, put (fmupd (ns, name) x (get w)) w)"
    "tracker_ok rk (fmupd (ns, name) x (get w))" "f x = Inr x" "\<exists>y. f (found_or_new (get w) name ns zero) = Inr y"
proof (cases "f (found_or_new (get w) name ns zero)")
  case (Inl err)
  then show thesis using stage_refused [OF assms(1) Inl] by (rule refused)
next
  case (Inr y)
  then show thesis using stage [OF assms Inr] written by blast
qed

lemma removed:
  assumes "tracker_ok rk (get w)"
    and "\<And>x. fmlookup (get w) (ObjectKeyFromObject obj) = Some x \<Longrightarrow> om_finalizers (metadata x) = []"
  shows "remove_object (fake_client rk now get put) obj prefix w =
           (None, put (fmdrop (ObjectKeyFromObject obj) (get w)) w)"
proof -
  obtain w' where *: "remove_object (fake_client rk now get put) obj prefix w = (None, w')"
    "fmlookup (get w') = (fmlookup (get w))(ObjectKeyFromObject obj := None)" "put fmempty w' = put fmempty w"
    using child.remove_gone [OF assms] by blast
  have new: "get w' = fmdrop (ObjectKeyFromObject obj) (get w)" using *(2) by (rule fmap_eq_drop)
  have "w' = put (fmdrop (ObjectKeyFromObject obj) (get w)) w"
    using frame [OF *(3)] unfolding new .
  with *(1) show ?thesis by simp
qed

end

section \<open>The cluster\<close>

record world =
  w_deviceconfigs :: "(device_config_spec, device_config_status) tracker"
  w_modules :: "(module_spec, other_fields) tracker"
  w_daemonsets :: "(daemon_set_spec, other_fields) tracker"
  w_services :: "(service_spec, other_fields) tracker"
  w_nodes :: "(other_fields, other_fields) tracker"
  w_clock :: time

text \<open>An empty map of node selectors is omitted by the encoding, and nil when it is decoded.\<close>

definition decode_device_config_spec :: "device_config_spec \<Rightarrow> device_config_spec" where
  "decode_device_config_spec sp =
     (if nodeSelector sp = Some fmempty then sp\<lparr>nodeSelector := None\<rparr> else sp)"

definition deviceconfig_kind :: "(device_config_spec, device_config_status) resource_kind" where
  "deviceconfig_kind =
     \<lparr>rk_gvk = dc_gvk, rk_resource = ''deviceconfigs'', rk_decode = decode_device_config_spec,
      rk_merge_spec = \<lambda>b a s.
        \<lparr>driverImage = merge_atom (driverImage b) (driverImage a) (driverImage s),
         driverVersion = merge_atom (driverVersion b) (driverVersion a) (driverVersion s),
         nodeSelector = merge_pointer fmempty merge_map (nodeSelector b) (nodeSelector a) (nodeSelector s)\<rparr>,
      rk_merge_status = \<lambda>b a s. \<lparr>conditions = merge_atom (conditions b) (conditions a) (conditions s)\<rparr>\<rparr>"

definition module_kind :: "(module_spec, other_fields) resource_kind" where
  "module_kind =
     \<lparr>rk_gvk = \<lparr>gv_group = ''kmm.sigs.x-k8s.io'', gv_version = ''v1beta1'', gvk_kind = ''Module''\<rparr>,
      rk_resource = ''modules'', rk_decode = id, rk_merge_spec = merge_module_spec,
      rk_merge_status = merge_map\<rparr>"

definition daemonset_kind :: "(daemon_set_spec, other_fields) resource_kind" where
  "daemonset_kind =
     \<lparr>rk_gvk = \<lparr>gv_group = ''apps'', gv_version = ''v1'', gvk_kind = ''DaemonSet''\<rparr>,
      rk_resource = ''daemonsets'', rk_decode = id, rk_merge_spec = merge_daemon_set_spec,
      rk_merge_status = merge_map\<rparr>"

definition service_kind :: "(service_spec, other_fields) resource_kind" where
  "service_kind =
     \<lparr>rk_gvk = \<lparr>gv_group = '''', gv_version = ''v1'', gvk_kind = ''Service''\<rparr>,
      rk_resource = ''services'', rk_decode = id, rk_merge_spec = merge_service_spec,
      rk_merge_status = merge_map\<rparr>"

definition node_kind :: "(other_fields, other_fields) resource_kind" where
  "node_kind =
     \<lparr>rk_gvk = \<lparr>gv_group = '''', gv_version = ''v1'', gvk_kind = ''Node''\<rparr>,
      rk_resource = ''nodes'', rk_decode = id, rk_merge_spec = merge_map, rk_merge_status = merge_map\<rparr>"

definition world_now :: "world \<Rightarrow> time" where
  "world_now w = Suc (w_clock w)"

definition put_deviceconfigs where "put_deviceconfigs t w = w\<lparr>w_deviceconfigs := t\<rparr>"
definition put_modules where "put_modules t w = w\<lparr>w_modules := t\<rparr>"
definition put_daemonsets where "put_daemonsets t w = w\<lparr>w_daemonsets := t\<rparr>"
definition put_services where "put_services t w = w\<lparr>w_services := t\<rparr>"
definition put_nodes where "put_nodes t w = w\<lparr>w_nodes := t\<rparr>"

lemmas put_defs = put_deviceconfigs_def put_modules_def put_daemonsets_def put_services_def put_nodes_def

definition cluster :: "world api" where
  "cluster =
     \<lparr>api_deviceconfigs = fake_client deviceconfig_kind world_now w_deviceconfigs put_deviceconfigs,
      api_modules = fake_client module_kind world_now w_modules put_modules,
      api_daemonsets = fake_client daemonset_kind world_now w_daemonsets put_daemonsets,
      api_services = fake_client service_kind world_now w_services put_services,
      api_nodes = fake_client node_kind world_now w_nodes put_nodes,
      api_now = \<lambda>w i. world_now w + i\<rparr>"

lemmas kind_defs = deviceconfig_kind_def module_kind_def daemonset_kind_def service_kind_def node_kind_def

interpretation deviceconfigs: fake_kind deviceconfig_kind world_now w_deviceconfigs put_deviceconfigs
  by unfold_locales (simp_all add: put_defs world_now_def)

interpretation nodes: fake_kind node_kind world_now w_nodes put_nodes
  by unfold_locales (simp_all add: put_defs world_now_def)

interpretation modules: fake_child module_kind world_now w_modules put_modules
  by unfold_locales (simp_all add: put_defs world_now_def kind_defs)

interpretation daemonsets: fake_child daemonset_kind world_now w_daemonsets put_daemonsets
  by unfold_locales (simp_all add: put_defs world_now_def kind_defs)

interpretation services: fake_child service_kind world_now w_services put_services
  by unfold_locales (simp_all add: put_defs world_now_def kind_defs)

definition world_ok :: "world \<Rightarrow> bool" where
  "world_ok w \<longleftrightarrow>
     tracker_ok deviceconfig_kind (w_deviceconfigs w) \<and> tracker_ok module_kind (w_modules w) \<and>
     tracker_ok daemonset_kind (w_daemonsets w) \<and> tracker_ok service_kind (w_services w) \<and>
     tracker_ok node_kind (w_nodes w)"

end
