(* ===== verification/Node_Selector.thy ===== *)
theory Node_Selector
  imports Client_Interface
begin

text \<open>
  The validation that no two \<open>DeviceConfig\<close>s select the same node
  (\<^verbatim>\<open>controllers/nodeselector.go\<close>). The Go code sets the default selector in a copy of the list
  item, which nothing reads afterwards.
\<close>

definition getDeviceConfigSelectedNodes :: "'s api \<Rightarrow> device_config \<Rightarrow> ('s, go_error + node list) effect" where
  "getDeviceConfigSelectedNodes api cr s =
     (let cr = (if nodeSelector (spec cr) = None
                then cr\<lparr>spec := (spec cr)\<lparr>nodeSelector := Some (GetNodeSelector cr [])\<rparr>\<rparr> else cr);
          selector = AsSelector (case nodeSelector (spec cr) of None \<Rightarrow> fmempty | Some ls \<Rightarrow> ls)
      in kc_list (api_nodes api) (Some selector) s)"

fun visit :: "(string, bool) fmap \<Rightarrow> string list \<Rightarrow> bool" where
  "visit visited [] = False"
| "visit visited (e # arr) =
     (case fmlookup visited e of Some _ \<Rightarrow> True | None \<Rightarrow> visit (fmupd e True visited) arr)"

definition containsDuplicates :: "string list \<Rightarrow> bool" where
  "containsDuplicates arr = visit fmempty arr"

text \<open>The loop over the listed \<open>DeviceConfig\<close>s; it stops at the first list of nodes that fails.\<close>

fun collect_names :: "'s api \<Rightarrow> device_config list \<Rightarrow> string list \<Rightarrow> ('s, go_error + string list) effect" where
  "collect_names api [] names s = (Inr names, s)"
| "collect_names api (dc # dcs) names s =
     (case getDeviceConfigSelectedNodes api dc s of
        (Inl err, s') \<Rightarrow> (Inl err, s')
      | (Inr nodeList, s') \<Rightarrow> collect_names api dcs (names @ map (\<lambda>n. om_name (metadata n)) nodeList) s')"

definition CheckDeviceConfigForConflictingNodeSelector ::
    "'s api \<Rightarrow> device_config \<Rightarrow> ('s, go_error option) effect" where
  "CheckDeviceConfigForConflictingNodeSelector api cr s =
     (case kc_list (api_deviceconfigs api) None s of
        (Inl err, s') \<Rightarrow> (Some err, s')
      | (Inr dcs, s') \<Rightarrow>
          (case collect_names api dcs [] s' of
             (Inl err, s'') \<Rightarrow> (Some err, s'')
           | (Inr names, s'') \<Rightarrow>
               if containsDuplicates names
               then (Some (TextError (''conflicting DeviceConfig NodeSelectors found for resource: '' @
                       om_name (metadata cr))), s'')
               else (None, s'')))"

section \<open>Facts\<close>

lemma visit_iff: "visit visited arr \<longleftrightarrow> \<not> distinct arr \<or> (\<exists>e \<in> set arr. fmlookup visited e \<noteq> None)"
  by (induction visited arr rule: visit.induct) (auto split: option.split)

text \<open>The duplicate check holds of a list of names exactly when some name occurs twice.\<close>

theorem containsDuplicates_iff: "containsDuplicates arr \<longleftrightarrow> \<not> distinct arr"
  by (simp add: containsDuplicates_def visit_iff)

text \<open>A \<open>DeviceConfig\<close> selects the nodes whose labels include its node selector.\<close>

definition selects :: "device_config \<Rightarrow> node \<Rightarrow> bool" where
  "selects dc n \<longleftrightarrow> selector_Matches (AsSelector (GetNodeSelector dc [])) (om_labels (metadata n))"

lemma selects_iff: "selects dc n \<longleftrightarrow> GetNodeSelector dc [] \<subseteq>\<^sub>f om_labels (metadata n)"
  by (simp add: selects_def AsSelector_subset)

lemma getDeviceConfigSelectedNodes_eq:
  "getDeviceConfigSelectedNodes api dc s = kc_list (api_nodes api) (Some (AsSelector (GetNodeSelector dc []))) s"
  by (cases "nodeSelector (spec dc)") (simp_all add: getDeviceConfigSelectedNodes_def GetNodeSelector_def)

lemma distinct_concat_map:
  assumes "distinct ds"
  shows "distinct (concat (map f ds)) \<longleftrightarrow>
           (\<forall>d \<in> set ds. distinct (f d)) \<and>
           (\<forall>d \<in> set ds. \<forall>d' \<in> set ds. d \<noteq> d' \<longrightarrow> set (f d) \<inter> set (f d') = {})"
  using assms by (induction ds) (auto, blast+)

text \<open>
  Two \<open>DeviceConfig\<close>s of the cluster conflict when they select a common node.
\<close>

definition conflict_free :: "device_config set \<Rightarrow> node set \<Rightarrow> bool" where
  "conflict_free dcs nodes \<longleftrightarrow>
     (\<forall>dc \<in> dcs. \<forall>dc' \<in> dcs. \<forall>n \<in> nodes. selects dc n \<and> selects dc' n \<longrightarrow> dc = dc')"

definition selection :: "'s api \<Rightarrow> 's \<Rightarrow> device_config \<Rightarrow> node list" where
  "selection api s dc =
     (case fst (getDeviceConfigSelectedNodes api dc s) of Inl _ \<Rightarrow> [] | Inr ns \<Rightarrow> ns)"

text \<open>
  Validation against a server that lists completely both kinds; nodes have no namespace.
\<close>

locale validation =
  dcs: object_lister "api_deviceconfigs api" dc_view inv +
  nodes: object_lister "api_nodes api" node_view inv
  for api :: "'s api" and dc_view node_view and inv :: "'s \<Rightarrow> bool" +
  assumes nodes_unscoped: "inv s \<Longrightarrow> node_view s k = Some n \<Longrightarrow> om_namespace (metadata n) = []"
begin

lemma selected_nodes:
  assumes "inv s"
  obtains ns where "getDeviceConfigSelectedNodes api dc s = (Inr ns, s)"
    "distinct (map (\<lambda>n. om_name (metadata n)) ns)" "set ns = {n \<in> ran (node_view s). selects dc n}"
proof -
  obtain ns where ns: "kc_list (api_nodes api) (Some (AsSelector (GetNodeSelector dc []))) s = (Inr ns, s)"
    "distinct (map ObjectKeyFromObject ns)" "set ns = {n \<in> ran (node_view s). selects dc n}"
    using nodes.list_complete [OF assms, of "Some (AsSelector (GetNodeSelector dc []))"]
    by (auto simp: ran_def selects_def)
  have "ObjectKeyFromObject n = ([], om_name (metadata n))" if "n \<in> set ns" for n
    using that ns(3) nodes_unscoped [OF assms] by (auto simp: ran_def ObjectKeyFromObject_def)
  then have "map ObjectKeyFromObject ns = map (Pair []) (map (\<lambda>n. om_name (metadata n)) ns)"
    by simp
  with ns(2) have "distinct (map (\<lambda>n. om_name (metadata n)) ns)" by (metis distinct_map)
  with ns show thesis by (auto intro: that simp: getDeviceConfigSelectedNodes_eq)
qed

lemma selection:
  assumes "inv s"
  shows "getDeviceConfigSelectedNodes api dc s = (Inr (selection api s dc), s)"
    and "distinct (map (\<lambda>n. om_name (metadata n)) (selection api s dc))"
    and "set (selection api s dc) = {n \<in> ran (node_view s). selects dc n}"
  by (rule selected_nodes [OF assms, of dc], simp add: selection_def)+

lemma collect_names_eq:
  assumes "inv s"
  shows "collect_names api ds names s =
           (Inr (names @ concat (map (\<lambda>dc. map (\<lambda>n. om_name (metadata n)) (selection api s dc)) ds)), s)"
  by (induction ds arbitrary: names) (simp_all add: selection(1) [OF assms])

lemma same_name:
  assumes "inv s" "n \<in> ran (node_view s)" "n' \<in> ran (node_view s)" "om_name (metadata n) = om_name (metadata n')"
  shows "n = n'"
proof -
  obtain ns where ns: "distinct (map ObjectKeyFromObject ns)" "set ns = ran (node_view s)"
    using nodes.list_complete [OF assms(1), of None] by (auto simp: ran_def)
  moreover have "ObjectKeyFromObject n = ObjectKeyFromObject n'"
    using assms nodes_unscoped [OF assms(1)] by (auto simp: ran_def ObjectKeyFromObject_def)
  ultimately show ?thesis using assms(2,3) by (auto simp: distinct_map inj_on_def)
qed

lemma names_distinct_iff:
  assumes "inv s" "distinct ds" "set ds = ran (dc_view s)"
  shows "distinct (concat (map (\<lambda>dc. map (\<lambda>n. om_name (metadata n)) (selection api s dc)) ds)) \<longleftrightarrow>
           conflict_free (ran (dc_view s)) (ran (node_view s))"
  unfolding distinct_concat_map [OF assms(2)]
proof (intro iffI conjI ballI impI)
  assume "(\<forall>d\<in>set ds. distinct (map (\<lambda>n. om_name (metadata n)) (selection api s d))) \<and>
    (\<forall>d\<in>set ds. \<forall>d'\<in>set ds. d \<noteq> d' \<longrightarrow>
       set (map (\<lambda>n. om_name (metadata n)) (selection api s d)) \<inter>
       set (map (\<lambda>n. om_name (metadata n)) (selection api s d')) = {})"
  then show "conflict_free (ran (dc_view s)) (ran (node_view s))"
    unfolding conflict_free_def assms(3) [symmetric] using selection(3) [OF assms(1)] by fastforce
next
  fix d d'
  assume cf: "conflict_free (ran (dc_view s)) (ran (node_view s))" and d: "d \<in> set ds" "d' \<in> set ds" "d \<noteq> d'"
  show "set (map (\<lambda>n. om_name (metadata n)) (selection api s d)) \<inter>
        set (map (\<lambda>n. om_name (metadata n)) (selection api s d')) = {}"
  proof (rule ccontr)
    assume "\<not> ?thesis"
    then obtain n n' where n: "n \<in> set (selection api s d)" "n' \<in> set (selection api s d')"
      "om_name (metadata n) = om_name (metadata n')" by auto
    then have "n = n'" using same_name [OF assms(1)] selection(3) [OF assms(1)] by blast
    with n cf d show False
      using selection(3) [OF assms(1)] unfolding conflict_free_def assms(3) by blast
  qed
qed (use selection(2) [OF assms(1)] in blast)

text \<open>Validation changes nothing and fails exactly on a conflict, anywhere in the cluster.\<close>

lemma check_eq:
  assumes "inv s"
  shows "CheckDeviceConfigForConflictingNodeSelector api cr s =
     (if conflict_free (ran (dc_view s)) (ran (node_view s)) then None
      else Some (TextError (''conflicting DeviceConfig NodeSelectors found for resource: '' @
             om_name (metadata cr))), s)"
proof -
  obtain ds where ds: "kc_list (api_deviceconfigs api) None s = (Inr ds, s)"
    "distinct (map ObjectKeyFromObject ds)" "set ds = ran (dc_view s)"
    using dcs.list_complete [OF assms, of None] by (auto simp: ran_def)
  then have "distinct ds" by (simp add: distinct_map)
  from names_distinct_iff [OF assms this ds(3)] show ?thesis
    by (simp add: CheckDeviceConfigForConflictingNodeSelector_def ds(1) collect_names_eq [OF assms]
        containsDuplicates_def visit_iff)
qed

end

text \<open>The interface of the validator and its implementation.\<close>

record 's node_selector_validator =
  val_CheckDeviceConfigForConflictingNodeSelector :: "device_config \<Rightarrow> ('s, go_error option) effect"

definition NewNodeSelectorValidator :: "'s api \<Rightarrow> 's node_selector_validator" where
  "NewNodeSelectorValidator c =
     \<lparr>val_CheckDeviceConfigForConflictingNodeSelector = CheckDeviceConfigForConflictingNodeSelector c\<rparr>"

end
