(* ===== verification/Finalizer_Updater.thy ===== *)
theory Finalizer_Updater
  imports Controller_Util
begin

text \<open>
  The deletion finalizer of a \<open>DeviceConfig\<close> (\<^verbatim>\<open>internal/finalizers\<close>). The Go functions
  change the resource in place; here they return it, after a failed update too, where it keeps
  the change that was not stored.
\<close>

definition AddDeletionFinalizer ::
    "'s api \<Rightarrow> device_config \<Rightarrow> ('s, go_error option \<times> device_config) effect" where
  "AddDeletionFinalizer api cr s =
     (let (m, _) = AddFinalizer (metadata cr) DeviceConfigDeletionFinalizer;
          cr = cr\<lparr>metadata := m\<rparr>
      in case kc_update (api_deviceconfigs api) cr s of
           (Inl err, s') \<Rightarrow>
             ((Some (errorf_w (''failed to add deletion finalizer for '' @ om_name (metadata cr) @ '': '') err), cr), s')
         | (Inr cr', s') \<Rightarrow> ((None, cr'), s'))"

definition RemoveDeletionFinalizer ::
    "'s api \<Rightarrow> device_config \<Rightarrow> ('s, go_error option \<times> device_config) effect" where
  "RemoveDeletionFinalizer api cr s =
     (let (m, _) = RemoveFinalizer (metadata cr) DeviceConfigDeletionFinalizer;
          cr = cr\<lparr>metadata := m\<rparr>
      in case kc_update (api_deviceconfigs api) cr s of
           (Inl err, s') \<Rightarrow>
             ((Some (errorf_w (''failed to remove deletion finalizer for '' @ om_name (metadata cr) @ '': '') err), cr), s')
         | (Inr cr', s') \<Rightarrow> ((None, cr'), s'))"

definition ContainsDeletionFinalizer :: "device_config \<Rightarrow> bool" where
  "ContainsDeletionFinalizer cr = ContainsFinalizer (metadata cr) DeviceConfigDeletionFinalizer"

text \<open>The interface of the updater and its implementation.\<close>

record 's finalizer_updater =
  fin_AddDeletionFinalizer :: "device_config \<Rightarrow> ('s, go_error option \<times> device_config) effect"
  fin_RemoveDeletionFinalizer :: "device_config \<Rightarrow> ('s, go_error option \<times> device_config) effect"
  fin_ContainsDeletionFinalizer :: "device_config \<Rightarrow> ('s, bool) effect"

definition finalizers_NewUpdater :: "'s api \<Rightarrow> 's finalizer_updater" where
  "finalizers_NewUpdater client =
     \<lparr>fin_AddDeletionFinalizer = AddDeletionFinalizer client, fin_RemoveDeletionFinalizer = RemoveDeletionFinalizer client,
      fin_ContainsDeletionFinalizer = (\<lambda>cr s. (ContainsDeletionFinalizer cr, s))\<rparr>"

section \<open>Facts\<close>

definition with_finalizers :: "string list \<Rightarrow> device_config \<Rightarrow> device_config" where
  "with_finalizers f cr = cr\<lparr>metadata := (metadata cr)\<lparr>om_finalizers := f\<rparr>\<rparr>"

lemma with_finalizers_simps [simp]:
  "om_finalizers (metadata (with_finalizers f cr)) = f"
  "om_name (metadata (with_finalizers f cr)) = om_name (metadata cr)"
  "om_namespace (metadata (with_finalizers f cr)) = om_namespace (metadata cr)"
  "om_uid (metadata (with_finalizers f cr)) = om_uid (metadata cr)"
  "om_resourceVersion (metadata (with_finalizers f cr)) = om_resourceVersion (metadata cr)"
  "om_deletionTimestamp (metadata (with_finalizers f cr)) = om_deletionTimestamp (metadata cr)"
  "om_ownerReferences (metadata (with_finalizers f cr)) = om_ownerReferences (metadata cr)"
  "spec (with_finalizers f cr) = spec cr" "status (with_finalizers f cr) = status cr"
  "ObjectKeyFromObject (with_finalizers f cr) = ObjectKeyFromObject cr"
  by (simp_all add: with_finalizers_def ObjectKeyFromObject_def)

lemma ContainsDeletionFinalizer_iff:
  "ContainsDeletionFinalizer cr \<longleftrightarrow> DeviceConfigDeletionFinalizer \<in> set (om_finalizers (metadata cr))"
  by (simp add: ContainsDeletionFinalizer_def ContainsFinalizer_iff)

lemma AddFinalizer_new:
  "x \<notin> set (om_finalizers m) \<Longrightarrow> AddFinalizer m x = (m\<lparr>om_finalizers := om_finalizers m @ [x]\<rparr>, True)"
  by (simp add: AddFinalizer_def)

definition finalized :: "device_config \<Rightarrow> device_config" where
  "finalized cr =
     with_finalizers (if ContainsDeletionFinalizer cr then om_finalizers (metadata cr)
                      else om_finalizers (metadata cr) @ [DeviceConfigDeletionFinalizer]) cr"

definition unfinalized :: "device_config \<Rightarrow> device_config" where
  "unfinalized cr =
     with_finalizers (filter (\<lambda>f. f \<noteq> DeviceConfigDeletionFinalizer) (om_finalizers (metadata cr))) cr"

lemma AddDeletionFinalizer_eq:
  "AddDeletionFinalizer api cr s =
     (case kc_update (api_deviceconfigs api) (finalized cr) s of
        (Inl err, s') \<Rightarrow>
          ((Some (errorf_w (''failed to add deletion finalizer for '' @ om_name (metadata cr) @ '': '') err),
            finalized cr), s')
      | (Inr cr', s') \<Rightarrow> ((None, cr'), s'))"
  by (simp add: AddDeletionFinalizer_def AddFinalizer_def finalized_def with_finalizers_def Let_def
      ContainsDeletionFinalizer_iff split: sum.split prod.split)

lemma RemoveDeletionFinalizer_eq:
  "RemoveDeletionFinalizer api cr s =
     (case kc_update (api_deviceconfigs api) (unfinalized cr) s of
        (Inl err, s') \<Rightarrow>
          ((Some (errorf_w (''failed to remove deletion finalizer for '' @ om_name (metadata cr) @ '': '') err),
            unfinalized cr), s')
      | (Inr cr', s') \<Rightarrow> ((None, cr'), s'))"
  by (simp add: RemoveDeletionFinalizer_def RemoveFinalizer_eq unfinalized_def with_finalizers_def
      Let_def split: sum.split prod.split)

text \<open>
  The finalizer updater, with any server: adding sends one update in which the deletion
  finalizer is present and every other finalizer keeps its place; removing sends one update in
  which it is absent, however often it occurred, and the others keep their order. Nothing else of the
  resource is changed in either request, adding to a resource that has it sends it unchanged,
  and an error of the server is wrapped (a not-found error stays recognisable).
\<close>

theorem deletion_finalizer_updates:
  "(\<exists>cr1. (AddDeletionFinalizer api cr s =
       (case kc_update (api_deviceconfigs api) cr1 s of
          (Inl err, s') \<Rightarrow> ((Some (errorf_w (''failed to add deletion finalizer for '' @ om_name (metadata cr) @ '': '') err), cr1), s')
        | (Inr cr', s') \<Rightarrow> ((None, cr'), s'))) \<and>
     ContainsDeletionFinalizer cr1 \<and>
     filter (\<lambda>f. f \<noteq> DeviceConfigDeletionFinalizer) (om_finalizers (metadata cr1)) =
       filter (\<lambda>f. f \<noteq> DeviceConfigDeletionFinalizer) (om_finalizers (metadata cr)) \<and>
     with_finalizers (om_finalizers (metadata cr)) cr1 = cr \<and>
     (cr1 = cr) = ContainsDeletionFinalizer cr) \<and>
   (\<exists>cr1. (RemoveDeletionFinalizer api cr s =
       (case kc_update (api_deviceconfigs api) cr1 s of
          (Inl err, s') \<Rightarrow> ((Some (errorf_w (''failed to remove deletion finalizer for '' @ om_name (metadata cr) @ '': '') err), cr1), s')
        | (Inr cr', s') \<Rightarrow> ((None, cr'), s'))) \<and>
     \<not> ContainsDeletionFinalizer cr1 \<and>
     om_finalizers (metadata cr1) =
       filter (\<lambda>f. f \<noteq> DeviceConfigDeletionFinalizer) (om_finalizers (metadata cr)) \<and>
     with_finalizers (om_finalizers (metadata cr)) cr1 = cr)"
  (is "(\<exists>cr1. ?add cr1) \<and> (\<exists>cr1. ?remove cr1)")
proof
  have same: "with_finalizers (om_finalizers (metadata cr)) (with_finalizers f cr) = cr" for f
    by (simp add: with_finalizers_def)
  have "with_finalizers (om_finalizers (metadata cr) @ [x]) cr \<noteq> cr" for x
    by (rule notI, drule arg_cong [where f = "\<lambda>c. length (om_finalizers (metadata c))"]) simp
  with same have "?add (finalized cr)"
    by (auto simp: AddDeletionFinalizer_eq finalized_def ContainsDeletionFinalizer_iff)
       (auto simp: with_finalizers_def)
  then show "\<exists>cr1. ?add cr1" ..
  have "?remove (unfinalized cr)"
    by (simp add: RemoveDeletionFinalizer_eq same ContainsDeletionFinalizer_iff)
       (simp add: unfinalized_def same)
  then show "\<exists>cr1. ?remove cr1" ..
qed

end
