(* ===== verification/Status_Conditions.thy ===== *)
theory Status_Conditions
  imports Client_Interface
begin

text \<open>
  Status conditions: the vendored \<^verbatim>\<open>k8s.io/apimachinery/pkg/api/meta\<close> helpers that find, set
  and query a condition by type, and the operator's updater of the two conditions of a
  \<open>DeviceConfig\<close> (\<^verbatim>\<open>internal/conditions\<close>).
\<close>

section \<open>The list of conditions\<close>

text \<open>The pointer into the slice that \<^verbatim>\<open>FindStatusCondition\<close> returns is an index here.\<close>

fun FindStatusCondition :: "condition list \<Rightarrow> string \<Rightarrow> nat option" where
  "FindStatusCondition [] conditionType = None"
| "FindStatusCondition (c # cs) conditionType =
     (if cond_type c = conditionType then Some 0 else map_option Suc (FindStatusCondition cs conditionType))"

definition SetStatusCondition :: "time \<Rightarrow> condition list \<Rightarrow> condition \<Rightarrow> condition list" where
  "SetStatusCondition now conds newCondition =
     (case FindStatusCondition conds (cond_type newCondition) of
        None \<Rightarrow>
          conds @
            [if cond_lastTransitionTime newCondition = 0
             then newCondition\<lparr>cond_lastTransitionTime := now\<rparr> else newCondition]
      | Some i \<Rightarrow>
          (let existing = conds ! i;
               existing = (if cond_status existing \<noteq> cond_status newCondition then
                   (if cond_lastTransitionTime newCondition \<noteq> 0
                    then existing\<lparr>cond_status := cond_status newCondition,
                                  cond_lastTransitionTime := cond_lastTransitionTime newCondition\<rparr>
                    else existing\<lparr>cond_status := cond_status newCondition,
                                  cond_lastTransitionTime := now\<rparr>)
                 else existing);
               existing = existing\<lparr>cond_reason := cond_reason newCondition,
                                   cond_message := cond_message newCondition,
                                   cond_observedGeneration := cond_observedGeneration newCondition\<rparr>
           in conds[i := existing]))"

fun IsStatusConditionPresentAndEqual :: "condition list \<Rightarrow> string \<Rightarrow> condition_status \<Rightarrow> bool" where
  "IsStatusConditionPresentAndEqual [] conditionType st = False"
| "IsStatusConditionPresentAndEqual (c # cs) conditionType st =
     (if cond_type c = conditionType then cond_status c = st
      else IsStatusConditionPresentAndEqual cs conditionType st)"

definition IsStatusConditionTrue :: "condition list \<Rightarrow> string \<Rightarrow> bool" where
  "IsStatusConditionTrue cs t = IsStatusConditionPresentAndEqual cs t ConditionTrue"

definition IsStatusConditionFalse :: "condition list \<Rightarrow> string \<Rightarrow> bool" where
  "IsStatusConditionFalse cs t = IsStatusConditionPresentAndEqual cs t ConditionFalse"

section \<open>The updater\<close>

definition Ready :: string where "Ready = ''Ready''"
definition Errored :: string where "Errored = ''Errored''"
definition ReasonModuleFailed :: string where "ReasonModuleFailed = ''ModuleFailed''"
definition ReasonNodeLabelerFailed :: string where "ReasonNodeLabelerFailed = ''NodeLabelerFailed''"
definition ReasonNodeMetricsFailed :: string where "ReasonNodeMetricsFailed = ''NodeMetricsFailed''"
definition ReasonConflictingNodeSelector :: string where
  "ReasonConflictingNodeSelector = ''ConflictingNodeSelector''"

text \<open>\<^verbatim>\<open>metav1.Condition\<close> with the fields the updater sets; the others are zero.\<close>

definition new_condition :: "string \<Rightarrow> condition_status \<Rightarrow> string \<Rightarrow> string \<Rightarrow> condition" where
  "new_condition t st reason message =
     \<lparr>cond_type = t, cond_status = st, cond_observedGeneration = 0, cond_lastTransitionTime = 0,
      cond_reason = reason, cond_message = message\<rparr>"

definition ready_conditions :: "time \<Rightarrow> time \<Rightarrow> string \<Rightarrow> string \<Rightarrow> condition list \<Rightarrow> condition list" where
  "ready_conditions t1 t2 reason message cs =
     (let cs = SetStatusCondition t1 cs (new_condition Ready ConditionTrue reason message);
          cs = SetStatusCondition t2 cs (new_condition Errored ConditionFalse Ready '''')
      in cs)"

definition errored_conditions :: "time \<Rightarrow> time \<Rightarrow> string \<Rightarrow> string \<Rightarrow> condition list \<Rightarrow> condition list" where
  "errored_conditions t1 t2 reason message cs =
     (let cs = SetStatusCondition t1 cs (new_condition Ready ConditionFalse Errored '''');
          cs = SetStatusCondition t2 cs (new_condition Errored ConditionTrue reason message)
      in cs)"

definition write_status :: "'s api \<Rightarrow> device_config \<Rightarrow> 's \<Rightarrow> (go_error option \<times> device_config) \<times> 's" where
  "write_status api cr s =
     (case kc_status_update (api_deviceconfigs api) cr s of
        (Inl err, s') \<Rightarrow> ((Some err, cr), s')
      | (Inr cr', s') \<Rightarrow> ((None, cr'), s'))"

definition set_conditions :: "condition list \<Rightarrow> device_config \<Rightarrow> device_config" where
  "set_conditions cs cr = cr\<lparr>status := (status cr)\<lparr>conditions := cs\<rparr>\<rparr>"

definition SetConditionsReady ::
    "'s api \<Rightarrow> device_config \<Rightarrow> string \<Rightarrow> string \<Rightarrow> 's \<Rightarrow> (go_error option \<times> device_config) \<times> 's" where
  "SetConditionsReady api cr reason message s =
     write_status api
       (set_conditions (ready_conditions (api_now api s 0) (api_now api s 1) reason message
          (conditions (status cr))) cr) s"

definition SetConditionsErrored ::
    "'s api \<Rightarrow> device_config \<Rightarrow> string \<Rightarrow> string \<Rightarrow> 's \<Rightarrow> (go_error option \<times> device_config) \<times> 's" where
  "SetConditionsErrored api cr reason message s =
     write_status api
       (set_conditions (errored_conditions (api_now api s 0) (api_now api s 1) reason message
          (conditions (status cr))) cr) s"

section \<open>Facts about setting a condition\<close>

text \<open>The condition stored for a type that was absent, and the one that replaces a present one.\<close>

definition new_transition :: "time \<Rightarrow> condition \<Rightarrow> condition" where
  "new_transition now c = (if cond_lastTransitionTime c = 0 then c\<lparr>cond_lastTransitionTime := now\<rparr> else c)"

definition overwrite_condition :: "time \<Rightarrow> condition \<Rightarrow> condition \<Rightarrow> condition" where
  "overwrite_condition now c old =
     \<lparr>cond_type = cond_type old, cond_status = cond_status c,
      cond_observedGeneration = cond_observedGeneration c,
      cond_lastTransitionTime =
        (if cond_status old = cond_status c then cond_lastTransitionTime old
         else cond_lastTransitionTime (new_transition now c)),
      cond_reason = cond_reason c, cond_message = cond_message c, \<dots> = condition.more old\<rparr>"

lemma SetStatusCondition_Nil: "SetStatusCondition now [] c = [new_transition now c]"
  by (simp add: SetStatusCondition_def new_transition_def)

lemma SetStatusCondition_Cons:
  "SetStatusCondition now (d # ds) c =
     (if cond_type d = cond_type c then overwrite_condition now c d # ds
      else d # SetStatusCondition now ds c)"
  by (simp add: SetStatusCondition_def overwrite_condition_def new_transition_def Let_def
      split: option.split)

lemmas SetStatusCondition_rec = SetStatusCondition_Nil SetStatusCondition_Cons

lemma new_transition_simps [simp]:
  "cond_type (new_transition now c) = cond_type c" "cond_status (new_transition now c) = cond_status c"
  "cond_reason (new_transition now c) = cond_reason c"
  "cond_message (new_transition now c) = cond_message c"
  by (simp_all add: new_transition_def)

lemma overwrite_condition_simps [simp]:
  "cond_type (overwrite_condition now c d) = cond_type d"
  "cond_status (overwrite_condition now c d) = cond_status c"
  "cond_reason (overwrite_condition now c d) = cond_reason c"
  "cond_message (overwrite_condition now c d) = cond_message c"
  by (simp_all add: overwrite_condition_def)

text \<open>The condition of a type, by value.\<close>

definition condition_of :: "condition list \<Rightarrow> string \<Rightarrow> condition option" where
  "condition_of cs t = map_option ((!) cs) (FindStatusCondition cs t)"

lemma condition_of_rec [simp]:
  "condition_of [] t = None"
  "condition_of (c # cs) t = (if cond_type c = t then Some c else condition_of cs t)"
  by (simp_all add: condition_of_def option.map_comp comp_def)

lemma condition_of_type: "condition_of cs t = Some c \<Longrightarrow> c \<in> set cs \<and> cond_type c = t"
  by (induction cs) (auto split: if_splits)

lemma condition_of_None: "condition_of cs t = None \<longleftrightarrow> t \<notin> cond_type ` set cs"
  by (induction cs) auto

lemma IsStatusConditionPresentAndEqual_iff:
  "IsStatusConditionPresentAndEqual cs t st \<longleftrightarrow> (\<exists>c. condition_of cs t = Some c \<and> cond_status c = st)"
  by (induction cs) auto

lemma condition_of_set:
  "condition_of (SetStatusCondition now cs c) t =
     (if t = cond_type c then
        Some (case condition_of cs t of None \<Rightarrow> new_transition now c | Some d \<Rightarrow> overwrite_condition now c d)
      else condition_of cs t)"
  by (induction cs) (auto simp: SetStatusCondition_rec)

lemma types_after_set:
  "map cond_type (SetStatusCondition now cs c) =
     map cond_type cs @ (if cond_type c \<in> cond_type ` set cs then [] else [cond_type c])"
  by (induction cs) (auto simp: SetStatusCondition_rec)

lemma others_after_set:
  "filter (\<lambda>d. cond_type d \<noteq> cond_type c) (SetStatusCondition now cs c) =
     filter (\<lambda>d. cond_type d \<noteq> cond_type c) cs"
  by (induction cs) (auto simp: SetStatusCondition_rec)

lemma Ready_Errored [simp]: "Ready \<noteq> Errored" "Errored \<noteq> Ready"
  by (simp_all add: Ready_def Errored_def)

lemma new_condition_simps [simp]:
  "cond_type (new_condition t st r m) = t" "cond_status (new_condition t st r m) = st"
  "cond_reason (new_condition t st r m) = r" "cond_message (new_condition t st r m) = m"
  "cond_lastTransitionTime (new_condition t st r m) = 0"
  by (simp_all add: new_condition_def)

lemma set_conditions_simps [simp]:
  "metadata (set_conditions cs cr) = metadata cr" "spec (set_conditions cs cr) = spec cr"
  "conditions (status (set_conditions cs cr)) = cs"
  "ObjectKeyFromObject (set_conditions cs cr) = ObjectKeyFromObject cr"
  by (simp_all add: set_conditions_def ObjectKeyFromObject_def)

lemma SetStatusCondition_again:
  "SetStatusCondition later (SetStatusCondition now cs c) c = SetStatusCondition now cs c"
  by (induction cs) (auto simp: SetStatusCondition_rec overwrite_condition_def new_transition_def)

lemmas conditions_now = IsStatusConditionTrue_def IsStatusConditionFalse_def
  IsStatusConditionPresentAndEqual_iff ready_conditions_def errored_conditions_def condition_of_set

lemma ready_conditions_status:
  "IsStatusConditionTrue (ready_conditions t1 t2 reason message cs) Ready"
  "IsStatusConditionFalse (ready_conditions t1 t2 reason message cs) Errored"
  by (auto simp: conditions_now split: option.split)

lemma errored_conditions_status:
  "IsStatusConditionTrue (errored_conditions t1 t2 reason message cs) Errored"
  "IsStatusConditionFalse (errored_conditions t1 t2 reason message cs) Ready"
  "\<exists>c. condition_of (errored_conditions t1 t2 reason message cs) Errored = Some c \<and>
       cond_reason c = reason \<and> cond_message c = message"
  by (auto simp: conditions_now split: option.split)

text \<open>A list in which the condition is present as it would be set stays as it is.\<close>

definition condition_reported :: "condition list \<Rightarrow> condition \<Rightarrow> bool" where
  "condition_reported cs c =
     (case condition_of cs (cond_type c) of
        None \<Rightarrow> False
      | Some d \<Rightarrow> cond_status d = cond_status c \<and> cond_reason d = cond_reason c \<and> cond_message d = cond_message c \<and>
                  cond_observedGeneration d = cond_observedGeneration c)"

lemma SetStatusCondition_reported:
  "condition_reported cs c \<Longrightarrow> SetStatusCondition now cs c = cs"
  by (induction cs)
     (auto simp: condition_reported_def SetStatusCondition_rec overwrite_condition_def split: if_splits)

lemma reported_after_set:
  "condition_reported (SetStatusCondition now cs c) c"
  "cond_type d \<noteq> cond_type c \<Longrightarrow> condition_reported (SetStatusCondition now cs c) d = condition_reported cs d"
  by (auto simp: condition_reported_def condition_of_set overwrite_condition_def new_transition_def split: option.split)

definition reported_ready :: "string \<Rightarrow> string \<Rightarrow> condition list \<Rightarrow> bool" where
  "reported_ready reason message cs \<longleftrightarrow>
     condition_reported cs (new_condition Ready ConditionTrue reason message) \<and>
     condition_reported cs (new_condition Errored ConditionFalse Ready '''')"

lemma reported_ready_conditions [simp]:
  "reported_ready reason message (ready_conditions t1 t2 reason message cs)"
  by (simp add: reported_ready_def ready_conditions_def reported_after_set)

lemma ready_conditions_stable:
  "reported_ready reason message cs \<Longrightarrow> ready_conditions t1 t2 reason message cs = cs"
  by (simp add: reported_ready_def ready_conditions_def SetStatusCondition_reported)

lemma reported_ready_status:
  "reported_ready reason message cs \<Longrightarrow> IsStatusConditionTrue cs Ready \<and> IsStatusConditionFalse cs Errored"
  by (auto simp: reported_ready_def condition_reported_def conditions_now split: option.splits)

section \<open>What the conditions say\<close>

text \<open>
  C29. Setting a condition: afterwards it is found under its type with the given status, reason
  and message, and with a transition time that is the old one exactly when the status did not
  change; every other condition is untouched and keeps its order; no type occurs twice unless
  one did before; and setting it again, at any time, changes nothing.
\<close>

theorem set_status_condition:
  "(\<exists>d. condition_of (SetStatusCondition now cs c) (cond_type c) = Some d \<and>
      cond_status d = cond_status c \<and> cond_reason d = cond_reason c \<and> cond_message d = cond_message c \<and>
      cond_lastTransitionTime d =
        (case condition_of cs (cond_type c) of
           Some old \<Rightarrow> if cond_status old = cond_status c then cond_lastTransitionTime old
                       else if cond_lastTransitionTime c = 0 then now else cond_lastTransitionTime c
         | None \<Rightarrow> if cond_lastTransitionTime c = 0 then now else cond_lastTransitionTime c)) \<and>
   filter (\<lambda>d. cond_type d \<noteq> cond_type c) (SetStatusCondition now cs c) =
     filter (\<lambda>d. cond_type d \<noteq> cond_type c) cs \<and>
   distinct (map cond_type (SetStatusCondition now cs c)) = distinct (map cond_type cs) \<and>
   SetStatusCondition later (SetStatusCondition now cs c) c = SetStatusCondition now cs c"
  by (intro conjI)
     (auto simp: condition_of_set others_after_set types_after_set SetStatusCondition_again
       overwrite_condition_def new_transition_def split: option.split)

text \<open>
  C30. The two conditions of a \<open>DeviceConfig\<close> are never both true and never both false after
  the updater has run: reporting ready makes Ready true with the given reason and message and
  Errored false, reporting an error makes Errored true with the given reason and message and
  Ready false. Both are written with one status update of the resource, whose metadata and
  specification are those of the argument.
\<close>

theorem ready_errored_exclusive:
  "(\<exists>cs. SetConditionsReady api cr reason message s = write_status api (set_conditions cs cr) s \<and>
      IsStatusConditionTrue cs Ready \<and> IsStatusConditionFalse cs Errored \<and>
      map_option cond_reason (condition_of cs Ready) = Some reason \<and>
      map_option cond_message (condition_of cs Ready) = Some message) \<and>
   (\<exists>cs. SetConditionsErrored api cr reason message s = write_status api (set_conditions cs cr) s \<and>
      IsStatusConditionTrue cs Errored \<and> IsStatusConditionFalse cs Ready \<and>
      map_option cond_reason (condition_of cs Errored) = Some reason \<and>
      map_option cond_message (condition_of cs Errored) = Some message)"
  unfolding SetConditionsReady_def SetConditionsErrored_def
  by (intro conjI exI, rule refl, (auto simp: conditions_now split: option.split)[4],
      rule refl, auto simp: conditions_now split: option.split)

section \<open>The interface of the updater and its implementation\<close>

record 's condition_updater =
  con_SetConditionsReady :: "device_config \<Rightarrow> string \<Rightarrow> string \<Rightarrow> ('s, go_error option \<times> device_config) effect"
  con_SetConditionsErrored :: "device_config \<Rightarrow> string \<Rightarrow> string \<Rightarrow> ('s, go_error option \<times> device_config) effect"

definition conditions_NewUpdater :: "'s api \<Rightarrow> 's condition_updater" where
  "conditions_NewUpdater c =
     \<lparr>con_SetConditionsReady = SetConditionsReady c, con_SetConditionsErrored = SetConditionsErrored c\<rparr>"

end
