(* ===== verification/Device_Config_Controller.thy ===== *)
theory Device_Config_Controller
  imports Node_Selector Node_Metrics Finalizer_Updater Status_Conditions
begin

text \<open>
  The reconciler of \<open>DeviceConfig\<close> resources (\<^verbatim>\<open>controllers/deviceconfig_controller.go\<close>), over
  arbitrary implementations of the interfaces it is built from. The state of the controller is
  the world outside, the gauge of failed reconciliations (\<^verbatim>\<open>internal/metrics\<close>) and the events
  recorded so far. Log lines are left out.
\<close>

section \<open>State and collaborators\<close>

record event =
  ev_object :: object_key
  ev_type :: string
  ev_reason :: string
  ev_message :: string

definition EventTypeNormal :: string where "EventTypeNormal = ''Normal''"
definition EventTypeWarning :: string where "EventTypeWarning = ''Warning''"

record 's controller_state =
  cs_world :: 's
  ReconciliationFailed :: "string \<rightharpoonup> nat"
  cs_events :: "event list"

record ctrl_result =
  Requeue :: bool
  RequeueAfter :: nat

definition empty_result :: ctrl_result where
  "empty_result = \<lparr>Requeue = False, RequeueAfter = 0\<rparr>"

text \<open>
  The collaborators behind the Go interfaces. Those that write the \<open>DeviceConfig\<close> return it.
\<close>

record 's reconciler =
  rc_Get :: "object_key \<Rightarrow> ('s, go_error + device_config) effect"
  mr_ReconcileModule :: "device_config \<Rightarrow> ('s, go_error option) effect"
  mr_DeleteModule :: "device_config \<Rightarrow> ('s, go_error option) effect"
  nmr_ReconcileNodeMetrics :: "device_config \<Rightarrow> ('s, go_error option) effect"
  nlr_ReconcileNodeLabeler :: "device_config \<Rightarrow> ('s, go_error option) effect"
  fu_AddDeletionFinalizer :: "device_config \<Rightarrow> ('s, go_error option \<times> device_config) effect"
  fu_RemoveDeletionFinalizer :: "device_config \<Rightarrow> ('s, go_error option \<times> device_config) effect"
  fu_ContainsDeletionFinalizer :: "device_config \<Rightarrow> ('s, bool) effect"
  cu_SetConditionsReady :: "device_config \<Rightarrow> string \<Rightarrow> string \<Rightarrow> ('s, go_error option \<times> device_config) effect"
  cu_SetConditionsErrored :: "device_config \<Rightarrow> string \<Rightarrow> string \<Rightarrow> ('s, go_error option \<times> device_config) effect"
  nsv_Check :: "device_config \<Rightarrow> ('s, go_error option) effect"

text \<open>
  The constructor takes the interfaces; of each, the reconciler calls the methods that are fields above. The
  scheme that it is given it does not use, the recorder of events is part of the state.
\<close>

definition NewReconciler ::
    "'s api \<Rightarrow> 's module_interface \<Rightarrow> 's metrics_interface \<Rightarrow> 's labeler_interface \<Rightarrow> 's finalizer_updater
      \<Rightarrow> 's condition_updater \<Rightarrow> 's node_selector_validator \<Rightarrow> 's reconciler" where
  "NewReconciler client mr nmr nlr fu cu nsv =
     \<lparr>rc_Get = kc_get (api_deviceconfigs client),
      mr_ReconcileModule = mod_ReconcileModule mr,
      mr_DeleteModule = mod_DeleteModule mr,
      nmr_ReconcileNodeMetrics = met_ReconcileNodeMetrics nmr,
      nlr_ReconcileNodeLabeler = lab_ReconcileNodeLabeler nlr,
      fu_AddDeletionFinalizer = fin_AddDeletionFinalizer fu,
      fu_RemoveDeletionFinalizer = fin_RemoveDeletionFinalizer fu,
      fu_ContainsDeletionFinalizer = fin_ContainsDeletionFinalizer fu,
      cu_SetConditionsReady = con_SetConditionsReady cu,
      cu_SetConditionsErrored = con_SetConditionsErrored cu,
      nsv_Check = val_CheckDeviceConfigForConflictingNodeSelector nsv\<rparr>"

text \<open>The reconciler the program is run with.\<close>

definition operator_reconciler :: "'s api \<Rightarrow> scheme \<Rightarrow> controller_settings \<Rightarrow> 's reconciler" where
  "operator_reconciler c s st =
     (let mr = module_NewReconciler c s st;
          nmr = metrics_NewReconciler c s st;
          nlr = labeler_NewReconciler c s st;
          fu = finalizers_NewUpdater c;
          cu = conditions_NewUpdater c;
          nsv = NewNodeSelectorValidator c
      in NewReconciler c mr nmr nlr fu cu nsv)"

definition outside :: "('s, 'a) effect \<Rightarrow> ('s controller_state, 'a) effect" where
  "outside f cs = (case f (cs_world cs) of (a, w) \<Rightarrow> (a, cs\<lparr>cs_world := w\<rparr>))"

definition set_gauge :: "string \<Rightarrow> nat \<Rightarrow> 's controller_state \<Rightarrow> 's controller_state" where
  "set_gauge name v cs = cs\<lparr>ReconciliationFailed := (ReconciliationFailed cs)(name \<mapsto> v)\<rparr>"

definition record_event ::
    "device_config \<Rightarrow> string \<Rightarrow> string \<Rightarrow> string \<Rightarrow> 's controller_state \<Rightarrow> 's controller_state" where
  "record_event dc eventtype reason message cs =
     cs\<lparr>cs_events := cs_events cs @ [\<lparr>ev_object = ObjectKeyFromObject dc, ev_type = eventtype,
                                    ev_reason = reason, ev_message = message\<rparr>]\<rparr>"

section \<open>Reconcile\<close>

type_synonym reconcile_result = "ctrl_result \<times> go_error option"

definition deleteDeviceConfigResources ::
    "'s reconciler \<Rightarrow> device_config \<Rightarrow> ('s controller_state, go_error option) effect" where
  "deleteDeviceConfigResources r cr cs =
     (case outside (mr_DeleteModule r cr) cs of
        (Some err, cs) \<Rightarrow> (Some err, cs)
      | (None, cs) \<Rightarrow> (None, cs))"

text \<open>The branch of a resource that is being deleted.\<close>

definition reconcile_deletion ::
    "'s reconciler \<Rightarrow> device_config \<Rightarrow> ('s controller_state, reconcile_result) effect" where
  "reconcile_deletion r dc cs =
     (let cs = set_gauge (om_name (metadata dc)) 0 cs in
      case outside (fu_ContainsDeletionFinalizer r dc) cs of (found, cs) \<Rightarrow>
      if found then
        (case deleteDeviceConfigResources r dc cs of
           (Some err, cs) \<Rightarrow> ((empty_result, Some (errorf_w ''failed to delete DeviceConfig resources: '' err)), cs)
         | (None, cs) \<Rightarrow>
             (case outside (fu_RemoveDeletionFinalizer r dc) cs of
                ((Some err, _), cs) \<Rightarrow> ((empty_result, Some err), cs)
              | ((None, _), cs) \<Rightarrow> ((empty_result, None), cs)))
      else ((empty_result, None), cs))"

text \<open>The finalizer is added where it is missing.\<close>

definition add_missing_finalizer ::
    "'s reconciler \<Rightarrow> device_config \<Rightarrow> ('s, go_error option \<times> device_config) effect" where
  "add_missing_finalizer r dc w =
     (case fu_ContainsDeletionFinalizer r dc w of (found, w) \<Rightarrow>
        if \<not> found then fu_AddDeletionFinalizer r dc w else ((None, dc), w))"

text \<open>What the three stages do when they fail, with their own reason.\<close>

definition stage_failed ::
    "'s reconciler \<Rightarrow> device_config \<Rightarrow> string \<Rightarrow> go_error \<Rightarrow> ('s controller_state, reconcile_result) effect" where
  "stage_failed r dc reason err cs =
     (case outside (cu_SetConditionsErrored r dc reason (error_text err)) cs of
        ((cerr, dc), cs) \<Rightarrow>
          (let err = (case cerr of None \<Rightarrow> err | Some cerr \<Rightarrow> errorf_w (error_text err @ '': '') cerr);
               cs = set_gauge (om_name (metadata dc)) 1 cs
           in ((empty_result, Some err), cs)))"

definition reconcile_stages ::
    "'s reconciler \<Rightarrow> device_config \<Rightarrow> ('s controller_state, reconcile_result) effect" where
  "reconcile_stages r dc cs =
     (case outside (mr_ReconcileModule r dc) cs of
        (Some err, cs) \<Rightarrow> stage_failed r dc ReasonModuleFailed err cs
      | (None, cs) \<Rightarrow>
          (case outside (nlr_ReconcileNodeLabeler r dc) cs of
             (Some err, cs) \<Rightarrow> stage_failed r dc ReasonNodeLabelerFailed err cs
           | (None, cs) \<Rightarrow>
               (case outside (nmr_ReconcileNodeMetrics r dc) cs of
                  (Some err, cs) \<Rightarrow> stage_failed r dc ReasonNodeMetricsFailed err cs
                | (None, cs) \<Rightarrow>
                    (let cs = set_gauge (om_name (metadata dc)) 0 cs;
                         cs = record_event dc EventTypeNormal ''Reconciled''
                                (''Succesfully reconciled DeviceConfig '' @ om_namespace (metadata dc) @ ''/'' @
                                 om_name (metadata dc)) cs
                     in case outside (cu_SetConditionsReady r dc ''Reconciled''
                                        ''All resources have been successfully reconciled'') cs of
                          ((err, _), cs) \<Rightarrow> ((empty_result, err), cs)))))"

definition conflict_message :: string where
  "conflict_message = ''Conflicting DeviceConfig NodeSelectors found. Please add or update this DeviceConfig'' @
     [CHR 0x27] @ ''s NodeSelector accordingly.''"

definition Reconcile ::
    "'s reconciler \<Rightarrow> object_key \<Rightarrow> ('s controller_state, reconcile_result) effect" where
  "Reconcile r req cs =
     (case outside (rc_Get r req) cs of
        (Inl err, cs) \<Rightarrow>
          if IsNotFound err then ((empty_result, None), set_gauge (snd req) 0 cs)
          else ((empty_result, Some err), cs)
      | (Inr deviceConfig, cs) \<Rightarrow>
          if \<not> time_IsZero (om_deletionTimestamp (metadata deviceConfig))
          then reconcile_deletion r deviceConfig cs
          else
            (case outside (nsv_Check r deviceConfig) cs of
               (Some err, cs) \<Rightarrow>
                 (let cs = record_event deviceConfig EventTypeWarning ''Error'' conflict_message cs;
                      cs = set_gauge (om_name (metadata deviceConfig)) 1 cs
                  in ((empty_result, None), cs))
             | (None, cs) \<Rightarrow>
                 (case outside (add_missing_finalizer r deviceConfig) cs of
                    ((Some err, _), cs) \<Rightarrow> ((empty_result, Some err), cs)
                  | ((None, deviceConfig), cs) \<Rightarrow> reconcile_stages r deviceConfig cs)))"

section \<open>Set-up\<close>

text \<open>
  The manager's builder: which kinds are reconciled, and whose owners are queued. \<open>complete\<close> registers the
  controller with the manager, whose state is \<open>'m\<close>.
\<close>

record controller_builder =
  cb_name :: string
  cb_for :: string
  cb_owns :: "string list"

definition the_builder :: controller_builder where
  "the_builder = \<lparr>cb_name = ''deviceconfig'', cb_for = ''DeviceConfig'', cb_owns = [''Module'', ''DaemonSet'']\<rparr>"

definition SetupWithManager ::
    "environment \<Rightarrow> controller_settings \<Rightarrow> (controller_builder \<Rightarrow> ('m, go_error option) effect)
      \<Rightarrow> ('m, go_error option \<times> controller_settings) effect" where
  "SetupWithManager env settings complete mgr =
     (case Load env settings of
        (Some err, settings) \<Rightarrow> ((Some err, settings), mgr)
      | (None, settings) \<Rightarrow>
          (case complete the_builder mgr of
             (err, mgr) \<Rightarrow> ((err, settings), mgr)))"

lemma controller_state_simps [simp]:
  "cs_world (set_gauge n v cs) = cs_world cs" "cs_events (set_gauge n v cs) = cs_events cs"
  "ReconciliationFailed (set_gauge n v cs) = (ReconciliationFailed cs)(n \<mapsto> v)"
  "cs_world (record_event dc t rs m cs) = cs_world cs"
  "ReconciliationFailed (record_event dc t rs m cs) = ReconciliationFailed cs"
  by (simp_all add: set_gauge_def record_event_def)

lemma outside_eq: "f (cs_world cs) = (a, w) \<Longrightarrow> outside f cs = (a, cs\<lparr>cs_world := w\<rparr>)"
  by (simp add: outside_def)

lemma operator_reconciler_simps [simp]:
  "rc_Get (operator_reconciler api sch st) = kc_get (api_deviceconfigs api)"
  "mr_ReconcileModule (operator_reconciler api sch st) = ReconcileModule api sch st"
  "mr_DeleteModule (operator_reconciler api sch st) = DeleteModule api"
  "nmr_ReconcileNodeMetrics (operator_reconciler api sch st) = ReconcileNodeMetrics api sch st"
  "nlr_ReconcileNodeLabeler (operator_reconciler api sch st) = ReconcileNodeLabeler api sch st"
  "fu_AddDeletionFinalizer (operator_reconciler api sch st) = AddDeletionFinalizer api"
  "fu_RemoveDeletionFinalizer (operator_reconciler api sch st) = RemoveDeletionFinalizer api"
  "fu_ContainsDeletionFinalizer (operator_reconciler api sch st) = (\<lambda>dc s. (ContainsDeletionFinalizer dc, s))"
  "cu_SetConditionsReady (operator_reconciler api sch st) = SetConditionsReady api"
  "cu_SetConditionsErrored (operator_reconciler api sch st) = SetConditionsErrored api"
  "nsv_Check (operator_reconciler api sch st) = CheckDeviceConfigForConflictingNodeSelector api"
  by (simp_all add: operator_reconciler_def NewReconciler_def module_NewReconciler_def metrics_NewReconciler_def
      labeler_NewReconciler_def finalizers_NewUpdater_def conditions_NewUpdater_def NewNodeSelectorValidator_def)

lemma add_missing_finalizer_operator [simp]:
  "add_missing_finalizer (operator_reconciler api sch st) dc w =
     (if \<not> ContainsDeletionFinalizer dc then AddDeletionFinalizer api dc w else ((None, dc), w))"
  by (simp add: add_missing_finalizer_def)

end
