(* ===== verification/Controller_Safety.thy ===== *)
theory Controller_Safety
  imports Device_Config_Controller
begin

text \<open>
  What \<open>Reconcile\<close> does and does not do, whatever its collaborators and the world around it do.
  That a collaborator is not called is stated as independence: replacing it by any other
  function changes nothing.
\<close>

definition being_deleted :: "('sp, 'st) k8s_object \<Rightarrow> bool" where
  "being_deleted obj \<longleftrightarrow> \<not> time_IsZero (om_deletionTimestamp (metadata obj))"

lemmas reconcile_cong = option.case_cong prod.case_cong sum.case_cong if_cong

text \<open>The ways through \<open>Reconcile\<close>, for collaborators whose results are known.\<close>

lemma Reconcile_deletion:
  "rc_Get r req (cs_world cs) = (Inr dc, w) \<Longrightarrow> being_deleted dc \<Longrightarrow>
   Reconcile r req cs = reconcile_deletion r dc (cs\<lparr>cs_world := w\<rparr>)"
  by (simp add: Reconcile_def outside_def being_deleted_def)

lemma Reconcile_stages:
  "rc_Get r req (cs_world cs) = (Inr dc, w) \<Longrightarrow> \<not> being_deleted dc \<Longrightarrow> nsv_Check r dc w = (None, w1) \<Longrightarrow>
   add_missing_finalizer r dc w1 = ((None, dc1), w2) \<Longrightarrow>
   Reconcile r req cs = reconcile_stages r dc1 (cs\<lparr>cs_world := w2\<rparr>)"
  by (simp add: Reconcile_def outside_def being_deleted_def)

lemma Reconcile_conflict:
  "rc_Get r req (cs_world cs) = (Inr dc, w) \<Longrightarrow> \<not> being_deleted dc \<Longrightarrow> nsv_Check r dc w = (Some err, w1) \<Longrightarrow>
   Reconcile r req cs = ((empty_result, None),
     set_gauge (om_name (metadata dc)) 1
       (record_event dc EventTypeWarning ''Error'' conflict_message (cs\<lparr>cs_world := w1\<rparr>)))"
  by (simp add: Reconcile_def outside_def being_deleted_def Let_def)

lemma stage_failed_reported:
  "cu_SetConditionsErrored r dc reason (error_text err) (cs_world cs) = ((None, dc'), w) \<Longrightarrow>
   stage_failed r dc reason err cs =
     ((empty_result, Some err), set_gauge (om_name (metadata dc')) 1 (cs\<lparr>cs_world := w\<rparr>))"
  by (simp add: stage_failed_def outside_def)

lemma reconcile_stages_failed:
  "mr_ReconcileModule r dc (cs_world cs) = (Some err, w1) \<Longrightarrow>
     reconcile_stages r dc cs = stage_failed r dc ReasonModuleFailed err (cs\<lparr>cs_world := w1\<rparr>)"
  "mr_ReconcileModule r dc (cs_world cs) = (None, w1) \<Longrightarrow> nlr_ReconcileNodeLabeler r dc w1 = (Some err, w2) \<Longrightarrow>
     reconcile_stages r dc cs = stage_failed r dc ReasonNodeLabelerFailed err (cs\<lparr>cs_world := w2\<rparr>)"
  "mr_ReconcileModule r dc (cs_world cs) = (None, w1) \<Longrightarrow> nlr_ReconcileNodeLabeler r dc w1 = (None, w2) \<Longrightarrow>
   nmr_ReconcileNodeMetrics r dc w2 = (Some err, w3) \<Longrightarrow>
     reconcile_stages r dc cs = stage_failed r dc ReasonNodeMetricsFailed err (cs\<lparr>cs_world := w3\<rparr>)"
  by (simp_all add: reconcile_stages_def outside_def)

lemma reconcile_stages_done:
  "mr_ReconcileModule r dc (cs_world cs) = (None, w1) \<Longrightarrow> nlr_ReconcileNodeLabeler r dc w1 = (None, w2) \<Longrightarrow>
   nmr_ReconcileNodeMetrics r dc w2 = (None, w3) \<Longrightarrow>
   cu_SetConditionsReady r dc ''Reconciled'' ''All resources have been successfully reconciled'' w3 = ((err, dc'), w4) \<Longrightarrow>
   reconcile_stages r dc cs =
     ((empty_result, err),
      \<lparr>cs_world = w4, ReconciliationFailed = (ReconciliationFailed cs)(om_name (metadata dc) \<mapsto> 0),
       cs_events = cs_events cs @ [\<lparr>ev_object = ObjectKeyFromObject dc, ev_type = ''Normal'', ev_reason = ''Reconciled'',
         ev_message = ''Succesfully reconciled DeviceConfig '' @ om_namespace (metadata dc) @ ''/'' @ om_name (metadata dc)\<rparr>],
       \<dots> = controller_state.more cs\<rparr>)"
  by (simp add: reconcile_stages_def outside_def set_gauge_def record_event_def EventTypeNormal_def Let_def)

lemma stages_independent:
  "reconcile_stages (r\<lparr>fu_RemoveDeletionFinalizer := f\<rparr>) dc cs = reconcile_stages r dc cs"
  by (simp add: reconcile_stages_def stage_failed_def cong: reconcile_cong)

lemma deletion_independent:
  "reconcile_deletion (r\<lparr>mr_ReconcileModule := f1, nlr_ReconcileNodeLabeler := f2,
     nmr_ReconcileNodeMetrics := f3, fu_AddDeletionFinalizer := f4, cu_SetConditionsReady := f5,
     cu_SetConditionsErrored := f6, nsv_Check := f7\<rparr>) dc cs = reconcile_deletion r dc cs"
  by (simp add: reconcile_deletion_def deleteDeviceConfigResources_def cong: reconcile_cong)

lemma deletion_without_removal:
  assumes "\<And>w. fu_ContainsDeletionFinalizer r dc (cs_world cs) = (True, w) \<Longrightarrow> fst (mr_DeleteModule r dc w) \<noteq> None"
  shows "reconcile_deletion (r\<lparr>fu_RemoveDeletionFinalizer := f\<rparr>) dc cs = reconcile_deletion r dc cs"
proof -
  obtain found w where c: "fu_ContainsDeletionFinalizer r dc (cs_world cs) = (found, w)" by fastforce
  obtain a w1 where d: "mr_DeleteModule r dc w = (a, w1)" by fastforce
  show ?thesis
    using assms [of w] by (cases found; cases a)
      (simp_all add: reconcile_deletion_def deleteDeviceConfigResources_def outside_def set_gauge_def c d Let_def)
qed

section \<open>Deletion\<close>

text \<open>
  C9. The deletion finalizer is removed only after the Module is deleted: unless the resource
  was read, is being deleted, has the finalizer, and the deletion of its Module has just
  returned without an error, the removal is not called.
\<close>

theorem finalizer_removed_only_after_module:
  assumes "\<nexists>dc w1 w2 w3. rc_Get r req (cs_world cs) = (Inr dc, w1) \<and> being_deleted dc \<and>
             fu_ContainsDeletionFinalizer r dc w1 = (True, w2) \<and> mr_DeleteModule r dc w2 = (None, w3)"
  shows "Reconcile (r\<lparr>fu_RemoveDeletionFinalizer := f\<rparr>) req cs = Reconcile r req cs"
proof (cases "rc_Get r req (cs_world cs)")
  case (Pair got w1)
  show ?thesis
  proof (cases got)
    case (Inl err)
    with Pair show ?thesis by (simp add: Reconcile_def outside_def)
  next
    case (Inr dc)
    have "fst (mr_DeleteModule r dc w2) \<noteq> None" if "being_deleted dc" "fu_ContainsDeletionFinalizer r dc w1 = (True, w2)" for w2
      using assms that Pair Inr by (cases "mr_DeleteModule r dc w2") auto
    then have "reconcile_deletion (r\<lparr>fu_RemoveDeletionFinalizer := f\<rparr>) dc (cs\<lparr>cs_world := w1\<rparr>) =
        reconcile_deletion r dc (cs\<lparr>cs_world := w1\<rparr>)" if "being_deleted dc"
      using that by (intro deletion_without_removal) simp
    with Pair Inr show ?thesis
      by (simp add: Reconcile_def outside_eq [where f = "rc_Get r req"] stages_independent being_deleted_def
          add_missing_finalizer_def [abs_def] Let_def cong: reconcile_cong)
  qed
qed

text \<open>
  A resource that is being deleted is only cleaned up: it is not validated, nothing is created for
  it, no finalizer is added and no condition is written.
\<close>

theorem deletion_only_cleans_up:
  assumes "rc_Get r req (cs_world cs) = (Inr dc, w)" "being_deleted dc"
  shows "Reconcile (r\<lparr>mr_ReconcileModule := f1, nlr_ReconcileNodeLabeler := f2, nmr_ReconcileNodeMetrics := f3,
             fu_AddDeletionFinalizer := f4, cu_SetConditionsReady := f5, cu_SetConditionsErrored := f6,
             nsv_Check := f7\<rparr>) req cs = Reconcile r req cs"
  using assms
  by (simp add: Reconcile_def outside_eq [where f = "rc_Get r req"] being_deleted_def deletion_independent)

section \<open>Conflicts and order of the stages\<close>

text \<open>
  C17. When the validation reports an error, whatever error, nothing is written for the resource:
  the result asks for no retry, the gauge of the resource is one, and a single warning is
  recorded.
\<close>

theorem conflict_stops:
  assumes "rc_Get r req (cs_world cs) = (Inr dc, w)" "\<not> being_deleted dc" "nsv_Check r dc w = (Some err, w')"
  shows "Reconcile r req cs =
     ((empty_result, None),
      \<lparr>cs_world = w',
       ReconciliationFailed = (ReconciliationFailed cs)(om_name (metadata dc) \<mapsto> 1),
       cs_events = cs_events cs @ [\<lparr>ev_object = ObjectKeyFromObject dc, ev_type = ''Warning'',
                                   ev_reason = ''Error'', ev_message = conflict_message\<rparr>],
       \<dots> = controller_state.more cs\<rparr>)"
  using assms
  by (simp add: Reconcile_def outside_def being_deleted_def Let_def set_gauge_def record_event_def
      EventTypeWarning_def)

text \<open>
  C16. The stages run in the order Module, node labeler, node metrics, and each only when the one
  before succeeded, in the world that it left: while the Module fails neither the labeler nor the
  metrics are called, while the labeler fails the metrics are not, and the resource is reported ready
  only when all three have succeeded.
\<close>

theorem stages_in_order:
  "(fst (mr_ReconcileModule r dc (cs_world cs)) \<noteq> None \<longrightarrow>
      reconcile_stages (r\<lparr>nlr_ReconcileNodeLabeler := f, nmr_ReconcileNodeMetrics := g, cu_SetConditionsReady := h\<rparr>) dc cs
        = reconcile_stages r dc cs) \<and>
   (\<forall>w. mr_ReconcileModule r dc (cs_world cs) = (None, w) \<and> fst (nlr_ReconcileNodeLabeler r dc w) \<noteq> None \<longrightarrow>
      reconcile_stages (r\<lparr>nmr_ReconcileNodeMetrics := g, cu_SetConditionsReady := h\<rparr>) dc cs = reconcile_stages r dc cs) \<and>
   (\<forall>w w'. mr_ReconcileModule r dc (cs_world cs) = (None, w) \<and> nlr_ReconcileNodeLabeler r dc w = (None, w') \<and>
      fst (nmr_ReconcileNodeMetrics r dc w') \<noteq> None \<longrightarrow>
      reconcile_stages (r\<lparr>cu_SetConditionsReady := h\<rparr>) dc cs = reconcile_stages r dc cs)"
  by (auto simp: reconcile_stages_def stage_failed_def outside_def Let_def
      split: prod.splits option.splits)

section \<open>What is reported\<close>

text \<open>
  What a reconciliation is for, without the gauge, the events and the control flow: two lists of steps that change the world and may
  fail, one for a live resource and one for a resource that is being deleted; the first failure ends the run.
\<close>

type_synonym 's step = "(device_config \<times> 's, go_error option) effect"

fun keeping_it :: "(device_config \<Rightarrow> ('s, go_error option) effect) \<Rightarrow> 's step" where
  "keeping_it f (dc, w) = (case f dc w of (err, w') \<Rightarrow> (err, (dc, w')))"

fun replacing_it :: "(device_config \<Rightarrow> ('s, go_error option \<times> device_config) effect) \<Rightarrow> 's step" where
  "replacing_it f (dc, w) = (case f dc w of ((err, dc'), w') \<Rightarrow> (err, (dc', w')))"

datatype live_step = Validating | Adding_finalizer | Working string

definition live_steps :: "'s reconciler \<Rightarrow> (live_step \<times> 's step) list" where
  "live_steps r =
     [(Validating, keeping_it (nsv_Check r)), (Adding_finalizer, replacing_it (add_missing_finalizer r)),
      (Working ''ModuleFailed'', keeping_it (mr_ReconcileModule r)),
      (Working ''NodeLabelerFailed'', keeping_it (nlr_ReconcileNodeLabeler r)),
      (Working ''NodeMetricsFailed'', keeping_it (nmr_ReconcileNodeMetrics r))]"

text \<open>The steps of a clean-up, with the form in which their errors are returned.\<close>

definition clean_up_steps :: "'s reconciler \<Rightarrow> ((go_error \<Rightarrow> go_error) \<times> 's step) list" where
  "clean_up_steps r =
     [(errorf_w ''failed to delete DeviceConfig resources: '', keeping_it (mr_DeleteModule r)), (id, replacing_it (fu_RemoveDeletionFinalizer r))]"

text \<open>
  The ways a reconciliation can end, as its caller, its gauge and its events show them.
\<close>

datatype report =
    Nothing_to_do            \<comment> \<open>gone, or cleaned up\<close>
  | Conflicting
  | Stage_failed go_error
  | Not_started go_error     \<comment> \<open>not read, or no finalizer added\<close>
  | Clean_up_failed go_error
  | Reconciled "go_error option"

fun report_error :: "report \<Rightarrow> go_error option" where
  "report_error Nothing_to_do = None"
| "report_error Conflicting = None"
| "report_error (Stage_failed e) = Some e"
| "report_error (Not_started e) = Some e"
| "report_error (Clean_up_failed e) = Some e"
| "report_error (Reconciled err) = err"

fun report_gauge :: "report \<Rightarrow> nat option \<Rightarrow> nat option" where
  "report_gauge Nothing_to_do _ = Some 0"
| "report_gauge Conflicting _ = Some 1"
| "report_gauge (Stage_failed _) _ = Some 1"
| "report_gauge (Not_started _) old = old"
| "report_gauge (Clean_up_failed _) _ = Some 0"
| "report_gauge (Reconciled _) _ = Some 0"

fun report_events :: "object_key \<Rightarrow> report \<Rightarrow> event list" where
  "report_events key Conflicting =
     [\<lparr>ev_object = key, ev_type = ''Warning'', ev_reason = ''Error'', ev_message = conflict_message\<rparr>]"
| "report_events key (Reconciled _) =
     [\<lparr>ev_object = key, ev_type = ''Normal'', ev_reason = ''Reconciled'',
       ev_message = ''Succesfully reconciled DeviceConfig '' @ fst key @ ''/'' @ snd key\<rparr>]"
| "report_events key _ = []"

text \<open>
  What is to be reported, and the world that is left. Which step of a live resource failed decides: a failed validation is a conflict;
  without the finalizer nothing is started; a failed stage is first written to the condition, and an error of that is wrapped.
\<close>

definition report_live ::
    "'s reconciler \<Rightarrow> (live_step \<times> go_error) option \<Rightarrow> device_config \<Rightarrow> 's \<Rightarrow> report \<times> 's" where
  "report_live r failed dc w =
     (case failed of
        None \<Rightarrow>
          (case cu_SetConditionsReady r dc ''Reconciled'' ''All resources have been successfully reconciled'' w of
             ((err, _), w') \<Rightarrow> (Reconciled err, w'))
      | Some (Validating, _) \<Rightarrow> (Conflicting, w)
      | Some (Adding_finalizer, err) \<Rightarrow> (Not_started err, w)
      | Some (Working reason, err) \<Rightarrow>
          (case cu_SetConditionsErrored r dc reason (error_text err) w of
             ((None, _), w') \<Rightarrow> (Stage_failed err, w')
           | ((Some cerr, _), w') \<Rightarrow> (Stage_failed (errorf_w (error_text err @ '': '') cerr), w')))"

definition intended :: "'s reconciler \<Rightarrow> object_key \<Rightarrow> 's \<Rightarrow> report \<times> 's" where
  "intended r req w =
     (case rc_Get r req w of
        (Inl err, w) \<Rightarrow> (if IsNotFound err then Nothing_to_do else Not_started err, w)
      | (Inr dc, w) \<Rightarrow>
          if being_deleted dc then
            (case fu_ContainsDeletionFinalizer r dc w of
               (False, w) \<Rightarrow> (Nothing_to_do, w)
             | (True, w) \<Rightarrow>
                 (case first_failure (clean_up_steps r) (dc, w) of
                    (None, (_, w)) \<Rightarrow> (Nothing_to_do, w)
                  | (Some (form, err), (_, w)) \<Rightarrow> (Clean_up_failed (form err), w)))
          else (case first_failure (live_steps r) (dc, w) of (failed, (dc, w)) \<Rightarrow> report_live r failed dc w))"

text \<open>Whom it is about: the resource that was read, or the one that was asked for.\<close>

definition subject :: "'s reconciler \<Rightarrow> object_key \<Rightarrow> 's \<Rightarrow> object_key" where
  "subject r req w = (case fst (rc_Get r req w) of Inl _ \<Rightarrow> req | Inr dc \<Rightarrow> ObjectKeyFromObject dc)"

definition shown ::
    "object_key \<Rightarrow> report \<times> 's \<Rightarrow> 's controller_state \<Rightarrow> reconcile_result \<times> 's controller_state" where
  "shown key result cs =
     (case result of (rep, w) \<Rightarrow>
        ((empty_result, report_error rep),
         cs\<lparr>cs_world := w,
            ReconciliationFailed := (ReconciliationFailed cs)(snd key := report_gauge rep (ReconciliationFailed cs (snd key))),
            cs_events := cs_events cs @ report_events key rep\<rparr>))"

text \<open>The resource of every collaborator that returns one keeps its namespace and name.\<close>

definition keeps_key :: "'s reconciler \<Rightarrow> bool" where
  "keeps_key r \<longleftrightarrow>
     (\<forall>dc w e dc' w'. fu_AddDeletionFinalizer r dc w = ((e, dc'), w') \<longrightarrow>
        ObjectKeyFromObject dc' = ObjectKeyFromObject dc) \<and>
     (\<forall>dc rs m w e dc' w'. cu_SetConditionsErrored r dc rs m w = ((e, dc'), w') \<longrightarrow>
        ObjectKeyFromObject dc' = ObjectKeyFromObject dc)"

lemma keeps_key_finalizer:
  "keeps_key r \<Longrightarrow> fu_AddDeletionFinalizer r dc w = ((e, dc'), w') \<Longrightarrow> ObjectKeyFromObject dc' = ObjectKeyFromObject dc"
  unfolding keeps_key_def by blast

lemma keeps_key_add:
  "keeps_key r \<Longrightarrow> add_missing_finalizer r dc w = ((e, dc'), w') \<Longrightarrow> ObjectKeyFromObject dc' = ObjectKeyFromObject dc"
  using keeps_key_finalizer by (fastforce simp: add_missing_finalizer_def split: prod.splits if_splits)

lemma keeps_key_errored:
  "keeps_key r \<Longrightarrow> cu_SetConditionsErrored r dc rs m w = ((e, dc'), w') \<Longrightarrow> ObjectKeyFromObject dc' = ObjectKeyFromObject dc"
  unfolding keeps_key_def by blast

lemma name_of_key: "om_name (metadata dc) = snd (ObjectKeyFromObject dc)" "om_namespace (metadata dc) = fst (ObjectKeyFromObject dc)"
  by (simp_all add: ObjectKeyFromObject_def)

lemma shown_world: "shown key result (cs\<lparr>cs_world := w\<rparr>) = shown key result cs"
  by (simp add: shown_def split: prod.split)

lemma shown_deletion:
  "reconcile_deletion r dc cs =
     shown (ObjectKeyFromObject dc)
       (case fu_ContainsDeletionFinalizer r dc (cs_world cs) of
          (False, w) \<Rightarrow> (Nothing_to_do, w)
        | (True, w) \<Rightarrow>
            (case first_failure (clean_up_steps r) (dc, w) of
               (None, (_, w)) \<Rightarrow> (Nothing_to_do, w)
             | (Some (form, err), (_, w)) \<Rightarrow> (Clean_up_failed (form err), w))) cs"
proof -
  obtain found w where c: "fu_ContainsDeletionFinalizer r dc (cs_world cs) = (found, w)" by fastforce
  obtain a w1 where d: "mr_DeleteModule r dc w = (a, w1)" by fastforce
  obtain b dc' w2 where f: "fu_RemoveDeletionFinalizer r dc w1 = ((b, dc'), w2)" by (metis surj_pair)
  show ?thesis
    by (cases found; cases a; cases b)
       (simp_all add: reconcile_deletion_def deleteDeviceConfigResources_def outside_def c d f Let_def shown_def
          clean_up_steps_def set_gauge_def name_of_key)
qed

lemma shown_stage_failed:
  assumes "keeps_key r"
  shows "stage_failed r dc reason err cs =
    shown (ObjectKeyFromObject dc) (report_live r (Some (Working reason, err)) dc (cs_world cs)) cs"
proof -
  obtain e dc' w where c: "cu_SetConditionsErrored r dc reason (error_text err) (cs_world cs) = ((e, dc'), w)" by (metis surj_pair)
  with keeps_key_errored [OF assms c] show ?thesis
    by (cases e) (simp_all add: stage_failed_def outside_def shown_def report_live_def set_gauge_def name_of_key Let_def)
qed

lemma shown_stages:
  assumes "keeps_key r"
  shows "reconcile_stages r dc cs =
    shown (ObjectKeyFromObject dc)
      (case first_failure (drop 2 (live_steps r)) (dc, cs_world cs) of (failed, (dc, w)) \<Rightarrow> report_live r failed dc w) cs"
proof -
  note failed = shown_stage_failed [OF assms]
  obtain a w1 where m: "mr_ReconcileModule r dc (cs_world cs) = (a, w1)" by fastforce
  obtain b w2 where l: "nlr_ReconcileNodeLabeler r dc w1 = (b, w2)" by fastforce
  obtain c w3 where n: "nmr_ReconcileNodeMetrics r dc w2 = (c, w3)" by fastforce
  obtain e dc' w4 where ready: "cu_SetConditionsReady r dc ''Reconciled''
      ''All resources have been successfully reconciled'' w3 = ((e, dc'), w4)" by (metis surj_pair)
  have "drop 2 (live_steps r) = [(Working ''ModuleFailed'', keeping_it (mr_ReconcileModule r)),
      (Working ''NodeLabelerFailed'', keeping_it (nlr_ReconcileNodeLabeler r)),
      (Working ''NodeMetricsFailed'', keeping_it (nmr_ReconcileNodeMetrics r))]"
    by (simp add: live_steps_def)
  note steps = this reconcile_stages_def outside_def m l n failed shown_world
    ReasonModuleFailed_def ReasonNodeLabelerFailed_def ReasonNodeMetricsFailed_def
  show ?thesis
  proof (cases a)
    case None
    show ?thesis
    proof (cases b)
      case b: None
      show ?thesis
      proof (cases c)
        case c: None
        show ?thesis
          by (simp add: steps None b c ready shown_def report_live_def set_gauge_def record_event_def EventTypeNormal_def
              name_of_key Let_def)
      qed (simp add: steps None b)
    qed (simp add: steps None)
  qed (simp add: steps)
qed

text \<open>
  C19. What a reconciliation returns, shows in its gauge and events, and leaves in the world is exactly what the steps call for, for
  any collaborators. Of a live resource the steps validation, finalizer, Module, labeler and metrics run up to the first that fails, of one
  that is being deleted (and has the finalizer) the deletion of the Module and the removal of the finalizer. The error of that step is
  the one that is returned, in its form, but for a conflict; if all succeed, that of the final status update is. The gauge of the resource alone changes, and at
  most one event is added. In particular an error is returned with the gauge at zero when a clean-up failed, and when only the final
  status update failed, after the success event was recorded.
\<close>

theorem reconcile_reports:
  assumes "keeps_key r"
  shows "Reconcile r req cs = shown (subject r req (cs_world cs)) (intended r req (cs_world cs)) cs"
proof (cases "rc_Get r req (cs_world cs)")
  case (Pair got w)
  note get = outside_eq [where f = "rc_Get r req", OF Pair]
  show ?thesis
  proof (cases got)
    case (Inl err)
    with Pair show ?thesis
      by (simp add: Reconcile_def get shown_def subject_def intended_def set_gauge_def)
  next
    case (Inr dc)
    note read = Reconcile_def get Inr intended_def Pair subject_def
    show ?thesis
    proof (cases "being_deleted dc")
      case True
      then show ?thesis
        by (simp add: read shown_deletion [of r dc "cs\<lparr>cs_world := w\<rparr>"] shown_world being_deleted_def)
    next
      case False
      obtain chk w1 where chk: "nsv_Check r dc w = (chk, w1)" by fastforce
      obtain e dc' w2 where add: "add_missing_finalizer r dc w1 = ((e, dc'), w2)" by (metis surj_pair)
      have live: "live_steps r = (Validating, keeping_it (nsv_Check r)) # (Adding_finalizer, replacing_it (add_missing_finalizer r)) #
          drop 2 (live_steps r)" by (simp add: live_steps_def)
      have run: "first_failure (live_steps r) (dc, w) =
          (case chk of Some err \<Rightarrow> (Some (Validating, err), (dc, w1))
           | None \<Rightarrow> (case e of Some err \<Rightarrow> (Some (Adding_finalizer, err), (dc', w2))
                     | None \<Rightarrow> first_failure (drop 2 (live_steps r)) (dc', w2)))"
        by (subst live) (simp add: chk add split: option.split)
      note alive = read run False [unfolded being_deleted_def] False outside_eq [where f = "nsv_Check r dc", OF _] chk
      show ?thesis
      proof (cases chk)
        case (Some err)
        then show ?thesis
          by (simp add: alive outside_def report_live_def shown_def set_gauge_def record_event_def EventTypeWarning_def name_of_key Let_def)
      next
        case None
        show ?thesis
        proof (cases e)
          case (Some err)
          then show ?thesis using None by (simp add: alive outside_def add report_live_def shown_def)
        next
          case e: None
          have "Reconcile r req cs = reconcile_stages r dc' (cs\<lparr>cs_world := w2\<rparr>)"
            using Reconcile_stages [OF Pair [unfolded Inr] False chk [unfolded None] add [unfolded e]] .
          then show ?thesis
            using None e keeps_key_add [OF assms add] False
            by (simp add: intended_def subject_def Pair Inr run shown_stages [OF assms] shown_world)
        qed
      qed
    qed
  qed
qed

section \<open>Errors\<close>

text \<open>
  A resource that cannot be read: nothing but the gauge changes. A resource that is gone is no
  error, and the gauge of its name is reset; every other error is returned, for a retry.
\<close>

theorem unread_writes_nothing:
  assumes "rc_Get r req (cs_world cs) = (Inl err, w)"
  shows "Reconcile r req cs =
     ((empty_result, if IsNotFound err then None else Some err),
      cs\<lparr>cs_world := w,
         ReconciliationFailed := (if IsNotFound err then (ReconciliationFailed cs)(snd req \<mapsto> 0)
                                  else ReconciliationFailed cs)\<rparr>)"
  using assms by (simp add: Reconcile_def outside_def set_gauge_def)

text \<open>
  The finalizer is stored before anything is created: when it is missing and cannot be added,
  no stage runs, no condition is written and the error is returned.
\<close>

theorem finalizer_stored_first:
  assumes "rc_Get r req (cs_world cs) = (Inr dc, w)" "\<not> being_deleted dc" "nsv_Check r dc w = (None, w1)"
    and "fu_ContainsDeletionFinalizer r dc w1 = (False, w2)" "fu_AddDeletionFinalizer r dc w2 = ((Some err, dc'), w3)"
  shows "Reconcile r req cs = ((empty_result, Some err), cs\<lparr>cs_world := w3\<rparr>)"
  using assms by (simp add: Reconcile_def outside_def add_missing_finalizer_def being_deleted_def)

text \<open>
  A stage that fails is reported with the reason of that stage and the text of its error in the
  condition; its error is returned, or, when the condition cannot be written, an error with both
  texts that wraps the second; the gauge is set to one.
\<close>

theorem stage_failures_reported:
  "(mr_ReconcileModule r dc (cs_world cs) = (Some err, w) \<longrightarrow>
      reconcile_stages r dc cs = stage_failed r dc ''ModuleFailed'' err (cs\<lparr>cs_world := w\<rparr>)) \<and>
   (mr_ReconcileModule r dc (cs_world cs) = (None, w) \<and> nlr_ReconcileNodeLabeler r dc w = (Some err, w2) \<longrightarrow>
      reconcile_stages r dc cs = stage_failed r dc ''NodeLabelerFailed'' err (cs\<lparr>cs_world := w2\<rparr>)) \<and>
   (mr_ReconcileModule r dc (cs_world cs) = (None, w) \<and> nlr_ReconcileNodeLabeler r dc w = (None, w2) \<and>
      nmr_ReconcileNodeMetrics r dc w2 = (Some err, w3) \<longrightarrow>
      reconcile_stages r dc cs = stage_failed r dc ''NodeMetricsFailed'' err (cs\<lparr>cs_world := w3\<rparr>)) \<and>
   (cu_SetConditionsErrored r dc reason (error_text err) (cs_world cs) = ((cerr, dc'), w) \<longrightarrow>
      stage_failed r dc reason err cs =
        ((empty_result, Some (case cerr of None \<Rightarrow> err | Some e \<Rightarrow> WrapError (error_text err @ '': '' @ error_text e) e)),
         cs\<lparr>cs_world := w, ReconciliationFailed := (ReconciliationFailed cs)(om_name (metadata dc') \<mapsto> 1)\<rparr>))"
  using reconcile_stages_failed [of r dc cs]
  by (auto simp: ReasonModuleFailed_def ReasonNodeLabelerFailed_def ReasonNodeMetricsFailed_def
      stage_failed_def outside_def set_gauge_def errorf_w_def split: option.split)

end
