(* ===== verification/Operator_Cluster.thy ===== *)
theory Operator_Cluster
  imports Fake_Cluster Controller_Safety
begin

text \<open>
  The operator running against the in-memory cluster: the outcome of each of its steps, and
  from them what a whole reconciliation establishes. The steps are interpretations of the
  locales on the cluster's clients and on the functions that write the desired state.
\<close>

section \<open>Interfaces met by the cluster\<close>

lemma cluster_simps [simp]:
  "api_deviceconfigs cluster = fake_client deviceconfig_kind world_now w_deviceconfigs put_deviceconfigs"
  "api_modules cluster = fake_client module_kind world_now w_modules put_modules"
  "api_daemonsets cluster = fake_client daemonset_kind world_now w_daemonsets put_daemonsets"
  "api_services cluster = fake_client service_kind world_now w_services put_services"
  "api_nodes cluster = fake_client node_kind world_now w_nodes put_nodes"
  by (simp_all add: cluster_def)

interpretation module_step:
  fake_stage module_kind world_now w_modules put_modules
    "\<lambda>m. SetDesiredModule (AddToScheme base) st (Some m) cr" for base st cr
  by unfold_locales

interpretation labeler_step:
  fake_stage daemonset_kind world_now w_daemonsets put_daemonsets
    "\<lambda>ds. SetDesiredNodeLabelerDaemonSet (AddToScheme base) st (Some ds) cr" for base st cr
  by unfold_locales

interpretation metrics_step:
  fake_stage daemonset_kind world_now w_daemonsets put_daemonsets
    "\<lambda>ds. SetDesiredNodeMetricsDaemonSet (AddToScheme base) st (Some ds) cr" for base st cr
  by unfold_locales

interpretation service_step:
  fake_stage service_kind world_now w_services put_services
    "\<lambda>s. SetDesiredNodeMetricsService (AddToScheme base) (Some s) cr" for base cr
  by unfold_locales

text \<open>Nodes have no namespace.\<close>

definition nodes_unscoped :: "world \<Rightarrow> bool" where
  "nodes_unscoped w \<longleftrightarrow> (\<forall>n \<in> fmran' (w_nodes w). om_namespace (metadata n) = [])"

definition cluster_ok :: "world \<Rightarrow> bool" where
  "cluster_ok w \<longleftrightarrow> world_ok w \<and> nodes_unscoped w"

interpretation checks: validation cluster "\<lambda>w. fmlookup (w_deviceconfigs w)" "\<lambda>w. fmlookup (w_nodes w)" cluster_ok
proof (unfold_locales, goal_cases)
  case (1 w sel)
  then show ?case using deviceconfigs.lister.list_complete [of w sel] by (simp add: cluster_ok_def world_ok_def)
next
  case (2 w sel)
  then show ?case using nodes.lister.list_complete [of w sel] by (simp add: cluster_ok_def world_ok_def)
next
  case (3 w k n)
  then show ?case using fmran'I [of "w_nodes w" k n] by (simp add: cluster_ok_def nodes_unscoped_def)
qed

section \<open>How a step changes the world\<close>

lemma cluster_ok_put:
  "cluster_ok w \<Longrightarrow> tracker_ok deviceconfig_kind dcs \<Longrightarrow> cluster_ok (put_deviceconfigs dcs w)"
  "cluster_ok w \<Longrightarrow> tracker_ok module_kind ms \<Longrightarrow> cluster_ok (put_modules ms w)"
  "cluster_ok w \<Longrightarrow> tracker_ok daemonset_kind dss \<Longrightarrow> cluster_ok (put_daemonsets dss w)"
  "cluster_ok w \<Longrightarrow> tracker_ok service_kind svcs \<Longrightarrow> cluster_ok (put_services svcs w)"
  by (simp_all add: cluster_ok_def world_ok_def nodes_unscoped_def put_defs)

lemma cluster_okD:
  assumes "cluster_ok w"
  shows "tracker_ok deviceconfig_kind (w_deviceconfigs w)" "tracker_ok module_kind (w_modules w)"
    "tracker_ok daemonset_kind (w_daemonsets w)" "tracker_ok service_kind (w_services w)"
  using assms by (simp_all add: cluster_ok_def world_ok_def)

lemma world_put_simps [simp]:
  "w_deviceconfigs (put_deviceconfigs dcs w) = dcs" "w_modules (put_deviceconfigs dcs w) = w_modules w"
  "w_daemonsets (put_deviceconfigs dcs w) = w_daemonsets w" "w_services (put_deviceconfigs dcs w) = w_services w"
  "w_nodes (put_deviceconfigs dcs w) = w_nodes w" "w_clock (put_deviceconfigs dcs w) = w_clock w"
  "w_deviceconfigs (put_modules ms w) = w_deviceconfigs w" "w_modules (put_modules ms w) = ms"
  "w_daemonsets (put_modules ms w) = w_daemonsets w" "w_services (put_modules ms w) = w_services w"
  "w_nodes (put_modules ms w) = w_nodes w" "w_clock (put_modules ms w) = w_clock w"
  "w_deviceconfigs (put_daemonsets dss w) = w_deviceconfigs w" "w_modules (put_daemonsets dss w) = w_modules w"
  "w_daemonsets (put_daemonsets dss w) = dss" "w_services (put_daemonsets dss w) = w_services w"
  "w_nodes (put_daemonsets dss w) = w_nodes w" "w_clock (put_daemonsets dss w) = w_clock w"
  "w_deviceconfigs (put_services svcs w) = w_deviceconfigs w" "w_modules (put_services svcs w) = w_modules w"
  "w_daemonsets (put_services svcs w) = w_daemonsets w" "w_services (put_services svcs w) = svcs"
  "w_nodes (put_services svcs w) = w_nodes w" "w_clock (put_services svcs w) = w_clock w"
  by (simp_all add: put_defs)

lemma names_nonempty [simp]: "GetModuleName dc \<noteq> []" "getNodeLabelerName dc \<noteq> []" "GetNodeMetricsName dc \<noteq> []"
  by (simp_all add: GetModuleName_def getNodeLabelerName_def GetNodeMetricsName_def)

lemma names_distinct [simp]:
  "getNodeLabelerName dc \<noteq> GetNodeMetricsName dc" "GetNodeMetricsName dc \<noteq> getNodeLabelerName dc"
  by (simp_all add: getNodeLabelerName_def GetNodeMetricsName_def nodeLabelerSuffix_def nodeMetricsSuffix_def)

section \<open>The stages\<close>

text \<open>The keys of the four objects of a \<open>DeviceConfig\<close>, and that no other controller has them.\<close>

abbreviation module_key where "module_key dc \<equiv> (om_namespace (metadata dc), GetModuleName dc)"
abbreviation labeler_key where "labeler_key dc \<equiv> (om_namespace (metadata dc), getNodeLabelerName dc)"
abbreviation metrics_key where "metrics_key dc \<equiv> (om_namespace (metadata dc), GetNodeMetricsName dc)"

definition free_to_adopt :: "device_config \<Rightarrow> ('sp, other_fields) k8s_object option \<Rightarrow> bool" where
  "free_to_adopt dc got = (case got of None \<Rightarrow> True | Some obj \<Rightarrow> adoptable dc obj)"

definition all_adoptable :: "device_config \<Rightarrow> world \<Rightarrow> bool" where
  "all_adoptable dc w \<longleftrightarrow>
     free_to_adopt dc (fmlookup (w_modules w) (module_key dc)) \<and>
     free_to_adopt dc (fmlookup (w_daemonsets w) (labeler_key dc)) \<and>
     free_to_adopt dc (fmlookup (w_daemonsets w) (metrics_key dc)) \<and>
     free_to_adopt dc (fmlookup (w_services w) (metrics_key dc))"

lemma adoptable_found_or_new:
  "free_to_adopt dc (fmlookup objs (om_namespace (metadata dc), name)) \<Longrightarrow>
   adoptable dc (found_or_new objs name (om_namespace (metadata dc)) zero)"
  by (auto simp: free_to_adopt_def found_or_new_def adoptable_iff split: option.splits)

lemma module_stage:
  assumes "cluster_ok w" "free_to_adopt dc (fmlookup (w_modules w) (module_key dc))"
  shows "\<exists>m. ReconcileModule cluster (AddToScheme base) st dc w =
               (None, put_modules (fmupd (module_key dc) m (w_modules w)) w) \<and>
             cluster_ok (put_modules (fmupd (module_key dc) m (w_modules w)) w) \<and>
             SetDesiredModule (AddToScheme base) st (Some m) dc = Inr m"
  using module_step.stage [OF cluster_okD(2) [OF assms(1)] names_nonempty(1)
      module_writer.accepted_iff [THEN iffD2, OF conjI [OF adoptable_found_or_new [OF assms(2)] refl]]]
    cluster_ok_put(2) [OF assms(1)]
  unfolding ReconcileModule_eq cluster_simps by blast

lemma labeler_stage:
  assumes "cluster_ok w" "free_to_adopt dc (fmlookup (w_daemonsets w) (labeler_key dc))"
  shows "\<exists>ds. ReconcileNodeLabeler cluster (AddToScheme base) st dc w =
               (None, put_daemonsets (fmupd (labeler_key dc) ds (w_daemonsets w)) w) \<and>
             cluster_ok (put_daemonsets (fmupd (labeler_key dc) ds (w_daemonsets w)) w) \<and>
             SetDesiredNodeLabelerDaemonSet (AddToScheme base) st (Some ds) dc = Inr ds"
  using labeler_step.stage [OF cluster_okD(3) [OF assms(1)] names_nonempty(2)
      labeler_writer.accepted_iff [THEN iffD2, OF conjI [OF adoptable_found_or_new [OF assms(2)] refl]]]
    cluster_ok_put(3) [OF assms(1)]
  unfolding ReconcileNodeLabeler_eq cluster_simps by blast

lemma metrics_stage:
  assumes "cluster_ok w" "free_to_adopt dc (fmlookup (w_daemonsets w) (metrics_key dc))"
  shows "\<exists>ds. ReconcileNodeMetricsDaemonSet cluster (AddToScheme base) st dc w =
               (None, put_daemonsets (fmupd (metrics_key dc) ds (w_daemonsets w)) w) \<and>
             cluster_ok (put_daemonsets (fmupd (metrics_key dc) ds (w_daemonsets w)) w) \<and>
             SetDesiredNodeMetricsDaemonSet (AddToScheme base) st (Some ds) dc = Inr ds"
  using metrics_step.stage [OF cluster_okD(3) [OF assms(1)] names_nonempty(3)
      metrics_writer.accepted_iff [THEN iffD2, OF conjI [OF adoptable_found_or_new [OF assms(2)] refl]]]
    cluster_ok_put(3) [OF assms(1)]
  unfolding ReconcileNodeMetricsDaemonSet_eq cluster_simps by blast

lemma service_stage:
  assumes "cluster_ok w" "free_to_adopt dc (fmlookup (w_services w) (metrics_key dc))"
  shows "\<exists>svc. ReconcileNodeMetricsService cluster (AddToScheme base) dc w =
               (None, put_services (fmupd (metrics_key dc) svc (w_services w)) w) \<and>
             cluster_ok (put_services (fmupd (metrics_key dc) svc (w_services w)) w) \<and>
             SetDesiredNodeMetricsService (AddToScheme base) (Some svc) dc = Inr svc"
  using service_step.stage [OF cluster_okD(4) [OF assms(1)] names_nonempty(3)
      service_writer.accepted_iff [THEN iffD2, OF conjI [OF adoptable_found_or_new [OF assms(2)] refl]]]
    cluster_ok_put(4) [OF assms(1)]
  unfolding ReconcileNodeMetricsService_eq cluster_simps by blast

section \<open>What a resource asks for\<close>

text \<open>
  The desired objects depend on the name, namespace, UID and specification of the resource
  only, not on its finalizers, status or version.
\<close>

definition same_request :: "device_config \<Rightarrow> device_config \<Rightarrow> bool" where
  "same_request dc dc' \<longleftrightarrow>
     om_name (metadata dc) = om_name (metadata dc') \<and> om_namespace (metadata dc) = om_namespace (metadata dc') \<and>
     om_uid (metadata dc) = om_uid (metadata dc') \<and> spec dc = spec dc'"

lemma same_request_keys:
  assumes "same_request dc dc'"
  shows "om_namespace (metadata dc) = om_namespace (metadata dc')" "om_name (metadata dc) = om_name (metadata dc')"
    "GetModuleName dc = GetModuleName dc'" "getNodeLabelerName dc = getNodeLabelerName dc'"
    "GetNodeMetricsName dc = GetNodeMetricsName dc'" "ObjectKeyFromObject dc = ObjectKeyFromObject dc'"
  using assms
  by (simp_all add: same_request_def GetModuleName_def getNodeLabelerName_def GetNodeMetricsName_def
      ObjectKeyFromObject_def)

lemma same_request_reference:
  assumes "same_request dc dc'"
  shows "set_controller_reference sch dc obj = set_controller_reference sch dc' obj"
    and "free_to_adopt dc got = free_to_adopt dc' got"
proof -
  have "controller_ref gvk (metadata dc) = controller_ref gvk (metadata dc')" for gvk
    using assms by (simp add: same_request_def controller_ref_def)
  note ref = this
  moreover have "validateOwner (metadata dc) m = validateOwner (metadata dc') m" for m
    using assms by (simp add: same_request_def validateOwner_def)
  ultimately show "set_controller_reference sch dc obj = set_controller_reference sch dc' obj"
    by (simp add: set_controller_reference_def SetControllerReference_def cong: reconcile_cong)
  show "free_to_adopt dc got = free_to_adopt dc' got"
    using assms ref
    by (simp add: same_request_def free_to_adopt_def adoptable_iff dc_ref_def cong: reconcile_cong)
qed

lemma same_request_selector: "same_request dc dc' \<Longrightarrow> GetNodeSelector dc ts = GetNodeSelector dc' ts"
  by (simp add: same_request_def GetNodeSelector_def)

lemma same_request_desired:
  assumes "same_request dc dc'"
  shows "SetDesiredModule sch st m dc = SetDesiredModule sch st m dc'"
    "SetDesiredNodeLabelerDaemonSet sch st ds dc = SetDesiredNodeLabelerDaemonSet sch st ds dc'"
    "SetDesiredNodeMetricsDaemonSet sch st ds dc = SetDesiredNodeMetricsDaemonSet sch st ds dc'"
    "SetDesiredNodeMetricsService sch svc dc = SetDesiredNodeMetricsService sch svc dc'"
  using assms
  by (simp_all add: same_request_reference(1) [OF assms] same_request_selector [OF assms]
      SetDesiredModule_def makeModuleLoader_def makeKernelMappings_def makeDevicePlugin_def
      SetDesiredNodeLabelerDaemonSet_def labelsForNodeLabelerDaemonSet_def makeNodeLabelerContainer_def
      SetDesiredNodeMetricsDaemonSet_def labelsForNodeMetricsDaemonSet_def makeNodeMetricsContainer_def
      SetDesiredNodeMetricsService_def same_request_def Let_def split: option.split)

text \<open>All four objects exist and writing the desired state to them would change nothing.\<close>

definition provisioned :: "scheme \<Rightarrow> controller_settings \<Rightarrow> device_config \<Rightarrow> world \<Rightarrow> bool" where
  "provisioned base st dc w \<longleftrightarrow>
     (\<exists>m. fmlookup (w_modules w) (module_key dc) = Some m \<and>
        SetDesiredModule (AddToScheme base) st (Some m) dc = Inr m) \<and>
     (\<exists>ds. fmlookup (w_daemonsets w) (labeler_key dc) = Some ds \<and>
        SetDesiredNodeLabelerDaemonSet (AddToScheme base) st (Some ds) dc = Inr ds) \<and>
     (\<exists>ds. fmlookup (w_daemonsets w) (metrics_key dc) = Some ds \<and>
        SetDesiredNodeMetricsDaemonSet (AddToScheme base) st (Some ds) dc = Inr ds) \<and>
     (\<exists>svc. fmlookup (w_services w) (metrics_key dc) = Some svc \<and>
        SetDesiredNodeMetricsService (AddToScheme base) (Some svc) dc = Inr svc)"

text \<open>Nothing in the cluster differs but the resource itself and its four objects.\<close>

definition only_for :: "device_config \<Rightarrow> world \<Rightarrow> world \<Rightarrow> bool" where
  "only_for dc w w' \<longleftrightarrow>
     w_nodes w' = w_nodes w \<and> w_clock w' = w_clock w \<and>
     (\<forall>k. k \<noteq> ObjectKeyFromObject dc \<longrightarrow> fmlookup (w_deviceconfigs w') k = fmlookup (w_deviceconfigs w) k) \<and>
     (\<forall>k. k \<noteq> module_key dc \<longrightarrow> fmlookup (w_modules w') k = fmlookup (w_modules w) k) \<and>
     (\<forall>k. k \<noteq> labeler_key dc \<and> k \<noteq> metrics_key dc \<longrightarrow>
        fmlookup (w_daemonsets w') k = fmlookup (w_daemonsets w) k) \<and>
     (\<forall>k. k \<noteq> metrics_key dc \<longrightarrow> fmlookup (w_services w') k = fmlookup (w_services w) k)"

lemma provisioned_cong:
  "same_request dc dc' \<Longrightarrow> provisioned base st dc w = provisioned base st dc' w"
  by (simp add: provisioned_def same_request_keys same_request_desired)

text \<open>The three stages in a row, where no other controller has the objects.\<close>

lemma all_stages:
  assumes "cluster_ok w" "all_adoptable dc w"
  obtains w1 w2 w3 where
    "ReconcileModule cluster (AddToScheme base) st dc w = (None, w1)"
    "ReconcileNodeLabeler cluster (AddToScheme base) st dc w1 = (None, w2)"
    "ReconcileNodeMetrics cluster (AddToScheme base) st dc w2 = (None, w3)"
    "cluster_ok w3" "provisioned base st dc w3" "only_for dc w w3" "w_deviceconfigs w3 = w_deviceconfigs w"
proof -
  note free = assms(2) [unfolded all_adoptable_def]
  obtain m where m: "ReconcileModule cluster (AddToScheme base) st dc w =
      (None, put_modules (fmupd (module_key dc) m (w_modules w)) w)"
    "cluster_ok (put_modules (fmupd (module_key dc) m (w_modules w)) w)"
    "SetDesiredModule (AddToScheme base) st (Some m) dc = Inr m"
    using module_stage [OF assms(1)] free by blast
  define w1 where "w1 = put_modules (fmupd (module_key dc) m (w_modules w)) w"
  obtain l where l: "ReconcileNodeLabeler cluster (AddToScheme base) st dc w1 =
      (None, put_daemonsets (fmupd (labeler_key dc) l (w_daemonsets w1)) w1)"
    "cluster_ok (put_daemonsets (fmupd (labeler_key dc) l (w_daemonsets w1)) w1)"
    "SetDesiredNodeLabelerDaemonSet (AddToScheme base) st (Some l) dc = Inr l"
    using labeler_stage [of w1 dc base st] m(2) free unfolding w1_def by auto
  define w2 where "w2 = put_daemonsets (fmupd (labeler_key dc) l (w_daemonsets w1)) w1"
  obtain n where n: "ReconcileNodeMetricsDaemonSet cluster (AddToScheme base) st dc w2 =
      (None, put_daemonsets (fmupd (metrics_key dc) n (w_daemonsets w2)) w2)"
    "cluster_ok (put_daemonsets (fmupd (metrics_key dc) n (w_daemonsets w2)) w2)"
    "SetDesiredNodeMetricsDaemonSet (AddToScheme base) st (Some n) dc = Inr n"
    using metrics_stage [of w2 dc base st] l(2) free unfolding w2_def w1_def by auto
  define w25 where "w25 = put_daemonsets (fmupd (metrics_key dc) n (w_daemonsets w2)) w2"
  obtain s where s: "ReconcileNodeMetricsService cluster (AddToScheme base) dc w25 =
      (None, put_services (fmupd (metrics_key dc) s (w_services w25)) w25)"
    "cluster_ok (put_services (fmupd (metrics_key dc) s (w_services w25)) w25)"
    "SetDesiredNodeMetricsService (AddToScheme base) (Some s) dc = Inr s"
    using service_stage [of w25 dc base] n(2) free unfolding w25_def w2_def w1_def by auto
  define w3 where "w3 = put_services (fmupd (metrics_key dc) s (w_services w25)) w25"
  note ws = w1_def w2_def w25_def w3_def
  have "ReconcileNodeMetrics cluster (AddToScheme base) st dc w2 = (None, w3)"
    using n(1) s(1) by (simp add: ReconcileNodeMetrics_def setNodeMetricsConditions_def w25_def w3_def)
  moreover have "provisioned base st dc w3" "only_for dc w w3" "w_deviceconfigs w3 = w_deviceconfigs w"
    using m(3) l(3) n(3) s(3) by (simp_all add: provisioned_def only_for_def ws)
  ultimately show thesis
    using that [of w1 w2 w3] m(1) l(1) s(2) unfolding ws by blast
qed

section \<open>Reconciling on the cluster\<close>

text \<open>
  A resource that is ready: present, alive, with the finalizer, and with the conditions that the
  updater writes.
\<close>

definition ready :: "object_key \<Rightarrow> device_config \<Rightarrow> world \<Rightarrow> bool" where
  "ready req dc w \<longleftrightarrow>
     (\<exists>dc'. fmlookup (w_deviceconfigs w) req = Some dc' \<and> same_request dc dc' \<and>
        om_finalizers (metadata dc') = om_finalizers (metadata (finalized dc)) \<and>
        IsStatusConditionTrue (conditions (status dc')) Ready \<and>
        IsStatusConditionFalse (conditions (status dc')) Errored)"

definition success_event :: "device_config \<Rightarrow> event" where
  "success_event dc = \<lparr>ev_object = ObjectKeyFromObject dc, ev_type = ''Normal'', ev_reason = ''Reconciled'',
     ev_message = ''Succesfully reconciled DeviceConfig '' @ om_namespace (metadata dc) @ ''/'' @ om_name (metadata dc)\<rparr>"

lemma stored_key_dc:
  "cluster_ok w \<Longrightarrow> fmlookup (w_deviceconfigs w) req = Some dc \<Longrightarrow> ObjectKeyFromObject dc = req"
  using tracker_okD [OF cluster_okD(1)] by (auto simp: stored_ok_def)

lemma get_stored_dc:
  "cluster_ok w \<Longrightarrow> fmlookup (w_deviceconfigs w) req = Some dc \<Longrightarrow>
   kc_get (api_deviceconfigs cluster) req w = (Inr dc, w)"
  using deviceconfigs.get_stored [OF cluster_okD(1)] by simp

lemma finalized_simps [simp]:
  "same_request dc (finalized dc)" "status (finalized dc) = status dc"
  "om_resourceVersion (metadata (finalized dc)) = om_resourceVersion (metadata dc)"
  "om_deletionTimestamp (metadata (finalized dc)) = om_deletionTimestamp (metadata dc)"
  "ObjectKeyFromObject (finalized dc) = ObjectKeyFromObject dc" "spec (finalized dc) = spec dc"
  by (simp_all add: finalized_def same_request_def)

lemma same_request_trans: "same_request a b \<Longrightarrow> same_request b c \<Longrightarrow> same_request a c"
  by (simp add: same_request_def)

lemma same_request_version [simp]: "same_request dc (set_resourceVersion rv dc') = same_request dc dc'"
  by (simp add: same_request_def)

lemma same_request_conditions [simp]: "same_request dc (set_conditions cs dc') = same_request dc dc'"
  by (simp add: same_request_def)

text \<open>The write of an update of the stored resource, of its finalizers or of its status.\<close>

lemma update_dc:
  assumes ok: "cluster_ok w" and st: "fmlookup (w_deviceconfigs w) (ObjectKeyFromObject y) = Some x"
    and rv: "om_resourceVersion (metadata y) = om_resourceVersion (metadata x)" and sp: "spec y = spec x"
    and dt: "om_deletionTimestamp (metadata y) = om_deletionTimestamp (metadata x)" and ka: "kept_alive y"
  shows "\<exists>v. kc_update (api_deviceconfigs cluster) y w = (Inr (set_resourceVersion v y),
             put_deviceconfigs (fmupd (ObjectKeyFromObject y) (set_resourceVersion v y) (w_deviceconfigs w)) w) \<and>
           kc_status_update (api_deviceconfigs cluster) y w = (Inr (set_resourceVersion v y),
             put_deviceconfigs (fmupd (ObjectKeyFromObject y) (set_resourceVersion v y) (w_deviceconfigs w)) w) \<and>
           cluster_ok (put_deviceconfigs (fmupd (ObjectKeyFromObject y) (set_resourceVersion v y) (w_deviceconfigs w)) w)"
proof -
  have "decode_object deviceconfig_kind y = y"
    using deviceconfigs.stored_decoded [OF cluster_okD(1) [OF ok] st] sp dt by (simp add: decode_object_id)
  from deviceconfigs.update_result [OF cluster_okD(1) [OF ok] st rv this ka [unfolded kept_alive_def]]
  show ?thesis using cluster_ok_put(1) [OF ok] by (auto simp: fake_client_def)
qed

text \<open>The step that adds the finalizer where it is missing.\<close>

lemma finalizer_step:
  assumes ok: "cluster_ok w" and st: "fmlookup (w_deviceconfigs w) req = Some dc" and al: "\<not> being_deleted dc"
  obtains dc1 w1 where
    "(if \<not> ContainsDeletionFinalizer dc then AddDeletionFinalizer cluster dc w else ((None, dc), w)) =
       ((None, dc1), w1)"
    "cluster_ok w1" "fmlookup (w_deviceconfigs w1) req = Some dc1" "same_request dc dc1"
    "om_finalizers (metadata dc1) = om_finalizers (metadata (finalized dc))" "\<not> being_deleted dc1"
    "status dc1 = status dc" "only_for dc w w1" "w_modules w1 = w_modules w"
    "w_daemonsets w1 = w_daemonsets w" "w_services w1 = w_services w"
proof (cases "ContainsDeletionFinalizer dc")
  case True
  then show thesis using assms
    by (intro that [of dc w]) (auto simp: finalized_def same_request_def only_for_def)
next
  case False
  have key: "ObjectKeyFromObject dc = req" by (rule stored_key_dc [OF ok st])
  have "kept_alive (finalized dc)" using al by (simp add: kept_alive_def being_deleted_def)
  then obtain v where v: "kc_update (api_deviceconfigs cluster) (finalized dc) w =
      (Inr (set_resourceVersion v (finalized dc)),
       put_deviceconfigs (fmupd req (set_resourceVersion v (finalized dc)) (w_deviceconfigs w)) w)"
    "cluster_ok (put_deviceconfigs (fmupd req (set_resourceVersion v (finalized dc)) (w_deviceconfigs w)) w)"
    using update_dc [OF ok, of "finalized dc" dc] st key by auto
  show thesis
    using v False al key
    by (intro that [of "set_resourceVersion v (finalized dc)"
          "put_deviceconfigs (fmupd req (set_resourceVersion v (finalized dc)) (w_deviceconfigs w)) w"])
       (simp_all add: AddDeletionFinalizer_eq being_deleted_def only_for_def del: cluster_simps)
qed

text \<open>Reporting ready, or an error, on the stored resource.\<close>

lemma report_ready:
  assumes ok: "cluster_ok w" and st: "fmlookup (w_deviceconfigs w) req = Some dc" and al: "\<not> being_deleted dc"
  obtains dc' where
    "SetConditionsReady cluster dc reason message w = ((None, dc'), put_deviceconfigs (fmupd req dc' (w_deviceconfigs w)) w)"
    "cluster_ok (put_deviceconfigs (fmupd req dc' (w_deviceconfigs w)) w)" "same_request dc dc'"
    "om_finalizers (metadata dc') = om_finalizers (metadata dc)" "\<not> being_deleted dc'"
    "IsStatusConditionTrue (conditions (status dc')) Ready" "IsStatusConditionFalse (conditions (status dc')) Errored"
    "\<exists>t1 t2. conditions (status dc') = ready_conditions t1 t2 reason message (conditions (status dc))"
    "metadata dc' = (metadata dc)\<lparr>om_resourceVersion := om_resourceVersion (metadata dc')\<rparr>"
proof -
  have key: "ObjectKeyFromObject dc = req" by (rule stored_key_dc [OF ok st])
  obtain cs where cs: "SetConditionsReady cluster dc reason message w = write_status cluster (set_conditions cs dc) w"
    "IsStatusConditionTrue cs Ready" "IsStatusConditionFalse cs Errored"
    "\<exists>t1 t2. cs = ready_conditions t1 t2 reason message (conditions (status dc))"
    using ready_conditions_status unfolding SetConditionsReady_def by blast
  have "kept_alive (set_conditions cs dc)" using al by (simp add: kept_alive_def being_deleted_def)
  then obtain v where "kc_status_update (api_deviceconfigs cluster) (set_conditions cs dc) w =
      (Inr (set_resourceVersion v (set_conditions cs dc)),
       put_deviceconfigs (fmupd req (set_resourceVersion v (set_conditions cs dc)) (w_deviceconfigs w)) w)"
    "cluster_ok (put_deviceconfigs (fmupd req (set_resourceVersion v (set_conditions cs dc)) (w_deviceconfigs w)) w)"
    using update_dc [OF ok, of "set_conditions cs dc" dc] st key by auto
  then show thesis
    using cs al by (intro that [of "set_resourceVersion v (set_conditions cs dc)"])
      (simp_all add: write_status_def being_deleted_def same_request_def set_resourceVersion_def del: cluster_simps)
qed

lemma only_for_trans:
  "only_for dc a b \<Longrightarrow> only_for dc b c \<Longrightarrow> only_for dc a c"
  by (simp add: only_for_def)

lemma only_for_cong: "same_request dc dc' \<Longrightarrow> only_for dc' a b = only_for dc a b"
  by (simp add: only_for_def same_request_keys [of dc dc'])

lemma all_adoptable_cong:
  "same_request dc dc' \<Longrightarrow> w_modules w' = w_modules w \<Longrightarrow> w_daemonsets w' = w_daemonsets w \<Longrightarrow>
   w_services w' = w_services w \<Longrightarrow> all_adoptable dc' w' = all_adoptable dc w"
  by (simp add: all_adoptable_def same_request_keys [of dc dc'] same_request_reference(2) [of dc dc'])

lemma no_conflict:
  assumes "cluster_ok w" "conflict_free (ran (fmlookup (w_deviceconfigs w))) (ran (fmlookup (w_nodes w)))"
  shows "CheckDeviceConfigForConflictingNodeSelector cluster dc w = (None, w)"
  using checks.check_eq [OF assms(1)] assms(2) by simp

lemma reconciled_provisions:
  assumes "cluster_ok (cs_world cs)" "fmlookup (w_deviceconfigs (cs_world cs)) req = Some dc" "\<not> being_deleted dc"
    and "conflict_free (ran (fmlookup (w_deviceconfigs (cs_world cs)))) (ran (fmlookup (w_nodes (cs_world cs))))"
    and "all_adoptable dc (cs_world cs)"
  shows "\<exists>w'. Reconcile (operator_reconciler cluster (AddToScheme base) st) req cs =
     ((empty_result, None),
      \<lparr>cs_world = w', ReconciliationFailed = (ReconciliationFailed cs)(om_name (metadata dc) \<mapsto> 0),
       cs_events = cs_events cs @ [success_event dc], \<dots> = controller_state.more cs\<rparr>) \<and>
     cluster_ok w' \<and> provisioned base st dc w' \<and> ready req dc w' \<and> only_for dc (cs_world cs) w'"
proof -
  let ?w = "cs_world cs"
  have key: "ObjectKeyFromObject dc = req" by (rule stored_key_dc [OF assms(1,2)])
  obtain dc1 w1 where fin:
    "(if \<not> ContainsDeletionFinalizer dc then AddDeletionFinalizer cluster dc ?w else ((None, dc), ?w)) = ((None, dc1), w1)"
    "cluster_ok w1" "fmlookup (w_deviceconfigs w1) req = Some dc1" "same_request dc dc1"
    "om_finalizers (metadata dc1) = om_finalizers (metadata (finalized dc))" "\<not> being_deleted dc1"
    "only_for dc ?w w1" "w_modules w1 = w_modules ?w" "w_daemonsets w1 = w_daemonsets ?w" "w_services w1 = w_services ?w"
    using finalizer_step [OF assms(1-3)] by metis
  have "all_adoptable dc1 w1" using assms(5) all_adoptable_cong [OF fin(4), of w1 ?w] fin(8-10) by simp
  then obtain w2 w3 w4 where st: "ReconcileModule cluster (AddToScheme base) st dc1 w1 = (None, w2)"
    "ReconcileNodeLabeler cluster (AddToScheme base) st dc1 w2 = (None, w3)"
    "ReconcileNodeMetrics cluster (AddToScheme base) st dc1 w3 = (None, w4)"
    "cluster_ok w4" "provisioned base st dc1 w4" "only_for dc1 w1 w4" "w_deviceconfigs w4 = w_deviceconfigs w1"
    using all_stages [OF fin(2)] by metis
  obtain dc' where rdy: "SetConditionsReady cluster dc1 ''Reconciled''
      ''All resources have been successfully reconciled'' w4 = ((None, dc'), put_deviceconfigs (fmupd req dc' (w_deviceconfigs w4)) w4)"
    "cluster_ok (put_deviceconfigs (fmupd req dc' (w_deviceconfigs w4)) w4)" "same_request dc1 dc'"
    "om_finalizers (metadata dc') = om_finalizers (metadata dc1)"
    "IsStatusConditionTrue (conditions (status dc')) Ready" "IsStatusConditionFalse (conditions (status dc')) Errored"
    using report_ready [OF st(4), of req dc1] fin(3,6) st(7) by metis
  let ?w' = "put_deviceconfigs (fmupd req dc' (w_deviceconfigs w4)) w4"
  let ?r = "operator_reconciler cluster (AddToScheme base) st"
  have "Reconcile ?r req cs = reconcile_stages ?r dc1 (cs\<lparr>cs_world := w1\<rparr>)"
    using Reconcile_stages [of ?r req cs dc ?w ?w dc1 w1] get_stored_dc [OF assms(1,2)] no_conflict [OF assms(1,4)]
      assms(3) fin(1) unfolding operator_reconciler_simps add_missing_finalizer_operator by blast
  also have "\<dots> =
     ((empty_result, None),
      \<lparr>cs_world = ?w', ReconciliationFailed = (ReconciliationFailed cs)(om_name (metadata dc) \<mapsto> 0),
       cs_events = cs_events cs @ [success_event dc], \<dots> = controller_state.more cs\<rparr>)"
    using reconcile_stages_done [of ?r dc1 "cs\<lparr>cs_world := w1\<rparr>" w2 w3 w4 None dc' ?w'] st(1-3) rdy(1)
      same_request_keys [OF fin(4)] by (simp add: success_event_def)
  finally have "Reconcile ?r req cs =
     ((empty_result, None),
      \<lparr>cs_world = ?w', ReconciliationFailed = (ReconciliationFailed cs)(om_name (metadata dc) \<mapsto> 0),
       cs_events = cs_events cs @ [success_event dc], \<dots> = controller_state.more cs\<rparr>)" .
  moreover have "provisioned base st dc ?w'"
    using st(5) provisioned_cong [OF fin(4)] by (simp add: provisioned_def)
  moreover have "ready req dc ?w'"
    using rdy fin(4,5) by (auto simp: ready_def intro: same_request_trans)
  moreover have "only_for dc ?w ?w'"
    using fin(7) st(6) key only_for_cong [OF fin(4), of w1 w4] by (auto simp: only_for_def)
  ultimately show ?thesis using rdy(2) by blast
qed

text \<open>
  C3. One reconciliation provisions the resource. On the cluster, for a stored \<open>DeviceConfig\<close>
  that is not being deleted, while no two \<open>DeviceConfig\<close>s select a common node and no other
  controller owns one of its four objects, \<^verbatim>\<open>Reconcile\<close> returns without an error; afterwards the Module,
  both DaemonSets and the Service exist in the state the resource asks for, the resource has the
  finalizer and the conditions Ready and not Errored; nothing else in the cluster has changed;
  the gauge is zero and one success event is recorded.
\<close>

theorem reconcile_provisions:
  assumes "cluster_ok (cs_world cs)" "fmlookup (w_deviceconfigs (cs_world cs)) req = Some dc" "\<not> being_deleted dc"
    and "conflict_free (ran (fmlookup (w_deviceconfigs (cs_world cs)))) (ran (fmlookup (w_nodes (cs_world cs))))"
    and "all_adoptable dc (cs_world cs)"
  shows "\<exists>w'. Reconcile (operator_reconciler cluster (AddToScheme base) st) req cs =
     ((empty_result, None),
      \<lparr>cs_world = w', ReconciliationFailed = (ReconciliationFailed cs)(om_name (metadata dc) \<mapsto> 0),
       cs_events = cs_events cs @ [success_event dc], \<dots> = controller_state.more cs\<rparr>) \<and>
     cluster_ok w' \<and> provisioned base st dc w' \<and> ready req dc w' \<and> only_for dc (cs_world cs) w'"
  using assms by (rule reconciled_provisions)

text \<open>In the provisioned state the stages do nothing.\<close>

lemma stages_stable:
  assumes "cluster_ok w" "provisioned base st dc w"
  shows "ReconcileModule cluster (AddToScheme base) st dc w = (None, w)"
    "ReconcileNodeLabeler cluster (AddToScheme base) st dc w = (None, w)"
    "ReconcileNodeMetrics cluster (AddToScheme base) st dc w = (None, w)"
proof -
  note ok = cluster_okD [OF assms(1)]
  show "ReconcileModule cluster (AddToScheme base) st dc w = (None, w)"
    using assms(2) module_step.stage_stable [OF ok(2)] unfolding provisioned_def ReconcileModule_eq cluster_simps
    by blast
  show "ReconcileNodeLabeler cluster (AddToScheme base) st dc w = (None, w)"
    using assms(2) labeler_step.stage_stable [OF ok(3)]
    unfolding provisioned_def ReconcileNodeLabeler_eq cluster_simps by blast
  have "ReconcileNodeMetricsDaemonSet cluster (AddToScheme base) st dc w = (None, w)"
    using assms(2) metrics_step.stage_stable [OF ok(3)]
    unfolding provisioned_def ReconcileNodeMetricsDaemonSet_eq cluster_simps by blast
  moreover have "ReconcileNodeMetricsService cluster (AddToScheme base) dc w = (None, w)"
    using assms(2) service_step.stage_stable [OF ok(4)]
    unfolding provisioned_def ReconcileNodeMetricsService_eq cluster_simps by blast
  ultimately show "ReconcileNodeMetrics cluster (AddToScheme base) st dc w = (None, w)"
    by (simp add: ReconcileNodeMetrics_def setNodeMetricsConditions_def)
qed

text \<open>
  C15. Reconciliation is idempotent on the objects of a live resource. Where the resource is not being deleted, no two
  \<open>DeviceConfig\<close>s select a common node, and the resource is provisioned and has the finalizer, a further reconciliation succeeds and
  writes to that one resource alone, of which it replaces the conditions and, as every write does, the version: labels, annotations,
  owner references, finalizers and specification stay, and so does every other object of the cluster. The resource stays provisioned and is ready.
\<close>

theorem reconcile_idempotent:
  assumes "cluster_ok (cs_world cs)" "fmlookup (w_deviceconfigs (cs_world cs)) req = Some dc" "\<not> being_deleted dc"
    and "conflict_free (ran (fmlookup (w_deviceconfigs (cs_world cs)))) (ran (fmlookup (w_nodes (cs_world cs))))"
    and "provisioned base st dc (cs_world cs)" "ContainsDeletionFinalizer dc"
  shows "\<exists>dc' v t1 t2. let w' = put_deviceconfigs (fmupd req dc' (w_deviceconfigs (cs_world cs))) (cs_world cs) in
     fst (Reconcile (operator_reconciler cluster (AddToScheme base) st) req cs) = (empty_result, None) \<and>
     cs_world (snd (Reconcile (operator_reconciler cluster (AddToScheme base) st) req cs)) = w' \<and>
     dc' = dc\<lparr>metadata := (metadata dc)\<lparr>om_resourceVersion := v\<rparr>,
       status := \<lparr>conditions = ready_conditions t1 t2 ''Reconciled''
         ''All resources have been successfully reconciled'' (conditions (status dc))\<rparr>\<rparr> \<and>
     cluster_ok w' \<and> provisioned base st dc w' \<and> ready req dc w'"
proof -
  let ?w = "cs_world cs" and ?r = "operator_reconciler cluster (AddToScheme base) st"
  obtain dc' where rdy: "SetConditionsReady cluster dc ''Reconciled''
      ''All resources have been successfully reconciled'' ?w = ((None, dc'), put_deviceconfigs (fmupd req dc' (w_deviceconfigs ?w)) ?w)"
    "cluster_ok (put_deviceconfigs (fmupd req dc' (w_deviceconfigs ?w)) ?w)" "same_request dc dc'"
    "om_finalizers (metadata dc') = om_finalizers (metadata dc)"
    "IsStatusConditionTrue (conditions (status dc')) Ready" "IsStatusConditionFalse (conditions (status dc')) Errored"
    "\<exists>t1 t2. conditions (status dc') = ready_conditions t1 t2 ''Reconciled''
      ''All resources have been successfully reconciled'' (conditions (status dc))"
    "metadata dc' = (metadata dc)\<lparr>om_resourceVersion := om_resourceVersion (metadata dc')\<rparr>"
    using report_ready [OF assms(1-3)] by metis
  have "spec dc' = spec dc" using rdy(3) by (simp add: same_request_def)
  moreover obtain t1 t2 where "conditions (status dc') = ready_conditions t1 t2 ''Reconciled''
      ''All resources have been successfully reconciled'' (conditions (status dc))" using rdy(7) by blast
  ultimately have dc': "dc' = dc\<lparr>metadata := (metadata dc)\<lparr>om_resourceVersion := om_resourceVersion (metadata dc')\<rparr>,
      status := \<lparr>conditions = ready_conditions t1 t2 ''Reconciled''
         ''All resources have been successfully reconciled'' (conditions (status dc))\<rparr>\<rparr>"
    using rdy(8) by (intro k8s_object.equality) simp_all
  have "Reconcile ?r req cs = reconcile_stages ?r dc (cs\<lparr>cs_world := ?w\<rparr>)"
    using Reconcile_stages [of ?r req cs dc ?w ?w dc ?w] get_stored_dc [OF assms(1,2)] no_conflict [OF assms(1,4)]
      assms(3,6) unfolding operator_reconciler_simps by simp
  moreover note reconcile_stages_done [of ?r dc cs ?w ?w ?w None dc'
      "put_deviceconfigs (fmupd req dc' (w_deviceconfigs ?w)) ?w"]
  moreover have "om_finalizers (metadata (finalized dc)) = om_finalizers (metadata dc)"
    using assms(6) by (simp add: finalized_def)
  moreover have "provisioned base st dc (put_deviceconfigs (fmupd req dc' (w_deviceconfigs ?w)) ?w)"
    using assms(5) by (simp add: provisioned_def)
  ultimately show ?thesis
    using stages_stable [OF assms(1,5)] rdy(1-6)
    by (intro exI [where x = dc'] exI [where x = "om_resourceVersion (metadata dc')"] exI [where x = t1] exI [where x = t2]
        Let_def [THEN meta_eq_to_obj_eq, THEN iffD2] conjI dc') (simp_all add: ready_def)
qed

section \<open>Deletion on the cluster\<close>

lemma update_unfinalized:
  assumes ok: "cluster_ok w" and st: "fmlookup (w_deviceconfigs w) req = Some dc" and del: "being_deleted dc"
  shows "\<exists>v. RemoveDeletionFinalizer cluster dc w =
     ((None, set_resourceVersion v (unfinalized dc)),
      put_deviceconfigs (if om_finalizers (metadata (unfinalized dc)) = [] then fmdrop req (w_deviceconfigs w)
        else fmupd req (set_resourceVersion v (unfinalized dc)) (w_deviceconfigs w)) w) \<and>
     cluster_ok (put_deviceconfigs (if om_finalizers (metadata (unfinalized dc)) = [] then fmdrop req (w_deviceconfigs w)
        else fmupd req (set_resourceVersion v (unfinalized dc)) (w_deviceconfigs w)) w)"
proof -
  have key: "ObjectKeyFromObject (unfinalized dc) = req"
    using stored_key_dc [OF ok st] by (simp add: unfinalized_def)
  then have st': "fmlookup (w_deviceconfigs w) (ObjectKeyFromObject (unfinalized dc)) = Some dc" using st by simp
  have rv: "om_resourceVersion (metadata (unfinalized dc)) = om_resourceVersion (metadata dc)"
    and same: "spec (unfinalized dc) = spec dc" "om_name (metadata (unfinalized dc)) = om_name (metadata dc)"
      "om_deletionTimestamp (metadata (unfinalized dc)) = om_deletionTimestamp (metadata dc)"
    by (simp_all add: unfinalized_def)
  from versioned_Update_stored [OF cluster_okD(1) [OF ok] st' rv]
  obtain v where v: "version_ok v" "versioned_Update deviceconfig_kind (unfinalized dc)
      (om_namespace (metadata (unfinalized dc))) (w_deviceconfigs w) = (Inr (set_resourceVersion v (unfinalized dc)),
        if \<not> time_IsZero (om_deletionTimestamp (metadata (unfinalized dc))) \<and> om_finalizers (metadata (unfinalized dc)) = []
        then fmdrop req (w_deviceconfigs w) else fmupd req (set_resourceVersion v (unfinalized dc)) (w_deviceconfigs w))"
    unfolding key by blast
  have "decode_object deviceconfig_kind (unfinalized dc) = unfinalized dc"
    using deviceconfigs.stored_decoded [OF cluster_okD(1) [OF ok] st] same by (simp add: decode_object_id)
  then have "stored_ok deviceconfig_kind req (set_resourceVersion v (unfinalized dc))"
    if "om_finalizers (metadata (unfinalized dc)) \<noteq> []"
    using that v(1) key same tracker_okD [OF cluster_okD(1) [OF ok] st]
    by (simp add: stored_ok_def kept_alive_def)
  then have "tracker_ok deviceconfig_kind
      (if om_finalizers (metadata (unfinalized dc)) = [] then fmdrop req (w_deviceconfigs w)
       else fmupd req (set_resourceVersion v (unfinalized dc)) (w_deviceconfigs w))"
    using cluster_okD(1) [OF ok] by (simp add: tracker_ok_drop tracker_ok_upd)
  from cluster_ok_put(1) [OF ok this] show ?thesis
    using v(2) del same(3) by (intro exI [where x = v])
      (simp add: RemoveDeletionFinalizer_eq fake_client_def on_tracker_def being_deleted_def)
qed

lemma delete_module_step:
  assumes "cluster_ok w"
    and "\<And>m. fmlookup (w_modules w) (module_key dc) = Some m \<Longrightarrow> om_finalizers (metadata m) = []"
  shows "DeleteModule cluster dc w = (None, put_modules (fmdrop (module_key dc) (w_modules w)) w)"
  using module_step.removed [OF cluster_okD(2) [OF assms(1)],
      of "named_object (GetModuleName dc) (om_namespace (metadata dc)) empty_module_spec"] assms(2)
  by (simp add: DeleteModule_eq)

lemma deletion_outcome:
  assumes "cluster_ok (cs_world cs)" "fmlookup (w_deviceconfigs (cs_world cs)) req = Some dc"
    and "being_deleted dc" "ContainsDeletionFinalizer dc"
    and "\<And>m. fmlookup (w_modules (cs_world cs)) (module_key dc) = Some m \<Longrightarrow> om_finalizers (metadata m) = []"
  shows "\<exists>v. Reconcile (operator_reconciler cluster (AddToScheme base) st) req cs =
     ((empty_result, None),
      cs\<lparr>cs_world := (cs_world cs)
            \<lparr>w_modules := fmdrop (module_key dc) (w_modules (cs_world cs)),
             w_deviceconfigs :=
               (if set (om_finalizers (metadata dc)) = {DeviceConfigDeletionFinalizer}
                then fmdrop req (w_deviceconfigs (cs_world cs))
                else fmupd req (set_resourceVersion v (unfinalized dc)) (w_deviceconfigs (cs_world cs)))\<rparr>,
         ReconciliationFailed := (ReconciliationFailed cs)(om_name (metadata dc) \<mapsto> 0)\<rparr>)"
proof -
  let ?w = "cs_world cs" and ?r = "operator_reconciler cluster (AddToScheme base) st"
  let ?w1 = "put_modules (fmdrop (module_key dc) (w_modules ?w)) ?w"
  have ok1: "cluster_ok ?w1"
    by (rule cluster_ok_put(2) [OF assms(1)]) (rule tracker_ok_drop [OF cluster_okD(2) [OF assms(1)]])
  obtain v where v: "RemoveDeletionFinalizer cluster dc ?w1 =
     ((None, set_resourceVersion v (unfinalized dc)),
      put_deviceconfigs (if om_finalizers (metadata (unfinalized dc)) = [] then fmdrop req (w_deviceconfigs ?w1)
        else fmupd req (set_resourceVersion v (unfinalized dc)) (w_deviceconfigs ?w1)) ?w1)"
    using update_unfinalized [OF ok1 _ assms(3), of req] assms(2) unfolding world_put_simps by blast
  have "om_finalizers (metadata (unfinalized dc)) = [] \<longleftrightarrow>
      set (om_finalizers (metadata dc)) = {DeviceConfigDeletionFinalizer}"
    using assms(4) by (auto simp: unfinalized_def filter_empty_conv ContainsDeletionFinalizer_iff)
  with v show ?thesis
    using Reconcile_deletion [of ?r req cs dc ?w] get_stored_dc [OF assms(1,2)]
      delete_module_step [OF assms(1,5)] assms(3,4)
    by (intro exI [where x = v])
       (simp add: reconcile_deletion_def deleteDeviceConfigResources_def outside_def set_gauge_def put_defs Let_def
         del: cluster_simps)
qed

text \<open>
  C13. Deletion. For a stored resource that is being deleted and has the finalizer, while its Module
  (if there is one) has no finalizer of its own, one reconciliation removes the Module and then the finalizer, and
  changes nothing else: the resource is gone if that was its last finalizer, and is kept without it
  otherwise. The DaemonSets and the Service stay, for the garbage collector.
\<close>

theorem reconcile_deletes:
  assumes "cluster_ok (cs_world cs)" "fmlookup (w_deviceconfigs (cs_world cs)) req = Some dc"
    and "being_deleted dc" "ContainsDeletionFinalizer dc"
    and "\<And>m. fmlookup (w_modules (cs_world cs)) (module_key dc) = Some m \<Longrightarrow> om_finalizers (metadata m) = []"
  shows "\<exists>v. Reconcile (operator_reconciler cluster (AddToScheme base) st) req cs =
     ((empty_result, None),
      cs\<lparr>cs_world := (cs_world cs)
            \<lparr>w_modules := fmdrop (module_key dc) (w_modules (cs_world cs)),
             w_deviceconfigs :=
               (if set (om_finalizers (metadata dc)) = {DeviceConfigDeletionFinalizer}
                then fmdrop req (w_deviceconfigs (cs_world cs))
                else fmupd req (set_resourceVersion v (unfinalized dc)) (w_deviceconfigs (cs_world cs)))\<rparr>,
         ReconciliationFailed := (ReconciliationFailed cs)(om_name (metadata dc) \<mapsto> 0)\<rparr>)"
  using assms by (rule deletion_outcome)

text \<open>
  What is left to the garbage collector can also be deleted by the code: the labeler's and the
  metrics' deletions remove exactly the DaemonSet, and the DaemonSet and the Service, of the
  resource, whether they exist or not, where they have no finalizers.
\<close>

theorem workloads_deleted:
  assumes "cluster_ok w"
    and "\<And>ds. fmlookup (w_daemonsets w) (labeler_key dc) = Some ds \<Longrightarrow> om_finalizers (metadata ds) = []"
    and "\<And>ds. fmlookup (w_daemonsets w) (metrics_key dc) = Some ds \<Longrightarrow> om_finalizers (metadata ds) = []"
    and "\<And>svc. fmlookup (w_services w) (metrics_key dc) = Some svc \<Longrightarrow> om_finalizers (metadata svc) = []"
  shows "DeleteNodeLabeler cluster dc w = (None, w\<lparr>w_daemonsets := fmdrop (labeler_key dc) (w_daemonsets w)\<rparr>) \<and>
     DeleteNodeMetrics cluster dc w =
       (None, w\<lparr>w_daemonsets := fmdrop (metrics_key dc) (w_daemonsets w),
                w_services := fmdrop (metrics_key dc) (w_services w)\<rparr>)"
proof
  show "DeleteNodeLabeler cluster dc w = (None, w\<lparr>w_daemonsets := fmdrop (labeler_key dc) (w_daemonsets w)\<rparr>)"
    using labeler_step.removed [OF cluster_okD(3) [OF assms(1)],
        of "named_object (getNodeLabelerName dc) (om_namespace (metadata dc)) empty_daemon_set_spec"] assms(2)
    by (simp add: DeleteNodeLabeler_eq put_defs)
  let ?w1 = "put_daemonsets (fmdrop (metrics_key dc) (w_daemonsets w)) w"
  have "DeleteNodeMetricsDaemonSet cluster dc w = (None, ?w1)"
    using metrics_step.removed [OF cluster_okD(3) [OF assms(1)],
        of "named_object (GetNodeMetricsName dc) (om_namespace (metadata dc)) empty_daemon_set_spec"] assms(3)
    by (simp add: DeleteNodeMetricsDaemonSet_eq)
  moreover have "DeleteNodeMetricsService cluster dc ?w1 =
      (None, put_services (fmdrop (metrics_key dc) (w_services ?w1)) ?w1)"
    using service_step.removed [of ?w1 "named_object (GetNodeMetricsName dc) (om_namespace (metadata dc)) empty_service_spec"]
      cluster_okD(4) [OF assms(1)] assms(4)
    by (simp add: DeleteNodeMetricsService_eq)
  ultimately show "DeleteNodeMetrics cluster dc w =
       (None, w\<lparr>w_daemonsets := fmdrop (metrics_key dc) (w_daemonsets w),
                w_services := fmdrop (metrics_key dc) (w_services w)\<rparr>)"
    by (simp add: DeleteNodeMetrics_def put_defs)
qed

section \<open>Validation on the cluster\<close>

text \<open>
  C18. The validation fails exactly when two different \<open>DeviceConfig\<close>s of the cluster select a
  common node, and it changes nothing; the error names the resource that is reconciled, whether
  or not it is one of the two.
\<close>

theorem validation_exact:
  assumes "cluster_ok w"
  shows "CheckDeviceConfigForConflictingNodeSelector cluster dc w =
     (if \<exists>a \<in> ran (fmlookup (w_deviceconfigs w)). \<exists>b \<in> ran (fmlookup (w_deviceconfigs w)).
           \<exists>n \<in> ran (fmlookup (w_nodes w)). a \<noteq> b \<and> selects a n \<and> selects b n
      then Some (TextError (''conflicting DeviceConfig NodeSelectors found for resource: '' @ om_name (metadata dc)))
      else None, w)"
  using checks.check_eq [OF assms, of dc] unfolding conflict_free_def by auto

end
