(* ===== verification/Reconcile_Outcomes.thy ===== *)
theory Reconcile_Outcomes
  imports Operator_Cluster
begin

text \<open>
  Every way a reconciliation can go on the cluster, errors included: the outcome of each stage for
  any state of its object, of the stages in a row, and of \<^verbatim>\<open>Reconcile\<close> for any request. From it
  follows that a reconciliation touches the resource of its request and the four objects of that
  resource only.
\<close>

section \<open>Reporting a failed stage\<close>

lemma report_errored:
  assumes ok: "cluster_ok w" and st: "fmlookup (w_deviceconfigs w) req = Some dc" and al: "\<not> being_deleted dc"
  obtains dc' where
    "SetConditionsErrored cluster dc reason message w = ((None, dc'), put_deviceconfigs (fmupd req dc' (w_deviceconfigs w)) w)"
    "cluster_ok (put_deviceconfigs (fmupd req dc' (w_deviceconfigs w)) w)" "same_request dc dc'"
    "om_finalizers (metadata dc') = om_finalizers (metadata dc)" "\<not> being_deleted dc'"
    "IsStatusConditionTrue (conditions (status dc')) Errored" "IsStatusConditionFalse (conditions (status dc')) Ready"
    "\<exists>c. condition_of (conditions (status dc')) Errored = Some c \<and> cond_reason c = reason \<and> cond_message c = message"
proof -
  have key: "ObjectKeyFromObject dc = req" by (rule stored_key_dc [OF ok st])
  obtain cs where cs: "SetConditionsErrored cluster dc reason message w = write_status cluster (set_conditions cs dc) w"
    "IsStatusConditionTrue cs Errored" "IsStatusConditionFalse cs Ready"
    "\<exists>c. condition_of cs Errored = Some c \<and> cond_reason c = reason \<and> cond_message c = message"
    using errored_conditions_status unfolding SetConditionsErrored_def by blast
  have "kept_alive (set_conditions cs dc)" using al by (simp add: kept_alive_def being_deleted_def)
  then obtain v where "kc_status_update (api_deviceconfigs cluster) (set_conditions cs dc) w =
      (Inr (set_resourceVersion v (set_conditions cs dc)),
       put_deviceconfigs (fmupd req (set_resourceVersion v (set_conditions cs dc)) (w_deviceconfigs w)) w)"
    "cluster_ok (put_deviceconfigs (fmupd req (set_resourceVersion v (set_conditions cs dc)) (w_deviceconfigs w)) w)"
    using update_dc [OF ok, of "set_conditions cs dc" dc] st key by auto
  then show thesis
    using cs al by (intro that [of "set_resourceVersion v (set_conditions cs dc)"])
      (simp_all add: write_status_def being_deleted_def same_request_def del: cluster_simps)
qed

text \<open>What is left behind by a stage that failed: the error in the conditions of the stored resource.\<close>

definition status_reports :: "device_config \<Rightarrow> string \<Rightarrow> string \<Rightarrow> bool" where
  "status_reports dc reason message \<longleftrightarrow>
     IsStatusConditionFalse (conditions (status dc)) Ready \<and>
     (\<exists>c. condition_of (conditions (status dc)) Errored = Some c \<and> cond_status c = ConditionTrue \<and>
          cond_reason c = reason \<and> cond_message c = message)"

lemma stage_failed_on_cluster:
  assumes "cluster_ok w" "fmlookup (w_deviceconfigs w) req = Some dc" "\<not> being_deleted dc"
  obtains dc' where
    "stage_failed (operator_reconciler cluster (AddToScheme base) st) dc reason err (cs\<lparr>cs_world := w\<rparr>) =
       ((empty_result, Some err),
        set_gauge (om_name (metadata dc)) 1 (cs\<lparr>cs_world := put_deviceconfigs (fmupd req dc' (w_deviceconfigs w)) w\<rparr>))"
    "cluster_ok (put_deviceconfigs (fmupd req dc' (w_deviceconfigs w)) w)" "same_request dc dc'"
    "om_finalizers (metadata dc') = om_finalizers (metadata dc)" "\<not> being_deleted dc'" "status_reports dc' reason (error_text err)"
proof -
  obtain dc' where *: "SetConditionsErrored cluster dc reason (error_text err) w =
      ((None, dc'), put_deviceconfigs (fmupd req dc' (w_deviceconfigs w)) w)"
    "cluster_ok (put_deviceconfigs (fmupd req dc' (w_deviceconfigs w)) w)" "same_request dc dc'"
    "om_finalizers (metadata dc') = om_finalizers (metadata dc)" "\<not> being_deleted dc'"
    "IsStatusConditionTrue (conditions (status dc')) Errored" "IsStatusConditionFalse (conditions (status dc')) Ready"
    "\<exists>c. condition_of (conditions (status dc')) Errored = Some c \<and> cond_reason c = reason \<and>
         cond_message c = error_text err"
    using report_errored [OF assms] by metis
  show thesis
    using stage_failed_reported [of "operator_reconciler cluster (AddToScheme base) st" dc reason err "cs\<lparr>cs_world := w\<rparr>" dc'] *
      same_request_keys(2) [OF *(3)]
    by (intro that [of dc'])
       (auto simp: status_reports_def IsStatusConditionTrue_def IsStatusConditionPresentAndEqual_iff)
qed

section \<open>Every outcome of a stage\<close>

text \<open>The error of a stage for an object that another controller owns; no error where it may be written.\<close>

definition takeover :: "device_config \<Rightarrow> ('sp, other_fields) k8s_object option \<Rightarrow> go_error option" where
  "takeover dc got =
     (case got of
        None \<Rightarrow> None
      | Some x \<Rightarrow>
          (case GetControllerOf (metadata x) of
             None \<Rightarrow> None
           | Some r \<Rightarrow> if referSameObject r (dc_ref dc) then None else Some (AlreadyOwnedError (metadata x) r)))"

lemma free_to_adopt_takeover:
  "(\<And>x. got = Some x \<Longrightarrow> om_namespace (metadata x) = om_namespace (metadata dc)) \<Longrightarrow>
   free_to_adopt dc got \<longleftrightarrow> takeover dc got = None"
  by (auto simp: free_to_adopt_def takeover_def adoptable_iff GetControllerOf_def split: option.split)

lemma tracker_namespace:
  "tracker_ok rk objs \<Longrightarrow> fmlookup objs (ns, name) = Some x \<Longrightarrow> om_namespace (metadata x) = ns"
  using tracker_okD [of rk objs "(ns, name)" x] by (simp add: stored_ok_def ObjectKeyFromObject_def)

lemma free_to_adopt_stored:
  "tracker_ok rk objs \<Longrightarrow>
   free_to_adopt dc (fmlookup objs (om_namespace (metadata dc), name)) \<longleftrightarrow>
   takeover dc (fmlookup objs (om_namespace (metadata dc), name)) = None"
  by (rule free_to_adopt_takeover) (rule tracker_namespace)

context owned_writer begin

lemma takeover_refused:
  assumes "tracker_ok rk objs"
    and "f (found_or_new objs name (om_namespace (metadata cr)) zero) = Inl err"
  shows "takeover cr (fmlookup objs (om_namespace (metadata cr), name)) = Some err"
proof -
  let ?got = "fmlookup objs (om_namespace (metadata cr), name)"
  have "\<not> free_to_adopt cr ?got"
    using assms(2) adoptable_found_or_new accepted_iff by (metis Inl_Inr_False)
  then obtain e where e: "takeover cr ?got = Some e" using free_to_adopt_stored [OF assms(1)] by blast
  then obtain x r where x: "?got = Some x" "GetControllerOf (metadata x) = Some r" "\<not> referSameObject r (dc_ref cr)"
    "e = AlreadyOwnedError (metadata x) r"
    by (auto simp: takeover_def split: option.splits if_splits)
  have "f x = Inl e" using foreign [OF tracker_namespace [OF assms(1) x(1)] x(2,3)] x(4) by simp
  moreover have "f x = Inl err" using assms(2) unfolding found_or_new_def x(1) by simp
  ultimately show ?thesis using e by simp
qed

lemma takeover_accepted:
  assumes "tracker_ok rk objs"
    and "f (found_or_new objs name (om_namespace (metadata cr)) zero) = Inr y"
  shows "takeover cr (fmlookup objs (om_namespace (metadata cr), name)) = None"
proof (rule ccontr)
  assume "takeover cr (fmlookup objs (om_namespace (metadata cr), name)) \<noteq> None"
  then obtain x r where x: "fmlookup objs (om_namespace (metadata cr), name) = Some x"
    "GetControllerOf (metadata x) = Some r" "\<not> referSameObject r (dc_ref cr)"
    by (auto simp: takeover_def split: option.splits if_splits)
  have "f x = Inr y" using assms(2) unfolding found_or_new_def x(1) by simp
  with foreign [OF tracker_namespace [OF assms(1) x(1)] x(2,3)] show False by simp
qed

end

text \<open>A stage refuses its object and writes nothing, or leaves it in the desired state.\<close>

lemma module_total:
  assumes "cluster_ok w"
  obtains (refused) err where "takeover dc (fmlookup (w_modules w) (module_key dc)) = Some err"
    "ReconcileModule cluster (AddToScheme base) st dc w = (Some (errorf_v ''could not create or patch Module: '' err), w)"
  | (written) x where "ReconcileModule cluster (AddToScheme base) st dc w =
      (None, put_modules (fmupd (module_key dc) x (w_modules w)) w)"
    "cluster_ok (put_modules (fmupd (module_key dc) x (w_modules w)) w)"
    "SetDesiredModule (AddToScheme base) st (Some x) dc = Inr x"
    "takeover dc (fmlookup (w_modules w) (module_key dc)) = None"
proof (cases rule: module_step.stage_total [OF cluster_okD(2) [OF assms] names_nonempty(1), where base = base and st = st
      and cr = dc and ns = "om_namespace (metadata dc)" and zero = empty_module_spec and prefix = "''could not create or patch Module: ''" and dc1 = dc, case_names refused written])
  case (refused err)
  moreover have "takeover dc (fmlookup (w_modules w) (module_key dc)) = Some err"
    using module_writer.takeover_refused [OF cluster_okD(2) [OF assms] refused(1)] .
  ultimately show thesis by (intro that(1)) (simp_all add: ReconcileModule_eq)
next
  case (written x)
  moreover have "takeover dc (fmlookup (w_modules w) (module_key dc)) = None"
    using module_writer.takeover_accepted [OF cluster_okD(2) [OF assms]] written(4) by blast
  ultimately show thesis using cluster_ok_put(2) [OF assms] by (intro that(2)) (simp_all add: ReconcileModule_eq)
qed

lemma labeler_total:
  assumes "cluster_ok w"
  obtains (refused) err where "takeover dc (fmlookup (w_daemonsets w) (labeler_key dc)) = Some err"
    "ReconcileNodeLabeler cluster (AddToScheme base) st dc w = (Some (errorf_v ''could not create or patch DaemonSet: '' err), w)"
  | (written) x where "ReconcileNodeLabeler cluster (AddToScheme base) st dc w =
      (None, put_daemonsets (fmupd (labeler_key dc) x (w_daemonsets w)) w)"
    "cluster_ok (put_daemonsets (fmupd (labeler_key dc) x (w_daemonsets w)) w)"
    "SetDesiredNodeLabelerDaemonSet (AddToScheme base) st (Some x) dc = Inr x"
    "takeover dc (fmlookup (w_daemonsets w) (labeler_key dc)) = None"
proof (cases rule: labeler_step.stage_total [OF cluster_okD(3) [OF assms] names_nonempty(2), where base = base and st = st
      and cr = dc and ns = "om_namespace (metadata dc)" and zero = empty_daemon_set_spec and prefix = "''could not create or patch DaemonSet: ''" and dc1 = dc, case_names refused written])
  case (refused err)
  moreover have "takeover dc (fmlookup (w_daemonsets w) (labeler_key dc)) = Some err"
    using labeler_writer.takeover_refused [OF cluster_okD(3) [OF assms] refused(1)] .
  ultimately show thesis by (intro that(1)) (simp_all add: ReconcileNodeLabeler_eq)
next
  case (written x)
  moreover have "takeover dc (fmlookup (w_daemonsets w) (labeler_key dc)) = None"
    using labeler_writer.takeover_accepted [OF cluster_okD(3) [OF assms]] written(4) by blast
  ultimately show thesis using cluster_ok_put(3) [OF assms] by (intro that(2)) (simp_all add: ReconcileNodeLabeler_eq)
qed

lemma metrics_daemonset_total:
  assumes "cluster_ok w"
  obtains (refused) err where "takeover dc (fmlookup (w_daemonsets w) (metrics_key dc)) = Some err"
    "ReconcileNodeMetricsDaemonSet cluster (AddToScheme base) st dc w = (Some (errorf_v ''could not create or patch DaemonSet: '' err), w)"
  | (written) x where "ReconcileNodeMetricsDaemonSet cluster (AddToScheme base) st dc w =
      (None, put_daemonsets (fmupd (metrics_key dc) x (w_daemonsets w)) w)"
    "cluster_ok (put_daemonsets (fmupd (metrics_key dc) x (w_daemonsets w)) w)"
    "SetDesiredNodeMetricsDaemonSet (AddToScheme base) st (Some x) dc = Inr x"
    "takeover dc (fmlookup (w_daemonsets w) (metrics_key dc)) = None"
proof (cases rule: metrics_step.stage_total [OF cluster_okD(3) [OF assms] names_nonempty(3), where base = base and st = st
      and cr = dc and ns = "om_namespace (metadata dc)" and zero = empty_daemon_set_spec and prefix = "''could not create or patch DaemonSet: ''" and dc1 = dc, case_names refused written])
  case (refused err)
  moreover have "takeover dc (fmlookup (w_daemonsets w) (metrics_key dc)) = Some err"
    using metrics_writer.takeover_refused [OF cluster_okD(3) [OF assms] refused(1)] .
  ultimately show thesis by (intro that(1)) (simp_all add: ReconcileNodeMetricsDaemonSet_eq)
next
  case (written x)
  moreover have "takeover dc (fmlookup (w_daemonsets w) (metrics_key dc)) = None"
    using metrics_writer.takeover_accepted [OF cluster_okD(3) [OF assms]] written(4) by blast
  ultimately show thesis using cluster_ok_put(3) [OF assms] by (intro that(2)) (simp_all add: ReconcileNodeMetricsDaemonSet_eq)
qed

lemma metrics_service_total:
  assumes "cluster_ok w"
  obtains (refused) err where "takeover dc (fmlookup (w_services w) (metrics_key dc)) = Some err"
    "ReconcileNodeMetricsService cluster (AddToScheme base) dc w = (Some (errorf_v ''could not create or patch Service: '' err), w)"
  | (written) x where "ReconcileNodeMetricsService cluster (AddToScheme base) dc w =
      (None, put_services (fmupd (metrics_key dc) x (w_services w)) w)"
    "cluster_ok (put_services (fmupd (metrics_key dc) x (w_services w)) w)"
    "SetDesiredNodeMetricsService (AddToScheme base) (Some x) dc = Inr x"
    "takeover dc (fmlookup (w_services w) (metrics_key dc)) = None"
proof (cases rule: service_step.stage_total [OF cluster_okD(4) [OF assms] names_nonempty(3), where base = base
      and cr = dc and ns = "om_namespace (metadata dc)" and zero = empty_service_spec and prefix = "''could not create or patch Service: ''" and dc1 = dc, case_names refused written])
  case (refused err)
  moreover have "takeover dc (fmlookup (w_services w) (metrics_key dc)) = Some err"
    using service_writer.takeover_refused [OF cluster_okD(4) [OF assms] refused(1)] .
  ultimately show thesis by (intro that(1)) (simp_all add: ReconcileNodeMetricsService_eq)
next
  case (written x)
  moreover have "takeover dc (fmlookup (w_services w) (metrics_key dc)) = None"
    using service_writer.takeover_accepted [OF cluster_okD(4) [OF assms]] written(4) by blast
  ultimately show thesis using cluster_ok_put(4) [OF assms] by (intro that(2)) (simp_all add: ReconcileNodeMetricsService_eq)
qed

text \<open>
  The first object, in the order of the stages, that another controller owns: the reason and the error
  with which the reconciliation ends.
\<close>

definition metrics_obstacle :: "device_config \<Rightarrow> world \<Rightarrow> go_error option" where
  "metrics_obstacle dc w =
     (case takeover dc (fmlookup (w_daemonsets w) (metrics_key dc)) of
        Some e \<Rightarrow> Some (errorf_v ''could not create or patch DaemonSet: '' e)
      | None \<Rightarrow> map_option (errorf_v ''could not create or patch Service: '')
                  (takeover dc (fmlookup (w_services w) (metrics_key dc))))"

definition first_obstacle :: "device_config \<Rightarrow> world \<Rightarrow> (string \<times> go_error) option" where
  "first_obstacle dc w =
     (case takeover dc (fmlookup (w_modules w) (module_key dc)) of
        Some e \<Rightarrow> Some (ReasonModuleFailed, errorf_v ''could not create or patch Module: '' e)
      | None \<Rightarrow>
          (case takeover dc (fmlookup (w_daemonsets w) (labeler_key dc)) of
             Some e \<Rightarrow> Some (ReasonNodeLabelerFailed, errorf_v ''could not create or patch DaemonSet: '' e)
           | None \<Rightarrow> map_option (Pair ReasonNodeMetricsFailed) (metrics_obstacle dc w)))"

lemma all_adoptable_obstacle:
  assumes "cluster_ok w"
  shows "all_adoptable dc w \<longleftrightarrow> first_obstacle dc w = None"
  unfolding all_adoptable_def first_obstacle_def metrics_obstacle_def
  using free_to_adopt_stored [OF cluster_okD(2) [OF assms]] free_to_adopt_stored [OF cluster_okD(3) [OF assms]]
    free_to_adopt_stored [OF cluster_okD(4) [OF assms]]
  by (simp split: option.split)

text \<open>What the stages up to the failing one may have written.\<close>

definition stops_before :: "string \<Rightarrow> world \<Rightarrow> world \<Rightarrow> bool" where
  "stops_before reason w v \<longleftrightarrow>
     w_services v = w_services w \<and>
     (reason \<in> {ReasonModuleFailed, ReasonNodeLabelerFailed} \<longrightarrow> w_daemonsets v = w_daemonsets w) \<and>
     (reason = ReasonModuleFailed \<longrightarrow> w_modules v = w_modules w)"

lemma reasons_distinct [simp]:
  "ReasonNodeLabelerFailed \<noteq> ReasonModuleFailed" "ReasonNodeMetricsFailed \<noteq> ReasonModuleFailed"
  "ReasonNodeMetricsFailed \<noteq> ReasonNodeLabelerFailed"
  by (simp_all add: ReasonModuleFailed_def ReasonNodeLabelerFailed_def ReasonNodeMetricsFailed_def)

text \<open>The writes of the stages stay with the objects of the resource.\<close>

lemma only_for_writes [simp]:
  "only_for dc w w"
  "only_for dc w (put_modules (fmupd (module_key dc) m (w_modules w)) w)"
  "only_for dc w (put_modules (fmdrop (module_key dc) (w_modules w)) w)"
  "only_for dc w (put_daemonsets (fmupd (labeler_key dc) ds (w_daemonsets w)) w)"
  "only_for dc w (put_daemonsets (fmupd (metrics_key dc) ds (w_daemonsets w)) w)"
  "only_for dc w (put_services (fmupd (metrics_key dc) svc (w_services w)) w)"
  by (simp_all add: only_for_def)

lemma only_for_self:
  "ObjectKeyFromObject dc = req \<Longrightarrow> only_for dc w (put_deviceconfigs (fmupd req dc' (w_deviceconfigs w)) w)"
  "ObjectKeyFromObject dc = req \<Longrightarrow> only_for dc w (put_deviceconfigs (fmdrop req (w_deviceconfigs w)) w)"
  by (auto simp: only_for_def)

lemma metrics_total:
  assumes "cluster_ok w"
  obtains (failed) err w' where "ReconcileNodeMetrics cluster (AddToScheme base) st dc w = (Some err, w')"
    "cluster_ok w'" "only_for dc w w'" "w_deviceconfigs w' = w_deviceconfigs w"
    "metrics_obstacle dc w = Some err" "w_services w' = w_services w"
  | (written) ds svc w1 w' where "ReconcileNodeMetrics cluster (AddToScheme base) st dc w = (None, w')" "cluster_ok w'"
    "w1 = put_daemonsets (fmupd (metrics_key dc) ds (w_daemonsets w)) w"
    "w' = put_services (fmupd (metrics_key dc) svc (w_services w1)) w1"
    "SetDesiredNodeMetricsDaemonSet (AddToScheme base) st (Some ds) dc = Inr ds"
    "SetDesiredNodeMetricsService (AddToScheme base) (Some svc) dc = Inr svc" "metrics_obstacle dc w = None"
  using assms
proof (cases rule: metrics_daemonset_total [where base = base and st = st and dc = dc])
  case (refused err)
  then show thesis using assms
    by (intro failed [of "errorf_v ''could not create or patch DaemonSet: '' err" w])
       (simp_all add: ReconcileNodeMetrics_def metrics_obstacle_def)
next
  case ds: (written ds)
  let ?w1 = "put_daemonsets (fmupd (metrics_key dc) ds (w_daemonsets w)) w"
  from ds(2) show thesis
  proof (cases rule: metrics_service_total [where base = base and dc = dc])
    case (refused err)
    then show thesis using ds
      by (intro failed [of "errorf_v ''could not create or patch Service: '' err" ?w1])
         (simp_all add: ReconcileNodeMetrics_def metrics_obstacle_def)
  next
    case (written svc)
    show thesis
      by (rule that(2) [OF _ _ refl refl ds(3) written(3)])
         (use ds written(1,2,4) in \<open>simp_all add: ReconcileNodeMetrics_def setNodeMetricsConditions_def metrics_obstacle_def\<close>)
  qed
qed

section \<open>The stages in a row\<close>

lemma stages_total:
  assumes "cluster_ok w"
  obtains (failed) reason err v where
    "reconcile_stages (operator_reconciler cluster (AddToScheme base) st) dc (cs\<lparr>cs_world := w\<rparr>) =
       stage_failed (operator_reconciler cluster (AddToScheme base) st) dc reason err (cs\<lparr>cs_world := v\<rparr>)"
    "first_obstacle dc w = Some (reason, err)" "stops_before reason w v"
    "cluster_ok v" "only_for dc w v" "w_deviceconfigs v = w_deviceconfigs w"
  | (written) w1 w2 w3 where
    "ReconcileModule cluster (AddToScheme base) st dc w = (None, w1)"
    "ReconcileNodeLabeler cluster (AddToScheme base) st dc w1 = (None, w2)"
    "ReconcileNodeMetrics cluster (AddToScheme base) st dc w2 = (None, w3)"
    "cluster_ok w3" "provisioned base st dc w3" "only_for dc w w3" "w_deviceconfigs w3 = w_deviceconfigs w"
    "first_obstacle dc w = None"
  using assms
proof (cases rule: module_total [where base = base and st = st and dc = dc])
  case (refused err)
  then show thesis using assms
    by (intro failed [of ReasonModuleFailed "errorf_v ''could not create or patch Module: '' err" w])
       (simp_all add: reconcile_stages_failed(1) first_obstacle_def stops_before_def)
next
  case m: (written m)
  define w1 where "w1 = put_modules (fmupd (module_key dc) m (w_modules w)) w"
  have w1: "ReconcileModule cluster (AddToScheme base) st dc w = (None, w1)" "cluster_ok w1" "only_for dc w w1"
    using m(1,2) by (simp_all add: w1_def)
  from w1(2) show thesis
  proof (cases rule: labeler_total [where base = base and st = st and dc = dc])
    case (refused err)
    then show thesis using w1
      by (intro failed [of ReasonNodeLabelerFailed "errorf_v ''could not create or patch DaemonSet: '' err" w1])
         (simp_all add: reconcile_stages_failed(2) first_obstacle_def stops_before_def m(4) w1_def)
  next
    case l: (written l)
    define w2 where "w2 = put_daemonsets (fmupd (labeler_key dc) l (w_daemonsets w1)) w1"
    have w2: "ReconcileNodeLabeler cluster (AddToScheme base) st dc w1 = (None, w2)" "cluster_ok w2" "only_for dc w w2"
      using l(1,2) only_for_trans [OF w1(3)] by (simp_all add: w2_def)
    have obstacle: "takeover dc (fmlookup (w_modules w) (module_key dc)) = None"
      "takeover dc (fmlookup (w_daemonsets w) (labeler_key dc)) = None" "metrics_obstacle dc w2 = metrics_obstacle dc w"
      "w_services w2 = w_services w" "w_deviceconfigs w2 = w_deviceconfigs w"
      using m(4) l(4) by (simp_all add: w1_def w2_def metrics_obstacle_def cong: reconcile_cong)
    from w2(2) show thesis
    proof (cases rule: metrics_total [where base = base and st = st and dc = dc])
      case (failed err v)
      then show thesis using w1(1) w2(1) only_for_trans [OF w2(3) failed(3)]
        by (intro that(1) [of ReasonNodeMetricsFailed err v])
           (simp_all add: reconcile_stages_failed(3) first_obstacle_def stops_before_def obstacle)
    next
      case n: (written ds svc w25 w3)
      have "only_for dc w2 w3" by (simp add: n(3,4) only_for_def)
      moreover have "provisioned base st dc w3" "w_deviceconfigs w3 = w_deviceconfigs w"
        using m(3) l(3) n(5,6) by (simp_all add: provisioned_def n(3,4) w1_def w2_def)
      ultimately show thesis using w1(1) w2(1) n(1,2,7) only_for_trans [OF w2(3)] obstacle
        by (intro that(2) [of w1 w2 w3]) (simp_all add: first_obstacle_def)
    qed
  qed
qed

section \<open>Deletion in any state\<close>

lemma delete_module_total:
  assumes "cluster_ok w"
  obtains w1 where "DeleteModule cluster dc w = (None, w1)" "cluster_ok w1"
    "w_deviceconfigs w1 = w_deviceconfigs w" "only_for dc w w1"
    "\<And>m. fmlookup (w_modules w1) (module_key dc) = Some m \<Longrightarrow> being_deleted m"
proof (cases "\<forall>m. fmlookup (w_modules w) (module_key dc) = Some m \<longrightarrow> om_finalizers (metadata m) = []")
  case True
  then have "DeleteModule cluster dc w = (None, put_modules (fmdrop (module_key dc) (w_modules w)) w)"
    by (intro delete_module_step [OF assms]) blast
  then show thesis
    using cluster_ok_put(2) [OF assms tracker_ok_drop [OF cluster_okD(2) [OF assms]]]
    by (intro that [of "put_modules (fmdrop (module_key dc) (w_modules w)) w"]) simp_all
next
  case False
  then obtain m where Some: "fmlookup (w_modules w) (module_key dc) = Some m" "om_finalizers (metadata m) \<noteq> []"
    by blast
  show thesis
  proof -
    let ?obj = "named_object (GetModuleName dc) (om_namespace (metadata dc)) empty_module_spec"
    from modules.delete_result(2) [OF cluster_okD(2) [OF assms], of ?obj m] Some
    obtain v w1 where w1: "kc_delete (api_modules cluster) ?obj w = (None, w1)"
      "tracker_ok module_kind (w_modules w1)" "put_modules fmempty w1 = put_modules fmempty w"
      "fmlookup (w_modules w1) = (fmlookup (w_modules w))(module_key dc \<mapsto> set_resourceVersion v
         (m\<lparr>metadata := (metadata m)\<lparr>om_deletionTimestamp := Some (world_now w)\<rparr>\<rparr>))"
      by auto
    have eq: "w1 = put_modules (w_modules w1) w" by (rule modules.frame [OF w1(3)])
    have "DeleteModule cluster dc w = (None, w1)" using w1(1) by (simp add: DeleteModule_eq remove_object_def)
    moreover have "cluster_ok w1" by (subst eq) (rule cluster_ok_put(2) [OF assms w1(2)])
    moreover have "w_deviceconfigs w1 = w_deviceconfigs w" by (subst eq) simp
    moreover have "only_for dc w w1" unfolding only_for_def by (subst (1 2 3 5 6) eq) (use w1(4) in simp)
    ultimately show thesis using w1(4)
      by (intro that [of w1]) (auto simp: being_deleted_def time_IsZero_def world_now_def)
  qed
qed

lemma deletion_total:
  assumes ok: "cluster_ok (cs_world cs)" and st: "fmlookup (w_deviceconfigs (cs_world cs)) req = Some dc"
    and del: "being_deleted dc" and fin: "ContainsDeletionFinalizer dc"
  obtains w' where
    "Reconcile (operator_reconciler cluster (AddToScheme base) st) req cs =
       ((empty_result, None), set_gauge (om_name (metadata dc)) 0 (cs\<lparr>cs_world := w'\<rparr>))"
    "cluster_ok w'" "only_for dc (cs_world cs) w'"
    "fmlookup (w_deviceconfigs w') req = None \<or>
     (\<exists>v. fmlookup (w_deviceconfigs w') req = Some (set_resourceVersion v (unfinalized dc)))"
    "\<And>m. fmlookup (w_modules w') (module_key dc) = Some m \<Longrightarrow> being_deleted m"
proof -
  let ?w = "cs_world cs" and ?r = "operator_reconciler cluster (AddToScheme base) st"
  obtain w1 where w1: "DeleteModule cluster dc ?w = (None, w1)" "cluster_ok w1"
    "w_deviceconfigs w1 = w_deviceconfigs ?w" "only_for dc ?w w1"
    "\<And>m. fmlookup (w_modules w1) (module_key dc) = Some m \<Longrightarrow> being_deleted m"
    using delete_module_total [OF ok] by metis
  have st1: "fmlookup (w_deviceconfigs w1) req = Some dc" using w1(3) st by simp
  obtain v where v0: "RemoveDeletionFinalizer cluster dc w1 =
     ((None, set_resourceVersion v (unfinalized dc)),
      put_deviceconfigs (if om_finalizers (metadata (unfinalized dc)) = [] then fmdrop req (w_deviceconfigs w1)
        else fmupd req (set_resourceVersion v (unfinalized dc)) (w_deviceconfigs w1)) w1) \<and>
     cluster_ok (put_deviceconfigs (if om_finalizers (metadata (unfinalized dc)) = [] then fmdrop req (w_deviceconfigs w1)
        else fmupd req (set_resourceVersion v (unfinalized dc)) (w_deviceconfigs w1)) w1)"
    using update_unfinalized [OF w1(2) st1 del] ..
  define w' where "w' = put_deviceconfigs (if om_finalizers (metadata (unfinalized dc)) = [] then fmdrop req (w_deviceconfigs w1)
        else fmupd req (set_resourceVersion v (unfinalized dc)) (w_deviceconfigs w1)) w1"
  have w': "RemoveDeletionFinalizer cluster dc w1 = ((None, set_resourceVersion v (unfinalized dc)), w')" "cluster_ok w'"
    using v0 by (simp_all add: w'_def)
  have "only_for dc w1 w'"
    using only_for_self [OF stored_key_dc [OF ok st]] by (simp add: w'_def)
  then have "only_for dc ?w w'" by (rule only_for_trans [OF w1(4)])
  moreover have "Reconcile ?r req cs = ((empty_result, None), set_gauge (om_name (metadata dc)) 0 (cs\<lparr>cs_world := w'\<rparr>))"
    using Reconcile_deletion [of ?r req cs dc ?w] get_stored_dc [OF ok st] del fin w1(1) w'(1)
    by (simp add: reconcile_deletion_def deleteDeviceConfigResources_def outside_def set_gauge_def Let_def
        del: cluster_simps)
  moreover have "fmlookup (w_deviceconfigs w') req = None \<or>
     (\<exists>v. fmlookup (w_deviceconfigs w') req = Some (set_resourceVersion v (unfinalized dc)))"
    by (auto simp: w'_def)
  moreover have "being_deleted m" if "fmlookup (w_modules w') (module_key dc) = Some m" for m
    using w1(5) that by (simp add: w'_def)
  ultimately show thesis using w'(2) by (intro that) auto
qed

section \<open>Reconciliation in any state\<close>

definition all_reconciled :: string where
  "all_reconciled = ''All resources have been successfully reconciled''"

lemma alive_total:
  assumes ok: "cluster_ok (cs_world cs)" and st: "fmlookup (w_deviceconfigs (cs_world cs)) req = Some dc"
    and al: "\<not> being_deleted dc"
    and cf: "conflict_free (ran (fmlookup (w_deviceconfigs (cs_world cs)))) (ran (fmlookup (w_nodes (cs_world cs))))"
  obtains (failed) dc' reason err w' where
    "Reconcile (operator_reconciler cluster (AddToScheme base) st) req cs =
       ((empty_result, Some err), set_gauge (om_name (metadata dc)) 1 (cs\<lparr>cs_world := w'\<rparr>))"
    "cluster_ok w'" "only_for dc (cs_world cs) w'" "fmlookup (w_deviceconfigs w') req = Some dc'" "same_request dc dc'"
    "om_finalizers (metadata dc') = om_finalizers (metadata (finalized dc))" "\<not> being_deleted dc'"
    "status_reports dc' reason (error_text err)"
    "first_obstacle dc (cs_world cs) = Some (reason, err)" "stops_before reason (cs_world cs) w'"
  | (provisioned) dc' w' where
    "Reconcile (operator_reconciler cluster (AddToScheme base) st) req cs =
     ((empty_result, None),
      \<lparr>cs_world = w', ReconciliationFailed = (ReconciliationFailed cs)(om_name (metadata dc) \<mapsto> 0),
       cs_events = cs_events cs @ [success_event dc], \<dots> = controller_state.more cs\<rparr>)"
    "cluster_ok w'" "only_for dc (cs_world cs) w'" "fmlookup (w_deviceconfigs w') req = Some dc'" "same_request dc dc'"
    "om_finalizers (metadata dc') = om_finalizers (metadata (finalized dc))" "\<not> being_deleted dc'"
    "reported_ready ''Reconciled'' all_reconciled (conditions (status dc'))" "provisioned base st dc w'"
    "first_obstacle dc (cs_world cs) = None"
proof -
  let ?w = "cs_world cs" and ?r = "operator_reconciler cluster (AddToScheme base) st"
  obtain dc1 w1 where fin:
    "(if \<not> ContainsDeletionFinalizer dc then AddDeletionFinalizer cluster dc ?w else ((None, dc), ?w)) = ((None, dc1), w1)"
    "cluster_ok w1" "fmlookup (w_deviceconfigs w1) req = Some dc1" "same_request dc dc1"
    "om_finalizers (metadata dc1) = om_finalizers (metadata (finalized dc))" "\<not> being_deleted dc1" "only_for dc ?w w1"
    "w_modules w1 = w_modules ?w" "w_daemonsets w1 = w_daemonsets ?w" "w_services w1 = w_services ?w"
    using finalizer_step [OF ok st al] by metis
  have "dc_ref dc1 = dc_ref dc" using fin(4) by (simp add: dc_ref_def controller_ref_def same_request_def)
  then have obstacle: "first_obstacle dc1 w1 = first_obstacle dc ?w"
    using same_request_keys [OF fin(4)] fin(8-10)
    by (simp add: first_obstacle_def metrics_obstacle_def takeover_def cong: reconcile_cong)
  have key1: "ObjectKeyFromObject dc1 = req" by (rule stored_key_dc [OF fin(2,3)])
  have rec: "Reconcile ?r req cs = reconcile_stages ?r dc1 (cs\<lparr>cs_world := w1\<rparr>)"
    using Reconcile_stages [of ?r req cs dc ?w ?w dc1 w1] get_stored_dc [OF ok st] no_conflict [OF ok cf] al fin(1)
    unfolding operator_reconciler_simps add_missing_finalizer_operator by blast
  note names = same_request_keys(2) [OF fin(4)] same_request_keys(1) [OF fin(4)]
  have confined: "only_for dc ?w (put_deviceconfigs (fmupd req dc' (w_deviceconfigs v)) v)"
    if "only_for dc1 w1 v" for dc' v
    using only_for_trans [OF that only_for_self(1) [OF key1]] only_for_trans [OF fin(7)] only_for_cong [OF fin(4)]
    by simp
  from fin(2) show thesis
  proof (cases rule: stages_total [where base = base and st = st and dc = dc1 and cs = cs])
    case (failed reason err v)
    have stops: "stops_before reason ?w (put_deviceconfigs dcs v)" for dcs
      using failed(3) fin(8-10) by (simp add: stops_before_def)
    from failed have "fmlookup (w_deviceconfigs v) req = Some dc1" using fin(3) by simp
    then obtain dc' where *: "stage_failed ?r dc1 reason err (cs\<lparr>cs_world := v\<rparr>) =
         ((empty_result, Some err),
          set_gauge (om_name (metadata dc1)) 1 (cs\<lparr>cs_world := put_deviceconfigs (fmupd req dc' (w_deviceconfigs v)) v\<rparr>))"
      "cluster_ok (put_deviceconfigs (fmupd req dc' (w_deviceconfigs v)) v)" "same_request dc1 dc'"
      "om_finalizers (metadata dc') = om_finalizers (metadata dc1)" "\<not> being_deleted dc'"
      "status_reports dc' reason (error_text err)"
      using stage_failed_on_cluster [OF failed(4) _ fin(6)] by metis
    show thesis
      using * rec failed(1,2,6) stops fin(5) obstacle names same_request_trans [OF fin(4) *(3)] confined [OF failed(5), of dc']
      by (intro that(1) [of err "put_deviceconfigs (fmupd req dc' (w_deviceconfigs v)) v" dc' reason]) simp_all
  next
    case (written w2 w3 w4)
    obtain dc' where rdy: "SetConditionsReady cluster dc1 ''Reconciled'' all_reconciled w4 =
        ((None, dc'), put_deviceconfigs (fmupd req dc' (w_deviceconfigs w4)) w4)"
      "cluster_ok (put_deviceconfigs (fmupd req dc' (w_deviceconfigs w4)) w4)" "same_request dc1 dc'"
      "om_finalizers (metadata dc') = om_finalizers (metadata dc1)" "\<not> being_deleted dc'"
      "\<exists>t1 t2. conditions (status dc') = ready_conditions t1 t2 ''Reconciled'' all_reconciled (conditions (status dc1))"
      using report_ready [OF written(4) _ fin(6), of req "''Reconciled''" all_reconciled] fin(3) written(7) by metis
    have "provisioned base st dc (put_deviceconfigs (fmupd req dc' (w_deviceconfigs w4)) w4)"
      using written(5) provisioned_cong [OF fin(4)] by (simp add: provisioned_def)
    moreover have "reported_ready ''Reconciled'' all_reconciled (conditions (status dc'))" using rdy(6) by auto
    ultimately show thesis
      using reconcile_stages_done [of ?r dc1 "cs\<lparr>cs_world := w1\<rparr>" w2 w3 w4 None dc'
          "put_deviceconfigs (fmupd req dc' (w_deviceconfigs w4)) w4"] rdy(1-5) written(1-3,8) obstacle rec fin(5) names
        same_request_trans [OF fin(4) rdy(3)] confined [OF written(6), of dc']
      by (intro that(2) [of "put_deviceconfigs (fmupd req dc' (w_deviceconfigs w4)) w4" dc'])
         (simp_all add: success_event_def all_reconciled_def ObjectKeyFromObject_def)
  qed
qed

lemma reconcile_total:
  assumes ok: "cluster_ok (cs_world cs)"
  obtains (absent) "fmlookup (w_deviceconfigs (cs_world cs)) req = None"
    "Reconcile (operator_reconciler cluster (AddToScheme base) st) req cs = ((empty_result, None), set_gauge (snd req) 0 cs)"
  | (released) dc where "fmlookup (w_deviceconfigs (cs_world cs)) req = Some dc" "being_deleted dc"
    "\<not> ContainsDeletionFinalizer dc"
    "Reconcile (operator_reconciler cluster (AddToScheme base) st) req cs =
       ((empty_result, None), set_gauge (om_name (metadata dc)) 0 cs)"
  | (leaving) dc w' where "fmlookup (w_deviceconfigs (cs_world cs)) req = Some dc" "being_deleted dc"
    "ContainsDeletionFinalizer dc"
    "Reconcile (operator_reconciler cluster (AddToScheme base) st) req cs =
       ((empty_result, None), set_gauge (om_name (metadata dc)) 0 (cs\<lparr>cs_world := w'\<rparr>))"
    "cluster_ok w'" "only_for dc (cs_world cs) w'"
    "fmlookup (w_deviceconfigs w') req = None \<or>
     (\<exists>v. fmlookup (w_deviceconfigs w') req = Some (set_resourceVersion v (unfinalized dc)))"
    "\<And>m. fmlookup (w_modules w') (module_key dc) = Some m \<Longrightarrow> being_deleted m"
  | (conflict) dc where "fmlookup (w_deviceconfigs (cs_world cs)) req = Some dc" "\<not> being_deleted dc"
    "\<not> conflict_free (ran (fmlookup (w_deviceconfigs (cs_world cs)))) (ran (fmlookup (w_nodes (cs_world cs))))"
    "Reconcile (operator_reconciler cluster (AddToScheme base) st) req cs =
       ((empty_result, None), set_gauge (om_name (metadata dc)) 1 (record_event dc EventTypeWarning ''Error'' conflict_message cs))"
  | (failed) dc dc' reason err w' where "fmlookup (w_deviceconfigs (cs_world cs)) req = Some dc" "\<not> being_deleted dc"
    "conflict_free (ran (fmlookup (w_deviceconfigs (cs_world cs)))) (ran (fmlookup (w_nodes (cs_world cs))))"
    "Reconcile (operator_reconciler cluster (AddToScheme base) st) req cs =
       ((empty_result, Some err), set_gauge (om_name (metadata dc)) 1 (cs\<lparr>cs_world := w'\<rparr>))"
    "cluster_ok w'" "only_for dc (cs_world cs) w'" "fmlookup (w_deviceconfigs w') req = Some dc'" "same_request dc dc'"
    "om_finalizers (metadata dc') = om_finalizers (metadata (finalized dc))" "\<not> being_deleted dc'"
    "status_reports dc' reason (error_text err)"
    "first_obstacle dc (cs_world cs) = Some (reason, err)" "stops_before reason (cs_world cs) w'"
  | (provisioned) dc dc' w' where "fmlookup (w_deviceconfigs (cs_world cs)) req = Some dc" "\<not> being_deleted dc"
    "conflict_free (ran (fmlookup (w_deviceconfigs (cs_world cs)))) (ran (fmlookup (w_nodes (cs_world cs))))"
    "Reconcile (operator_reconciler cluster (AddToScheme base) st) req cs =
     ((empty_result, None),
      \<lparr>cs_world = w', ReconciliationFailed = (ReconciliationFailed cs)(om_name (metadata dc) \<mapsto> 0),
       cs_events = cs_events cs @ [success_event dc], \<dots> = controller_state.more cs\<rparr>)"
    "cluster_ok w'" "only_for dc (cs_world cs) w'" "fmlookup (w_deviceconfigs w') req = Some dc'" "same_request dc dc'"
    "om_finalizers (metadata dc') = om_finalizers (metadata (finalized dc))" "\<not> being_deleted dc'"
    "reported_ready ''Reconciled'' all_reconciled (conditions (status dc'))" "provisioned base st dc w'"
    "first_obstacle dc (cs_world cs) = None"
proof (cases "fmlookup (w_deviceconfigs (cs_world cs)) req")
  case None
  obtain e where "kc_get (api_deviceconfigs cluster) req (cs_world cs) = (Inl e, cs_world cs)" "IsNotFound e"
    using deviceconfigs.reader.get_absent [OF cluster_okD(1) [OF ok] None] by auto
  then show thesis using None by (intro absent) (simp_all add: Reconcile_def outside_def del: cluster_simps)
next
  case (Some dc)
  note get = get_stored_dc [OF ok Some]
  let ?r = "operator_reconciler cluster (AddToScheme base) st"
  consider "being_deleted dc" "ContainsDeletionFinalizer dc" | "being_deleted dc" "\<not> ContainsDeletionFinalizer dc"
    | "\<not> being_deleted dc" "conflict_free (ran (fmlookup (w_deviceconfigs (cs_world cs)))) (ran (fmlookup (w_nodes (cs_world cs))))"
    | "\<not> being_deleted dc" "\<not> conflict_free (ran (fmlookup (w_deviceconfigs (cs_world cs)))) (ran (fmlookup (w_nodes (cs_world cs))))"
    by blast
  then show thesis
  proof cases
    case 1
    from deletion_total [OF ok Some this, of base st] show thesis using leaving [OF Some 1] by metis
  next
    case 2
    then show thesis using Reconcile_deletion [of ?r req cs dc "cs_world cs"] get
      by (intro released [OF Some 2]) (simp add: reconcile_deletion_def outside_def Let_def del: cluster_simps)
  next
    case 3
    from ok Some 3 show thesis
    proof (cases rule: alive_total [where base = base and st = st])
      case (failed dc' reason err w')
      show thesis by (rule that(5) [OF Some 3 failed])
    next
      case (provisioned dc' w')
      show thesis by (rule that(6) [OF Some 3 provisioned])
    qed
  next
    case 4
    then show thesis using Reconcile_conflict [of ?r req cs dc "cs_world cs"] checks.check_eq [OF ok, of dc] get
      by (intro conflict [OF Some 4]) (simp del: cluster_simps)
  qed
qed

text \<open>
  C11. Reconciliation is confined. Whatever it returns, for a resource in whatever state (alive, in
  conflict, being deleted, with objects that other controllers own or that are stuck in deletion), one
  reconciliation keeps the cluster well formed and changes at most that \<open>DeviceConfig\<close>, its
  Module, its two DaemonSets and its Service: every other resource and object, every node and the
  clock are as before. A request for a resource that does not exist changes nothing.
\<close>

theorem reconcile_confined:
  assumes "cluster_ok (cs_world cs)"
  shows "let w' = cs_world (snd (Reconcile (operator_reconciler cluster (AddToScheme base) st) req cs)) in
     cluster_ok w' \<and>
     (case fmlookup (w_deviceconfigs (cs_world cs)) req of
        None \<Rightarrow> w' = cs_world cs
      | Some dc \<Rightarrow> only_for dc (cs_world cs) w')"
  using assms by (cases rule: reconcile_total [where req = req and base = base and st = st]) (simp_all add: assms Let_def)

text \<open>
  C12. The error of a reconciliation is exactly that of the first obstacle. For a live resource without
  node selector conflicts the reconciliation looks at the Module, the labeler DaemonSet, the metrics
  DaemonSet and the metrics Service, in this order, and stops at the first one that another controller
  owns: it returns that stage's error, wrapping which object is owned by whom, with the stage's reason and
  the same text in the conditions of the stored resource and the gauge at 1, and writes none of the
  objects of that stage's kind or of the later ones. Where no object is owned by another controller it
  returns no error, every object is as the resource requests, and the gauge is at 0.
\<close>

theorem reconcile_error_exact:
  assumes "cluster_ok (cs_world cs)" "fmlookup (w_deviceconfigs (cs_world cs)) req = Some dc" "\<not> being_deleted dc"
    and "conflict_free (ran (fmlookup (w_deviceconfigs (cs_world cs)))) (ran (fmlookup (w_nodes (cs_world cs))))"
  shows "let (out, cs') = Reconcile (operator_reconciler cluster (AddToScheme base) st) req cs;
             w' = cs_world cs';
             reported = fmlookup (w_deviceconfigs w') req
         in case first_obstacle dc (cs_world cs) of
              None \<Rightarrow> out = (empty_result, None) \<and> provisioned base st dc w' \<and>
                       (\<exists>dc'. reported = Some dc' \<and> reported_ready ''Reconciled'' all_reconciled (conditions (status dc'))) \<and>
                       ReconciliationFailed cs' (om_name (metadata dc)) = Some 0
            | Some (reason, err) \<Rightarrow>
                out = (empty_result, Some err) \<and> stops_before reason (cs_world cs) w' \<and>
                (\<exists>dc'. reported = Some dc' \<and> status_reports dc' reason (error_text err)) \<and>
                ReconciliationFailed cs' (om_name (metadata dc)) = Some 1"
  using assms by (cases rule: alive_total [where base = base and st = st]) (simp_all add: Let_def set_gauge_def)

end
