(* ===== verification/Operator_Lifecycle.thy ===== *)
theory Operator_Lifecycle
  imports Reconcile_Outcomes
begin

text \<open>
  The branches of a reconciliation on the cluster in which something is wrong, and the life of
  the cluster under the operator: users create, edit and delete \<open>DeviceConfig\<close>s, nodes come and
  go, other controllers work on the Modules, time passes, and the operator reconciles, in any order.
\<close>

text \<open>Statements about keys stay as they are, rather than being split into name and namespace.\<close>

declare split_paired_All [simp del] split_paired_Ex [simp del]

section \<open>Failing stages\<close>

text \<open>
  A Module that another controller owns is left alone: the reconciliation returns the
  refusal as its error, sets the gauge to one, records no event, and writes the condition
  Errored (not Ready) with the reason ModuleFailed and the text of the error into the resource;
  no Module, DaemonSet or Service changes.
\<close>

theorem foreign_module_reported:
  assumes "cluster_ok (cs_world cs)" "fmlookup (w_deviceconfigs (cs_world cs)) req = Some dc" "\<not> being_deleted dc"
    and "conflict_free (ran (fmlookup (w_deviceconfigs (cs_world cs)))) (ran (fmlookup (w_nodes (cs_world cs))))"
    and "fmlookup (w_modules (cs_world cs)) (module_key dc) = Some m"
    and "GetControllerOf (metadata m) = Some r" "\<not> referSameObject r (dc_ref dc)"
  shows "\<exists>dc'. let err = errorf_v ''could not create or patch Module: '' (AlreadyOwnedError (metadata m) r);
                outcome = Reconcile (operator_reconciler cluster (AddToScheme base) st) req cs in
     fst outcome = (empty_result, Some err) \<and>
     cs_world (snd outcome) = (cs_world cs)\<lparr>w_deviceconfigs := fmupd req dc' (w_deviceconfigs (cs_world cs))\<rparr> \<and>
     ReconciliationFailed (snd outcome) = (ReconciliationFailed cs)(om_name (metadata dc) \<mapsto> 1) \<and>
     cs_events (snd outcome) = cs_events cs \<and> same_request dc dc' \<and>
     IsStatusConditionFalse (conditions (status dc')) Ready \<and>
     (\<exists>c. condition_of (conditions (status dc')) Errored = Some c \<and> cond_status c = ConditionTrue \<and>
          cond_reason c = ''ModuleFailed'' \<and> cond_message c = error_text err)"
proof -
  let ?w = "cs_world cs" and ?r = "operator_reconciler cluster (AddToScheme base) st"
  let ?err = "errorf_v ''could not create or patch Module: '' (AlreadyOwnedError (metadata m) r)"
  obtain dc1 w1 where fin:
    "(if \<not> ContainsDeletionFinalizer dc then AddDeletionFinalizer cluster dc ?w else ((None, dc), ?w)) = ((None, dc1), w1)"
    "cluster_ok w1" "fmlookup (w_deviceconfigs w1) req = Some dc1" "same_request dc dc1" "\<not> being_deleted dc1"
    "only_for dc ?w w1" "w_modules w1 = w_modules ?w" "w_daemonsets w1 = w_daemonsets ?w" "w_services w1 = w_services ?w"
    using finalizer_step [OF assms(1-3)] by metis
  have "ObjectKeyFromObject m = module_key dc"
    using tracker_okD [OF cluster_okD(2) [OF assms(1)] assms(5)] by (simp add: stored_ok_def)
  then have ns: "om_namespace (metadata m) = om_namespace (metadata dc1)"
    using same_request_keys [OF fin(4)] by (simp add: ObjectKeyFromObject_def)
  have found: "found_or_new (w_modules w1) (GetModuleName dc1) (om_namespace (metadata dc1)) empty_module_spec = m"
    using assms(5) fin(7) same_request_keys [OF fin(4)] by (simp add: found_or_new_def)
  have "dc_ref dc1 = dc_ref dc" using fin(4) by (simp add: dc_ref_def controller_ref_def same_request_def)
  then have "SetDesiredModule (AddToScheme base) st (Some m) dc1 = Inl (AlreadyOwnedError (metadata m) r)"
    using module_writer.foreign [OF ns assms(6)] assms(7) by simp
  then have mod: "ReconcileModule cluster (AddToScheme base) st dc1 w1 = (Some ?err, w1)"
    using module_step.stage_refused [OF cluster_okD(2) [OF fin(2)]] found by (simp add: ReconcileModule_eq)
  obtain dc' where f: "stage_failed ?r dc1 ReasonModuleFailed ?err (cs\<lparr>cs_world := w1\<rparr>) =
      ((empty_result, Some ?err), set_gauge (om_name (metadata dc1)) 1
         (cs\<lparr>cs_world := put_deviceconfigs (fmupd req dc' (w_deviceconfigs w1)) w1\<rparr>))" "same_request dc1 dc'"
    "status_reports dc' ReasonModuleFailed (error_text ?err)"
    using stage_failed_on_cluster [OF fin(2,3,5), of base st ReasonModuleFailed ?err cs] by metis
  have "Reconcile ?r req cs = reconcile_stages ?r dc1 (cs\<lparr>cs_world := w1\<rparr>)"
    using Reconcile_stages [of ?r req cs dc ?w ?w dc1 w1] get_stored_dc [OF assms(1,2)] no_conflict [OF assms(1,4)]
      assms(3) fin(1) unfolding operator_reconciler_simps add_missing_finalizer_operator by blast
  also have "\<dots> = stage_failed ?r dc1 ReasonModuleFailed ?err (cs\<lparr>cs_world := w1\<rparr>)"
    using reconcile_stages_failed(1) [of ?r dc1 "cs\<lparr>cs_world := w1\<rparr>"] mod by simp
  finally have res: "Reconcile ?r req cs = \<dots>" .
  have "put_deviceconfigs (fmupd req dc' (w_deviceconfigs w1)) w1 =
      ?w\<lparr>w_deviceconfigs := fmupd req dc' (w_deviceconfigs ?w)\<rparr>"
    using fin(6-9) stored_key_dc [OF assms(1,2)]
    by (cases w1; cases ?w) (auto simp: put_defs only_for_def intro!: fmap_ext)
  moreover have "same_request dc dc'" using fin(4) f(2) by (rule same_request_trans)
  ultimately show ?thesis
    using res f same_request_keys(2) [OF fin(4)]
    by (intro exI [where x = dc'])
       (auto simp: Let_def ReasonModuleFailed_def status_reports_def)
qed

text \<open>
  Validation on the cluster: with two \<open>DeviceConfig\<close>s anywhere in it that select a common node, a
  reconciliation of any of them (of an uninvolved one too) writes nothing to the cluster; it only reports.
\<close>

theorem conflict_writes_nothing:
  assumes "cluster_ok (cs_world cs)" "fmlookup (w_deviceconfigs (cs_world cs)) req = Some dc" "\<not> being_deleted dc"
    and "\<not> conflict_free (ran (fmlookup (w_deviceconfigs (cs_world cs)))) (ran (fmlookup (w_nodes (cs_world cs))))"
  shows "Reconcile (operator_reconciler cluster (AddToScheme base) st) req cs =
     ((empty_result, None),
      cs\<lparr>ReconciliationFailed := (ReconciliationFailed cs)(om_name (metadata dc) \<mapsto> 1),
         cs_events := cs_events cs @ [\<lparr>ev_object = ObjectKeyFromObject dc, ev_type = ''Warning'',
                                      ev_reason = ''Error'', ev_message = conflict_message\<rparr>]\<rparr>)"
  using Reconcile_conflict [of "operator_reconciler cluster (AddToScheme base) st" req cs dc "cs_world cs"]
    get_stored_dc [OF assms(1,2)] checks.check_eq [OF assms(1), of dc] assms(3,4)
  by (simp add: set_gauge_def record_event_def EventTypeWarning_def del: cluster_simps)

section \<open>The end of a resource\<close>

text \<open>
  Deletion completes: a user's deletion of a resource that has the operator's finalizer (and no
  other) keeps it for the time being, and the next reconciliation removes its Module and the
  resource without an error, and changes nothing else in the cluster.
\<close>

theorem deletion_completes:
  assumes "cluster_ok (cs_world cs)" "fmlookup (w_deviceconfigs (cs_world cs)) req = Some dc"
    and "set (om_finalizers (metadata dc)) = {DeviceConfigDeletionFinalizer}"
    and "\<And>m. fmlookup (w_modules (cs_world cs)) (module_key dc) = Some m \<Longrightarrow> om_finalizers (metadata m) = []"
  shows "\<exists>w1. kc_delete (api_deviceconfigs cluster) dc (cs_world cs) = (None, w1) \<and>
     fmlookup (w_deviceconfigs w1) req \<noteq> None \<and>
     Reconcile (operator_reconciler cluster (AddToScheme base) st) req (cs\<lparr>cs_world := w1\<rparr>) =
       ((empty_result, None),
        cs\<lparr>cs_world := (cs_world cs)\<lparr>w_modules := fmdrop (module_key dc) (w_modules (cs_world cs)),
                                     w_deviceconfigs := fmdrop req (w_deviceconfigs (cs_world cs))\<rparr>,
           ReconciliationFailed := (ReconciliationFailed cs)(om_name (metadata dc) \<mapsto> 0)\<rparr>)"
proof -
  let ?w = "cs_world cs"
  have key: "ObjectKeyFromObject dc = req" by (rule stored_key_dc [OF assms(1,2)])
  have ne: "om_finalizers (metadata dc) \<noteq> []" by (metis assms(3) empty_not_insert set_empty)
  have st: "fmlookup (w_deviceconfigs ?w) (ObjectKeyFromObject dc) = Some dc" using assms(2) key by simp
  obtain v w1 where w1: "kc_delete (api_deviceconfigs cluster) dc ?w = (None, w1)"
    "tracker_ok deviceconfig_kind (w_deviceconfigs w1)"
    "fmlookup (w_deviceconfigs w1) = (fmlookup (w_deviceconfigs ?w))(req \<mapsto> set_resourceVersion v
       (dc\<lparr>metadata := (metadata dc)\<lparr>om_deletionTimestamp := Some (world_now ?w)\<rparr>\<rparr>))"
    "put_deviceconfigs fmempty w1 = put_deviceconfigs fmempty ?w"
    using deviceconfigs.delete_result(2) [OF cluster_okD(1) [OF assms(1)] st ne]
    unfolding cluster_simps key by blast
  let ?dc = "set_resourceVersion v (dc\<lparr>metadata := (metadata dc)\<lparr>om_deletionTimestamp := Some (world_now ?w)\<rparr>\<rparr>)"
  have w1_eq: "w1 = put_deviceconfigs (fmupd req ?dc (w_deviceconfigs ?w)) ?w"
    using deviceconfigs.frame [OF w1(4)] unfolding fmap_eq_upd [OF w1(3)] .
  have ok1: "cluster_ok w1" using cluster_ok_put(1) [OF assms(1) w1(2)] deviceconfigs.frame [OF w1(4)] by simp
  have "being_deleted ?dc" by (simp add: being_deleted_def time_IsZero_def world_now_def)
  moreover have "ContainsDeletionFinalizer ?dc" using assms(3) by (simp add: ContainsDeletionFinalizer_iff)
  moreover have "module_key ?dc = module_key dc" by (simp add: GetModuleName_def)
  ultimately have "Reconcile (operator_reconciler cluster (AddToScheme base) st) req (cs\<lparr>cs_world := w1\<rparr>) =
       ((empty_result, None),
        cs\<lparr>cs_world := w1\<lparr>w_modules := fmdrop (module_key dc) (w_modules w1),
                           w_deviceconfigs := fmdrop req (w_deviceconfigs w1)\<rparr>,
           ReconciliationFailed := (ReconciliationFailed cs)(om_name (metadata dc) \<mapsto> 0)\<rparr>)"
    using deletion_outcome [of "cs\<lparr>cs_world := w1\<rparr>" req ?dc base st] ok1 w1(3) assms(3,4)
    by (auto simp: w1_eq)
  moreover have "fmdrop req (fmupd req ?dc (w_deviceconfigs ?w)) = fmdrop req (w_deviceconfigs ?w)"
    by (rule fmap_ext) simp
  ultimately show ?thesis using w1(1,3) by (auto simp: w1_eq put_defs)
qed

section \<open>The life of the cluster\<close>

text \<open>
  One step: a user creates, edits or deletes a \<open>DeviceConfig\<close> (it is created without a deletion
  timestamp, which only the server sets; an edit keeps its finalizers and its deletion timestamp); other controllers change or remove Modules, but create none and do not
  revive one; nodes change; time passes; the operator reconciles any request.
\<close>

inductive cluster_step ::
    "scheme \<Rightarrow> controller_settings \<Rightarrow> world controller_state \<Rightarrow> world controller_state \<Rightarrow> bool"
  for base st where
  user_creates:
    "decode_object deviceconfig_kind dc = dc \<Longrightarrow> \<not> being_deleted dc \<Longrightarrow>
     kc_create (api_deviceconfigs cluster) dc (cs_world cs) = (Inr dc', w') \<Longrightarrow>
     cluster_step base st cs (cs\<lparr>cs_world := w'\<rparr>)"
| user_edits:
    "fmlookup (w_deviceconfigs (cs_world cs)) (ObjectKeyFromObject y) = Some x \<Longrightarrow>
     decode_object deviceconfig_kind y = y \<Longrightarrow>
     om_resourceVersion (metadata y) = om_resourceVersion (metadata x) \<Longrightarrow>
     om_finalizers (metadata y) = om_finalizers (metadata x) \<Longrightarrow>
     om_deletionTimestamp (metadata y) = om_deletionTimestamp (metadata x) \<Longrightarrow>
     kc_update (api_deviceconfigs cluster) y (cs_world cs) = (Inr y', w') \<Longrightarrow>
     cluster_step base st cs (cs\<lparr>cs_world := w'\<rparr>)"
| user_deletes:
    "kc_delete (api_deviceconfigs cluster) dc (cs_world cs) = (None, w') \<Longrightarrow>
     cluster_step base st cs (cs\<lparr>cs_world := w'\<rparr>)"
| modules_change:
    "tracker_ok module_kind ms \<Longrightarrow>
     (\<And>k m. fmlookup ms k = Some m \<Longrightarrow>
        \<exists>m0. fmlookup (w_modules (cs_world cs)) k = Some m0 \<and> (being_deleted m0 \<longrightarrow> being_deleted m)) \<Longrightarrow>
     cluster_step base st cs (cs\<lparr>cs_world := put_modules ms (cs_world cs)\<rparr>)"
| nodes_change:
    "tracker_ok node_kind ns \<Longrightarrow> nodes_unscoped (put_nodes ns (cs_world cs)) \<Longrightarrow>
     cluster_step base st cs (cs\<lparr>cs_world := put_nodes ns (cs_world cs)\<rparr>)"
| time_passes:
    "cluster_step base st cs (cs\<lparr>cs_world := (cs_world cs)\<lparr>w_clock := t\<rparr>\<rparr>)"
| operator_reconciles:
    "Reconcile (operator_reconciler cluster (AddToScheme base) st) req cs = (res, cs') \<Longrightarrow>
     cluster_step base st cs cs'"

inductive reachable :: "scheme \<Rightarrow> controller_settings \<Rightarrow> world controller_state \<Rightarrow> bool"
  for base st where
  start: "cluster_ok (cs_world cs) \<Longrightarrow> w_modules (cs_world cs) = fmempty \<Longrightarrow> reachable base st cs"
| step: "reachable base st cs \<Longrightarrow> cluster_step base st cs cs' \<Longrightarrow> reachable base st cs'"

text \<open>
  A Module that is not being deleted has its \<open>DeviceConfig\<close>, which has the finalizer. A tracker
  of \<open>DeviceConfig\<close>s covers a key if it holds the resource with that Module key and the finalizer.
\<close>

definition covers :: "(device_config_spec, device_config_status) tracker \<Rightarrow> object_key \<Rightarrow> bool" where
  "covers dcs k \<longleftrightarrow> (\<exists>req dc. fmlookup dcs req = Some dc \<and> ContainsDeletionFinalizer dc \<and> module_key dc = k)"

lemma coversI:
  "fmlookup dcs req = Some dc \<Longrightarrow> ContainsDeletionFinalizer dc \<Longrightarrow> module_key dc = k \<Longrightarrow> covers dcs k"
  unfolding covers_def by blast

lemma coversE:
  assumes "covers dcs k"
  obtains req dc where "fmlookup dcs req = Some dc" "ContainsDeletionFinalizer dc" "module_key dc = k"
  using assms unfolding covers_def by blast

definition no_orphans :: "world \<Rightarrow> bool" where
  "no_orphans w \<longleftrightarrow>
     (\<forall>m \<in> fmran' (w_modules w). \<not> being_deleted m \<longrightarrow> covers (w_deviceconfigs w) (ObjectKeyFromObject m))"

lemma no_orphans_iff:
  assumes "cluster_ok w"
  shows "no_orphans w \<longleftrightarrow>
    (\<forall>k m. fmlookup (w_modules w) k = Some m \<longrightarrow> \<not> being_deleted m \<longrightarrow> covers (w_deviceconfigs w) k)"
proof -
  have key: "ObjectKeyFromObject m = k" if "fmlookup (w_modules w) k = Some m" for k m
    using tracker_okD [OF cluster_okD(2) [OF assms] that] by (simp add: stored_ok_def)
  show ?thesis
  proof
    assume "no_orphans w"
    then show "\<forall>k m. fmlookup (w_modules w) k = Some m \<longrightarrow> \<not> being_deleted m \<longrightarrow> covers (w_deviceconfigs w) k"
      unfolding no_orphans_def using key by (metis fmran'I)
  next
    assume "\<forall>k m. fmlookup (w_modules w) k = Some m \<longrightarrow> \<not> being_deleted m \<longrightarrow> covers (w_deviceconfigs w) k"
    then show "no_orphans w" unfolding no_orphans_def
    proof (intro ballI impI)
      fix m assume all: "\<forall>k m. fmlookup (w_modules w) k = Some m \<longrightarrow> \<not> being_deleted m \<longrightarrow> covers (w_deviceconfigs w) k"
        and m: "m \<in> fmran' (w_modules w)" "\<not> being_deleted m"
      from m(1) obtain k where "fmlookup (w_modules w) k = Some m" by (rule fmran'E)
      with all m(2) show "covers (w_deviceconfigs w) (ObjectKeyFromObject m)" using key by fast
    qed
  qed
qed

lemma module_key_inj:
  "module_key dc = module_key dc' \<longleftrightarrow> ObjectKeyFromObject dc = ObjectKeyFromObject dc'"
  by (simp add: GetModuleName_def ObjectKeyFromObject_def)

lemma covers_upd:
  assumes "covers dcs k" "fmlookup dcs req = Some dc" "module_key dc' = module_key dc"
    and "ContainsDeletionFinalizer dc \<Longrightarrow> ContainsDeletionFinalizer dc'"
  shows "covers (fmupd req dc' dcs) k"
proof -
  obtain req0 dc0 where 0: "fmlookup dcs req0 = Some dc0" "ContainsDeletionFinalizer dc0" "module_key dc0 = k"
    using assms(1) by (rule coversE)
  show ?thesis
  proof (cases "req0 = req")
    case True
    with 0 assms have "dc0 = dc" by simp
    with 0 assms show ?thesis by (intro coversI [of _ req dc']) simp_all
  next
    case False
    with 0 show ?thesis by (intro coversI [of _ req0 dc0]) simp_all
  qed
qed

text \<open>A reconciliation keeps the invariant, in each of its branches.\<close>

lemma confined_keeps:
  assumes ok: "cluster_ok w" and inv: "no_orphans w" and st: "fmlookup (w_deviceconfigs w) req = Some dc"
    and ok': "cluster_ok w'" and conf: "only_for dc w w'"
    and own: "(\<exists>dc'. fmlookup (w_deviceconfigs w') req = Some dc' \<and> same_request dc dc' \<and> ContainsDeletionFinalizer dc') \<or>
              (\<forall>m. fmlookup (w_modules w') (module_key dc) = Some m \<longrightarrow> being_deleted m)"
  shows "no_orphans w'"
  unfolding no_orphans_iff [OF ok']
proof (intro allI impI)
  fix k m assume m: "fmlookup (w_modules w') k = Some m" "\<not> being_deleted m"
  show "covers (w_deviceconfigs w') k"
  proof (cases "k = module_key dc")
    case True
    with own m obtain dc' where "fmlookup (w_deviceconfigs w') req = Some dc'" "same_request dc dc'"
        "ContainsDeletionFinalizer dc'" by auto
    with True show ?thesis using same_request_keys by (intro coversI [of _ req dc']) auto
  next
    case False
    with m conf have "fmlookup (w_modules w) k = Some m" by (simp add: only_for_def)
    with m inv obtain req0 dc0 where 0: "fmlookup (w_deviceconfigs w) req0 = Some dc0" "ContainsDeletionFinalizer dc0"
        "module_key dc0 = k" unfolding no_orphans_iff [OF ok] by (metis coversE)
    with False st have "req0 \<noteq> req" by auto
    with 0 conf show ?thesis using stored_key_dc [OF ok st] by (intro coversI [of _ req0 dc0]) (simp_all add: only_for_def)
  qed
qed

lemma reconcile_keeps:
  assumes ok: "cluster_ok (cs_world cs)" and inv: "no_orphans (cs_world cs)"
    and rec: "Reconcile (operator_reconciler cluster (AddToScheme base) st) req cs = (res, cs')"
  shows "cluster_ok (cs_world cs') \<and> no_orphans (cs_world cs')"
  using ok
proof (cases rule: reconcile_total [where req = req and base = base and st = st])
  case (leaving dc w')
  with rec confined_keeps [OF ok inv leaving(1,5,6)] show ?thesis by auto
next
  case (failed dc dc' reason err w')
  have "ContainsDeletionFinalizer dc'" using failed(9) by (auto simp: ContainsDeletionFinalizer_iff finalized_def)
  with rec failed confined_keeps [OF ok inv failed(1,5,6)] show ?thesis by auto
next
  case (provisioned dc dc' w')
  have "ContainsDeletionFinalizer dc'" using provisioned(9) by (auto simp: ContainsDeletionFinalizer_iff finalized_def)
  with rec provisioned confined_keeps [OF ok inv provisioned(1,5,6)] show ?thesis by auto
qed (use rec ok inv in auto)

text \<open>The steps of the users.\<close>

lemma create_outcome:
  assumes ok: "cluster_ok w" and dec: "decode_object deviceconfig_kind dc = dc" and al: "\<not> being_deleted dc"
    and made: "kc_create (api_deviceconfigs cluster) dc w = (Inr dc', w')"
  shows "fmlookup (w_deviceconfigs w) (ObjectKeyFromObject dc) = None" "cluster_ok w'"
    "w' = put_deviceconfigs (fmupd (ObjectKeyFromObject dc) (set_resourceVersion ''1'' dc) (w_deviceconfigs w)) w"
proof -
  let ?k = "ObjectKeyFromObject dc" and ?x = "set_resourceVersion ''1'' dc"
  have new: "om_name (metadata dc) \<noteq> []" "om_resourceVersion (metadata dc) = []"
    using made by (auto simp: fake_client_def on_tracker_def versioned_Create_def split: if_splits)
  have none: "fmlookup (w_deviceconfigs w) ?k = None"
    using made new tracker_add_own [of "resource_string deviceconfig_kind" ?x False "w_deviceconfigs w"]
    by (auto simp: fake_client_def on_tracker_def versioned_Create_def Let_def split: if_splits)
  have w': "w' = put_deviceconfigs (fmupd ?k ?x (w_deviceconfigs w)) w"
    using made versioned_Create_new [OF none new, of deviceconfig_kind] by (auto simp: fake_client_def on_tracker_def)
  have "tracker_ok deviceconfig_kind (fmupd ?k ?x (w_deviceconfigs w))"
    using dec al new(1) by (intro tracker_ok_upd [OF cluster_okD(1) [OF ok]])
      (simp add: stored_ok_set_version kept_alive_def being_deleted_def)
  then have "cluster_ok w'" unfolding w' by (rule cluster_ok_put(1) [OF ok])
  with none w' show "fmlookup (w_deviceconfigs w) ?k = None" "cluster_ok w'"
    "w' = put_deviceconfigs (fmupd ?k ?x (w_deviceconfigs w)) w" by simp_all
qed

lemma edit_outcome:
  assumes ok: "cluster_ok w"
    and st: "fmlookup (w_deviceconfigs w) (ObjectKeyFromObject y) = Some x"
    and dec: "decode_object deviceconfig_kind y = y"
    and rv: "om_resourceVersion (metadata y) = om_resourceVersion (metadata x)"
    and fin: "om_finalizers (metadata y) = om_finalizers (metadata x)"
    and dt: "om_deletionTimestamp (metadata y) = om_deletionTimestamp (metadata x)"
    and upd: "kc_update (api_deviceconfigs cluster) y w = (Inr y', w')"
  shows "cluster_ok w' \<and> (\<exists>v. w' = put_deviceconfigs
     (fmupd (ObjectKeyFromObject y) (set_resourceVersion v y) (w_deviceconfigs w)) w)"
proof -
  have "kept_alive y"
    using tracker_okD [OF cluster_okD(1) [OF ok] st] fin dt by (simp add: stored_ok_def kept_alive_def)
  from deviceconfigs.update_result [OF cluster_okD(1) [OF ok] st rv dec this [unfolded kept_alive_def]]
  obtain v where v: "w' = put_deviceconfigs (fmupd (ObjectKeyFromObject y) (set_resourceVersion v y) (w_deviceconfigs w)) w"
    "tracker_ok deviceconfig_kind (fmupd (ObjectKeyFromObject y) (set_resourceVersion v y) (w_deviceconfigs w))"
    using upd by (auto simp: fake_client_def)
  have "cluster_ok w'" unfolding v(1) by (rule cluster_ok_put(1) [OF ok v(2)])
  with v(1) show ?thesis by blast
qed

lemma delete_outcome:
  assumes ok: "cluster_ok w" and del: "kc_delete (api_deviceconfigs cluster) dc w = (None, w')"
  obtains (gone) x where "fmlookup (w_deviceconfigs w) (ObjectKeyFromObject dc) = Some x" "cluster_ok w'"
    "om_finalizers (metadata x) = []"
    "w' = put_deviceconfigs (fmdrop (ObjectKeyFromObject dc) (w_deviceconfigs w)) w"
  | (marked) x v where "fmlookup (w_deviceconfigs w) (ObjectKeyFromObject dc) = Some x" "cluster_ok w'"
    "om_finalizers (metadata x) \<noteq> []"
    "w' = put_deviceconfigs (fmupd (ObjectKeyFromObject dc) (set_resourceVersion v
       (x\<lparr>metadata := (metadata x)\<lparr>om_deletionTimestamp := Some (world_now w)\<rparr>\<rparr>)) (w_deviceconfigs w)) w"
proof -
  let ?k = "ObjectKeyFromObject dc"
  obtain x where x: "fmlookup (w_deviceconfigs w) ?k = Some x"
    using del by (auto simp: fake_client_def on_tracker_def deleteObject_def tracker_Get_def tracker_Delete_def
        ObjectKeyFromObject_def Let_def split: option.splits)
  show thesis
  proof (cases "om_finalizers (metadata x) = []")
    case True
    then have w': "w' = put_deviceconfigs (fmdrop ?k (w_deviceconfigs w)) w"
      using deviceconfigs.delete_result(1) [OF cluster_okD(1) [OF ok] x] del by simp
    then have "cluster_ok w'" using cluster_ok_put(1) [OF ok tracker_ok_drop [OF cluster_okD(1) [OF ok]]] by simp
    from gone [OF x this True w'] show thesis .
  next
    case False
    from deviceconfigs.delete_result(2) [OF cluster_okD(1) [OF ok] x False] del
    obtain v where v: "tracker_ok deviceconfig_kind (w_deviceconfigs w')"
      "fmlookup (w_deviceconfigs w') = (fmlookup (w_deviceconfigs w))(?k \<mapsto> set_resourceVersion v
         (x\<lparr>metadata := (metadata x)\<lparr>om_deletionTimestamp := Some (world_now w)\<rparr>\<rparr>))"
      "put_deviceconfigs fmempty w' = put_deviceconfigs fmempty w"
      by auto
    have w': "w' = put_deviceconfigs (fmupd ?k (set_resourceVersion v
        (x\<lparr>metadata := (metadata x)\<lparr>om_deletionTimestamp := Some (world_now w)\<rparr>\<rparr>)) (w_deviceconfigs w)) w"
      using deviceconfigs.frame [OF v(3)] unfolding fmap_eq_upd [OF v(2)] .
    have "cluster_ok w'" using cluster_ok_put(1) [OF ok v(1)] deviceconfigs.frame [OF v(3)] by simp
    from marked [OF x this False w'] show thesis .
  qed
qed

text \<open>Every key stays covered when a resource is added, or replaced by one with as many finalizers, or goes without any.\<close>

lemma users_keep:
  assumes ok: "cluster_ok w" "cluster_ok w'" and inv: "no_orphans w" and same: "w_modules w' = w_modules w"
    and cov: "\<And>k. covers (w_deviceconfigs w) k \<Longrightarrow> covers (w_deviceconfigs w') k"
  shows "no_orphans w'"
  using inv cov unfolding no_orphans_iff [OF ok(1)] no_orphans_iff [OF ok(2)] same by blast

lemma covers_new: "fmlookup dcs k0 = None \<Longrightarrow> covers dcs k \<Longrightarrow> covers (fmupd k0 dc dcs) k"
  unfolding covers_def by (metis fmupd_lookup option.distinct(1))

lemma covers_unfinalized:
  assumes "fmlookup dcs k0 = Some x" "om_finalizers (metadata x) = []" "covers dcs k"
  shows "covers (fmdrop k0 dcs) k"
proof -
  from assms(3) obtain req dc where 0: "fmlookup dcs req = Some dc" "ContainsDeletionFinalizer dc" "module_key dc = k"
    by (rule coversE)
  with assms have "req \<noteq> k0" by (auto simp: ContainsDeletionFinalizer_iff)
  with 0 show ?thesis by (intro coversI [of _ req dc]) simp_all
qed

text \<open>Well-formedness alone: every step keeps it, from any well-formed state.\<close>

lemma step_well_formed:
  assumes "cluster_step base st cs cs'" "cluster_ok (cs_world cs)"
  shows "cluster_ok (cs_world cs')"
  using assms
proof (induction rule: cluster_step.induct)
  case (user_creates dc cs dc' w')
  show ?case using create_outcome(2) [OF user_creates(4,1-3)] by simp
next
  case (user_edits cs y x y' w')
  show ?case using edit_outcome [OF user_edits(7,1-6)] by simp
next
  case (user_deletes dc cs w')
  from user_deletes(2,1) show ?case by (cases rule: delete_outcome) simp_all
next
  case (modules_change ms cs)
  then show ?case using cluster_ok_put(2) by simp
next
  case (nodes_change ns cs)
  then show ?case by (simp add: cluster_ok_def world_ok_def put_defs)
next
  case (time_passes cs t)
  then show ?case by (simp add: cluster_ok_def world_ok_def nodes_unscoped_def)
next
  case (operator_reconciles req cs res cs')
  from operator_reconciles(2) show ?case
    by (cases rule: reconcile_total [where req = req and base = base and st = st])
       (use operator_reconciles in auto)
qed

lemma step_keeps:
  assumes "cluster_step base st cs cs'" "cluster_ok (cs_world cs)" "no_orphans (cs_world cs)"
  shows "cluster_ok (cs_world cs') \<and> no_orphans (cs_world cs')"
  using assms
proof (induction rule: cluster_step.induct)
  case (user_creates dc cs dc' w')
  note c = create_outcome [OF user_creates(4,1-3)]
  from users_keep [OF user_creates(4) c(2) user_creates(5)] covers_new [OF c(1)] c(2,3)
  show ?case by simp
next
  case (user_edits cs y x y' w')
  from edit_outcome [OF user_edits(7,1-6)] obtain v where v: "cluster_ok w'"
    "w' = put_deviceconfigs (fmupd (ObjectKeyFromObject y) (set_resourceVersion v y) (w_deviceconfigs (cs_world cs))) (cs_world cs)"
    by blast
  have "ObjectKeyFromObject x = ObjectKeyFromObject y" by (rule stored_key_dc [OF user_edits(7,1)])
  then have "module_key (set_resourceVersion v y) = module_key x" by (simp add: ObjectKeyFromObject_def GetModuleName_def)
  from covers_upd [OF _ user_edits(1) this] user_edits(4) users_keep [OF user_edits(7) v(1) user_edits(8)] v
  show ?case by (simp add: ContainsDeletionFinalizer_iff)
next
  case (user_deletes dc cs w')
  from user_deletes(2,1) show ?case
  proof (cases rule: delete_outcome)
    case (gone x)
    with users_keep [OF user_deletes(2) gone(2) user_deletes(3)] covers_unfinalized [OF gone(1,3)] show ?thesis by simp
  next
    case (marked x v)
    let ?x = "set_resourceVersion v (x\<lparr>metadata := (metadata x)\<lparr>om_deletionTimestamp := Some (world_now (cs_world cs))\<rparr>\<rparr>)"
    have "module_key ?x = module_key x" by (simp add: GetModuleName_def)
    from covers_upd [OF _ marked(1) this] users_keep [OF user_deletes(2) marked(2) user_deletes(3)] marked(2,4)
    show ?thesis by (simp add: ContainsDeletionFinalizer_iff)
  qed
next
  case (modules_change ms cs)
  have ok': "cluster_ok (put_modules ms (cs_world cs))" by (rule cluster_ok_put(2)) (fact modules_change)+
  have "no_orphans (put_modules ms (cs_world cs))"
    unfolding no_orphans_iff [OF ok']
  proof (intro allI impI)
    fix k m assume m: "fmlookup (w_modules (put_modules ms (cs_world cs))) k = Some m" "\<not> being_deleted m"
    then obtain m0 where "fmlookup (w_modules (cs_world cs)) k = Some m0" "\<not> being_deleted m0"
      using modules_change(2) [of k m] by auto
    then show "covers (w_deviceconfigs (put_modules ms (cs_world cs))) k"
      using modules_change.prems no_orphans_iff [OF modules_change.prems(1)] by simp
  qed
  with ok' show ?case by simp
next
  case (nodes_change ns cs)
  then show ?case by (simp add: cluster_ok_def world_ok_def no_orphans_def put_defs)
next
  case (time_passes cs t)
  then show ?case by (simp add: cluster_ok_def world_ok_def no_orphans_def nodes_unscoped_def)
next
  case (operator_reconciles req cs res cs')
  then show ?case using reconcile_keeps by blast
qed

text \<open>
  The cluster stays well formed. From any well-formed state, along any sequence of steps of users, nodes, other
  controllers, time and the operator: every stored object is kept under its own namespace and
  name, has a name and a version the server can advance, is in the form the server returns after
  decoding, and is not being deleted without a finalizer that keeps it; nodes have no namespace.
\<close>

theorem cluster_stays_well_formed:
  assumes "(cluster_step base st)\<^sup>*\<^sup>* cs cs'" "cluster_ok (cs_world cs)"
  shows "cluster_ok (cs_world cs')"
  using assms by (induction rule: rtranclp_induct) (auto intro: step_well_formed)

text \<open>
  C1. No orphaned Module. In every state the cluster can reach from one without Modules, whatever users,
  nodes, other controllers and the operator do in whatever order (and whether the operator's
  reconciliations succeed or fail): a Module that is not being deleted belongs to a stored
  \<open>DeviceConfig\<close>, by name and namespace, which has the deletion finalizer.
\<close>

theorem no_orphaned_modules:
  "reachable base st cs \<Longrightarrow> cluster_ok (cs_world cs) \<and> no_orphans (cs_world cs)"
proof (induction rule: reachable.induct)
  case (start cs)
  then show ?case using no_orphans_iff by simp
next
  case (step cs cs')
  then show ?case using step_keeps by blast
qed

end
