(* ===== verification/Lifecycle_Refinement.thy ===== *)
theory Lifecycle_Refinement
  imports Operator_Lifecycle
begin

text \<open>
  An abstract specification of the operator: the cluster as a map from resources to the phase of
  their life, and a small state machine on phases. The detailed model (the in-memory server, the
  stages, the conditions and the versions) refines it: every step of the cluster is, through the
  abstraction \<open>phases\<close>, a step of the specification.
\<close>

section \<open>The specification\<close>

text \<open>
  A resource is absent; fresh (alive, without the operator's finalizer); held (it has the
  finalizer, but not everything it asks for is in place and reported); provisioned; leaving
  (being deleted, with the finalizer); released (being deleted, kept by the finalizers of others).
\<close>

datatype phase = Absent | Fresh | Held | Provisioned | Leaving | Released

definition operator_move :: "phase \<Rightarrow> phase \<Rightarrow> bool" where
  "operator_move p q =
     (case p of
        Absent \<Rightarrow> q = Absent
      | Fresh \<Rightarrow> q \<in> {Fresh, Held, Provisioned}
      | Held \<Rightarrow> q \<in> {Held, Provisioned}
      | Provisioned \<Rightarrow> q = Provisioned
      | Leaving \<Rightarrow> q \<in> {Absent, Released}
      | Released \<Rightarrow> q = Released)"

definition user_move :: "phase \<Rightarrow> phase \<Rightarrow> bool" where
  "user_move p q =
     (case p of
        Absent \<Rightarrow> q \<in> {Fresh, Held, Provisioned}
      | Fresh \<Rightarrow> q \<in> {Fresh, Absent, Released}
      | Held \<Rightarrow> q \<in> {Held, Provisioned, Leaving}
      | Provisioned \<Rightarrow> q \<in> {Held, Provisioned, Leaving}
      | Leaving \<Rightarrow> q = Leaving
      | Released \<Rightarrow> q = Released)"

definition drift :: "phase \<Rightarrow> phase \<Rightarrow> bool" where
  "drift p q \<longleftrightarrow> p = q \<or> {p, q} = {Held, Provisioned}"

text \<open>
  The operator and the users move one resource at a time; what happens to its objects can move any
  number of resources between held and provisioned, and nothing else.
\<close>

inductive spec_step :: "(object_key \<Rightarrow> phase) \<Rightarrow> (object_key \<Rightarrow> phase) \<Rightarrow> bool" where
  spec_operator: "operator_move (ph k) q \<Longrightarrow> spec_step ph (ph(k := q))"
| spec_user: "user_move (ph k) q \<Longrightarrow> spec_step ph (ph(k := q))"
| spec_drift: "(\<And>k. drift (ph k) (ph' k)) \<Longrightarrow> spec_step ph ph'"

inductive_cases spec_stepE: "spec_step ph ph'"

text \<open>What the specification promises by itself: a resource that is being deleted only goes further.\<close>

lemma spec_step_deletion:
  assumes "spec_step ph ph'" "ph k \<in> {Leaving, Released}"
  shows "ph' k \<in> {Leaving, Released, Absent}"
  using assms(1)
proof (cases rule: spec_step.cases)
  case (spec_drift)
  from spec_drift [of k] show ?thesis using assms(2) by (auto simp: drift_def doubleton_eq_iff)
qed (use assms(2) in \<open>auto simp: operator_move_def user_move_def split: if_splits phase.splits\<close>)

section \<open>The abstraction\<close>

definition phase_of :: "scheme \<Rightarrow> controller_settings \<Rightarrow> world \<Rightarrow> object_key \<Rightarrow> phase" where
  "phase_of base st w k =
     (case fmlookup (w_deviceconfigs w) k of
        None \<Rightarrow> Absent
      | Some dc \<Rightarrow>
          if being_deleted dc then (if ContainsDeletionFinalizer dc then Leaving else Released)
          else if \<not> ContainsDeletionFinalizer dc then Fresh
          else if provisioned base st dc w \<and> reported_ready ''Reconciled'' all_reconciled (conditions (status dc))
          then Provisioned else Held)"

text \<open>Different resources have different objects.\<close>

lemma object_names:
  "GetModuleName dc = om_name (metadata dc) @ ''-module''"
  "getNodeLabelerName dc = om_name (metadata dc) @ ''-node-labeler''"
  "GetNodeMetricsName dc = om_name (metadata dc) @ ''-node-metrics''"
  by (simp_all add: GetModuleName_def getNodeLabelerName_def GetNodeMetricsName_def moduleSuffix_def
      nodeLabelerSuffix_def nodeMetricsSuffix_def)

lemma append_last_differs: "last ys \<noteq> last zs \<Longrightarrow> ys \<noteq> [] \<Longrightarrow> zs \<noteq> [] \<Longrightarrow> xs @ ys \<noteq> xs' @ zs"
  by (metis last_appendR)

lemma keys_differ:
  assumes "ObjectKeyFromObject dc2 \<noteq> ObjectKeyFromObject dc"
  shows "module_key dc2 \<noteq> module_key dc" "labeler_key dc2 \<noteq> labeler_key dc" "metrics_key dc2 \<noteq> metrics_key dc"
    "labeler_key dc2 \<noteq> metrics_key dc" "metrics_key dc2 \<noteq> labeler_key dc"
  using assms
  by (simp_all add: ObjectKeyFromObject_def object_names append_last_differs)

lemma confined_elsewhere:
  assumes "only_for dc w w'" "ObjectKeyFromObject dc2 \<noteq> ObjectKeyFromObject dc"
  shows "fmlookup (w_modules w') (module_key dc2) = fmlookup (w_modules w) (module_key dc2)"
    "fmlookup (w_daemonsets w') (labeler_key dc2) = fmlookup (w_daemonsets w) (labeler_key dc2)"
    "fmlookup (w_daemonsets w') (metrics_key dc2) = fmlookup (w_daemonsets w) (metrics_key dc2)"
    "fmlookup (w_services w') (metrics_key dc2) = fmlookup (w_services w) (metrics_key dc2)"
    "fmlookup (w_deviceconfigs w') (ObjectKeyFromObject dc2) = fmlookup (w_deviceconfigs w) (ObjectKeyFromObject dc2)"
  using assms(1) keys_differ [OF assms(2)] assms(2) unfolding only_for_def by blast+

lemma provisioned_elsewhere:
  assumes "only_for dc w w'" "ObjectKeyFromObject dc2 \<noteq> ObjectKeyFromObject dc"
  shows "provisioned base st dc2 w' = provisioned base st dc2 w"
    "all_adoptable dc2 w' = all_adoptable dc2 w"
  using confined_elsewhere [OF assms] by (simp_all add: provisioned_def all_adoptable_def)

lemma phase_elsewhere:
  assumes "cluster_ok w" "only_for dc w w'" "k \<noteq> ObjectKeyFromObject dc"
  shows "phase_of base st w' k = phase_of base st w k"
proof -
  have "fmlookup (w_deviceconfigs w') k = fmlookup (w_deviceconfigs w) k"
    using assms(2,3) unfolding only_for_def by blast
  then show ?thesis
    using stored_key_dc [OF assms(1)] assms(3) provisioned_elsewhere(1) [OF assms(2)]
    by (auto simp: phase_of_def split: option.split)
qed

lemma phases_upd:
  assumes "cluster_ok w" "only_for dc w w'" "ObjectKeyFromObject dc = k"
  shows "phase_of base st w' = (phase_of base st w)(k := phase_of base st w' k)"
  using phase_elsewhere [OF assms(1,2)] assms(3) by (auto simp: fun_eq_iff)

section \<open>The refinement\<close>

lemma released_phase:
  assumes "\<not> ContainsDeletionFinalizer dc" "being_deleted dc" "fmlookup (w_deviceconfigs w) k = Some dc"
  shows "phase_of base st w k = Released"
  using assms by (simp add: phase_of_def)

lemma unfinalized_simps [simp]:
  "\<not> ContainsDeletionFinalizer (unfinalized dc)" "being_deleted (unfinalized dc) = being_deleted dc"
  by (simp_all add: unfinalized_def ContainsDeletionFinalizer_iff being_deleted_def)

lemma finalizers_decide:
  "om_finalizers (metadata a) = om_finalizers (metadata (finalized b)) \<Longrightarrow> ContainsDeletionFinalizer a"
  by (auto simp: ContainsDeletionFinalizer_iff finalized_def)

text \<open>A provisioned resource has no object that the stages refuse.\<close>

lemma provisioned_adoptable:
  assumes "provisioned base st dc w"
  shows "all_adoptable dc w"
proof -
  have "adoptable dc m" if "SetDesiredModule (AddToScheme base) st (Some m) dc = Inr m'" for m m'
    using that module_writer.accepted_iff by blast
  moreover have "adoptable dc x" if "SetDesiredNodeLabelerDaemonSet (AddToScheme base) st (Some x) dc = Inr y" for x y
    using that labeler_writer.accepted_iff by blast
  moreover have "adoptable dc x" if "SetDesiredNodeMetricsDaemonSet (AddToScheme base) st (Some x) dc = Inr y" for x y
    using that metrics_writer.accepted_iff by blast
  moreover have "adoptable dc x" if "SetDesiredNodeMetricsService (AddToScheme base) (Some x) dc = Inr y" for x y
    using that service_writer.accepted_iff by blast
  ultimately show ?thesis
    using assms unfolding provisioned_def all_adoptable_def free_to_adopt_def by auto
qed

lemma being_deleted_set_resourceVersion [simp]:
  "being_deleted (set_resourceVersion v obj) = being_deleted obj"
  "ContainsDeletionFinalizer (set_resourceVersion v dc) = ContainsDeletionFinalizer dc"
  by (simp_all add: being_deleted_def ContainsDeletionFinalizer_iff)

lemma phase_provisioned:
  assumes "fmlookup (w_deviceconfigs w') req = Some dc'" "same_request dc dc'" "\<not> being_deleted dc'"
    "om_finalizers (metadata dc') = om_finalizers (metadata (finalized dc))"
    "reported_ready ''Reconciled'' all_reconciled (conditions (status dc'))" "provisioned base st dc w'"
  shows "phase_of base st w' req = Provisioned"
  using assms finalizers_decide [OF assms(4)] provisioned_cong [OF assms(2)] by (simp add: phase_of_def)

lemma moved:
  assumes "cluster_ok w" "only_for dc w w'" "ObjectKeyFromObject dc = k"
    "operator_move (phase_of base st w k) (phase_of base st w' k)"
  shows "\<exists>q. operator_move (phase_of base st w k) q \<and> phase_of base st w' = (phase_of base st w)(k := q)"
  using assms(4) phases_upd [OF assms(1-3)] by blast

text \<open>A reconciliation moves its own resource as the specification allows, and no other.\<close>

lemma reconcile_moves:
  assumes ok: "cluster_ok (cs_world cs)"
    and rec: "Reconcile (operator_reconciler cluster (AddToScheme base) st) req cs = (res, cs')"
  shows "\<exists>q. operator_move (phase_of base st (cs_world cs) req) q \<and>
     phase_of base st (cs_world cs') = (phase_of base st (cs_world cs))(req := q)"
  using ok
proof (cases rule: reconcile_total [where req = req and base = base and st = st])
  case absent
  with rec have "cs_world cs' = cs_world cs" by auto
  with absent show ?thesis by (intro exI [where x = Absent]) (auto simp: operator_move_def phase_of_def)
next
  case (released dc)
  with rec have "cs_world cs' = cs_world cs" by auto
  with released show ?thesis by (intro exI [where x = Released]) (auto simp: operator_move_def phase_of_def)
next
  case (leaving dc w')
  with rec have w': "cs_world cs' = w'" by auto
  have "phase_of base st w' req \<in> {Absent, Released}"
    using leaving(2,7) by (auto simp: phase_of_def)
  moreover have "phase_of base st (cs_world cs) req = Leaving" using leaving by (simp add: phase_of_def)
  ultimately show ?thesis unfolding w'
    by (intro moved [OF ok leaving(6) stored_key_dc [OF ok leaving(1)]]) (auto simp: operator_move_def)
next
  case (conflict dc)
  with rec have "cs_world cs' = cs_world cs" by auto
  moreover have "phase_of base st (cs_world cs) req \<in> {Fresh, Held, Provisioned}"
    using conflict(1,2) by (simp add: phase_of_def)
  ultimately show ?thesis
    by (intro exI [where x = "phase_of base st (cs_world cs) req"]) (auto simp: operator_move_def)
next
  case (failed dc dc' reason err w')
  with rec have w': "cs_world cs' = w'" by auto
  have "phase_of base st w' req \<in> {Held, Provisioned}"
    using failed(7,10) finalizers_decide [OF failed(9)] by (simp add: phase_of_def)
  moreover have "\<not> provisioned base st dc (cs_world cs)" using failed(12) provisioned_adoptable all_adoptable_obstacle [OF ok]
    by (metis option.distinct(1))
  then have "phase_of base st (cs_world cs) req \<in> {Fresh, Held}" using failed(1,2) by (simp add: phase_of_def)
  ultimately show ?thesis unfolding w'
    by (intro moved [OF ok failed(6) stored_key_dc [OF ok failed(1)]]) (auto simp: operator_move_def)
next
  case (provisioned dc dc' w')
  with rec have w': "cs_world cs' = w'" by auto
  have "phase_of base st w' req = Provisioned" using phase_provisioned [OF provisioned(7,8,10,9,11,12)] .
  moreover have "phase_of base st (cs_world cs) req \<in> {Fresh, Held, Provisioned}"
    using provisioned(1,2) by (simp add: phase_of_def)
  ultimately show ?thesis unfolding w'
    by (intro moved [OF ok provisioned(6) stored_key_dc [OF ok provisioned(1)]]) (auto simp: operator_move_def)
qed

lemma phase_alive:
  "fmlookup (w_deviceconfigs w) k = Some dc \<Longrightarrow> \<not> being_deleted dc \<Longrightarrow>
   (phase_of base st w k = Fresh \<longleftrightarrow> \<not> ContainsDeletionFinalizer dc) \<and>
   (phase_of base st w k \<in> {Held, Provisioned} \<longleftrightarrow> ContainsDeletionFinalizer dc)"
  by (simp add: phase_of_def)

lemma phases_put:
  assumes "cluster_ok w" "ObjectKeyFromObject dc = k"
  shows "phase_of base st (put_deviceconfigs (fmupd k dc (w_deviceconfigs w)) w) =
      (phase_of base st w)(k := phase_of base st (put_deviceconfigs (fmupd k dc (w_deviceconfigs w)) w) k)"
    "phase_of base st (put_deviceconfigs (fmdrop k (w_deviceconfigs w)) w) = (phase_of base st w)(k := Absent)"
  using phases_upd [OF assms(1) only_for_self(1) [OF assms(2)] assms(2)]
    phases_upd [OF assms(1) only_for_self(2) [OF assms(2)] assms(2), of base st]
  by (auto simp: phase_of_def)

lemma phases_same:
  "w_deviceconfigs w' = w_deviceconfigs w \<Longrightarrow> w_modules w' = w_modules w \<Longrightarrow> w_daemonsets w' = w_daemonsets w \<Longrightarrow>
   w_services w' = w_services w \<Longrightarrow> phase_of base st w' = phase_of base st w"
  by (auto simp: phase_of_def provisioned_def fun_eq_iff split: option.split)

lemma phases_unaffected [simp]:
  "phase_of base st (put_nodes ns w) = phase_of base st w" "phase_of base st (w\<lparr>w_clock := t\<rparr>) = phase_of base st w"
  by (rule phases_same, simp_all add: put_defs)+

lemma user_puts:
  assumes "cluster_ok w" "ObjectKeyFromObject dc = k" "w' = put_deviceconfigs (fmupd k dc (w_deviceconfigs w)) w"
    "user_move (phase_of base st w k) (phase_of base st w' k)"
  shows "spec_step (phase_of base st w) (phase_of base st w')"
  using spec_user [where ph = "phase_of base st w", OF assms(4)] phases_put(1) [OF assms(1,2), of base st]
  unfolding assms(3) by simp

lemma step_refines:
  assumes "cluster_step base st cs cs'" "cluster_ok (cs_world cs)"
  shows "spec_step (phase_of base st (cs_world cs)) (phase_of base st (cs_world cs'))"
  using assms
proof (induction rule: cluster_step.induct)
  case (user_creates dc cs dc' w')
  note c = create_outcome [OF user_creates(4,1-3)]
  let ?k = "ObjectKeyFromObject dc"
  have "phase_of base st w' ?k \<in> {Fresh, Held, Provisioned}"
    using user_creates(2) by (simp add: c(3) phase_of_def)
  then have "user_move (phase_of base st (cs_world cs) ?k) (phase_of base st w' ?k)"
    using c(1) by (auto simp: user_move_def phase_of_def)
  then show ?case using user_puts [OF user_creates(4) _ c(3)] by simp
next
  case (user_edits cs y x y' w')
  let ?k = "ObjectKeyFromObject y"
  from edit_outcome [OF user_edits(7,1-6)] obtain v where
    v: "w' = put_deviceconfigs (fmupd ?k (set_resourceVersion v y) (w_deviceconfigs (cs_world cs))) (cs_world cs)"
    by blast
  have "being_deleted y = being_deleted x" "ContainsDeletionFinalizer y = ContainsDeletionFinalizer x"
    using user_edits(4,5) by (simp_all add: being_deleted_def ContainsDeletionFinalizer_iff)
  then have "user_move (phase_of base st (cs_world cs) ?k) (phase_of base st w' ?k)"
    using user_edits(1) by (simp add: v phase_of_def user_move_def)
  then show ?case using user_puts [OF user_edits(7) _ v] by simp
next
  case (user_deletes dc cs w')
  let ?k = "ObjectKeyFromObject dc"
  from user_deletes(2,1) show ?case
  proof (cases rule: delete_outcome)
    case (gone x)
    then have "user_move (phase_of base st (cs_world cs) ?k) Absent"
      using tracker_okD [OF cluster_okD(1) [OF user_deletes(2)] gone(1)]
      by (simp add: phase_of_def user_move_def ContainsDeletionFinalizer_iff stored_ok_def kept_alive_def being_deleted_def)
    from spec_user [where ph = "phase_of base st (cs_world cs)", OF this] show ?thesis
      using phases_put(2) [OF user_deletes(2) refl, of base st dc] by (simp add: gone(4) del: fun_upd_apply)
  next
    case (marked x v)
    let ?x = "set_resourceVersion v (x\<lparr>metadata := (metadata x)\<lparr>om_deletionTimestamp := Some (world_now (cs_world cs))\<rparr>\<rparr>)"
    have "being_deleted ?x" "ContainsDeletionFinalizer ?x = ContainsDeletionFinalizer x"
      by (simp_all add: being_deleted_def ContainsDeletionFinalizer_iff time_IsZero_def world_now_def)
    then have "user_move (phase_of base st (cs_world cs) ?k) (phase_of base st w' ?k)"
      using marked(1) by (simp add: marked(4) phase_of_def user_move_def)
    moreover have "ObjectKeyFromObject ?x = ?k"
      using stored_key_dc [OF user_deletes(2) marked(1)] by (simp add: ObjectKeyFromObject_def)
    ultimately show ?thesis using user_puts [OF user_deletes(2) _ marked(4)] by simp
  qed
next
  case (modules_change ms cs)
  show ?case
  proof (rule spec_drift)
    fix k show "drift (phase_of base st (cs_world cs) k)
        (phase_of base st (cs_world (cs\<lparr>cs_world := put_modules ms (cs_world cs)\<rparr>)) k)"
      by (auto simp: drift_def phase_of_def split: option.split)
  qed
next
  case (nodes_change ns cs)
  have "phase_of base st (put_nodes ns (cs_world cs)) = phase_of base st (cs_world cs)" by simp
  then show ?case by (intro spec_drift) (simp add: drift_def)
next
  case (time_passes cs t)
  have "phase_of base st ((cs_world cs)\<lparr>w_clock := t\<rparr>) = phase_of base st (cs_world cs)" by simp
  then show ?case by (intro spec_drift) (simp add: drift_def)
next
  case (operator_reconciles req cs res cs')
  then show ?case using reconcile_moves [OF operator_reconciles(2,1)] spec_operator by metis
qed

text \<open>
  C10. The operator refines its specification. Every step of the detailed cluster (users creating,
  editing and deleting resources through the API, other controllers changing Modules, nodes, time, and
  reconciliations of any request with any outcome) is a step of the abstract state machine on the phases
  of the resources, whichever state the cluster is in; and a reconciliation, for any request, moves the
  resource of the request as the specification allows the operator (so it takes a resource that is being
  deleted further, and never back), and no other.
\<close>

theorem lifecycle_refines:
  assumes "cluster_ok (cs_world cs)"
  shows "(\<forall>cs'. cluster_step base st cs cs' \<longrightarrow>
       spec_step (phase_of base st (cs_world cs)) (phase_of base st (cs_world cs'))) \<and>
    (\<exists>q. operator_move (phase_of base st (cs_world cs) req) q \<and>
       phase_of base st (cs_world (snd (Reconcile (operator_reconciler cluster (AddToScheme base) st) req cs))) =
         (phase_of base st (cs_world cs))(req := q))"
  using step_refines [OF _ assms] reconcile_moves [OF assms surjective_pairing] by blast

text \<open>
  Deletion is final. Once a resource is being deleted, then after any further steps, in whatever order,
  it is still being deleted or it has been gone at some point in between: nothing the users or the
  operator can do through the API makes the same resource alive again.
\<close>

theorem deletion_is_final:
  assumes "(cluster_step base st)\<^sup>*\<^sup>* cs cs'" "cluster_ok (cs_world cs)"
    and "phase_of base st (cs_world cs) k \<in> {Leaving, Released}"
  shows "phase_of base st (cs_world cs') k \<in> {Leaving, Released} \<or>
    (\<exists>mid. (cluster_step base st)\<^sup>*\<^sup>* cs mid \<and> (cluster_step base st)\<^sup>*\<^sup>* mid cs' \<and>
           fmlookup (w_deviceconfigs (cs_world mid)) k = None)"
proof -
  have absent: "phase_of base st w k = Absent \<longleftrightarrow> fmlookup (w_deviceconfigs w) k = None" for w
    by (auto simp: phase_of_def split: option.split)
  have "cluster_ok (cs_world cs') \<and> (phase_of base st (cs_world cs') k \<in> {Leaving, Released} \<or>
    (\<exists>mid. (cluster_step base st)\<^sup>*\<^sup>* cs mid \<and> (cluster_step base st)\<^sup>*\<^sup>* mid cs' \<and>
           fmlookup (w_deviceconfigs (cs_world mid)) k = None))"
    using assms
  proof (induction rule: rtranclp_induct)
    case (step y z)
    then have ok: "cluster_ok (cs_world y)" by blast
    show ?case
    proof (cases "phase_of base st (cs_world y) k \<in> {Leaving, Released}")
      case True
      with spec_step_deletion [OF step_refines [OF step.hyps(2) ok]] absent step.hyps step_well_formed [OF step.hyps(2) ok]
      show ?thesis by (metis insert_iff rtranclp.rtrancl_into_rtrancl rtranclp.rtrancl_refl singletonD)
    next
      case False
      with step show ?thesis using step_well_formed [OF step.hyps(2) ok] by (meson rtranclp.rtrancl_into_rtrancl)
    qed
  qed simp
  then show ?thesis by blast
qed

end
