(* ===== verification/Work_Queue.thy ===== *)
theory Work_Queue
  imports Operator_Prelude
begin

text \<open>
  The queue that feeds the controller with requests (vendored
  \<^verbatim>\<open>k8s.io/client-go/util/workqueue\<close>): the work queue proper, the delays before a retry, and the
  rate limiter that chooses them. A queue is a value; every method of the Go type is a function
  on it. What the waiting loop and its channel hold is one map from items to the time at which
  they are due.
\<close>

section \<open>The work queue\<close>

record 'a work_queue =
  wq_queue :: "'a list"
  wq_dirty :: "'a set"
  wq_processing :: "'a set"
  wq_shuttingDown :: bool
  wq_waiting :: "('a, nat) fmap"
  wq_failures :: "'a \<Rightarrow> nat"

definition newQueue :: "'a work_queue" where
  "newQueue = \<lparr>wq_queue = [], wq_dirty = {}, wq_processing = {}, wq_shuttingDown = False,
     wq_waiting = fmempty, wq_failures = (\<lambda>_. 0)\<rparr>"

definition wq_Add :: "'a \<Rightarrow> 'a work_queue \<Rightarrow> 'a work_queue" where
  "wq_Add item q =
     (if wq_shuttingDown q then q
      else if item \<in> wq_dirty q then q
      else
        (let q = q\<lparr>wq_dirty := insert item (wq_dirty q)\<rparr> in
         if item \<in> wq_processing q then q
         else q\<lparr>wq_queue := wq_queue q @ [item]\<rparr>))"

text \<open>\<open>wq_Get\<close> waits for an item while the queue is empty and not shut down.\<close>

datatype 'a got = Waits | ShutDownNow | Item 'a

definition wq_Get :: "'a work_queue \<Rightarrow> 'a got \<times> 'a work_queue" where
  "wq_Get q =
     (case wq_queue q of
        [] \<Rightarrow> (if wq_shuttingDown q then ShutDownNow else Waits, q)
      | item # rest \<Rightarrow>
          (Item item, q\<lparr>wq_queue := rest, wq_processing := insert item (wq_processing q),
                        wq_dirty := wq_dirty q - {item}\<rparr>))"

definition wq_Done :: "'a \<Rightarrow> 'a work_queue \<Rightarrow> 'a work_queue" where
  "wq_Done item q =
     (let q = q\<lparr>wq_processing := wq_processing q - {item}\<rparr> in
      if item \<in> wq_dirty q then q\<lparr>wq_queue := wq_queue q @ [item]\<rparr> else q)"

definition wq_ShutDown :: "'a work_queue \<Rightarrow> 'a work_queue" where
  "wq_ShutDown q = q\<lparr>wq_shuttingDown := True\<rparr>"

section \<open>Delays and retries\<close>

text \<open>An item that waits already becomes due at the earlier of the two times.\<close>

definition insert_waiting :: "'a \<Rightarrow> nat \<Rightarrow> ('a, nat) fmap \<Rightarrow> ('a, nat) fmap" where
  "insert_waiting item readyAt waiting =
     (case fmlookup waiting item of
        None \<Rightarrow> fmupd item readyAt waiting
      | Some existing \<Rightarrow> if readyAt < existing then fmupd item readyAt waiting else waiting)"

definition AddAfter :: "nat \<Rightarrow> 'a \<Rightarrow> nat \<Rightarrow> 'a work_queue \<Rightarrow> 'a work_queue" where
  "AddAfter now item duration q =
     (if wq_shuttingDown q then q
      else if duration = 0 then wq_Add item q
      else q\<lparr>wq_waiting := insert_waiting item (now + duration) (wq_waiting q)\<rparr>)"

text \<open>An item whose time has come: the waiting loop takes it out and adds it to the queue.\<close>

definition add_ready :: "'a \<Rightarrow> 'a work_queue \<Rightarrow> 'a work_queue" where
  "add_ready item q = wq_Add item (q\<lparr>wq_waiting := fmdrop item (wq_waiting q)\<rparr>)"

text \<open>
  The rate limiter of a controller: durations in nanoseconds. The exponential part computes in
  floating point and caps the result; five million times a power of two is exact there, so the
  result is that of natural numbers. The other part is a token bucket of another library, whose delay
  is an argument.
\<close>

definition baseDelay :: nat where "baseDelay = 5 * 1000000"
definition maxDelay :: nat where "maxDelay = 1000 * 1000000000"

definition exponential_When :: "'a \<Rightarrow> ('a \<Rightarrow> nat) \<Rightarrow> nat \<times> ('a \<Rightarrow> nat)" where
  "exponential_When item failures =
     (let exp = failures item;
          failures = failures(item := failures item + 1);
          backoff = baseDelay * 2 ^ exp
      in if backoff > 2 ^ 63 - 1 then (maxDelay, failures)
         else if backoff > maxDelay then (maxDelay, failures)
         else (backoff, failures))"

definition MaxOf_When :: "nat \<Rightarrow> 'a \<Rightarrow> ('a \<Rightarrow> nat) \<Rightarrow> nat \<times> ('a \<Rightarrow> nat)" where
  "MaxOf_When bucket item failures =
     (case exponential_When item failures of (delay, failures) \<Rightarrow>
        (let ret = 0; ret = (if delay > ret then delay else ret); ret = (if bucket > ret then bucket else ret)
         in (ret, failures)))"

definition AddRateLimited :: "nat \<Rightarrow> nat \<Rightarrow> 'a \<Rightarrow> 'a work_queue \<Rightarrow> 'a work_queue" where
  "AddRateLimited now bucket item q =
     (case MaxOf_When bucket item (wq_failures q) of (delay, failures) \<Rightarrow>
        AddAfter now item delay (q\<lparr>wq_failures := failures\<rparr>))"

definition Forget :: "'a \<Rightarrow> 'a work_queue \<Rightarrow> 'a work_queue" where
  "Forget item q = q\<lparr>wq_failures := (wq_failures q)(item := 0)\<rparr>"

section \<open>The invariant\<close>

text \<open>
  The comments on the Go fields: the queue is an order of the items that need work and are not being
  processed, without repetition.
\<close>

definition wq_ok :: "'a work_queue \<Rightarrow> bool" where
  "wq_ok q \<longleftrightarrow> distinct (wq_queue q) \<and> set (wq_queue q) = wq_dirty q - wq_processing q \<and>
     finite (wq_dirty q) \<and> finite (wq_processing q)"

lemma wq_ok_simps [simp]:
  "wq_ok (q\<lparr>wq_waiting := wt\<rparr>) = wq_ok q" "wq_ok (q\<lparr>wq_failures := fs\<rparr>) = wq_ok q"
  "wq_ok (q\<lparr>wq_shuttingDown := b\<rparr>) = wq_ok q" "wq_ok newQueue"
  by (simp_all add: wq_ok_def newQueue_def)

lemma wq_ok_Add [simp]: "wq_ok q \<Longrightarrow> wq_ok (wq_Add item q)"
  by (auto simp: wq_ok_def wq_Add_def Let_def)

lemma newQueue_simps [simp]:
  "wq_queue newQueue = []" "wq_dirty newQueue = {}" "wq_processing newQueue = {}" "\<not> wq_shuttingDown newQueue"
  "wq_waiting newQueue = fmempty" "wq_failures newQueue = (\<lambda>_. 0)"
  by (simp_all add: newQueue_def)

lemma wq_Add_simps [simp]:
  "\<not> wq_shuttingDown q \<Longrightarrow> wq_dirty (wq_Add item q) = insert item (wq_dirty q)"
  "wq_processing (wq_Add item q) = wq_processing q" "wq_shuttingDown (wq_Add item q) = wq_shuttingDown q"
  "wq_waiting (wq_Add item q) = wq_waiting q" "wq_failures (wq_Add item q) = wq_failures q"
  by (auto simp: wq_Add_def Let_def)

lemma wq_Done_simps [simp]:
  "wq_dirty (wq_Done item q) = wq_dirty q" "wq_processing (wq_Done item q) = wq_processing q - {item}"
  "wq_shuttingDown (wq_Done item q) = wq_shuttingDown q"
  "wq_waiting (wq_Done item q) = wq_waiting q" "wq_failures (wq_Done item q) = wq_failures q"
  by (simp_all add: wq_Done_def Let_def)

lemma wq_ok_Get: "wq_ok q \<Longrightarrow> wq_Get q = (g, q') \<Longrightarrow> wq_ok q'"
  by (auto simp: wq_ok_def wq_Get_def split: list.splits)

lemma wq_ok_Done [simp]: "wq_ok q \<Longrightarrow> item \<in> wq_processing q \<Longrightarrow> wq_ok (wq_Done item q)"
  by (auto simp: wq_ok_def wq_Done_def Let_def)

lemma wq_ok_retries [simp]:
  assumes "wq_ok q"
  shows "wq_ok (AddAfter now item d q)" "wq_ok (AddRateLimited now bucket item q)" "wq_ok (Forget item q)"
    "wq_ok (add_ready item q)" "wq_ok (wq_ShutDown q)"
  using assms
  by (simp_all add: AddAfter_def AddRateLimited_def Forget_def add_ready_def wq_ShutDown_def split: prod.split)

text \<open>The delay before a retry doubles from 5 ms with every failure, up to 1000 s.\<close>

lemma retry_delay:
  "MaxOf_When bucket item failures = (max bucket (min (baseDelay * 2 ^ failures item) maxDelay),
     failures(item := failures item + 1))"
  by (auto simp: MaxOf_When_def exponential_When_def Let_def max_def min_def maxDelay_def)

lemma retry_delay_positive: "0 < max bucket (min (baseDelay * 2 ^ n) maxDelay)"
  by (simp add: baseDelay_def maxDelay_def less_max_iff_disj)

lemma AddRateLimited_eq:
  "AddRateLimited now bucket item q =
     (if wq_shuttingDown q then q\<lparr>wq_failures := (wq_failures q)(item := wq_failures q item + 1)\<rparr>
      else q\<lparr>wq_failures := (wq_failures q)(item := wq_failures q item + 1),
             wq_waiting := insert_waiting item
               (now + max bucket (min (baseDelay * 2 ^ wq_failures q item) maxDelay)) (wq_waiting q)\<rparr>)"
  unfolding AddRateLimited_def retry_delay AddAfter_def
  using retry_delay_positive [of bucket "wq_failures q item"]
  by (simp del: max_less_iff_conj min_less_iff_conj less_max_iff_disj max_nat.eq_neutr_iff)

lemma insert_waiting_dom: "fmdom' (insert_waiting item t wt) = insert item (fmdom' wt)"
  by (auto simp: insert_waiting_def fmdom'_alt_def split: option.split)
     (metis fmdomI fmdom_notI option.distinct(1))+

end
