(* ===== verification/Event_Source.thy ===== *)
theory Event_Source
  imports Device_Config_Controller Work_Queue
begin

text \<open>
  From changes in the cluster to requests in the queue (vendored \<^verbatim>\<open>controller-runtime\<close>): the
  watches that the builder sets up for the reconciled kind and the kinds it owns, and the two
  event handlers. The handlers look at the metadata of an object only. The REST mapper, which knows from the
  server whether a kind has namespaces, is an argument: \<open>mapper group kind version\<close>
  is an error or whether the kind is of the cluster as a whole.
\<close>

section \<open>Events and handlers\<close>

datatype watch_event =
    CreateEvent (evt_Object: "object_meta option")
  | UpdateEvent (evt_ObjectOld: "object_meta option") (evt_ObjectNew: "object_meta option")
  | DeleteEvent "object_meta option"
  | GenericEvent "object_meta option"

definition request_of :: "object_meta \<Rightarrow> object_key" where
  "request_of m = (om_namespace m, om_name m)"

definition enqueue_self :: "object_meta option \<Rightarrow> object_key work_queue \<Rightarrow> object_key work_queue" where
  "enqueue_self obj q = (case obj of None \<Rightarrow> q | Some m \<Rightarrow> wq_Add (request_of m) q)"

definition EnqueueRequestForObject :: "watch_event \<Rightarrow> object_key work_queue \<Rightarrow> object_key work_queue" where
  "EnqueueRequestForObject evt q =
     (case evt of
        CreateEvent obj \<Rightarrow> enqueue_self obj q
      | UpdateEvent old new \<Rightarrow>
          (case new of
             Some m \<Rightarrow> wq_Add (request_of m) q
           | None \<Rightarrow> (case old of Some m \<Rightarrow> wq_Add (request_of m) q | None \<Rightarrow> q))
      | DeleteEvent obj \<Rightarrow> enqueue_self obj q
      | GenericEvent obj \<Rightarrow> enqueue_self obj q)"

record owner_handler =
  eo_IsController :: bool
  eo_group :: string
  eo_kind :: string

definition parseOwnerTypeGroupKind :: "scheme \<Rightarrow> string \<Rightarrow> go_error + string \<times> string" where
  "parseOwnerTypeGroupKind scheme ownerType =
     (case GVKForObject scheme ownerType of
        Inl err \<Rightarrow> Inl err
      | Inr gvk \<Rightarrow> Inr (gv_group gvk, gvk_kind gvk))"

definition getOwnersReferences :: "owner_handler \<Rightarrow> object_meta option \<Rightarrow> owner_reference list" where
  "getOwnersReferences e obj =
     (case obj of
        None \<Rightarrow> []
      | Some m \<Rightarrow>
          if \<not> eo_IsController e then om_ownerReferences m
          else (case GetControllerOf m of Some ownerRef \<Rightarrow> [ownerRef] | None \<Rightarrow> []))"

type_synonym rest_mapper = "string \<Rightarrow> string \<Rightarrow> string \<Rightarrow> go_error + bool"

text \<open>
  The loop over the references collects requests in a map used as a set; it ends at the first
  reference that cannot be parsed or mapped, with what it has. The set is a list without repetition
  here: Go visits it in any order.
\<close>

fun owner_requests ::
    "rest_mapper \<Rightarrow> owner_handler \<Rightarrow> string \<Rightarrow> owner_reference list \<Rightarrow> object_key list \<Rightarrow> object_key list" where
  "owner_requests mapper e ns [] result = result"
| "owner_requests mapper e ns (ref # refs) result =
     (case ParseGroupVersion (or_apiVersion ref) of
        Inl _ \<Rightarrow> result
      | Inr refGV \<Rightarrow>
          if or_kind ref = eo_kind e \<and> gv_group refGV = eo_group e then
            (case mapper (eo_group e) (eo_kind e) (gv_version refGV) of
               Inl _ \<Rightarrow> result
             | Inr root \<Rightarrow>
                 (let request = (if root then '''' else ns, or_name ref) in
                  owner_requests mapper e ns refs (if request \<in> set result then result else result @ [request])))
          else owner_requests mapper e ns refs result)"

definition getOwnerReconcileRequest ::
    "rest_mapper \<Rightarrow> owner_handler \<Rightarrow> object_meta option \<Rightarrow> object_key list \<Rightarrow> object_key list" where
  "getOwnerReconcileRequest mapper e obj result =
     owner_requests mapper e (case obj of None \<Rightarrow> '''' | Some m \<Rightarrow> om_namespace m) (getOwnersReferences e obj) result"

definition EnqueueRequestForOwner ::
    "rest_mapper \<Rightarrow> owner_handler \<Rightarrow> watch_event \<Rightarrow> object_key work_queue \<Rightarrow> object_key work_queue" where
  "EnqueueRequestForOwner mapper e evt q =
     (let reqs = (case evt of
          CreateEvent obj \<Rightarrow> getOwnerReconcileRequest mapper e obj []
        | UpdateEvent old new \<Rightarrow> getOwnerReconcileRequest mapper e new (getOwnerReconcileRequest mapper e old [])
        | DeleteEvent obj \<Rightarrow> getOwnerReconcileRequest mapper e obj []
        | GenericEvent obj \<Rightarrow> getOwnerReconcileRequest mapper e obj [])
      in fold wq_Add reqs q)"

section \<open>The watches of a controller\<close>

datatype event_handler = ForObject | ForOwner owner_handler

definition handle_event ::
    "rest_mapper \<Rightarrow> event_handler \<Rightarrow> watch_event \<Rightarrow> object_key work_queue \<Rightarrow> object_key work_queue" where
  "handle_event mapper h evt q =
     (case h of ForObject \<Rightarrow> EnqueueRequestForObject evt q | ForOwner e \<Rightarrow> EnqueueRequestForOwner mapper e evt q)"

text \<open>
  One watch for the reconciled kind, one for every owned kind; the owner's group and kind are looked up when
  the handler is handed to the controller. No predicates are used.
\<close>

fun owned_watches :: "scheme \<Rightarrow> string \<Rightarrow> string list \<Rightarrow> go_error + (string \<times> event_handler) list" where
  "owned_watches scheme for [] = Inr []"
| "owned_watches scheme for (own # owns) =
     (case parseOwnerTypeGroupKind scheme for of
        Inl err \<Rightarrow> Inl err
      | Inr (g, k) \<Rightarrow>
          (case owned_watches scheme for owns of
             Inl err \<Rightarrow> Inl err
           | Inr ws \<Rightarrow> Inr ((own, ForOwner \<lparr>eo_IsController = True, eo_group = g, eo_kind = k\<rparr>) # ws)))"

definition doWatch :: "scheme \<Rightarrow> controller_builder \<Rightarrow> go_error + (string \<times> event_handler) list" where
  "doWatch scheme cb =
     (case owned_watches scheme (cb_for cb) (cb_owns cb) of
        Inl err \<Rightarrow> Inl err
      | Inr ws \<Rightarrow> Inr ((cb_for cb, ForObject) # ws))"

text \<open>An event of a kind goes to every watch of that kind.\<close>

definition deliver ::
    "rest_mapper \<Rightarrow> (string \<times> event_handler) list \<Rightarrow> string \<times> watch_event \<Rightarrow> object_key work_queue
      \<Rightarrow> object_key work_queue" where
  "deliver mapper watches ke q =
     fold (\<lambda>(kind, h) q. if kind = fst ke then handle_event mapper h (snd ke) q else q) watches q"

section \<open>The watches of the operator\<close>

definition dc_owner :: owner_handler where
  "dc_owner = \<lparr>eo_IsController = True, eo_group = ''habana.ai'', eo_kind = ''DeviceConfig''\<rparr>"

lemma operator_watches:
  "doWatch (AddToScheme base) the_builder =
     Inr [(''DeviceConfig'', ForObject), (''Module'', ForOwner dc_owner), (''DaemonSet'', ForOwner dc_owner)]"
  by (simp add: doWatch_def the_builder_def parseOwnerTypeGroupKind_def dc_owner_def)

abbreviation watches :: "(string \<times> event_handler) list" where
  "watches \<equiv> [(''DeviceConfig'', ForObject), (''Module'', ForOwner dc_owner), (''DaemonSet'', ForOwner dc_owner)]"

text \<open>The mapper of a server on which \<open>DeviceConfig\<close>s have namespaces, as the operator's manifests define them.\<close>

definition maps_namespaced :: "rest_mapper \<Rightarrow> bool" where
  "maps_namespaced mapper \<longleftrightarrow> (\<forall>v. mapper ''habana.ai'' ''DeviceConfig'' v = Inr False)"

definition owner_request :: "object_meta option \<Rightarrow> object_key list" where
  "owner_request obj =
     (case obj of
        None \<Rightarrow> []
      | Some m \<Rightarrow>
          (case GetControllerOf m of
             None \<Rightarrow> []
           | Some ref \<Rightarrow>
               (case ParseGroupVersion (or_apiVersion ref) of
                  Inl _ \<Rightarrow> []
                | Inr gv \<Rightarrow> if or_kind ref = ''DeviceConfig'' \<and> gv_group gv = ''habana.ai''
                            then [(om_namespace m, or_name ref)] else [])))"

lemma owner_requests_eq:
  assumes "maps_namespaced mapper"
  shows "getOwnerReconcileRequest mapper dc_owner obj result =
    (if set (owner_request obj) \<subseteq> set result then result else result @ owner_request obj)"
  using assms
  by (auto simp: getOwnerReconcileRequest_def getOwnersReferences_def owner_request_def dc_owner_def
      maps_namespaced_def Let_def split: option.split sum.split)

text \<open>The requests that an event puts into the queue.\<close>

fun self_requests :: "watch_event \<Rightarrow> object_key list" where
  "self_requests (CreateEvent (Some m)) = [request_of m]"
| "self_requests (UpdateEvent _ (Some m)) = [request_of m]"
| "self_requests (UpdateEvent (Some m) None) = [request_of m]"
| "self_requests (DeleteEvent (Some m)) = [request_of m]"
| "self_requests (GenericEvent (Some m)) = [request_of m]"
| "self_requests _ = []"

fun owned_requests :: "watch_event \<Rightarrow> object_key list" where
  "owned_requests (CreateEvent obj) = owner_request obj"
| "owned_requests (UpdateEvent old new) =
     (if set (owner_request new) \<subseteq> set (owner_request old) then owner_request old
      else owner_request old @ owner_request new)"
| "owned_requests (DeleteEvent obj) = owner_request obj"
| "owned_requests (GenericEvent obj) = owner_request obj"

definition event_requests :: "string \<times> watch_event \<Rightarrow> object_key list" where
  "event_requests ke =
     (if fst ke = ''DeviceConfig'' then self_requests (snd ke)
      else if fst ke \<in> {''Module'', ''DaemonSet''} then owned_requests (snd ke) else [])"

lemma enqueue_self_eq: "EnqueueRequestForObject evt q = fold wq_Add (self_requests evt) q"
  by (cases evt rule: self_requests.cases) (simp_all add: EnqueueRequestForObject_def enqueue_self_def)

lemma enqueue_owner_eq:
  "maps_namespaced mapper \<Longrightarrow> EnqueueRequestForOwner mapper dc_owner evt q = fold wq_Add (owned_requests evt) q"
  by (cases evt) (auto simp: EnqueueRequestForOwner_def owner_requests_eq)

lemma deliver_eq:
  "maps_namespaced mapper \<Longrightarrow> deliver mapper watches ke q = fold wq_Add (event_requests ke) q"
  by (cases "fst ke = ''DeviceConfig''"; cases "fst ke = ''Module''"; cases "fst ke = ''DaemonSet''")
     (simp_all add: deliver_def handle_event_def event_requests_def enqueue_self_eq enqueue_owner_eq)

lemma fold_Add:
  assumes "\<not> wq_shuttingDown q"
  shows "wq_dirty (fold wq_Add reqs q) = wq_dirty q \<union> set reqs" "wq_processing (fold wq_Add reqs q) = wq_processing q"
    "wq_waiting (fold wq_Add reqs q) = wq_waiting q" "wq_failures (fold wq_Add reqs q) = wq_failures q"
    "\<not> wq_shuttingDown (fold wq_Add reqs q)" "wq_ok q \<Longrightarrow> wq_ok (fold wq_Add reqs q)"
  using assms
  by (induction reqs arbitrary: q) simp_all

lemma owner_request_controlled:
  assumes "GetControllerOf m = Some (controller_ref dc_gvk (metadata dc))"
  shows "owner_request (Some m) = [(om_namespace m, om_name (metadata dc))]"
proof -
  have "ParseGroupVersion (gv_string dc_gvk) = Inr \<lparr>gv_group = ''habana.ai'', gv_version = ''v1alpha1''\<rparr>"
    using ParseGroupVersion_gv_string [of dc_gvk] by (simp add: dc_gvk_def)
  with assms show ?thesis by (simp add: owner_request_def controller_ref_def, simp add: dc_gvk_def)
qed

lemma wq_Add_queue:
  "\<not> wq_shuttingDown q \<Longrightarrow> set (wq_queue (wq_Add r q)) = set (wq_queue q) \<union> ({r} - wq_dirty q - wq_processing q)"
  by (auto simp: wq_Add_def Let_def)

lemma fold_Add_queue:
  "\<not> wq_shuttingDown q \<Longrightarrow>
     set (wq_queue (fold wq_Add reqs q)) = set (wq_queue q) \<union> (set reqs - wq_dirty q - wq_processing q)"
proof (induction reqs arbitrary: q)
  case (Cons r reqs)
  have one: "\<not> wq_shuttingDown (wq_Add r q)" "wq_dirty (wq_Add r q) = insert r (wq_dirty q)"
    "wq_processing (wq_Add r q) = wq_processing q"
    using fold_Add [OF Cons.prems, of "[r]"] by simp_all
  show ?case using Cons.IH [OF one(1)] wq_Add_queue [OF Cons.prems, of r] one by (simp del: wq_Add_def) blast
qed simp

text \<open>
  Whom an event concerns: the \<open>DeviceConfig\<close> that it is about; and of a Module or DaemonSet the \<open>DeviceConfig\<close>s that control
  the object, in its old or in its new state.
\<close>

fun event_objects :: "watch_event \<Rightarrow> object_meta option set" where
  "event_objects (CreateEvent obj) = {obj}"
| "event_objects (UpdateEvent old new) = {old, new}"
| "event_objects (DeleteEvent obj) = {obj}"
| "event_objects (GenericEvent obj) = {obj}"

fun event_subject :: "watch_event \<Rightarrow> object_meta option" where
  "event_subject (CreateEvent obj) = obj"
| "event_subject (UpdateEvent old new) = (if new = None then old else new)"
| "event_subject (DeleteEvent obj) = obj"
| "event_subject (GenericEvent obj) = obj"

definition names_device_config :: "owner_reference \<Rightarrow> bool" where
  "names_device_config ref \<longleftrightarrow> or_kind ref = ''DeviceConfig'' \<and>
     (case ParseGroupVersion (or_apiVersion ref) of Inl _ \<Rightarrow> False | Inr gv \<Rightarrow> gv_group gv = ''habana.ai'')"

definition concerned :: "string \<Rightarrow> watch_event \<Rightarrow> object_key set" where
  "concerned kind evt =
     (if kind = ''DeviceConfig'' then {request_of m |m. event_subject evt = Some m}
      else if kind \<in> {''Module'', ''DaemonSet''} then
        {(om_namespace m, or_name ref) |m ref.
           Some m \<in> event_objects evt \<and> GetControllerOf m = Some ref \<and> names_device_config ref}
      else {})"

lemma set_owner_request:
  "set (owner_request obj) =
     {(om_namespace m, or_name ref) |m ref. obj = Some m \<and> GetControllerOf m = Some ref \<and> names_device_config ref}"
proof (cases obj)
  case (Some m)
  show ?thesis
  proof (cases "GetControllerOf m")
    case ref: (Some ref)
    with Some show ?thesis
      by (cases "ParseGroupVersion (or_apiVersion ref)") (auto simp: owner_request_def names_device_config_def)
  qed (simp add: Some owner_request_def)
qed (simp add: owner_request_def)

lemma names_device_config_ref: "names_device_config (controller_ref dc_gvk m)"
proof -
  have "ParseGroupVersion (gv_string dc_gvk) = Inr \<lparr>gv_group = ''habana.ai'', gv_version = ''v1alpha1''\<rparr>"
    using ParseGroupVersion_gv_string [of dc_gvk] by (simp add: dc_gvk_def)
  then show ?thesis by (simp add: names_device_config_def controller_ref_def, simp add: dc_gvk_def)
qed

lemma set_self_requests: "set (self_requests evt) = {request_of m |m. event_subject evt = Some m}"
  by (cases evt rule: self_requests.cases) auto

lemma set_owned_requests: "set (owned_requests evt) = (\<Union>obj\<in>event_objects evt. set (owner_request obj))"
  by (cases evt) auto

lemma set_event_requests: "set (event_requests (kind, evt)) = concerned kind evt"
  by (auto simp: event_requests_def concerned_def set_self_requests set_owned_requests set_owner_request)

text \<open>
  C21. What wakes the operator up. With the watches that \<^verbatim>\<open>SetupWithManager\<close> asks for, any event of a \<open>DeviceConfig\<close>
  makes that resource due; any event of a Module or DaemonSet makes due every \<open>DeviceConfig\<close> that is the controller of the object before or
  after the change, and nobody else; no event of a Service or a node, or of any other kind, does anything, so that a lost metrics
  Service or a changed node label is not noticed until something else happens. What is due and was not before waits in the queue, unless it is being processed
  right now; nothing else about the queue changes.
\<close>

theorem watched_changes:
  assumes "doWatch (AddToScheme base) the_builder = Inr ws" "maps_namespaced mapper" "\<not> wq_shuttingDown q"
    "deliver mapper ws (kind, evt) q = q'"
  shows "wq_dirty q' = wq_dirty q \<union> concerned kind evt \<and>
    set (wq_queue q') = set (wq_queue q) \<union> (concerned kind evt - wq_dirty q - wq_processing q) \<and>
    wq_processing q' = wq_processing q \<and> wq_waiting q' = wq_waiting q \<and> wq_failures q' = wq_failures q \<and>
    (kind \<notin> {''DeviceConfig'', ''Module'', ''DaemonSet''} \<longrightarrow> q' = q) \<and>
    (GetControllerOf m = Some (dc_ref dc) \<longrightarrow> Some m \<in> event_objects evt \<longrightarrow> kind \<in> {''Module'', ''DaemonSet''} \<longrightarrow>
       (om_namespace m, om_name (metadata dc)) \<in> wq_dirty q')"
proof -
  have ws: "ws = watches" using assms(1) by (simp add: operator_watches)
  have q': "q' = fold wq_Add (event_requests (kind, evt)) q"
    using assms(4) unfolding ws deliver_eq [OF assms(2)] by simp
  have own: "(om_namespace m, om_name (metadata dc)) \<in> concerned kind evt"
    if "GetControllerOf m = Some (dc_ref dc)" "Some m \<in> event_objects evt" "kind \<in> {''Module'', ''DaemonSet''}"
    using that names_device_config_ref [of "metadata dc"]
    by (auto simp: concerned_def dc_ref_def controller_ref_def intro!: exI [of _ m])
  have none: "q' = q" if "kind \<notin> {''DeviceConfig'', ''Module'', ''DaemonSet''}"
    using that by (simp add: q' event_requests_def)
  note added = fold_Add [OF assms(3), of "event_requests (kind, evt)"] fold_Add_queue [OF assms(3), of "event_requests (kind, evt)"]
  show ?thesis
    using none own added unfolding q' set_event_requests by blast
qed

end
