(* ===== verification/Control_Loop.thy ===== *)
theory Control_Loop
  imports Lifecycle_Refinement Event_Source
begin

text \<open>
  The loop around the reconciler (vendored \<^verbatim>\<open>controller-runtime/pkg/internal/controller\<close>): a worker
  takes a request from the queue, reconciles it, and puts it back for a retry where that failed.
  The loop runs against the in-memory cluster; what a reconciliation changes is announced to the
  watches, whose handlers fill the queue again. The theory proves that this settles.
\<close>

declare split_paired_All [simp del] split_paired_Ex [simp del]

section \<open>The worker\<close>

definition reconcileHandler ::
    "'s reconciler \<Rightarrow> nat \<Rightarrow> nat \<Rightarrow> object_key \<Rightarrow> 's controller_state \<times> object_key work_queue
      \<Rightarrow> 's controller_state \<times> object_key work_queue" where
  "reconcileHandler r now bucket req s =
     (case s of (cs, q) \<Rightarrow>
       (case Reconcile r req cs of
          ((result, err), cs) \<Rightarrow>
            (cs,
             case err of
               Some _ \<Rightarrow> AddRateLimited now bucket req q
             | None \<Rightarrow>
                 if RequeueAfter result > 0 then AddAfter now req (RequeueAfter result) (Forget req q)
                 else if Requeue result then AddRateLimited now bucket req q
                 else Forget req q)))"

text \<open>No value: the worker waits for an item. Otherwise whether the worker goes on.\<close>

definition processNextWorkItem ::
    "'s reconciler \<Rightarrow> nat \<Rightarrow> nat \<Rightarrow> 's controller_state \<times> object_key work_queue
      \<Rightarrow> (bool \<times> 's controller_state \<times> object_key work_queue) option" where
  "processNextWorkItem r now bucket s =
     (case s of (cs, q) \<Rightarrow>
       (case wq_Get q of
          (Waits, _) \<Rightarrow> None
        | (ShutDownNow, q) \<Rightarrow> Some (False, cs, q)
        | (Item req, q) \<Rightarrow>
            (case reconcileHandler r now bucket req (cs, q) of
               (cs, q) \<Rightarrow> Some (True, cs, wq_Done req q))))"

text \<open>The operator never asks to be called again: its result is empty in every branch.\<close>

lemma stage_failed_result: "fst (fst (stage_failed r dc reason err cs)) = empty_result"
  by (simp add: stage_failed_def Let_def split: prod.split)

lemma stages_result: "fst (fst (reconcile_stages r dc cs)) = empty_result"
proof -
  obtain a c1 where a: "outside (mr_ReconcileModule r dc) cs = (a, c1)" by fastforce
  obtain b c2 where b: "outside (nlr_ReconcileNodeLabeler r dc) c1 = (b, c2)" by fastforce
  obtain c c3 where c: "outside (nmr_ReconcileNodeMetrics r dc) c2 = (c, c3)" by fastforce
  show ?thesis
    by (cases a; cases b; cases c)
       (simp_all add: reconcile_stages_def a b c stage_failed_result Let_def split: prod.split)
qed

lemma deletion_result: "fst (fst (reconcile_deletion r dc cs)) = empty_result"
proof -
  obtain found c0 where c: "outside (fu_ContainsDeletionFinalizer r dc) (set_gauge (om_name (metadata dc)) 0 cs) = (found, c0)"
    by fastforce
  obtain a c1 where a: "deleteDeviceConfigResources r dc c0 = (a, c1)" by fastforce
  obtain b d c2 where b: "outside (fu_RemoveDeletionFinalizer r dc) c1 = ((b, d), c2)" by (metis surj_pair)
  show ?thesis by (cases a; cases b) (simp_all add: reconcile_deletion_def Let_def a b c)
qed

lemma Reconcile_result: "fst (fst (Reconcile r req cs)) = empty_result"
proof -
  obtain a c1 where a: "outside (rc_Get r req) cs = (a, c1)" by fastforce
  show ?thesis
  proof (cases a)
    case (Inl err)
    then show ?thesis by (simp add: Reconcile_def a)
  next
    case (Inr dc)
    obtain b c2 where b: "outside (nsv_Check r dc) c1 = (b, c2)" by fastforce
    obtain c d c3 where c: "outside (add_missing_finalizer r dc) c2 = ((c, d), c3)" by (metis surj_pair)
    show ?thesis
      by (cases b; cases c)
         (simp_all only: Reconcile_def a Inr b c prod.case sum.case option.case Let_def deletion_result
           stages_result fst_conv split: if_split, simp_all)
  qed
qed

lemma handler_eq:
  "reconcileHandler r now bucket req (cs, q) =
     (snd (Reconcile r req cs),
      if snd (fst (Reconcile r req cs)) = None then Forget req q else AddRateLimited now bucket req q)"
  using Reconcile_result [of r req cs]
  by (cases "Reconcile r req cs") (auto simp: reconcileHandler_def empty_result_def split: option.split)

section \<open>Announcements\<close>

text \<open>
  What the server announces when the world has changed. An update that changes nothing but the version is
  not announced: the API server does not store an update that changes nothing.
\<close>

definition change_of :: "('sp, 'st) k8s_object option \<Rightarrow> ('sp, 'st) k8s_object option \<Rightarrow> watch_event option" where
  "change_of old new =
     (case (old, new) of
        (None, None) \<Rightarrow> None
      | (None, Some y) \<Rightarrow> Some (CreateEvent (Some (metadata y)))
      | (Some x, None) \<Rightarrow> Some (DeleteEvent (Some (metadata x)))
      | (Some x, Some y) \<Rightarrow>
          if set_resourceVersion '''' x = set_resourceVersion '''' y then None
          else Some (UpdateEvent (Some (metadata x)) (Some (metadata y))))"

definition kind_changes :: "string \<Rightarrow> ('sp, 'st) tracker \<Rightarrow> ('sp, 'st) tracker \<Rightarrow> (string \<times> watch_event) set" where
  "kind_changes kind a b = {(kind, e) |k e. change_of (fmlookup a k) (fmlookup b k) = Some e}"

definition changes :: "world \<Rightarrow> world \<Rightarrow> (string \<times> watch_event) set" where
  "changes w w' =
     kind_changes ''DeviceConfig'' (w_deviceconfigs w) (w_deviceconfigs w') \<union>
     kind_changes ''Module'' (w_modules w) (w_modules w') \<union>
     kind_changes ''DaemonSet'' (w_daemonsets w) (w_daemonsets w') \<union>
     kind_changes ''Service'' (w_services w) (w_services w')"

section \<open>The loop\<close>

record runtime =
  rt_state :: "world controller_state"
  rt_queue :: "object_key work_queue"
  rt_events :: "(string \<times> watch_event) list"

definition at_time :: "time \<Rightarrow> world controller_state \<Rightarrow> world controller_state" where
  "at_time t cs = cs\<lparr>cs_world := (cs_world cs)\<lparr>w_clock := t\<rparr>\<rparr>"

text \<open>
  One step: an announced event reaches its handlers (in any order, as every kind has its own stream); a request
  that waits for its retry becomes due; the one worker, if it is idle, takes a request and
  reconciles it, at any time; the worker finishes, so that events can arrive while it is busy.
\<close>

inductive loop_step ::
    "rest_mapper \<Rightarrow> (string \<times> event_handler) list \<Rightarrow> scheme \<Rightarrow> controller_settings \<Rightarrow> runtime \<Rightarrow> runtime \<Rightarrow> bool"
  for mapper ws base st where
  event_arrives:
    "rt_events s = xs @ ke # ys \<Longrightarrow>
     loop_step mapper ws base st s (s\<lparr>rt_queue := deliver mapper ws ke (rt_queue s), rt_events := xs @ ys\<rparr>)"
| retry_due:
    "req \<in> fmdom' (wq_waiting (rt_queue s)) \<Longrightarrow>
     loop_step mapper ws base st s (s\<lparr>rt_queue := add_ready req (rt_queue s)\<rparr>)"
| worker_takes:
    "wq_processing (rt_queue s) = {} \<Longrightarrow> wq_Get (rt_queue s) = (Item req, q1) \<Longrightarrow>
     reconcileHandler (operator_reconciler cluster (AddToScheme base) st) now bucket req (at_time t (rt_state s), q1) = (cs', q2) \<Longrightarrow>
     set evs = changes (cs_world (rt_state s)) (cs_world cs') \<Longrightarrow>
     loop_step mapper ws base st s (s\<lparr>rt_state := cs', rt_queue := q2, rt_events := rt_events s @ evs\<rparr>)"
| worker_done:
    "req \<in> wq_processing (rt_queue s) \<Longrightarrow>
     loop_step mapper ws base st s (s\<lparr>rt_queue := wq_Done req (rt_queue s)\<rparr>)"

section \<open>When nothing is left to do\<close>

definition settled :: "phase \<Rightarrow> bool" where
  "settled p \<longleftrightarrow> p \<in> {Absent, Provisioned, Released}"

definition unsettled :: "scheme \<Rightarrow> controller_settings \<Rightarrow> world \<Rightarrow> object_key set" where
  "unsettled base st w = {k. \<not> settled (phase_of base st w k)}"

lemma finite_unsettled [simp]: "finite (unsettled base st w)"
proof (rule finite_subset)
  show "unsettled base st w \<subseteq> fset (fmdom (w_deviceconfigs w))"
    by (auto simp: unsettled_def settled_def phase_of_def fmlookup_dom_iff split: option.splits)
qed simp

text \<open>
  A cluster in which every resource can be reconciled: no two of them select a common node,
  and no other controller owns an object of one that is alive.
\<close>

definition workable :: "world \<Rightarrow> bool" where
  "workable w \<longleftrightarrow> cluster_ok w \<and>
     conflict_free (ran (fmlookup (w_deviceconfigs w))) (ran (fmlookup (w_nodes w))) \<and>
     (\<forall>k dc. fmlookup (w_deviceconfigs w) k = Some dc \<longrightarrow> \<not> being_deleted dc \<longrightarrow> all_adoptable dc w)"

lemma change_of_same [simp]: "change_of x x = None"
  by (simp add: change_of_def split: option.split)

lemma kind_changes_same [simp]: "kind_changes kind a a = {}"
  by (simp add: kind_changes_def)

lemma at_time_simps [simp]:
  "w_deviceconfigs (cs_world (at_time t cs)) = w_deviceconfigs (cs_world cs)"
  "w_modules (cs_world (at_time t cs)) = w_modules (cs_world cs)"
  "w_daemonsets (cs_world (at_time t cs)) = w_daemonsets (cs_world cs)"
  "w_services (cs_world (at_time t cs)) = w_services (cs_world cs)"
  "w_nodes (cs_world (at_time t cs)) = w_nodes (cs_world cs)"
  "cluster_ok (cs_world (at_time t cs)) = cluster_ok (cs_world cs)"
  "phase_of base st (cs_world (at_time t cs)) = phase_of base st (cs_world cs)"
  "workable (cs_world (at_time t cs)) = workable (cs_world cs)"
  "changes (cs_world (at_time t cs)) w' = changes (cs_world cs) w'"
  "unsettled base st (cs_world (at_time t cs)) = unsettled base st (cs_world cs)"
  by (simp_all add: at_time_def cluster_ok_def world_ok_def nodes_unscoped_def workable_def changes_def
      all_adoptable_def unsettled_def)

section \<open>One turn of the worker\<close>

lemma selects_spec: "spec dc' = spec dc \<Longrightarrow> selects dc' n = selects dc n"
  by (simp add: selects_def GetNodeSelector_def)

lemma conflict_free_confined:
  assumes ok: "cluster_ok w" "cluster_ok w'" and st: "fmlookup (w_deviceconfigs w) req = Some dc"
    and conf: "only_for dc w w'" and cf: "conflict_free (ran (fmlookup (w_deviceconfigs w))) ns"
    and own: "\<And>dc'. fmlookup (w_deviceconfigs w') req = Some dc' \<Longrightarrow> spec dc' = spec dc"
  shows "conflict_free (ran (fmlookup (w_deviceconfigs w'))) ns"
proof -
  have key: "ObjectKeyFromObject dc = req" by (rule stored_key_dc [OF ok(1) st])
  have old: "\<exists>a0. fmlookup (w_deviceconfigs w) k = Some a0 \<and> spec a = spec a0"
    if "fmlookup (w_deviceconfigs w') k = Some a" for k a
    using that own st conf key by (cases "k = req") (auto simp: only_for_def)
  show ?thesis
    unfolding conflict_free_def
  proof (intro ballI impI)
    fix a b n assume ab: "a \<in> ran (fmlookup (w_deviceconfigs w'))" "b \<in> ran (fmlookup (w_deviceconfigs w'))" "n \<in> ns"
      "selects a n \<and> selects b n"
    then obtain k l where kl: "fmlookup (w_deviceconfigs w') k = Some a" "fmlookup (w_deviceconfigs w') l = Some b"
      by (auto simp: ran_def)
    obtain a0 b0 where 0: "fmlookup (w_deviceconfigs w) k = Some a0" "spec a = spec a0"
      "fmlookup (w_deviceconfigs w) l = Some b0" "spec b = spec b0" using old kl by metis
    have "a0 = b0"
      using cf ab(3,4) 0 ranI [of "fmlookup (w_deviceconfigs w)", OF 0(1)] ranI [of "fmlookup (w_deviceconfigs w)", OF 0(3)] selects_spec [OF 0(2)] selects_spec [OF 0(4)]
      unfolding conflict_free_def by blast
    then have "k = l" using stored_key_dc [OF ok(1)] 0(1,3) by metis
    with kl show "a = b" by simp
  qed
qed

lemma workable_confined:
  assumes wk: "workable w" and ok: "cluster_ok w'" and st: "fmlookup (w_deviceconfigs w) req = Some dc"
    and conf: "only_for dc w w'"
    and own: "\<And>dc'. fmlookup (w_deviceconfigs w') req = Some dc' \<Longrightarrow>
                spec dc' = spec dc \<and> (\<not> being_deleted dc' \<longrightarrow> all_adoptable dc' w')"
  shows "workable w'"
proof -
  note ok0 = wk [unfolded workable_def, THEN conjunct1]
  have key: "ObjectKeyFromObject dc = req" by (rule stored_key_dc [OF ok0 st])
  have "w_nodes w' = w_nodes w" using conf by (simp add: only_for_def)
  then have "conflict_free (ran (fmlookup (w_deviceconfigs w'))) (ran (fmlookup (w_nodes w')))"
    using conflict_free_confined [OF ok0 ok st conf] own wk by (simp add: workable_def)
  moreover have "all_adoptable dc2 w'"
    if 2: "fmlookup (w_deviceconfigs w') k = Some dc2" "\<not> being_deleted dc2" for k dc2
  proof (cases "k = req")
    case True
    with 2 own show ?thesis by blast
  next
    case False
    have "ObjectKeyFromObject dc2 = k" by (rule stored_key_dc [OF ok 2(1)])
    with False key have ne: "ObjectKeyFromObject dc2 \<noteq> ObjectKeyFromObject dc" by simp
    have "fmlookup (w_deviceconfigs w) k = Some dc2"
      using 2(1) False conf key by (simp add: only_for_def)
    then have "all_adoptable dc2 w" using wk 2(2) by (simp add: workable_def)
    then show ?thesis using provisioned_elsewhere(2) [OF conf ne] by simp
  qed
  ultimately show ?thesis using ok by (simp add: workable_def)
qed

text \<open>A provisioned resource whose status says so is written back as it was, but for the version.\<close>

lemma reconcile_again:
  assumes ok: "cluster_ok (cs_world cs)" and st: "fmlookup (w_deviceconfigs (cs_world cs)) req = Some dc"
    and al: "\<not> being_deleted dc"
    and cf: "conflict_free (ran (fmlookup (w_deviceconfigs (cs_world cs)))) (ran (fmlookup (w_nodes (cs_world cs))))"
    and pv: "provisioned base st' dc (cs_world cs)" and fin: "ContainsDeletionFinalizer dc"
    and rd: "reported_ready ''Reconciled'' all_reconciled (conditions (status dc))"
  shows "\<exists>v. cs_world (snd (Reconcile (operator_reconciler cluster (AddToScheme base) st') req cs)) =
     put_deviceconfigs (fmupd req (set_resourceVersion v dc) (w_deviceconfigs (cs_world cs))) (cs_world cs)"
proof -
  let ?w = "cs_world cs" and ?r = "operator_reconciler cluster (AddToScheme base) st'"
  obtain dc' where rdy: "SetConditionsReady cluster dc ''Reconciled'' all_reconciled ?w =
      ((None, dc'), put_deviceconfigs (fmupd req dc' (w_deviceconfigs ?w)) ?w)" "same_request dc dc'"
    "\<exists>t1 t2. conditions (status dc') = ready_conditions t1 t2 ''Reconciled'' all_reconciled (conditions (status dc))"
    "metadata dc' = (metadata dc)\<lparr>om_resourceVersion := om_resourceVersion (metadata dc')\<rparr>"
    using report_ready [OF ok st al, of "''Reconciled''" all_reconciled] by metis
  have "status dc' = status dc" using rdy(3) ready_conditions_stable [OF rd] by auto
  then have "dc' = set_resourceVersion (om_resourceVersion (metadata dc')) dc"
    using rdy(2,4) by (cases dc; cases dc') (simp add: set_resourceVersion_def same_request_def)
  moreover have "Reconcile ?r req cs = reconcile_stages ?r dc (cs\<lparr>cs_world := ?w\<rparr>)"
    using Reconcile_stages [of ?r req cs dc ?w ?w dc ?w] get_stored_dc [OF ok st] no_conflict [OF ok cf] al fin
    unfolding operator_reconciler_simps by simp
  then have "cs_world (snd (Reconcile ?r req cs)) = put_deviceconfigs (fmupd req dc' (w_deviceconfigs ?w)) ?w"
    using reconcile_stages_done [of ?r dc cs ?w ?w ?w None dc'
        "put_deviceconfigs (fmupd req dc' (w_deviceconfigs ?w)) ?w"] stages_stable [OF ok pv] rdy(1)
    by (simp add: all_reconciled_def)
  ultimately show ?thesis by metis
qed

lemma version_change_silent:
  assumes "fmlookup (w_deviceconfigs w) req = Some dc"
  shows "changes w (put_deviceconfigs (fmupd req (set_resourceVersion v dc) (w_deviceconfigs w)) w) = {}"
proof -
  have "change_of (fmlookup (w_deviceconfigs w) k)
      (fmlookup (fmupd req (set_resourceVersion v dc) (w_deviceconfigs w)) k) = None" for k
    using assms by (cases "k = req") (simp_all add: change_of_def [of "Some dc"])
  then show ?thesis by (simp add: changes_def kind_changes_def)
qed

lemma spec_unfinalized [simp]: "spec (unfinalized dc) = spec dc"
  by (simp add: unfinalized_def)

lemma turn:
  assumes wk: "workable (cs_world cs)"
    and rec: "Reconcile (operator_reconciler cluster (AddToScheme base) st) req cs = ((res, err), cs')"
  shows "err = None" "workable (cs_world cs')"
    "unsettled base st (cs_world cs') = unsettled base st (cs_world cs) - {req}"
    "settled (phase_of base st (cs_world cs) req) \<Longrightarrow> changes (cs_world cs) (cs_world cs') = {}"
proof -
  let ?w = "cs_world cs"
  have ok: "cluster_ok ?w" and cf: "conflict_free (ran (fmlookup (w_deviceconfigs ?w))) (ran (fmlookup (w_nodes ?w)))"
    using wk by (simp_all add: workable_def)
  have *: "err = None \<and> workable (cs_world cs') \<and> settled (phase_of base st (cs_world cs') req) \<and>
    (settled (phase_of base st ?w req) \<longrightarrow> changes ?w (cs_world cs') = {})"
    using ok
  proof (cases rule: reconcile_total [where req = req and base = base and st = st])
    case absent
    with rec have "cs_world cs' = ?w" "err = None" by auto
    with absent wk show ?thesis by (simp add: settled_def phase_of_def changes_def)
  next
    case (released dc)
    with rec have "cs_world cs' = ?w" "err = None" by auto
    with released wk show ?thesis by (simp add: settled_def phase_of_def changes_def)
  next
    case (leaving dc w')
    with rec have w': "cs_world cs' = w'" "err = None" by auto
    have "workable w'"
      using leaving(2,7) by (intro workable_confined [OF wk leaving(5,1,6)]) auto
    moreover have "settled (phase_of base st w' req)" using leaving(2,7) by (auto simp: settled_def phase_of_def)
    moreover have "\<not> settled (phase_of base st ?w req)" using leaving(1-3) by (simp add: settled_def phase_of_def)
    ultimately show ?thesis using w' by simp
  next
    case (conflict dc)
    then show ?thesis using cf by blast
  next
    case (failed dc dc' reason err' w')
    then show ?thesis using wk all_adoptable_obstacle [of "cs_world cs" dc] by (simp add: workable_def)
  next
    case (provisioned dc dc' w')
    with rec have w': "cs_world cs' = w'" "err = None" by auto
    have "workable w'"
      using provisioned(7,8,12) provisioned_adoptable provisioned_cong [OF provisioned(8)]
      by (intro workable_confined [OF wk provisioned(5,1,6)]) (auto simp: same_request_def)
    moreover have "settled (phase_of base st w' req)"
      using phase_provisioned [OF provisioned(7,8,10,9,11,12)] by (simp add: settled_def)
    moreover have "changes ?w w' = {}" if "settled (phase_of base st ?w req)"
    proof -
      have "provisioned base st dc ?w" "ContainsDeletionFinalizer dc"
        "reported_ready ''Reconciled'' all_reconciled (conditions (status dc))"
        using that provisioned(1,2) by (auto simp: settled_def phase_of_def split: if_splits)
      from reconcile_again [OF ok provisioned(1-3) this] rec
      show ?thesis using version_change_silent [OF provisioned(1)] by (auto simp: w'(1) [symmetric])
    qed
    ultimately show ?thesis using w' by simp
  qed
  then show "err = None" "workable (cs_world cs')"
    "settled (phase_of base st ?w req) \<Longrightarrow> changes ?w (cs_world cs') = {}" by simp_all
  obtain q where "phase_of base st (cs_world cs') = (phase_of base st ?w)(req := q)"
    using reconcile_moves [OF ok rec] by blast
  with * show "unsettled base st (cs_world cs') = unsettled base st ?w - {req}"
    by (auto simp: unsettled_def)
qed

section \<open>The loop settles\<close>

text \<open>
  What every state of a run has: the queue is in order and open, the cluster workable, and every
  resource that is not settled is queued, waits for its retry, or is in an announced event.
\<close>

definition loop_ok :: "scheme \<Rightarrow> controller_settings \<Rightarrow> runtime \<Rightarrow> bool" where
  "loop_ok base st s \<longleftrightarrow>
     workable (cs_world (rt_state s)) \<and> wq_ok (rt_queue s) \<and> \<not> wq_shuttingDown (rt_queue s) \<and>
     unsettled base st (cs_world (rt_state s)) \<subseteq>
       wq_dirty (rt_queue s) \<union> fmdom' (wq_waiting (rt_queue s)) \<union> (\<Union>ke \<in> set (rt_events s). set (event_requests ke))"

text \<open>
  The measure: first the number of unsettled resources, then what is on the way to the worker, weighed so
  that every hop towards it decreases the sum.
\<close>

definition loop_work :: "runtime \<Rightarrow> nat" where
  "loop_work s = 5 * length (rt_events s) + 3 * card (fmdom' (wq_waiting (rt_queue s))) +
     2 * card (wq_dirty (rt_queue s)) + card (wq_processing (rt_queue s))"

definition loop_measure :: "scheme \<Rightarrow> controller_settings \<Rightarrow> (runtime \<times> runtime) set" where
  "loop_measure base st = measures [\<lambda>s. card (unsettled base st (cs_world (rt_state s))), loop_work]"

lemma wf_loop_measure [simp]: "wf (loop_measure base st)"
  by (simp add: loop_measure_def)

lemma loop_measureI:
  "card (unsettled base st (cs_world (rt_state s'))) < card (unsettled base st (cs_world (rt_state s))) \<Longrightarrow>
     (s', s) \<in> loop_measure base st"
  "unsettled base st (cs_world (rt_state s')) = unsettled base st (cs_world (rt_state s)) \<Longrightarrow> loop_work s' < loop_work s \<Longrightarrow>
     (s', s) \<in> loop_measure base st"
  by (simp_all add: loop_measure_def)

lemma owner_request_length: "length (owner_request obj) \<le> 1"
  by (simp add: owner_request_def split: option.split sum.split)

lemma event_requests_length: "length (event_requests ke) \<le> 2"
proof -
  have "length (self_requests e) \<le> 1" for e by (cases e rule: self_requests.cases) simp_all
  moreover have "length (owned_requests e) \<le> 2" for e
  proof (cases e)
    case (UpdateEvent old new)
    then show ?thesis using add_mono [OF owner_request_length [of old] owner_request_length [of new]] by simp
  qed (auto intro: order.trans [OF owner_request_length])
  ultimately show ?thesis by (auto simp: event_requests_def intro: order.trans [of _ 1])
qed

lemma card_insert_set: "finite A \<Longrightarrow> card (A \<union> set xs) \<le> card A + length xs"
  by (meson add_left_mono card_Un_le card_length order.trans)

lemma wq_okD:
  assumes "wq_ok q"
  shows "finite (wq_dirty q)" "finite (wq_processing q)" "finite (fmdom' (wq_waiting q))"
  using assms by (simp_all add: wq_ok_def)

lemma at_time_world: "cs_world (at_time t cs) = (cs_world cs)\<lparr>w_clock := t\<rparr>"
  by (simp add: at_time_def)

lemma loop_step_ok:
  assumes "loop_step mapper watches base st s s'" "loop_ok base st s" "maps_namespaced mapper"
  shows "loop_ok base st s' \<and> (s', s) \<in> loop_measure base st"
  using assms(1,2)
proof (induction rule: loop_step.induct)
  case (event_arrives s xs ke ys)
  let ?q = "rt_queue s"
  have ok: "wq_ok ?q" "\<not> wq_shuttingDown ?q" using event_arrives(2) by (simp_all add: loop_ok_def)
  note add = fold_Add [OF ok(2), of "event_requests ke"]
  have "card (wq_dirty ?q \<union> set (event_requests ke)) \<le> card (wq_dirty ?q) + 2"
    using card_insert_set [OF wq_okD(1) [OF ok(1)]] event_requests_length [of ke] by (meson add_left_mono order.trans)
  then have "loop_work (s\<lparr>rt_queue := deliver mapper watches ke ?q, rt_events := xs @ ys\<rparr>) < loop_work s"
    by (simp add: loop_work_def event_arrives(1) deliver_eq [OF assms(3)] add)
  then show ?case
    using event_arrives add ok
    by (auto simp: loop_ok_def deliver_eq [OF assms(3)] intro!: loop_measureI(2))
next
  case (retry_due req s)
  let ?q = "rt_queue s"
  have ok: "wq_ok ?q" "\<not> wq_shuttingDown ?q" using retry_due(2) by (simp_all add: loop_ok_def)
  have dom: "fmdom' (fmdrop req (wq_waiting ?q)) = fmdom' (wq_waiting ?q) - {req}" by simp
  have "card (insert req (wq_dirty ?q)) \<le> card (wq_dirty ?q) + 1"
    using wq_okD(1) [OF ok(1)] by (simp add: card_insert_if)
  moreover have "card (fmdom' (wq_waiting ?q) - {req}) < card (fmdom' (wq_waiting ?q))"
    using retry_due(1) wq_okD(3) [OF ok(1)] by (intro card_Diff1_less)
  ultimately have "loop_work (s\<lparr>rt_queue := add_ready req ?q\<rparr>) < loop_work s"
    using ok(2) by (simp add: loop_work_def add_ready_def)
  then show ?case
    using retry_due(2) ok by (auto simp: loop_ok_def add_ready_def intro!: loop_measureI(2))
next
  case (worker_takes s req q1 now bucket t cs' q2 evs)
  let ?q = "rt_queue s" and ?w = "cs_world (rt_state s)"
  have wk: "workable ?w" and ok: "wq_ok ?q" "\<not> wq_shuttingDown ?q"
    using worker_takes(5) by (simp_all add: loop_ok_def)
  obtain res err where rec: "Reconcile (operator_reconciler cluster (AddToScheme base) st) req (at_time t (rt_state s)) =
      ((res, err), cs')"
    using worker_takes(3) by (cases "Reconcile (operator_reconciler cluster (AddToScheme base) st) req (at_time t (rt_state s))")
      (auto simp: handler_eq)
  have "workable (cs_world (at_time t (rt_state s)))" using wk by simp
  note turn = turn [OF this rec, simplified]
  obtain rest where rest: "wq_queue ?q = req # rest" using worker_takes(2) by (auto simp: wq_Get_def split: list.splits if_splits)
  have q1: "q1 = ?q\<lparr>wq_queue := rest, wq_processing := insert req (wq_processing ?q), wq_dirty := wq_dirty ?q - {req}\<rparr>"
    using worker_takes(2) rest by (simp add: wq_Get_def)
  have q2: "q2 = Forget req q1" using worker_takes(3) rec turn(1) by (simp add: handler_eq)
  have ok2: "wq_ok q2" using wq_ok_Get [OF ok(1) worker_takes(2)] by (simp add: q2)
  have q2s: "wq_dirty q2 = wq_dirty ?q - {req}" "wq_waiting q2 = wq_waiting ?q" "wq_processing q2 = {req}"
    "\<not> wq_shuttingDown q2"
    using worker_takes(1) ok(2) by (simp_all add: q2 q1 Forget_def)
  let ?s = "s\<lparr>rt_state := cs', rt_queue := q2, rt_events := rt_events s @ evs\<rparr>"
  have "loop_ok base st ?s"
    using worker_takes(5) turn(2,3) ok2 q2s by (auto simp: loop_ok_def)
  moreover have "(?s, s) \<in> loop_measure base st"
  proof (cases "req \<in> unsettled base st ?w")
    case True
    then have "card (unsettled base st ?w - {req}) < card (unsettled base st ?w)" by (intro card_Diff1_less) simp_all
    then show ?thesis using turn(3) by (intro loop_measureI(1)) simp
  next
    case False
    then have "evs = []" using turn(4) worker_takes(4) by (auto simp: unsettled_def)
    moreover have "req \<in> wq_dirty ?q" using ok(1) rest by (auto simp: wq_ok_def)
    then have "card (wq_dirty ?q - {req}) < card (wq_dirty ?q)" using wq_okD(1) [OF ok(1)] by (intro card_Diff1_less)
    ultimately have "loop_work ?s < loop_work s" using worker_takes(1) q2s by (simp add: loop_work_def)
    then show ?thesis using False turn(3) by (intro loop_measureI(2)) simp_all
  qed
  ultimately show ?case ..
next
  case (worker_done req s)
  let ?q = "rt_queue s"
  have ok: "wq_ok ?q" using worker_done(2) by (simp add: loop_ok_def)
  have "card (wq_processing ?q - {req}) < card (wq_processing ?q)"
    using worker_done(1) wq_okD(2) [OF ok] by (intro card_Diff1_less)
  then have "loop_work (s\<lparr>rt_queue := wq_Done req ?q\<rparr>) < loop_work s"
    by (simp add: loop_work_def)
  then show ?case
    using worker_done by (auto simp: loop_ok_def intro!: loop_measureI(2))
qed

lemma finite_kind_changes [simp]: "finite (kind_changes kind a b)"
proof (rule finite_subset)
  show "kind_changes kind a b \<subseteq>
      (\<lambda>k. (kind, the (change_of (fmlookup a k) (fmlookup b k)))) ` fset (fmdom a |\<union>| fmdom b)"
  proof
    fix x assume "x \<in> kind_changes kind a b"
    then obtain k e where x: "x = (kind, e)" "change_of (fmlookup a k) (fmlookup b k) = Some e"
      by (auto simp: kind_changes_def)
    then have "k \<in> fset (fmdom a |\<union>| fmdom b)"
      by (cases "fmlookup a k"; cases "fmlookup b k") (auto simp: change_of_def fmlookup_dom_iff)
    with x show "x \<in> (\<lambda>k. (kind, the (change_of (fmlookup a k) (fmlookup b k)))) ` fset (fmdom a |\<union>| fmdom b)"
      by (intro image_eqI [of _ _ k]) simp_all
  qed
qed simp

lemma finite_changes [simp]: "finite (changes w w')"
  by (simp add: changes_def)

lemma worker_can_take:
  assumes "wq_processing (rt_queue s) = {}" "wq_queue (rt_queue s) \<noteq> []"
  shows "\<exists>s'. loop_step mapper ws base st s s'"
proof -
  obtain req q1 where get: "wq_Get (rt_queue s) = (Item req, q1)"
    using assms(2) by (cases "wq_queue (rt_queue s)") (auto simp: wq_Get_def)
  obtain cs' q2 where rec: "reconcileHandler (operator_reconciler cluster (AddToScheme base) st) 0 0 req
      (at_time 0 (rt_state s), q1) = (cs', q2)" by fastforce
  obtain evs where "set evs = changes (cs_world (rt_state s)) (cs_world cs')"
    using finite_list [OF finite_changes] by blast
  from worker_takes [OF assms(1) get rec this] show ?thesis by blast
qed

text \<open>A state in which nothing can happen any more has no work left.\<close>

lemma quiet_state:
  assumes ok: "loop_ok base st s" and quiet: "\<not> (\<exists>s'. loop_step mapper ws base st s s')"
  shows "wq_dirty (rt_queue s) = {}" "wq_processing (rt_queue s) = {}" "rt_events s = []"
    "unsettled base st (cs_world (rt_state s)) = {}"
proof -
  have ev: "rt_events s = []"
  proof (rule ccontr)
    assume "rt_events s \<noteq> []"
    then obtain ke ys where "rt_events s = [] @ ke # ys" by (cases "rt_events s") auto
    from event_arrives [OF this] quiet show False by blast
  qed
  have wt: "fmdom' (wq_waiting (rt_queue s)) = {}" using retry_due quiet by blast
  have pr: "wq_processing (rt_queue s) = {}" using worker_done quiet by blast
  then have "wq_queue (rt_queue s) = []" using worker_can_take quiet by blast
  then have "wq_dirty (rt_queue s) = {}" using ok pr by (simp add: loop_ok_def wq_ok_def)
  with ok ev wt pr show "wq_dirty (rt_queue s) = {}" "wq_processing (rt_queue s) = {}" "rt_events s = []"
    "unsettled base st (cs_world (rt_state s)) = {}"
    by (simp_all add: loop_ok_def)
qed

lemma loop_steps_ok:
  assumes "(loop_step mapper watches base st)\<^sup>*\<^sup>* s s'" "loop_ok base st s" "maps_namespaced mapper"
  shows "loop_ok base st s'"
  using assms(1,2) by (induction rule: rtranclp_induct) (auto dest: loop_step_ok [OF _ _ assms(3)])

lemma no_infinite_run:
  assumes "loop_ok base st (run 0)" "maps_namespaced mapper"
    and "\<And>i. loop_step mapper watches base st (run i) (run (Suc i))"
  shows False
proof -
  have ok: "loop_ok base st (run i)" for i
    by (induction i) (use assms(1) loop_step_ok [OF assms(3) _ assms(2)] in auto)
  have "(run (Suc i), run i) \<in> loop_measure base st" for i
    using loop_step_ok [OF assms(3) ok assms(2)] by blast
  with wf_loop_measure [of base st] show False unfolding wf_iff_no_infinite_down_chain by blast
qed

text \<open>
  C4. On a workable cluster that nobody else touches, the control loop terminates, and when it rests everything is done. Started with an empty queue while every
  stored \<open>DeviceConfig\<close> is announced (as at the start of the program), on a cluster in which no two resources
  select a common node and no other controller owns an object of a resource that is alive: there is no
  infinite run, although every reconciliation writes to the cluster and is announced back to the
  loop; and in every state a run can end in, each resource that is alive has the finalizer, all four
  objects in the desired state and the conditions of success, each that is being deleted has lost the
  operator's finalizer, and nothing is queued, announced or being processed.
\<close>

theorem control_loop_converges:
  assumes "workable (cs_world cs)" "maps_namespaced mapper" "doWatch (AddToScheme base) the_builder = Inr ws"
    and "\<And>dc. dc \<in> ran (fmlookup (w_deviceconfigs (cs_world cs))) \<Longrightarrow>
           (''DeviceConfig'', CreateEvent (Some (metadata dc))) \<in> set evs"
    and "s = \<lparr>rt_state = cs, rt_queue = newQueue, rt_events = evs\<rparr>"
  shows "\<not> (\<exists>run. run 0 = s \<and> (\<forall>i. loop_step mapper ws base st (run i) (run (Suc i)))) \<and>
    (\<forall>s'. (loop_step mapper ws base st)\<^sup>*\<^sup>* s s' \<longrightarrow> \<not> (\<exists>s''. loop_step mapper ws base st s' s'') \<longrightarrow>
       wq_dirty (rt_queue s') = {} \<and> wq_processing (rt_queue s') = {} \<and> rt_events s' = [] \<and>
       (\<forall>k dc. fmlookup (w_deviceconfigs (cs_world (rt_state s'))) k = Some dc \<longrightarrow>
          (if being_deleted dc then \<not> ContainsDeletionFinalizer dc
           else ContainsDeletionFinalizer dc \<and> provisioned base st dc (cs_world (rt_state s')) \<and>
                reported_ready ''Reconciled'' all_reconciled (conditions (status dc)))))"
proof -
  have ws: "ws = watches" using assms(3) by (simp add: operator_watches)
  have ok: "cluster_ok (cs_world cs)" using assms(1) by (simp add: workable_def)
  have "k \<in> (\<Union>ke \<in> set evs. set (event_requests ke))" if k: "k \<in> unsettled base st (cs_world cs)" for k
  proof -
    obtain dc where dc: "fmlookup (w_deviceconfigs (cs_world cs)) k = Some dc"
      using k by (cases "fmlookup (w_deviceconfigs (cs_world cs)) k") (auto simp: unsettled_def settled_def phase_of_def)
    have "k \<in> set (event_requests (''DeviceConfig'', CreateEvent (Some (metadata dc))))"
      using stored_key_dc [OF ok dc] by (simp add: event_requests_def request_of_def ObjectKeyFromObject_def)
    with assms(4) [OF ranI [of "fmlookup (w_deviceconfigs (cs_world cs))", OF dc]] show ?thesis by blast
  qed
  then have start: "loop_ok base st s"
    using assms(1) by (auto simp: assms(5) loop_ok_def)
  show ?thesis
  proof (intro conjI allI impI)
    show "\<not> (\<exists>run. run 0 = s \<and> (\<forall>i. loop_step mapper ws base st (run i) (run (Suc i))))"
      using no_infinite_run [OF _ assms(2)] start unfolding ws by blast
  next
    fix s' assume "(loop_step mapper ws base st)\<^sup>*\<^sup>* s s'" and quiet: "\<not> (\<exists>s''. loop_step mapper ws base st s' s'')"
    then have "loop_ok base st s'" using loop_steps_ok [OF _ start assms(2)] unfolding ws by blast
    note rest = quiet_state [OF this quiet]
    then show "wq_dirty (rt_queue s') = {}" "wq_processing (rt_queue s') = {}" "rt_events s' = []" by blast+
    fix k dc assume dc: "fmlookup (w_deviceconfigs (cs_world (rt_state s'))) k = Some dc"
    have "settled (phase_of base st (cs_world (rt_state s')) k)" using rest(4) by (auto simp: unsettled_def)
    with dc show "if being_deleted dc then \<not> ContainsDeletionFinalizer dc
       else ContainsDeletionFinalizer dc \<and> provisioned base st dc (cs_world (rt_state s')) \<and>
            reported_ready ''Reconciled'' all_reconciled (conditions (status dc))"
      by (auto simp: settled_def phase_of_def split: if_splits)
  qed
qed

section \<open>Retries\<close>

text \<open>
  C20. A failed reconciliation is retried, a refused one is not. When the worker takes a request whose reconciliation
  returns an error, the request waits to be queued again, after a delay that doubles with every failure from
  five milliseconds up to a thousand seconds (or longer if the overall rate demands it), unless it waits for an earlier
  retry already; where no error is returned its failures are forgotten and it is not queued again by the loop. The
  reconciler never asks to be called again by itself.
\<close>

theorem failed_request_waits:
  assumes "wq_ok q" "\<not> wq_shuttingDown q" "wq_queue q = req # rest" "wq_processing q = {}"
    and "Reconcile r req cs = ((res, err), cs')"
  shows "res = empty_result \<and>
    (\<exists>q'. processNextWorkItem r now bucket (cs, q) = Some (True, cs', q') \<and> wq_ok q' \<and>
       wq_queue q' = rest \<and> wq_processing q' = {} \<and>
       (case err of
          None \<Rightarrow> wq_failures q' req = 0 \<and> wq_waiting q' = wq_waiting q
        | Some e \<Rightarrow> wq_failures q' req = wq_failures q req + 1 \<and>
            (\<exists>due. fmlookup (wq_waiting q') req = Some due \<and>
               due \<le> now + max bucket (min (5000000 * 2 ^ wq_failures q req) 1000000000000) \<and>
               (fmlookup (wq_waiting q) req = None \<longrightarrow>
                due = now + max bucket (min (5000000 * 2 ^ wq_failures q req) 1000000000000)))))"
proof -
  have req: "req \<notin> set rest" "req \<in> wq_dirty q" "wq_dirty q = insert req (set rest)"
    using assms(1,3,4) by (auto simp: wq_ok_def)
  define q1 where "q1 = q\<lparr>wq_queue := rest, wq_processing := {req}, wq_dirty := wq_dirty q - {req}\<rparr>"
  have get: "wq_Get q = (Item req, q1)" using assms(3,4) by (simp add: wq_Get_def q1_def)
  have ok1: "wq_ok q1" by (rule wq_ok_Get [OF assms(1) get])
  define q2 where "q2 = (if err = None then Forget req q1 else AddRateLimited now bucket req q1)"
  have q2: "wq_ok q2" "wq_queue q2 = rest" "wq_processing q2 = {req}" "wq_dirty q2 = wq_dirty q - {req}"
    "wq_failures q2 req = (if err = None then 0 else wq_failures q req + 1)"
    "err = None \<Longrightarrow> wq_waiting q2 = wq_waiting q"
    "err \<noteq> None \<Longrightarrow> wq_waiting q2 = insert_waiting req
       (now + max bucket (min (baseDelay * 2 ^ wq_failures q req) maxDelay)) (wq_waiting q)"
    using ok1 assms(2) by (auto simp: q2_def q1_def Forget_def AddRateLimited_eq)
  have "processNextWorkItem r now bucket (cs, q) = Some (True, cs', wq_Done req q2)"
    using assms(5) by (simp add: processNextWorkItem_def get handler_eq q2_def)
  moreover have "wq_ok (wq_Done req q2)" "wq_queue (wq_Done req q2) = rest"
    using q2(1-4) by (simp_all, simp add: wq_Done_def Let_def)
  moreover have "res = empty_result" using Reconcile_result [of r req cs] assms(5) by simp
  moreover have "\<exists>due. fmlookup (insert_waiting req d wt) req = Some due \<and> due \<le> d \<and>
      (fmlookup wt req = None \<longrightarrow> due = d)" for d wt
    by (auto simp: insert_waiting_def split: option.split)
  ultimately show ?thesis
    using q2(3,5-7) by (cases err) (simp_all add: baseDelay_def maxDelay_def)
qed

lemma other_changes_self:
  assumes "tracker_ok deviceconfig_kind a" "tracker_ok deviceconfig_kind b" "fmlookup b req = fmlookup a req"
    and "ke \<in> kind_changes ''DeviceConfig'' a b"
  shows "req \<notin> set (event_requests ke)"
proof -
  obtain k e where ke: "ke = (''DeviceConfig'', e)" "change_of (fmlookup a k) (fmlookup b k) = Some e"
    using assms(4) by (auto simp: kind_changes_def)
  then have "k \<noteq> req" using assms(3) by auto
  have key: "request_of (metadata x) = k" if "fmlookup a k = Some x \<or> fmlookup b k = Some x" for x
  proof -
    have "stored_ok deviceconfig_kind k x" using that tracker_okD assms(1,2) by blast
    then show ?thesis by (simp add: stored_ok_def ObjectKeyFromObject_def request_of_def)
  qed
  show ?thesis
    using ke key \<open>k \<noteq> req\<close>
    by (cases "fmlookup a k"; cases "fmlookup b k") (auto simp: change_of_def event_requests_def split: if_splits)
qed

text \<open>
  C22. A resource that was refused for a conflict is forgotten. Its reconciliation returns no error, so the worker does
  not retry it; and when later other \<open>DeviceConfig\<close>s are edited or deleted in any way, so that the
  conflict is resolved, none of the announcements of that change queues the refused resource again.
\<close>

theorem conflict_resolution_unnoticed:
  assumes "cluster_ok (cs_world cs)" "fmlookup (w_deviceconfigs (cs_world cs)) req = Some dc" "\<not> being_deleted dc"
    and "\<not> conflict_free (ran (fmlookup (w_deviceconfigs (cs_world cs)))) (ran (fmlookup (w_nodes (cs_world cs))))"
    and "wq_ok q" "\<not> wq_shuttingDown q" "wq_queue q = req # rest" "wq_processing q = {}"
    and "maps_namespaced mapper" "doWatch (AddToScheme base) the_builder = Inr ws"
  shows "\<exists>cs' q'. processNextWorkItem (operator_reconciler cluster (AddToScheme base) st) now bucket (cs, q) = Some (True, cs', q') \<and>
    cs_world cs' = cs_world cs \<and> req \<notin> wq_dirty q' \<and> wq_waiting q' = wq_waiting q \<and>
    (\<forall>dcs ke q0. tracker_ok deviceconfig_kind dcs \<longrightarrow> fmlookup dcs req = Some dc \<longrightarrow>
       ke \<in> changes (cs_world cs) (put_deviceconfigs dcs (cs_world cs)) \<longrightarrow>
       \<not> wq_shuttingDown q0 \<longrightarrow> req \<notin> wq_dirty q0 \<longrightarrow> req \<notin> wq_dirty (deliver mapper ws ke q0))"
proof -
  let ?r = "operator_reconciler cluster (AddToScheme base) st" and ?w = "cs_world cs"
  have ws: "ws = watches" using assms(10) by (simp add: operator_watches)
  have "CheckDeviceConfigForConflictingNodeSelector cluster dc ?w =
      (Some (TextError (''conflicting DeviceConfig NodeSelectors found for resource: '' @ om_name (metadata dc))), ?w)"
    using checks.check_eq [OF assms(1), of dc] assms(4) by simp
  then have rec: "Reconcile ?r req cs = ((empty_result, None),
      set_gauge (om_name (metadata dc)) 1 (record_event dc EventTypeWarning ''Error'' conflict_message cs))"
    using Reconcile_conflict [of ?r req cs dc ?w] get_stored_dc [OF assms(1,2)] assms(3)
    by (simp del: cluster_simps)
  define q1 where "q1 = q\<lparr>wq_queue := rest, wq_processing := {req}, wq_dirty := wq_dirty q - {req}\<rparr>"
  have get: "wq_Get q = (Item req, q1)" using assms(7,8) by (simp add: wq_Get_def q1_def)
  have "req \<notin> set (event_requests ke)"
    if "tracker_ok deviceconfig_kind dcs" "fmlookup dcs req = Some dc" "ke \<in> changes ?w (put_deviceconfigs dcs ?w)" for dcs ke
    using other_changes_self [OF cluster_okD(1) [OF assms(1)] that(1)] that(2,3) assms(2) by (simp add: changes_def)
  then show ?thesis
    using rec by (intro exI [where x = "snd (Reconcile ?r req cs)"] exI [where x = "wq_Done req (Forget req q1)"])
      (simp add: processNextWorkItem_def get handler_eq Forget_def q1_def ws deliver_eq [OF assms(9)] fold_Add)
qed

end
