(* ===== verification/Cached_Reads.thy ===== *)
theory Cached_Reads
  imports Operator_Lifecycle
begin

text \<open>
  The operator as it really runs: its reads are served by informer caches that lag behind the server,
  its writes go to the server, and other clients act between any two of its calls, within one reconciliation too.
  The operator's code is the same as in the other theories; only the client that it is given differs. What the
  others do, and when the caches catch up, is a schedule, which is arbitrary.
\<close>

declare split_paired_All [simp del] split_paired_Ex [simp del]

section \<open>The client of the manager\<close>

text \<open>
  \<^verbatim>\<open>CacheReader\<close> looks an object up in the store of its informer, and copies it. The name of a kind stands in
  its error where the server has the name of the resource.
\<close>

definition kind_string :: "group_version_kind \<Rightarrow> string" where
  "kind_string gvk = (if length (gv_group gvk) = 0 then gvk_kind gvk else gvk_kind gvk @ ''.'' @ gv_group gvk)"

definition CacheReader_Get ::
    "('sp, 'st) resource_kind \<Rightarrow> bool \<Rightarrow> object_key \<Rightarrow> ('sp, 'st) tracker \<Rightarrow> go_error + ('sp, 'st) k8s_object" where
  "CacheReader_Get rk root_scope key indexer =
     (let key = (if root_scope then ('''', snd key) else key) in
      case fmlookup indexer key of
        None \<Rightarrow> Inl (NewNotFound (kind_string (rk_gvk rk)) (snd key))
      | Some obj \<Rightarrow> Inr obj)"

text \<open>
  A list has the label selector as its only option, the one that the operator uses. The store enumerates a Go map, in any order; here the
  order is that of the keys. Whether the validation finds a conflict does not depend on it (\<open>validation\<close> in \<open>Node_Selector\<close>).
\<close>

definition CacheReader_List :: "selector option \<Rightarrow> ('sp, 'st) tracker \<Rightarrow> ('sp, 'st) k8s_object list" where
  "CacheReader_List labelSel indexer =
     filter (\<lambda>obj. case labelSel of None \<Rightarrow> True | Some sel \<Rightarrow> selector_Matches sel (om_labels (metadata obj)))
       (map snd (sorted_list_of_fmap indexer))"

text \<open>
  The server with its past, oldest state first, and for each informer the number of the state that it has seen. An
  informer goes through the states of its kind in order, each in its own time. The schedule says what happens before each of
  the operator's next calls.
\<close>

datatype informer = OfDeviceConfigs | OfModules | OfDaemonSets | OfServices | OfNodes

datatype other_action =
    UserCreates device_config
  | UserUpdates device_config
  | UserDeletes object_key
  | OthersWriteModule kmm_module
  | OthersRemoveModule object_key
  | OthersWriteDaemonSets "(daemon_set_spec, other_fields) tracker"
  | OthersWriteServices "(service_spec, other_fields) tracker"
  | OthersWriteNodes "(other_fields, other_fields) tracker"
  | TimePasses time
  | CacheCatchesUp informer nat

record informed =
  in_past :: "world list"
  in_seen :: "informer \<Rightarrow> nat"
  in_schedule :: "other_action list list"

definition server :: "informed \<Rightarrow> world" where
  "server s = last (in_past s)"

definition cached :: "informer \<Rightarrow> informed \<Rightarrow> world" where
  "cached i s = in_past s ! in_seen s i"

definition server_becomes :: "world \<Rightarrow> informed \<Rightarrow> informed" where
  "server_becomes w s = s\<lparr>in_past := in_past s @ [w]\<rparr>"

text \<open>
  What others do to the server. Users do not touch the operator's finalizer, and only the server sets the time of a deletion; the
  Kernel Module Management operator changes and removes Modules, but creates none and revives none. Whatever else is asked for is
  refused. In the in-memory server the versions of an object start again at 1 when its name is reused. A real server numbers
  all writes in one sequence, so a new object gets the number of the server's state here, which no object had before.
\<close>

definition user_creates_at :: "nat \<Rightarrow> device_config \<Rightarrow> world \<Rightarrow> world" where
  "user_creates_at revision dc w =
     (if decode_object deviceconfig_kind dc = dc \<and> \<not> being_deleted dc \<and> \<not> ContainsDeletionFinalizer dc then
        (case kc_create (api_deviceconfigs cluster) dc w of
           (Inl _, w) \<Rightarrow> w
         | (Inr dc', w') \<Rightarrow>
             put_deviceconfigs (fmupd (ObjectKeyFromObject dc') (set_resourceVersion (decimal revision) dc')
               (w_deviceconfigs w')) w')
      else w)"

definition user_updates :: "device_config \<Rightarrow> world \<Rightarrow> world" where
  "user_updates dc w =
     (case fmlookup (w_deviceconfigs w) (ObjectKeyFromObject dc) of
        None \<Rightarrow> w
      | Some old \<Rightarrow>
          (if decode_object deviceconfig_kind dc = dc \<and>
              om_deletionTimestamp (metadata dc) = om_deletionTimestamp (metadata old) \<and>
              ContainsDeletionFinalizer dc = ContainsDeletionFinalizer old
           then snd (kc_update (api_deviceconfigs cluster) dc w) else w))"

definition user_deletes :: "object_key \<Rightarrow> world \<Rightarrow> world" where
  "user_deletes k w =
     (case fmlookup (w_deviceconfigs w) k of
        None \<Rightarrow> w
      | Some dc \<Rightarrow> snd (kc_delete (api_deviceconfigs cluster) dc w))"

definition others_write_module :: "kmm_module \<Rightarrow> world \<Rightarrow> world" where
  "others_write_module m w =
     (case fmlookup (w_modules w) (ObjectKeyFromObject m) of
        None \<Rightarrow> w
      | Some old \<Rightarrow>
          (if being_deleted old \<and> \<not> being_deleted m then w
           else put_modules (fmupd (ObjectKeyFromObject m) m (w_modules w)) w))"

fun act :: "other_action \<Rightarrow> informed \<Rightarrow> informed" where
  "act (UserCreates dc) s = server_becomes (user_creates_at (length (in_past s)) dc (server s)) s"
| "act (UserUpdates dc) s = server_becomes (user_updates dc (server s)) s"
| "act (UserDeletes k) s = server_becomes (user_deletes k (server s)) s"
| "act (OthersWriteModule m) s = server_becomes (others_write_module m (server s)) s"
| "act (OthersRemoveModule k) s =
     server_becomes (put_modules (fmdrop k (w_modules (server s))) (server s)) s"
| "act (OthersWriteDaemonSets t) s = server_becomes (put_daemonsets t (server s)) s"
| "act (OthersWriteServices t) s = server_becomes (put_services t (server s)) s"
| "act (OthersWriteNodes t) s = server_becomes (put_nodes t (server s)) s"
| "act (TimePasses t) s = server_becomes ((server s)\<lparr>w_clock := t\<rparr>) s"
| "act (CacheCatchesUp i n) s =
     s\<lparr>in_seen := (in_seen s)(i := min (in_seen s i + n) (length (in_past s) - 1))\<rparr>"

definition others_act :: "informed \<Rightarrow> informed" where
  "others_act s =
     (case in_schedule s of
        [] \<Rightarrow> s
      | as # rest \<Rightarrow> fold act as (s\<lparr>in_schedule := rest\<rparr>))"

definition reads :: "informer \<Rightarrow> (world \<Rightarrow> 'a) \<Rightarrow> (informed, 'a) effect" where
  "reads i f s = (let s = others_act s in (f (cached i s), s))"

definition writes :: "(world, 'a) effect \<Rightarrow> (informed, 'a) effect" where
  "writes f s = (let s = others_act s in case f (server s) of (r, w) \<Rightarrow> (r, server_becomes w s))"

text \<open>
  \<^verbatim>\<open>NewDelegatingClient\<close>: none of the operator's types is excluded from the cache, so that
  \<^verbatim>\<open>shouldBypassCache\<close> is always false.
\<close>

definition NewDelegatingClient ::
    "informer \<Rightarrow> (world \<Rightarrow> ('sp, 'st) tracker) \<Rightarrow> ('sp, 'st) resource_kind \<Rightarrow> bool
      \<Rightarrow> (world, 'sp, 'st) kind_client \<Rightarrow> (informed, 'sp, 'st) kind_client" where
  "NewDelegatingClient i get rk root_scope client =
     \<lparr>kc_get = \<lambda>key. reads i (\<lambda>w. CacheReader_Get rk root_scope key (get w)),
      kc_list = \<lambda>sel. reads i (\<lambda>w. Inr (CacheReader_List sel (get w))),
      kc_create = \<lambda>obj. writes (kc_create client obj),
      kc_update = \<lambda>obj. writes (kc_update client obj),
      kc_patch = \<lambda>prior after. writes (kc_patch client prior after),
      kc_delete = \<lambda>obj. writes (kc_delete client obj),
      kc_status_update = \<lambda>obj. writes (kc_status_update client obj),
      kc_status_patch = \<lambda>prior after. writes (kc_status_patch client prior after)\<rparr>"

definition manager_client :: "informed api" where
  "manager_client =
     \<lparr>api_deviceconfigs =
        NewDelegatingClient OfDeviceConfigs w_deviceconfigs deviceconfig_kind False (api_deviceconfigs cluster),
      api_modules = NewDelegatingClient OfModules w_modules module_kind False (api_modules cluster),
      api_daemonsets = NewDelegatingClient OfDaemonSets w_daemonsets daemonset_kind False (api_daemonsets cluster),
      api_services = NewDelegatingClient OfServices w_services service_kind False (api_services cluster),
      api_nodes = NewDelegatingClient OfNodes w_nodes node_kind True (api_nodes cluster),
      api_now = \<lambda>s i. world_now (server s) + i\<rparr>"

section \<open>Runs\<close>

text \<open>
  Others act, or the operator reconciles a request while others act as the schedule says. The operator has one worker.
\<close>

datatype happening = Others other_action | Reconciles object_key "other_action list list"

fun happens ::
    "scheme \<Rightarrow> controller_settings \<Rightarrow> happening \<Rightarrow> informed controller_state \<Rightarrow> informed controller_state" where
  "happens base st (Others a) cs = cs\<lparr>cs_world := act a (cs_world cs)\<rparr>"
| "happens base st (Reconciles req schedule) cs =
     snd (Reconcile (operator_reconciler manager_client (AddToScheme base) st) req
       (cs\<lparr>cs_world := (cs_world cs)\<lparr>in_schedule := schedule\<rparr>\<rparr>))"

definition run ::
    "scheme \<Rightarrow> controller_settings \<Rightarrow> happening list \<Rightarrow> informed controller_state \<Rightarrow> informed controller_state" where
  "run base st = fold (happens base st)"

text \<open>The operator is installed in a cluster that has no resources of its kinds yet.\<close>

definition installed :: "informed controller_state \<Rightarrow> bool" where
  "installed cs \<longleftrightarrow>
     (\<exists>w. in_past (cs_world cs) = [w] \<and> w_deviceconfigs w = fmempty \<and> w_modules w = fmempty) \<and>
     in_seen (cs_world cs) = (\<lambda>_. 0)"

text \<open>What the cache shows with the operator's finalizer and not being deleted has that finalizer on the server.\<close>

definition cached_finalizers_hold :: "informed \<Rightarrow> bool" where
  "cached_finalizers_hold s \<longleftrightarrow>
     (\<forall>dc \<in> fmran' (w_deviceconfigs (cached OfDeviceConfigs s)).
        ContainsDeletionFinalizer dc \<longrightarrow> \<not> being_deleted dc \<longrightarrow>
        (case fmlookup (w_deviceconfigs (server s)) (ObjectKeyFromObject dc) of
           None \<Rightarrow> False
         | Some dc' \<Rightarrow> ContainsDeletionFinalizer dc'))"

section \<open>Facts\<close>

lemma manager_simps:
  "api_modules manager_client = NewDelegatingClient OfModules w_modules module_kind False (api_modules cluster)"
  "api_deviceconfigs manager_client =
     NewDelegatingClient OfDeviceConfigs w_deviceconfigs deviceconfig_kind False (api_deviceconfigs cluster)"
  "api_daemonsets manager_client =
     NewDelegatingClient OfDaemonSets w_daemonsets daemonset_kind False (api_daemonsets cluster)"
  "api_services manager_client = NewDelegatingClient OfServices w_services service_kind False (api_services cluster)"
  "api_nodes manager_client = NewDelegatingClient OfNodes w_nodes node_kind True (api_nodes cluster)"
  by (simp_all add: manager_client_def)

lemma delegating_simps:
  "kc_get (NewDelegatingClient i get rk root c) k = reads i (\<lambda>w. CacheReader_Get rk root k (get w))"
  "kc_list (NewDelegatingClient i get rk root c) sel = reads i (\<lambda>w. Inr (CacheReader_List sel (get w)))"
  "kc_create (NewDelegatingClient i get rk root c) x = writes (kc_create c x)"
  "kc_update (NewDelegatingClient i get rk root c) x = writes (kc_update c x)"
  "kc_patch (NewDelegatingClient i get rk root c) x y = writes (kc_patch c x y)"
  "kc_delete (NewDelegatingClient i get rk root c) x = writes (kc_delete c x)"
  "kc_status_update (NewDelegatingClient i get rk root c) x = writes (kc_status_update c x)"
  "kc_status_patch (NewDelegatingClient i get rk root c) x y = writes (kc_status_patch c x y)"
  by (simp_all add: NewDelegatingClient_def)

lemma CacheReader_Get_found: "CacheReader_Get rk False k t = Inr x \<longleftrightarrow> fmlookup t k = Some x"
  by (simp add: CacheReader_Get_def split: option.split)

lemma merged_key:
  assumes "ObjectKeyFromObject old = ObjectKeyFromObject y"
  shows "ObjectKeyFromObject (decode_object rk (merge_object f g x y old)) = ObjectKeyFromObject y"
    "om_namespace (metadata (decode_object rk (merge_object f g x y old))) = om_namespace (metadata y)"
  using assms by (simp_all add: ObjectKeyFromObject_def decode_object_def merge_object_def merge_meta_def merge_atom_def)

lemma dc_kind_strict:
  "\<not> allowsUnconditionalUpdate (rk_gvk deviceconfig_kind)" "\<not> allowsCreateOnUpdate (rk_gvk deviceconfig_kind)"
  by (simp_all add: deviceconfig_kind_def dc_gvk_def GroupVersion_def allowsUnconditionalUpdate_def
      allowsCreateOnUpdate_def Let_def)

end
