(* ===== verification/Guarded_Reconciler.thy ===== *)
theory Guarded_Reconciler
  imports Controller_Safety
begin

text \<open>
  Invariants of a world that is not the operator's alone. \<open>carrying_client\<close> is the contract of a client whose calls, on
  objects under the keys that are allowed, stay within a set of states; the shared steps of the reconcilers then stay within it.
  \<open>guarded_reconciler\<close> has the assertions that the collaborators of the controller carry from one to the next, and concludes that a
  reconciliation keeps the invariant. Both allow anything to happen between two calls that the assertions admit.
\<close>

section \<open>Clients\<close>

locale carrying_client =
  fixes kc :: "('s, 'sp, other_fields) kind_client"
    and inv :: "'s \<Rightarrow> bool"
    and allowed :: "object_key \<Rightarrow> bool"
  assumes get_carries: "inv s \<Longrightarrow> kc_get kc k s = (r, s') \<Longrightarrow> inv s'"
    and get_allowed: "inv s \<Longrightarrow> kc_get kc k s = (Inr x, s') \<Longrightarrow> allowed k \<Longrightarrow> allowed (ObjectKeyFromObject x)"
    and create_carries: "inv s \<Longrightarrow> allowed (ObjectKeyFromObject x) \<Longrightarrow> kc_create kc x s = (r, s') \<Longrightarrow> inv s'"
    and patch_carries: "inv s \<Longrightarrow> allowed (ObjectKeyFromObject y) \<Longrightarrow> kc_patch kc x y s = (r, s') \<Longrightarrow> inv s'"
    and patch_allowed: "inv s \<Longrightarrow> allowed (ObjectKeyFromObject y) \<Longrightarrow> kc_patch kc x y s = (Inr z, s') \<Longrightarrow>
      allowed (ObjectKeyFromObject z)"
    and status_patch_carries:
      "inv s \<Longrightarrow> allowed (ObjectKeyFromObject y) \<Longrightarrow> kc_status_patch kc x y s = (r, s') \<Longrightarrow> inv s'"
begin

lemma patch_object_carries:
  assumes "inv s" "allowed (ObjectKeyFromObject y)" "patch_object kc x y s = (r, s')"
  shows "inv s'" "r = Inr (res, z) \<Longrightarrow> allowed (ObjectKeyFromObject z)"
  using assms patch_carries [OF assms(1,2)] patch_allowed [OF assms(1,2)]
  by (auto simp: patch_object_def split: if_splits prod.splits sum.splits)

lemma patch_status_carries:
  assumes "inv s" "allowed (ObjectKeyFromObject z)" "patch_status kc x y res z s = (r, s')"
  shows "inv s'"
proof -
  have "allowed (ObjectKeyFromObject (z\<lparr>status := status y\<rparr>))" using assms(2) by (simp add: ObjectKeyFromObject_def)
  then show ?thesis
    using assms status_patch_carries [OF assms(1)]
    by (auto simp: patch_status_def Let_def split: if_splits prod.splits sum.splits)
qed

lemma CreateOrPatch_carries:
  assumes "inv s" "allowed (ObjectKeyFromObject x)" "CreateOrPatch kc x f s = (r, s')"
  shows "inv s'"
proof -
  obtain g s1 where get: "kc_get kc (ObjectKeyFromObject x) s = (g, s1)" by fastforce
  have s1: "inv s1" by (rule get_carries [OF assms(1) get])
  have mut: "mutate f (ObjectKeyFromObject x) y = Inr z \<Longrightarrow> allowed (ObjectKeyFromObject z)" for y z
    using assms(2) by (auto simp: mutate_def Let_def split: sum.splits if_splits)
  show ?thesis
  proof (cases g)
    case (Inl e)
    with assms(3) get s1 show ?thesis
      using create_carries [OF s1] mut [of x]
      by (auto simp: CreateOrPatch_def Let_def split: if_splits prod.splits sum.splits)
  next
    case (Inr before)
    show ?thesis
    proof (cases "mutate f (ObjectKeyFromObject x) before")
      case (Inl e)
      with assms(3) get s1 Inr show ?thesis by (simp add: CreateOrPatch_def)
    next
      case after: (Inr after)
      obtain p s2 where p: "patch_object kc before after s1 = (p, s2)" by fastforce
      note carried = patch_object_carries [OF s1 mut [OF after] p]
      show ?thesis
        using assms(3) get Inr after p carried patch_status_carries
        by (auto simp: CreateOrPatch_def split: sum.splits prod.splits)
    qed
  qed
qed

lemma ensure_object_carries:
  assumes "inv s" "allowed (ns, name)" "ensure_object kc name ns zero f prefix s = (r, s')"
  shows "inv s'"
proof -
  obtain g s1 where get: "kc_get kc (ns, name) s = (g, s1)" by fastforce
  have s1: "inv s1" by (rule get_carries [OF assms(1) get])
  have new: "allowed (ObjectKeyFromObject (named_object name ns zero))"
    using assms(2) by (simp add: named_object_def ObjectKeyFromObject_def)
  have found: "allowed (ObjectKeyFromObject x)" if "g = Inr x" for x
    using get_allowed [OF assms(1)] get that assms(2) by blast
  show ?thesis
    using assms(3) get s1 CreateOrPatch_carries [OF s1 new] CreateOrPatch_carries [OF s1 found]
    by (auto simp: ensure_object_def split: if_splits prod.splits sum.splits option.splits)
qed

end

section \<open>The controller\<close>

text \<open>
  \<open>calm\<close> holds between two reconciliations, \<open>read dc\<close> once \<open>dc\<close> was read and is alive, \<open>owned dc\<close> once it has the finalizer, \<open>leaving dc\<close>
  once it was read and is being deleted, and \<open>cleaned dc\<close> once its Module was deleted.
\<close>

locale guarded_reconciler =
  fixes r :: "'s reconciler"
    and calm :: "'s \<Rightarrow> bool"
    and read owned leaving cleaned :: "device_config \<Rightarrow> 's \<Rightarrow> bool"
  assumes got: "calm s \<Longrightarrow> rc_Get r req s = (x, s') \<Longrightarrow>
        calm s' \<and> (\<forall>dc. x = Inr dc \<longrightarrow> (if being_deleted dc then leaving dc s' else read dc s'))"
    and checked: "read dc s \<Longrightarrow> nsv_Check r dc s = (e, s') \<Longrightarrow> calm s' \<and> (e = None \<longrightarrow> read dc s')"
    and finalized: "read dc s \<Longrightarrow> add_missing_finalizer r dc s = ((e, dc'), s') \<Longrightarrow>
        calm s' \<and> (e = None \<longrightarrow> owned dc' s')"
    and owned_calm: "owned dc s \<Longrightarrow> calm s"
    and module_stage: "owned dc s \<Longrightarrow> mr_ReconcileModule r dc s = (e, s') \<Longrightarrow> owned dc s'"
    and labeler_stage: "owned dc s \<Longrightarrow> nlr_ReconcileNodeLabeler r dc s = (e, s') \<Longrightarrow> owned dc s'"
    and metrics_stage: "owned dc s \<Longrightarrow> nmr_ReconcileNodeMetrics r dc s = (e, s') \<Longrightarrow> owned dc s'"
    and ready: "owned dc s \<Longrightarrow> cu_SetConditionsReady r dc reason message s = (y, s') \<Longrightarrow> calm s'"
    and errored: "owned dc s \<Longrightarrow> cu_SetConditionsErrored r dc reason message s = (y, s') \<Longrightarrow> calm s'"
    and leaving_calm: "leaving dc s \<Longrightarrow> fu_ContainsDeletionFinalizer r dc s = (b, s') \<Longrightarrow> calm s' \<and> leaving dc s'"
    and deleted: "leaving dc s \<Longrightarrow> mr_DeleteModule r dc s = (e, s') \<Longrightarrow> calm s' \<and> (e = None \<longrightarrow> cleaned dc s')"
    and removed: "cleaned dc s \<Longrightarrow> fu_RemoveDeletionFinalizer r dc s = (y, s') \<Longrightarrow> calm s'"
begin

lemma stage_failed_calm:
  "owned dc (cs_world cs) \<Longrightarrow> calm (cs_world (snd (stage_failed r dc reason err cs)))"
  by (auto simp: stage_failed_def outside_def Let_def errored split: prod.split)

lemma stages_calm:
  assumes "owned dc (cs_world cs)"
  shows "calm (cs_world (snd (reconcile_stages r dc cs)))"
proof -
  obtain e1 s1 where m: "mr_ReconcileModule r dc (cs_world cs) = (e1, s1)" by fastforce
  obtain e2 s2 where l: "nlr_ReconcileNodeLabeler r dc s1 = (e2, s2)" by fastforce
  obtain e3 s3 where n: "nmr_ReconcileNodeMetrics r dc s2 = (e3, s3)" by fastforce
  note o1 = module_stage [OF assms m] 
  note o2 = labeler_stage [OF o1 l]
  note o3 = metrics_stage [OF o2 n]
  show ?thesis
    using m l n stage_failed_calm o1 o2 o3
    by (auto simp: reconcile_stages_def outside_def Let_def ready split: option.split prod.split)
qed

lemma deletion_calm:
  assumes "leaving dc (cs_world cs)"
  shows "calm (cs_world (snd (reconcile_deletion r dc cs)))"
proof -
  obtain b s1 where b: "fu_ContainsDeletionFinalizer r dc (cs_world cs) = (b, s1)" by fastforce
  obtain e s2 where e: "mr_DeleteModule r dc s1 = (e, s2)" by fastforce
  have s1: "calm s1" "leaving dc s1" using leaving_calm [OF assms b] by simp_all
  note del = deleted [OF s1(2) e]
  show ?thesis
    using b e s1 del
    by (auto simp: reconcile_deletion_def deleteDeviceConfigResources_def outside_def Let_def removed
        split: option.split prod.split)
qed

theorem reconcile_calm:
  assumes "calm (cs_world cs)"
  shows "calm (cs_world (snd (Reconcile r req cs)))"
proof -
  obtain x s1 where x: "rc_Get r req (cs_world cs) = (x, s1)" by fastforce
  note g = got [OF assms x]
  show ?thesis
  proof (cases x)
    case (Inl e)
    with x g show ?thesis by (auto simp: Reconcile_def outside_def)
  next
    case (Inr dc)
    show ?thesis
    proof (cases "being_deleted dc")
      case True
      then show ?thesis
        using x Inr g deletion_calm [of dc "cs\<lparr>cs_world := s1\<rparr>"] Reconcile_deletion [of r req cs dc s1] by simp
    next
      case False
      then have rd: "read dc s1" using g Inr by simp
      obtain e s2 where e: "nsv_Check r dc s1 = (e, s2)" by fastforce
      obtain e' dc' s3 where f: "add_missing_finalizer r dc s2 = ((e', dc'), s3)" by (metis prod.exhaust)
      show ?thesis
        using checked [OF rd e] finalized [OF _ f] x Inr e f False stages_calm [of dc' "cs\<lparr>cs_world := s3\<rparr>"]
        by (auto simp: Reconcile_def outside_def being_deleted_def Let_def split: option.split)
    qed
  qed
qed

end

end
