(* ===== verification/Lagging_Reads.thy ===== *)
theory Lagging_Reads
  imports Cached_Reads Guarded_Reconciler
begin

text \<open>
  What a stage of the reconciliation leaves behind that read from a lagging cache and returned no error: either the object was
  in the desired state when it was read, or it has changed since, and its controller shows in the change. The history of the
  server only grows and the caches only move forward, which every call of the operator keeps.
\<close>

declare split_paired_All [simp del] split_paired_Ex [simp del]

section \<open>History grows\<close>

definition in_bounds :: "informed \<Rightarrow> bool" where
  "in_bounds s \<longleftrightarrow> in_past s \<noteq> [] \<and> (\<forall>i. in_seen s i < length (in_past s))"

definition later :: "informed \<Rightarrow> informed \<Rightarrow> bool" where
  "later s s' \<longleftrightarrow> in_bounds s' \<and> (\<exists>ws. in_past s' = in_past s @ ws) \<and> (\<forall>i. in_seen s i \<le> in_seen s' i)"

lemma laterD:
  assumes "later s s'"
  shows "in_bounds s'" "length (in_past s) \<le> length (in_past s')" "in_seen s i \<le> in_seen s' i"
    "set (in_past s) \<subseteq> set (in_past s')" "j < length (in_past s) \<Longrightarrow> in_past s' ! j = in_past s ! j"
  using assms by (auto simp: later_def nth_append)

lemma later_refl: "in_bounds s \<Longrightarrow> later s s"
  by (simp add: later_def)

lemma later_trans [trans]:
  assumes "later s s'" "later s' s''"
  shows "later s s''"
proof -
  have "in_seen s i \<le> in_seen s'' i" for i using laterD(3) [OF assms(1)] laterD(3) [OF assms(2)] le_trans by blast
  with assms show ?thesis by (auto simp: later_def)
qed

lemma later_schedule: "later s (s'\<lparr>in_schedule := as\<rparr>) = later s s'" "later (s\<lparr>in_schedule := as\<rparr>) s' = later s s'"
  by (simp_all add: later_def in_bounds_def)

lemma later_becomes: "in_bounds s \<Longrightarrow> later s (server_becomes w s)"
  by (simp add: later_def in_bounds_def server_becomes_def less_Suc_eq)

lemma later_act: "in_bounds s \<Longrightarrow> later s (act a s)"
proof (cases a)
  case (CacheCatchesUp i n)
  assume b: "in_bounds s"
  then have "in_seen s j \<le> length (in_past s) - 1" "0 < length (in_past s)" for j
    by (auto simp: in_bounds_def less_eq_Suc_le [symmetric] Suc_le_lessD intro: less_imp_le)
       (metis Suc_pred length_greater_0_conv less_Suc_eq_le)
  with b CacheCatchesUp show ?thesis by (auto simp: later_def in_bounds_def min_def)
qed (simp_all add: later_becomes)

lemma later_fold: "in_bounds s \<Longrightarrow> later s (fold act as s)"
proof (induction as arbitrary: s)
  case Nil
  then show ?case by (simp add: later_refl)
next
  case (Cons a as)
  note l = later_act [OF Cons.prems, of a]
  from later_trans [OF l Cons.IH [OF laterD(1) [OF l]]] show ?case by simp
qed

lemma later_others_act:
  assumes "in_bounds s"
  shows "later s (others_act s)"
proof (cases "in_schedule s")
  case Nil
  with assms show ?thesis by (simp add: others_act_def later_refl)
next
  case (Cons as rest)
  have "in_bounds (s\<lparr>in_schedule := rest\<rparr>)" using assms by (simp add: in_bounds_def)
  from later_fold [OF this] Cons show ?thesis by (simp add: others_act_def later_schedule)
qed

lemma later_reads:
  assumes "in_bounds s" "reads i f s = (r, s')"
  shows "later s s'" "r = f (in_past s' ! in_seen s' i)"
  using assms later_others_act [OF assms(1)] by (auto simp: reads_def cached_def Let_def)

text \<open>A write appends the state that it makes of the one before it.\<close>

lemma later_writes:
  assumes "in_bounds s" "writes f s = (r, s')"
  obtains w p where "later s s'" "w \<in> set (in_past s')" "f w = (r, in_past s' ! p)" "length (in_past s) \<le> p"
    "Suc p = length (in_past s')"
proof -
  let ?o = "others_act s"
  have o: "later s ?o" by (rule later_others_act [OF assms(1)])
  obtain w' where w': "f (server ?o) = (r, w')" "s' = server_becomes w' ?o"
    using assms(2) by (auto simp: writes_def Let_def split: prod.splits)
  have "later ?o s'" using w'(2) laterD(1) [OF o] by (simp add: later_becomes)
  moreover have "server ?o \<in> set (in_past s')"
    using laterD(1) [OF o] by (simp add: w'(2) server_becomes_def server_def in_bounds_def)
  ultimately show thesis
    using that [of "server ?o" "length (in_past ?o)"] w' laterD(2) [OF o] later_trans [OF o]
    by (simp add: server_becomes_def nth_append)
qed

lemma later_writes_only: "in_bounds s \<Longrightarrow> writes f s = (r, s') \<Longrightarrow> later s s'"
  by (erule (1) later_writes)

section \<open>Every call leads to a later state\<close>

interpretation delegating: carrying_client "NewDelegatingClient i get rk root c" "later s0" "\<lambda>_. True"
  for i get rk root c s0
proof (unfold_locales, unfold delegating_simps, goal_cases)
  case (1 s k r s')
  show ?case using later_trans [OF 1(1) later_reads(1) [OF laterD(1) [OF 1(1)] 1(2)]] .
next
  case (3 s x r s')
  show ?case using later_trans [OF 3(1) later_writes_only [OF laterD(1) [OF 3(1)] 3(3)]] .
next
  case (4 s y x r s')
  show ?case using later_trans [OF 4(1) later_writes_only [OF laterD(1) [OF 4(1)] 4(3)]] .
next
  case (6 s y x r s')
  show ?case using later_trans [OF 6(1) later_writes_only [OF laterD(1) [OF 6(1)] 6(3)]] .
qed auto

lemma later_collect:
  assumes "later s0 s" "collect_names manager_client dcs names s = (r, s')"
  shows "later s0 s'"
  using assms
proof (induction dcs arbitrary: names s)
  case Nil
  then show ?case by simp
next
  case (Cons dc dcs)
  obtain x s1 where x: "getDeviceConfigSelectedNodes manager_client dc s = (x, s1)" by fastforce
  then have "later s s1"
    using later_reads(1) [OF laterD(1) [OF Cons.prems(1)]]
    by (auto simp: getDeviceConfigSelectedNodes_eq manager_simps delegating_simps)
  from later_trans [OF Cons.prems(1) this] Cons.IH Cons.prems(2) x show ?case by (auto split: sum.splits)
qed

lemma later_check:
  assumes "later s0 s" "CheckDeviceConfigForConflictingNodeSelector manager_client dc s = (r, s')"
  shows "later s0 s'"
proof -
  obtain x s1 where x: "kc_list (api_deviceconfigs manager_client) None s = (x, s1)" by fastforce
  then have "later s s1"
    using later_reads(1) [OF laterD(1) [OF assms(1)]] by (auto simp: manager_simps delegating_simps)
  note s1 = later_trans [OF assms(1) this]
  show ?thesis
    using assms(2) x s1 later_collect [OF s1]
    by (auto simp: CheckDeviceConfigForConflictingNodeSelector_def split: sum.splits prod.splits if_splits)
qed

lemma later_writes_from: "later s0 s \<Longrightarrow> writes f s = (r, s') \<Longrightarrow> later s0 s'"
  by (rule later_trans [OF _ later_writes_only [OF laterD(1)]])

lemma later_dc_update:
  "later s0 s \<Longrightarrow> kc_update (api_deviceconfigs manager_client) x s = (r, s') \<Longrightarrow> later s0 s'"
  "later s0 s \<Longrightarrow> kc_status_update (api_deviceconfigs manager_client) x s = (r, s') \<Longrightarrow> later s0 s'"
  unfolding manager_simps delegating_simps by (erule (1) later_writes_from)+

lemma later_finalizer:
  "later s0 s \<Longrightarrow> AddDeletionFinalizer manager_client dc s = (r, s') \<Longrightarrow> later s0 s'"
  "later s0 s \<Longrightarrow> RemoveDeletionFinalizer manager_client dc s = (r, s') \<Longrightarrow> later s0 s'"
  unfolding AddDeletionFinalizer_eq RemoveDeletionFinalizer_eq
  by (auto split: prod.splits sum.splits elim: later_dc_update)

lemma later_status: "later s0 s \<Longrightarrow> write_status manager_client dc s = (r, s') \<Longrightarrow> later s0 s'"
  unfolding write_status_def by (auto split: prod.splits sum.splits elim: later_dc_update)

lemma later_module_deleted:
  assumes "later s0 s" "DeleteModule manager_client dc s = (r, s')"
  shows "later s0 s'"
proof -
  let ?m = "named_object (GetModuleName dc) (om_namespace (metadata dc)) empty_module_spec"
  obtain e s1 where "kc_delete (api_modules manager_client) ?m s = (e, s1)" by fastforce
  moreover from this have "later s0 s1"
    using later_trans [OF assms(1) later_writes_only [OF laterD(1) [OF assms(1)]]] by (simp add: manager_simps delegating_simps)
  ultimately show ?thesis using assms(2) by (auto simp: DeleteModule_def split: option.splits if_splits)
qed

lemma later_stages:
  "later s0 s \<Longrightarrow> ReconcileModule manager_client sch st dc s = (e, s') \<Longrightarrow> later s0 s'"
  "later s0 s \<Longrightarrow> ReconcileNodeLabeler manager_client sch st dc s = (e, s') \<Longrightarrow> later s0 s'"
  "later s0 s \<Longrightarrow> ReconcileNodeMetricsDaemonSet manager_client sch st dc s = (e, s') \<Longrightarrow> later s0 s'"
  "later s0 s \<Longrightarrow> ReconcileNodeMetricsService manager_client sch dc s = (e, s') \<Longrightarrow> later s0 s'"
  using delegating.ensure_object_carries
  by (auto simp: ReconcileModule_eq ReconcileNodeLabeler_eq ReconcileNodeMetricsDaemonSet_eq
      ReconcileNodeMetricsService_eq manager_simps)

lemma later_metrics:
  assumes "later s0 s" "ReconcileNodeMetrics manager_client sch st dc s = (e, s')"
  shows "later s0 s'"
proof -
  obtain e1 s1 where d: "ReconcileNodeMetricsDaemonSet manager_client sch st dc s = (e1, s1)" by fastforce
  obtain e2 s2 where v: "ReconcileNodeMetricsService manager_client sch dc s1 = (e2, s2)" by fastforce
  note s1 = later_stages(3) [OF assms(1) d] 
  from assms(2) d v s1 later_stages(4) [OF s1 v] show ?thesis
    by (auto simp: ReconcileNodeMetrics_def setNodeMetricsConditions_def split: option.splits)
qed

interpretation growing: guarded_reconciler "operator_reconciler manager_client sch st"
  "later s0" "\<lambda>_. later s0" "\<lambda>_. later s0" "\<lambda>_. later s0" "\<lambda>_. later s0" for sch st s0
proof (unfold_locales, unfold operator_reconciler_simps add_missing_finalizer_operator, goal_cases)
  case (1 s req x s')
  from later_trans [OF 1(1) later_reads(1) [OF laterD(1) [OF 1(1)] 1(2) [unfolded manager_simps delegating_simps]]]
  show ?case by simp
next
  case (2 dc s e s')
  then show ?case using later_check by blast
next
  case (3 dc s e dc' s')
  then show ?case using later_finalizer(1) by (auto split: if_splits)
next
  case (4 dc s)
  then show ?case .
next
  case (5 dc s e s')
  then show ?case by (rule later_stages(1))
next
  case (6 dc s e s')
  then show ?case by (rule later_stages(2))
next
  case (7 dc s e s')
  then show ?case by (rule later_metrics)
next
  case (8 dc s reason message y s')
  then show ?case unfolding SetConditionsReady_def by (rule later_status)
next
  case (9 dc s reason message y s')
  then show ?case unfolding SetConditionsErrored_def by (rule later_status)
next
  case (10 dc s b s')
  then show ?case by simp
next
  case (11 dc s e s')
  then show ?case using later_module_deleted by blast
next
  case (12 dc s y s')
  then show ?case by (rule later_finalizer(2))
qed

lemma reconcile_later:
  assumes "in_bounds (cs_world cs)"
  shows "later (cs_world cs) (cs_world (snd (Reconcile (operator_reconciler manager_client sch st) req cs)))"
  by (rule growing.reconcile_calm) (rule later_refl [OF assms])

end
