(* ===== verification/Lagging_Stages.thy ===== *)
theory Lagging_Stages
  imports Lagging_Reads
begin

text \<open>
  The step of a desired state on lagging caches (\<open>lagging_stage\<close>), and with it the three stages whose objects the operator watches.
\<close>

declare split_paired_All [simp del] split_paired_Ex [simp del]

section \<open>Patches made from an outdated object\<close>

text \<open>Up to the version.\<close>

definition alike :: "('sp, 'st) k8s_object option \<Rightarrow> ('sp, 'st) k8s_object option \<Rightarrow> bool" where
  "alike x y \<longleftrightarrow> map_option (set_resourceVersion '''') x = map_option (set_resourceVersion '''') y"

lemma alike_simps [simp]:
  "alike o1 o1" "\<not> alike None (Some y)" "\<not> alike (Some y) None"
  "alike (Some (set_resourceVersion v x)) (Some y) = alike (Some x) (Some y)"
  "alike (Some x) (Some (set_resourceVersion v y)) = alike (Some x) (Some y)"
  by (simp_all add: alike_def)

lemma alike_sym: "alike x y \<Longrightarrow> alike y x"
  by (simp add: alike_def)

lemma alike_trans: "alike x y \<Longrightarrow> alike y z \<Longrightarrow> alike x z"
  by (simp add: alike_def)

lemma alike_same:
  assumes "alike (Some x) (Some y)"
  shows "metadata x = (metadata y)\<lparr>om_resourceVersion := om_resourceVersion (metadata x)\<rparr>" "spec x = spec y" "status x = status y"
    "x = set_resourceVersion (om_resourceVersion (metadata x)) y"
proof -
  have eq: "set_resourceVersion '''' x = set_resourceVersion '''' y" using assms by (simp add: alike_def)
  then have "metadata (set_resourceVersion '''' x) = metadata (set_resourceVersion '''' y)"
    "spec (set_resourceVersion '''' x) = spec (set_resourceVersion '''' y)"
    "status (set_resourceVersion '''' x) = status (set_resourceVersion '''' y)" by simp_all
  then show m: "metadata x = (metadata y)\<lparr>om_resourceVersion := om_resourceVersion (metadata x)\<rparr>" "spec x = spec y" "status x = status y"
    by (cases "metadata x"; cases "metadata y"; simp add: set_resourceVersion_def)+
  show "x = set_resourceVersion (om_resourceVersion (metadata x)) y"
    using m by (cases x; cases y) (simp add: set_resourceVersion_def)
qed

lemma alike_fields:
  assumes "alike (Some x) (Some y)"
  shows "om_ownerReferences (metadata x) = om_ownerReferences (metadata y)" "om_labels (metadata x) = om_labels (metadata y)"
    "om_annotations (metadata x) = om_annotations (metadata y)" "om_finalizers (metadata x) = om_finalizers (metadata y)"
    "om_deletionTimestamp (metadata x) = om_deletionTimestamp (metadata y)" "ObjectKeyFromObject x = ObjectKeyFromObject y"
  using alike_same(4) [OF assms] by (metis set_resourceVersion_simps)+

lemma controller_version [simp]: "GetControllerOf (metadata (set_resourceVersion v x)) = GetControllerOf (metadata x)"
  by (simp add: GetControllerOf_def set_resourceVersion_def)

lemma lagging_patch:
  assumes ok: "tracker_ok rk t" and upd: "fake_Patch rk x y t = (Inr z, t')"
    and rv: "om_resourceVersion (metadata y) = om_resourceVersion (metadata x)"
    and fin: "om_finalizers (metadata y) = om_finalizers (metadata x)"
    and del: "om_deletionTimestamp (metadata y) = om_deletionTimestamp (metadata x)"
  obtains old v where "fmlookup t (ObjectKeyFromObject y) = Some old"
    "fmlookup t' (ObjectKeyFromObject y) =
       Some (set_resourceVersion v (decode_object rk (merge_object (rk_merge_spec rk) (rk_merge_status rk) x y old)))"
proof -
  obtain old where old: "fmlookup t (ObjectKeyFromObject y) = Some old"
    using upd by (cases "fmlookup t (ObjectKeyFromObject y)") (auto simp: fake_Patch_def tracker_Get_def ObjectKeyFromObject_def)
  have st: "stored_ok rk (ObjectKeyFromObject y) old" by (rule tracker_okD [OF ok old])
  then have dec: "decode_object rk old = old" and key: "ObjectKeyFromObject old = ObjectKeyFromObject y"
    and alive: "kept_alive old" by (simp_all add: stored_ok_def)
  define p where "p = decode_object rk (merge_object (rk_merge_spec rk) (rk_merge_status rk) x y old)"
  note pk = merged_key [OF key, of rk "rk_merge_spec rk" "rk_merge_status rk" x, folded p_def]
  have "om_resourceVersion (metadata p) = om_resourceVersion (metadata old)"
    using rv by (simp add: p_def decode_object_def merge_object_def merge_meta_def merge_atom_def)
  moreover have "fmlookup t (ObjectKeyFromObject p) = Some old" using old pk(1) by simp
  ultimately obtain v where v: "versioned_Update rk p (om_namespace (metadata p)) t =
      (Inr (set_resourceVersion v p),
       if \<not> time_IsZero (om_deletionTimestamp (metadata p)) \<and> om_finalizers (metadata p) = []
       then fmdrop (ObjectKeyFromObject p) t else fmupd (ObjectKeyFromObject p) (set_resourceVersion v p) t)"
    using versioned_Update_stored [OF ok] by metis
  have "om_finalizers (metadata p) = om_finalizers (metadata old)"
    "time_IsZero (om_deletionTimestamp (metadata p)) = time_IsZero (om_deletionTimestamp (metadata old))"
    using fin del by (simp_all add: p_def decode_object_def merge_object_def merge_meta_def merge_atom_def time_IsZero_def)
  then have "t' = fmupd (ObjectKeyFromObject p) (set_resourceVersion v p) t"
    using upd v alive old dec pk
    by (auto simp: fake_Patch_def tracker_Get_def ObjectKeyFromObject_def p_def [symmetric] kept_alive_def Let_def)
  with old pk(1) show thesis by (intro that [of old v]) (simp_all add: p_def)
qed

section \<open>A stage that returns no error\<close>

definition object_at ::
    "(world \<Rightarrow> ('sp, 'st) tracker) \<Rightarrow> object_key \<Rightarrow> world list \<Rightarrow> nat \<Rightarrow> ('sp, 'st) k8s_object option" where
  "object_at get k past j = fmlookup (get (past ! j)) k"

definition controlled_by :: "device_config \<Rightarrow> ('sp, 'st) k8s_object option \<Rightarrow> bool" where
  "controlled_by cr x \<longleftrightarrow> (\<exists>obj. x = Some obj \<and> GetControllerOf (metadata obj) = Some (dc_ref cr))"

lemma controlled_by_simps [simp]:
  "controlled_by cr None = False"
  "controlled_by cr (Some obj) = (GetControllerOf (metadata obj) = Some (dc_ref cr))"
  by (simp_all add: controlled_by_def)

text \<open>
  In a history \<open>g\<close> of an object, from the state \<open>a\<close> on and before \<open>e\<close>: it was in the desired state, or it changed, with the
  resource as its controller before or afterwards.
\<close>

definition attended ::
    "('sp, other_fields) mutate_fn \<Rightarrow> device_config \<Rightarrow> (nat \<Rightarrow> ('sp, other_fields) k8s_object option) \<Rightarrow> nat \<Rightarrow> nat \<Rightarrow> bool" where
  "attended f cr g a e \<longleftrightarrow>
     (\<exists>b p. a \<le> b \<and> b \<le> p \<and> p < e \<and>
        ((\<exists>x. g b = Some x \<and> f x = Inr x) \<or> \<not> alike (g b) (g p) \<and> (controlled_by cr (g b) \<or> controlled_by cr (g p))))"

lemma attendedI:
  "a \<le> b \<Longrightarrow> b < e \<Longrightarrow> g b = Some x \<Longrightarrow> f x = Inr x \<Longrightarrow> attended f cr g a e"
  "a \<le> b \<Longrightarrow> b \<le> p \<Longrightarrow> p < e \<Longrightarrow> \<not> alike (g b) (g p) \<Longrightarrow> controlled_by cr (g b) \<or> controlled_by cr (g p) \<Longrightarrow> attended f cr g a e"
  unfolding attended_def by blast+

lemma attended_later:
  assumes "attended f cr (object_at get k (in_past s)) a (length (in_past s))" "later s s'" "a' \<le> a"
  shows "attended f cr (object_at get k (in_past s')) a' (length (in_past s'))"
proof -
  have "object_at get k (in_past s') j = object_at get k (in_past s) j" if "j < length (in_past s)" for j
    using laterD(5) [OF assms(2) that] by (simp add: object_at_def)
  note same = this
  obtain b p where bp: "a \<le> b" "b \<le> p" "p < length (in_past s)"
    and g: "(\<exists>x. object_at get k (in_past s) b = Some x \<and> f x = Inr x) \<or>
      \<not> alike (object_at get k (in_past s) b) (object_at get k (in_past s) p) \<and>
      (controlled_by cr (object_at get k (in_past s) b) \<or> controlled_by cr (object_at get k (in_past s) p))"
    using assms(1) unfolding attended_def by blast
  have "b < length (in_past s)" using bp by simp
  note g = g [folded same [OF this] same [OF bp(3)]]
  show ?thesis
    unfolding attended_def
    by (rule exI [where x = b], rule exI [where x = p]) (use bp g assms(3) laterD(2) [OF assms(2)] in auto)
qed

locale lagging_stage =
  kind: fake_kind rk world_now get put + owned_writer f base cr fl fa fs
  for rk :: "('sp, other_fields) resource_kind" and get put
    and f :: "('sp, other_fields) mutate_fn" and base cr fl fa fs +
  fixes i :: informer
  assumes sharp_spec: "sharp (rk_merge_spec rk)" and decode_spec: "rk_decode rk sp = sp"
    and stored: "cluster_ok w \<Longrightarrow> tracker_ok rk (get w)"
begin

lemma created:
  assumes "kc_create (fake_client rk world_now get put) y w = (Inr z, w')" "f x = Inr y"
  shows "\<exists>v. fmlookup (get w') (ObjectKeyFromObject y) = Some (set_resourceVersion v y)"
    "controlled_by cr (fmlookup (get w') (ObjectKeyFromObject y))"
proof -
  let ?y = "set_resourceVersion ''1'' y"
  have "get w' = fmupd (ObjectKeyFromObject y) ?y (get w)"
    using assms(1) tracker_add_own [of "resource_string rk" ?y False "get w"]
    by (auto simp: fake_client_def on_tracker_def versioned_Create_def Let_def split: if_splits prod.splits)
  then show "\<exists>v. fmlookup (get w') (ObjectKeyFromObject y) = Some (set_resourceVersion v y)"
    "controlled_by cr (fmlookup (get w') (ObjectKeyFromObject y))"
    using controlled [OF assms(2)] by auto
qed

lemma patched:
  assumes ok: "tracker_ok rk (get w)" and upd: "kc_patch (fake_client rk world_now get put) x y w = (Inr z, w')"
    and fx: "f x = Inr y" and diff: "(metadata x, spec x) \<noteq> (metadata y, spec y)"
  shows "\<not> alike (Some x) (fmlookup (get w') (ObjectKeyFromObject y))"
    "controlled_by cr (Some x) \<or> controlled_by cr (fmlookup (get w') (ObjectKeyFromObject y))"
proof -
  have y: "y = owned_by cr (write_desired fl fa fs x)" using fx by (simp add: accepted_iff)
  obtain t' where t': "fake_Patch rk x y (get w) = (Inr z, t')" "get w' = t'"
    using upd by (auto simp: fake_client_def on_tracker_def split: prod.splits)
  obtain old v where old: "fmlookup t' (ObjectKeyFromObject y) =
      Some (set_resourceVersion v (decode_object rk (merge_object (rk_merge_spec rk) (rk_merge_status rk) x y old)))"
    by (rule lagging_patch [OF ok t'(1)]) (simp_all add: y)
  define p where "p = decode_object rk (merge_object (rk_merge_spec rk) (rk_merge_status rk) x y old)"
  have stored: "fmlookup (get w') (ObjectKeyFromObject y) = Some (set_resourceVersion v p)"
    using old t'(2) by (simp add: p_def)
  have refs: "om_ownerReferences (metadata p) =
      merge_atom (om_ownerReferences (metadata x)) (om_ownerReferences (metadata y)) (om_ownerReferences (metadata old))"
    by (simp add: p_def decode_object_def merge_object_def merge_meta_def)
  show "\<not> alike (Some x) (fmlookup (get w') (ObjectKeyFromObject y))"
  proof
    assume "alike (Some x) (fmlookup (get w') (ObjectKeyFromObject y))"
    then have same: "alike (Some p) (Some x)" unfolding stored using alike_sym by auto
    have "om_ownerReferences (metadata p) = om_ownerReferences (metadata x)" "om_labels (metadata p) = om_labels (metadata x)"
      "om_annotations (metadata p) = om_annotations (metadata x)" "spec p = spec x"
      by (rule alike_fields(1-3) [OF same] alike_same(2) [OF same])+
    then have "om_ownerReferences (metadata y) = om_ownerReferences (metadata x)" "om_labels (metadata y) = om_labels (metadata x)"
      "om_annotations (metadata y) = om_annotations (metadata x)" "spec y = spec x"
      by (auto simp: p_def decode_object_def merge_object_def merge_meta_def decode_spec
          dest: sharp_fields sharpD [OF sharp_spec])
    then have "metadata y = metadata x"
      by (cases "metadata x") (simp add: y owned_by_def write_desired_def upsertOwnerRef_refs)
    with \<open>spec y = spec x\<close> diff show False by simp
  qed
  show "controlled_by cr (Some x) \<or> controlled_by cr (fmlookup (get w') (ObjectKeyFromObject y))"
    using controlled [OF fx] refs stored
    by (auto simp: GetControllerOf_def merge_atom_def set_resourceVersion_def split: if_splits)
qed

lemma create_or_patch_attended:
  assumes b: "in_bounds s" and ok: "\<forall>w \<in> set (in_past s'). cluster_ok w"
    and run: "CreateOrPatch (NewDelegatingClient i get rk False (fake_client rk world_now get put)) x f s = ((res, None, obj), s')"
  shows "attended f cr (object_at get (ObjectKeyFromObject x) (in_past s')) (in_seen s i) (length (in_past s'))"
proof -
  let ?kc = "NewDelegatingClient i get rk False (fake_client rk world_now get put)" and ?k = "ObjectKeyFromObject x"
  obtain got s1 where got: "kc_get ?kc ?k s = (got, s1)" by fastforce
  note rd = later_reads [OF b got [unfolded delegating_simps]]
  define b where "b = in_seen s1 i"
  have b: "in_seen s i \<le> b" "b < length (in_past s1)"
    using laterD(1,3) [OF rd(1)] by (simp_all add: b_def in_bounds_def)
  have stored_next: "\<exists>w p. later s1 s2 \<and> w \<in> set (in_past s2) \<and> h w = (Inr z, in_past s2 ! p) \<and> b \<le> p \<and> p < length (in_past s2) \<and>
      object_at get ?k (in_past s2) b = fmlookup (get (in_past s1 ! b)) ?k"
    if "writes h s1 = (Inr z, s2)" for h z s2
  proof (rule later_writes [OF laterD(1) [OF rd(1)] that])
    fix w p assume "later s1 s2" "w \<in> set (in_past s2)" "h w = (Inr z, in_past s2 ! p)" "length (in_past s1) \<le> p"
      "Suc p = length (in_past s2)"
    moreover from this have "b \<le> p" "p < length (in_past s2)" using b(2) by simp_all
    moreover have "object_at get ?k (in_past s2) b = fmlookup (get (in_past s1 ! b)) ?k"
      using laterD(5) [OF \<open>later s1 s2\<close> b(2)] by (simp add: object_at_def)
    ultimately show ?thesis by blast
  qed
  show ?thesis
  proof (cases "fmlookup (get (in_past s1 ! b)) ?k")
    case None
    with rd(2) have "got = Inl (NewNotFound (kind_string (rk_gvk rk)) (snd ?k))" by (simp add: CacheReader_Get_def b_def)
    then obtain y z where y: "f x = Inr y" "ObjectKeyFromObject y = ?k" and cr: "kc_create ?kc y s1 = (Inr z, s')"
      using run got by (auto simp: CreateOrPatch_def mutate_def Let_def split: sum.splits prod.splits if_splits)
    obtain w p where w: "kc_create (fake_client rk world_now get put) y w = (Inr z, in_past s' ! p)" "b \<le> p" "p < length (in_past s')"
      "object_at get ?k (in_past s') b = None"
      using stored_next [OF cr [unfolded delegating_simps]] None by auto
    note c = created(2) [OF w(1) y(1), unfolded y(2)]
    show ?thesis
      by (rule attendedI(2) [OF b(1) w(2,3)]) (use c w(4) in \<open>auto simp: object_at_def controlled_by_def\<close>)
  next
    case (Some m)
    with rd(2) have got': "got = Inr m" by (simp add: CacheReader_Get_def b_def)
    then obtain y where y: "f m = Inr y" "ObjectKeyFromObject y = ?k"
      using run got by (auto simp: CreateOrPatch_def mutate_def Let_def split: sum.splits prod.splits if_splits)
    then have mut: "mutate f ?k m = Inr y" by (simp add: mutate_def)
    have st: "status m = status y" using keeps_status [OF y(1)] by simp
    show ?thesis
    proof (cases "(metadata m, spec m) = (metadata y, spec y)")
      case True
      with st have "m = y" by (cases m; cases y) simp
      then have "s' = s1" using run got got' mut by (simp add: CreateOrPatch_def patch_status_same)
      with Some b y(1) \<open>m = y\<close> show ?thesis by (intro attendedI(1) [OF b(1)]) (auto simp: object_at_def)
    next
      case False
      then obtain z where pt: "kc_patch ?kc m y s1 = (Inr z, s')"
        using run got got' mut
        by (auto simp: CreateOrPatch_def patch_object_def patch_status_same [OF st] split: sum.splits prod.splits if_splits)
      obtain w p where w: "w \<in> set (in_past s')" "kc_patch (fake_client rk world_now get put) m y w = (Inr z, in_past s' ! p)"
        "b \<le> p" "p < length (in_past s')" "object_at get ?k (in_past s') b = Some m"
        using stored_next [OF pt [unfolded delegating_simps]] Some by auto
      have "tracker_ok rk (get w)" using ok w(1) stored by blast
      note c = patched [OF this w(2) y(1) False, unfolded y(2)]
      show ?thesis
        by (rule attendedI(2) [OF b(1) w(3,4)]) (use c w(5) in \<open>auto simp: object_at_def\<close>)
    qed
  qed
qed

lemma stage_attended:
  assumes b: "in_bounds s" and ok: "\<forall>w \<in> set (in_past s'). cluster_ok w"
    and run: "ensure_object (NewDelegatingClient i get rk False (fake_client rk world_now get put)) name ns zero f prefix s = (None, s')"
  shows "attended f cr (object_at get (ns, name) (in_past s')) (in_seen s i) (length (in_past s'))"
proof -
  let ?kc = "NewDelegatingClient i get rk False (fake_client rk world_now get put)"
  obtain got s1 where got: "kc_get ?kc (ns, name) s = (got, s1)" by fastforce
  note rd = later_reads [OF b got [unfolded delegating_simps]]
  have final: "later s s'"
    using delegating.ensure_object_carries [OF later_refl [OF b] TrueI run] .
  obtain x res obj where x: "CreateOrPatch ?kc x f s1 = ((res, None, obj), s')" and
    found: "got = Inr x \<or> x = named_object name ns zero"
    using run got by (auto simp: ensure_object_def split: sum.splits prod.splits option.splits if_splits)
  have l1: "later s1 s'" using delegating.CreateOrPatch_carries [OF later_refl [OF laterD(1) [OF rd(1)]] TrueI x] .
  have key: "ObjectKeyFromObject x = (ns, name)"
  proof (cases "got = Inr x")
    case True
    with rd(2) have "CacheReader_Get rk False (ns, name) (get (in_past s1 ! in_seen s1 i)) = Inr x" by simp
    then have look: "fmlookup (get (in_past s1 ! in_seen s1 i)) (ns, name) = Some x"
      unfolding CacheReader_Get_found .
    have "in_past s1 ! in_seen s1 i \<in> set (in_past s')"
      using laterD(1) [OF rd(1)] laterD(4) [OF l1] by (auto simp: in_bounds_def)
    then have "tracker_ok rk (get (in_past s1 ! in_seen s1 i))" using ok stored by blast
    from tracker_okD [OF this look] show ?thesis by (simp add: stored_ok_def)
  next
    case False
    with found show ?thesis by (simp add: named_object_def ObjectKeyFromObject_def)
  qed
  show ?thesis
    using attended_later [OF create_or_patch_attended [OF laterD(1) [OF rd(1)] ok x] later_refl laterD(3) [OF rd(1)]]
      laterD(1) [OF final] unfolding key by blast
qed

end

interpretation module_lag: lagging_stage module_kind w_modules put_modules
    "\<lambda>m. SetDesiredModule (AddToScheme base) st (Some m) cr" base cr id id "\<lambda>_. desired_module_spec st cr" OfModules
  for base st cr
  by unfold_locales (simp_all add: sharp_module_spec cluster_okD, simp_all add: kind_defs sharp_module_spec)

interpretation labeler_lag: lagging_stage daemonset_kind w_daemonsets put_daemonsets
    "\<lambda>ds. SetDesiredNodeLabelerDaemonSet (AddToScheme base) st (Some ds) cr" base cr id id
    "write_daemon_set (labelsForNodeLabelerDaemonSet cr) (labeler_template st cr)" OfDaemonSets for base st cr
  by unfold_locales (simp_all add: sharp_daemon_set_spec cluster_okD, simp_all add: kind_defs sharp_daemon_set_spec)

interpretation metrics_lag: lagging_stage daemonset_kind w_daemonsets put_daemonsets
    "\<lambda>ds. SetDesiredNodeMetricsDaemonSet (AddToScheme base) st (Some ds) cr" base cr id id
    "write_daemon_set (labelsForNodeMetricsDaemonSet cr) (metrics_template st cr)" OfDaemonSets for base st cr
  by unfold_locales (simp_all add: sharp_daemon_set_spec cluster_okD, simp_all add: kind_defs sharp_daemon_set_spec)

end
