(* ===== verification/Lagging_Reconciliation.thy ===== *)
theory Lagging_Reconciliation
  imports Lagging_Stages
begin

text \<open>
  What a whole reconciliation on lagging caches leaves behind that returns no error and reports no conflict itself: the resource has changed since
  the reconciliation read it, or it is done, up to changes that its objects have undergone and that name the resource.
\<close>

declare split_paired_All [simp del] split_paired_Ex [simp del]

lemma dc_update_stored:
  assumes ok: "cluster_ok w" and upd: "kc_update (api_deviceconfigs cluster) y w = (Inr z, w')"
  obtains v where "z = set_resourceVersion v y"
    "fmlookup (w_deviceconfigs w') (ObjectKeyFromObject y) =
       (if being_deleted y \<and> om_finalizers (metadata y) = [] then None else Some (set_resourceVersion v y))"
proof -
  have vu: "versioned_Update deviceconfig_kind y (om_namespace (metadata y)) (w_deviceconfigs w) = (Inr z, w_deviceconfigs w')"
    using upd by (auto simp: fake_client_def on_tracker_def split: prod.splits)
  then obtain old where old: "fmlookup (w_deviceconfigs w) (ObjectKeyFromObject y) = Some old"
    "om_resourceVersion (metadata y) = om_resourceVersion (metadata old)"
    using dc_kind_strict
    by (cases "fmlookup (w_deviceconfigs w) (ObjectKeyFromObject y)")
       (auto simp: versioned_Update_def tracker_Get_def ObjectKeyFromObject_def Let_def split: if_splits)
  from versioned_Update_stored [OF cluster_okD(1) [OF ok] this]
  obtain v where "versioned_Update deviceconfig_kind y (om_namespace (metadata y)) (w_deviceconfigs w) =
      (Inr (set_resourceVersion v y),
       if \<not> time_IsZero (om_deletionTimestamp (metadata y)) \<and> om_finalizers (metadata y) = []
       then fmdrop (ObjectKeyFromObject y) (w_deviceconfigs w)
       else fmupd (ObjectKeyFromObject y) (set_resourceVersion v y) (w_deviceconfigs w))" by metis
  with vu have "z = set_resourceVersion v y" "w_deviceconfigs w' =
      (if being_deleted y \<and> om_finalizers (metadata y) = [] then fmdrop (ObjectKeyFromObject y) (w_deviceconfigs w)
       else fmupd (ObjectKeyFromObject y) (set_resourceVersion v y) (w_deviceconfigs w))"
    by (simp_all add: being_deleted_def)
  then show thesis by (intro that [of v]) simp_all
qed

text \<open>The same of the manager's client: the new state of the resource is in the history.\<close>

lemma manager_update:
  assumes b: "in_bounds s" and ok: "\<forall>w \<in> set (in_past s'). cluster_ok w"
    and upd: "kc_update (api_deviceconfigs manager_client) y s = (Inr z, s') \<or>
      kc_status_update (api_deviceconfigs manager_client) y s = (Inr z, s')"
  obtains p v where "later s s'" "length (in_past s) \<le> p" "p < length (in_past s')" "z = set_resourceVersion v y"
    "object_at w_deviceconfigs (ObjectKeyFromObject y) (in_past s') p =
       (if being_deleted y \<and> om_finalizers (metadata y) = [] then None else Some (set_resourceVersion v y))"
proof -
  have "writes (kc_update (api_deviceconfigs cluster) y) s = (Inr z, s')"
    using upd unfolding manager_simps delegating_simps by (simp add: fake_client_def)
  from later_writes [OF b this] obtain w p where w: "later s s'" "w \<in> set (in_past s')"
    "kc_update (api_deviceconfigs cluster) y w = (Inr z, in_past s' ! p)" "length (in_past s) \<le> p" "Suc p = length (in_past s')" .
  have "cluster_ok w" using ok w(2) by blast
  from dc_update_stored [OF this w(3)] obtain v where "z = set_resourceVersion v y"
    "fmlookup (w_deviceconfigs (in_past s' ! p)) (ObjectKeyFromObject y) =
       (if being_deleted y \<and> om_finalizers (metadata y) = [] then None else Some (set_resourceVersion v y))" .
  with w show thesis by (intro that [of p v]) (simp_all add: object_at_def)
qed

section \<open>The result of a reconciliation\<close>

definition dc_changed :: "object_key \<Rightarrow> world list \<Rightarrow> nat \<Rightarrow> bool" where
  "dc_changed k past a \<longleftrightarrow>
     (\<exists>b p. a \<le> b \<and> b \<le> p \<and> p < length past \<and>
        \<not> alike (object_at w_deviceconfigs k past b) (object_at w_deviceconfigs k past p))"

definition objects_attended ::
    "scheme \<Rightarrow> controller_settings \<Rightarrow> device_config \<Rightarrow> world list \<Rightarrow> (informer \<Rightarrow> nat) \<Rightarrow> bool" where
  "objects_attended base st dc past a \<longleftrightarrow>
     attended (\<lambda>m. SetDesiredModule (AddToScheme base) st (Some m) dc) dc
       (object_at w_modules (module_key dc) past) (a OfModules) (length past) \<and>
     attended (\<lambda>ds. SetDesiredNodeLabelerDaemonSet (AddToScheme base) st (Some ds) dc) dc
       (object_at w_daemonsets (labeler_key dc) past) (a OfDaemonSets) (length past) \<and>
     attended (\<lambda>ds. SetDesiredNodeMetricsDaemonSet (AddToScheme base) st (Some ds) dc) dc
       (object_at w_daemonsets (metrics_key dc) past) (a OfDaemonSets) (length past)"

definition dc_reported :: "object_key \<Rightarrow> world list \<Rightarrow> nat \<Rightarrow> bool" where
  "dc_reported k past b \<longleftrightarrow>
     (\<exists>p y. b \<le> p \<and> p < length past \<and> object_at w_deviceconfigs k past p = Some y \<and>
        reported_ready ''Reconciled'' all_reconciled (conditions (status y)))"

definition dc_done ::
    "scheme \<Rightarrow> controller_settings \<Rightarrow> object_key \<Rightarrow> world list \<Rightarrow> (informer \<Rightarrow> nat) \<Rightarrow> nat \<Rightarrow> bool" where
  "dc_done base st k past a b \<longleftrightarrow>
     (case object_at w_deviceconfigs k past b of
        None \<Rightarrow> True
      | Some dc \<Rightarrow>
          if being_deleted dc then \<not> ContainsDeletionFinalizer dc
          else ContainsDeletionFinalizer dc \<and> objects_attended base st dc past a \<and> dc_reported k past b)"

lemma objects_later:
  assumes "objects_attended base st dc (in_past s) a" "later s s'" "\<And>i. a' i \<le> a i"
  shows "objects_attended base st dc (in_past s') a'"
  using assms(1) unfolding objects_attended_def
  by (auto intro: attended_later [OF _ assms(2,3)])

lemma stage_failed_err [simp]: "stage_failed r dc reason err cs \<noteq> ((res, None), cs')"
  by (auto simp: stage_failed_def Let_def split: prod.splits option.splits)

lemma stages_without_error:
  assumes "reconcile_stages (operator_reconciler c sch st) dc cs = ((res, None), cs')"
  obtains s1 s2 s3 s4 d where "ReconcileModule c sch st dc (cs_world cs) = (None, s1)"
    "ReconcileNodeLabeler c sch st dc s1 = (None, s2)" "ReconcileNodeMetricsDaemonSet c sch st dc s2 = (None, s3)"
    "ReconcileNodeMetricsService c sch dc s3 = (None, s4)"
    "SetConditionsReady c dc ''Reconciled'' all_reconciled s4 = ((None, d), cs_world cs')"
proof -
  obtain e1 s1 where m: "ReconcileModule c sch st dc (cs_world cs) = (e1, s1)" by fastforce
  obtain e2 s2 where l: "ReconcileNodeLabeler c sch st dc s1 = (e2, s2)" by fastforce
  obtain e4 s4 where n: "ReconcileNodeMetrics c sch st dc s2 = (e4, s4)" by fastforce
  obtain e d s5 where r: "SetConditionsReady c dc ''Reconciled'' all_reconciled s4 = ((e, d), s5)"
    by (metis prod.exhaust)
  have none: "e1 = None" "e2 = None" "e4 = None" "e = None" "cs_world cs' = s5"
    using assms m l n r
    by (auto simp: reconcile_stages_def outside_def all_reconciled_def Let_def split: option.splits)
  then obtain s3 where "ReconcileNodeMetricsDaemonSet c sch st dc s2 = (None, s3)"
    "ReconcileNodeMetricsService c sch dc s3 = (None, s4)"
    using n by (auto simp: ReconcileNodeMetrics_def setNodeMetricsConditions_def split: prod.splits option.splits)
  with none m l r show thesis by (intro that) simp_all
qed

lemma ready_reported:
  assumes b: "in_bounds s" and ok: "\<forall>w \<in> set (in_past s'). cluster_ok w" and al: "\<not> being_deleted dc"
    and run: "SetConditionsReady manager_client dc ''Reconciled'' all_reconciled s = ((None, d), s')"
  shows "later s s'" "dc_reported (ObjectKeyFromObject dc) (in_past s') (length (in_past s))"
proof -
  define dc' where "dc' = set_conditions (ready_conditions (api_now manager_client s 0) (api_now manager_client s 1)
      ''Reconciled'' all_reconciled (conditions (status dc))) dc"
  have dc': "ObjectKeyFromObject dc' = ObjectKeyFromObject dc" "\<not> being_deleted dc'"
    "reported_ready ''Reconciled'' all_reconciled (conditions (status dc'))"
    using al by (simp_all add: dc'_def set_conditions_def ObjectKeyFromObject_def being_deleted_def)
  obtain y where "kc_status_update (api_deviceconfigs manager_client) dc' s = (Inr y, s')"
    using run by (auto simp: SetConditionsReady_def write_status_def dc'_def split: prod.splits sum.splits)
  then obtain p v where p: "later s s'" "length (in_past s) \<le> p" "p < length (in_past s')" "y = set_resourceVersion v dc'"
    "object_at w_deviceconfigs (ObjectKeyFromObject dc') (in_past s') p =
       (if being_deleted dc' \<and> om_finalizers (metadata dc') = [] then None else Some (set_resourceVersion v dc'))"
    by (rule manager_update [OF b ok disjI2])
  then show "later s s'" "dc_reported (ObjectKeyFromObject dc) (in_past s') (length (in_past s))"
    using dc' unfolding dc_reported_def by (simp, intro exI [where x = p]) simp
qed

lemma stages_lagging:
  assumes b: "in_bounds (cs_world cs)" and ok: "\<forall>w \<in> set (in_past (cs_world cs')). cluster_ok w"
    and run: "reconcile_stages (operator_reconciler manager_client (AddToScheme base) st) dc cs = ((res, None), cs')"
    and al: "\<not> being_deleted dc"
  shows "objects_attended base st dc (in_past (cs_world cs')) (in_seen (cs_world cs))"
    "dc_reported (ObjectKeyFromObject dc) (in_past (cs_world cs')) (length (in_past (cs_world cs)))"
proof -
  let ?s = "cs_world cs" and ?s' = "cs_world cs'" and ?sch = "AddToScheme base"
  obtain s1 s2 s3 s4 d where m: "ReconcileModule manager_client ?sch st dc ?s = (None, s1)"
    and l: "ReconcileNodeLabeler manager_client ?sch st dc s1 = (None, s2)"
    and n: "ReconcileNodeMetricsDaemonSet manager_client ?sch st dc s2 = (None, s3)"
    and v: "ReconcileNodeMetricsService manager_client ?sch dc s3 = (None, s4)"
    and r: "SetConditionsReady manager_client dc ''Reconciled'' all_reconciled s4 = ((None, d), ?s')"
    by (rule stages_without_error [OF run])
  note l1 = later_stages(1) [OF later_refl [OF b] m]
  note l2 = later_stages(2) [OF later_refl [OF laterD(1) [OF l1]] l]
  note l3 = later_stages(3) [OF later_refl [OF laterD(1) [OF l2]] n]
  note l4 = later_stages(4) [OF later_refl [OF laterD(1) [OF l3]] v]
  note rep = ready_reported [OF laterD(1) [OF l4] ok al r]
  note r3 = later_trans [OF l4 rep(1)]
  note r2 = later_trans [OF l3 r3]
  note r1 = later_trans [OF l2 r2]
  have oks: "\<forall>w \<in> set (in_past t). cluster_ok w" if "later t ?s'" for t
    using ok laterD(4) [OF that] by blast
  show "objects_attended base st dc (in_past ?s') (in_seen ?s)"
    unfolding objects_attended_def
  proof (intro conjI)
    show "attended (\<lambda>m. SetDesiredModule ?sch st (Some m) dc) dc
        (object_at w_modules (module_key dc) (in_past ?s')) (in_seen ?s OfModules) (length (in_past ?s'))"
      using attended_later [OF module_lag.stage_attended [OF b oks [OF r1]] r1 order.refl] m
      unfolding ReconcileModule_eq manager_simps cluster_simps by blast
    show "attended (\<lambda>ds. SetDesiredNodeLabelerDaemonSet ?sch st (Some ds) dc) dc
        (object_at w_daemonsets (labeler_key dc) (in_past ?s')) (in_seen ?s OfDaemonSets) (length (in_past ?s'))"
      using attended_later [OF labeler_lag.stage_attended [OF laterD(1) [OF l1] oks [OF r2]] r2 laterD(3) [OF l1]] l
      unfolding ReconcileNodeLabeler_eq manager_simps cluster_simps by blast
    show "attended (\<lambda>ds. SetDesiredNodeMetricsDaemonSet ?sch st (Some ds) dc) dc
        (object_at w_daemonsets (metrics_key dc) (in_past ?s')) (in_seen ?s OfDaemonSets) (length (in_past ?s'))"
      using attended_later [OF metrics_lag.stage_attended [OF laterD(1) [OF l2] oks [OF r3]] r3
          laterD(3) [OF later_trans [OF l1 l2]]] n
      unfolding ReconcileNodeMetricsDaemonSet_eq manager_simps cluster_simps by blast
  qed
  have "length (in_past ?s) \<le> length (in_past s4)"
    using laterD(2) [OF later_trans [OF l1 later_trans [OF l2 later_trans [OF l3 l4]]]] .
  with rep(2) show "dc_reported (ObjectKeyFromObject dc) (in_past ?s') (length (in_past ?s))"
    unfolding dc_reported_def using le_trans by blast
qed

section \<open>Whole reconciliations\<close>

text \<open>Adding or removing the finalizer changes the resource.\<close>

lemma written_unlike:
  assumes b: "in_bounds s" and ok: "\<forall>w \<in> set (in_past s'). cluster_ok w"
    and upd: "kc_update (api_deviceconfigs manager_client) y s = (Inr z, s')"
    and ne: "om_finalizers (metadata y) \<noteq> om_finalizers (metadata x)"
  obtains p where "length (in_past s) \<le> p" "p < length (in_past s')"
    "\<not> alike (Some x) (object_at w_deviceconfigs (ObjectKeyFromObject y) (in_past s') p)"
proof -
  obtain p v where p: "length (in_past s) \<le> p" "p < length (in_past s')"
    "object_at w_deviceconfigs (ObjectKeyFromObject y) (in_past s') p =
       (if being_deleted y \<and> om_finalizers (metadata y) = [] then None else Some (set_resourceVersion v y))"
    by (rule manager_update [OF b ok disjI1 [OF upd]])
  moreover have "\<not> alike (Some x) (Some y)" using ne alike_fields(4) by metis
  ultimately show thesis by (intro that [of p]) auto
qed

lemma finalizer_unlike:
  assumes b: "in_bounds s" and ok: "\<forall>w \<in> set (in_past s'). cluster_ok w"
    and run: "\<not> ContainsDeletionFinalizer dc \<and> AddDeletionFinalizer manager_client dc s = ((None, d), s') \<or>
      ContainsDeletionFinalizer dc \<and> RemoveDeletionFinalizer manager_client dc s = ((None, d), s')"
  obtains p where "length (in_past s) \<le> p" "p < length (in_past s')"
    "\<not> alike (Some dc) (object_at w_deviceconfigs (ObjectKeyFromObject dc) (in_past s') p)"
proof -
  have "\<exists>y z. kc_update (api_deviceconfigs manager_client) y s = (Inr z, s') \<and> ObjectKeyFromObject y = ObjectKeyFromObject dc \<and>
      om_finalizers (metadata y) \<noteq> om_finalizers (metadata dc)"
  proof (cases "ContainsDeletionFinalizer dc")
    case False
    then have "om_finalizers (metadata (finalized dc)) \<noteq> om_finalizers (metadata dc)" by (simp add: finalized_def)
    with run False show ?thesis
      by (intro exI [where x = "finalized dc"] exI [where x = d]) (auto simp: AddDeletionFinalizer_eq split: prod.splits sum.splits)
  next
    case True
    then have "DeviceConfigDeletionFinalizer \<in> set (om_finalizers (metadata dc))" by (simp add: ContainsDeletionFinalizer_iff)
    then have "om_finalizers (metadata (unfinalized dc)) \<noteq> om_finalizers (metadata dc)"
      by (auto simp: unfinalized_def filter_id_conv)
    with run True show ?thesis
      by (intro exI [where x = "unfinalized dc"] exI [where x = d])
         (auto simp: RemoveDeletionFinalizer_eq unfinalized_def split: prod.splits sum.splits)
  qed
  then obtain y z where y: "kc_update (api_deviceconfigs manager_client) y s = (Inr z, s')"
    "ObjectKeyFromObject y = ObjectKeyFromObject dc" "om_finalizers (metadata y) \<noteq> om_finalizers (metadata dc)" by blast
  from written_unlike [OF b ok y(1,3)] y(2) that show thesis by metis
qed

definition no_warnings :: "event list \<Rightarrow> bool" where
  "no_warnings es \<longleftrightarrow> list_all (\<lambda>e. ev_type e \<noteq> EventTypeWarning) es"

lemma alive_without_error:
  assumes "rc_Get r req (cs_world cs) = (Inr dc, s1)" "\<not> being_deleted dc"
    and "Reconcile r req cs = ((res, None), cs')" "cs_events cs' = cs_events cs @ es" "no_warnings es"
  obtains s2 dc1 s3 where "nsv_Check r dc s1 = (None, s2)" "add_missing_finalizer r dc s2 = ((None, dc1), s3)"
    "reconcile_stages r dc1 (cs\<lparr>cs_world := s3\<rparr>) = ((res, None), cs')"
proof -
  obtain e s2 where e: "nsv_Check r dc s1 = (e, s2)" by fastforce
  obtain e' dc1 s3 where f: "add_missing_finalizer r dc s2 = ((e', dc1), s3)" by (metis prod.exhaust)
  have e: "nsv_Check r dc s1 = (None, s2)"
  proof (cases e)
    case (Some err)
    from Reconcile_conflict [OF assms(1,2), of err s2] e Some assms(3-5) show ?thesis
      by (auto simp: no_warnings_def record_event_def set_gauge_def)
  qed (use e in simp)
  have "e' = None"
    using assms(1-3) e f by (cases e') (auto simp: Reconcile_def outside_def being_deleted_def)
  with e f Reconcile_stages [OF assms(1,2) e] assms(3) show thesis by (intro that) auto
qed

lemma deletion_without_error:
  assumes "reconcile_deletion (operator_reconciler c sch st) dc cs = ((res, None), cs')" "ContainsDeletionFinalizer dc"
  obtains s1 d where "DeleteModule c dc (cs_world cs) = (None, s1)"
    "RemoveDeletionFinalizer c dc s1 = ((None, d), cs_world cs')"
  using assms
  by (auto simp: reconcile_deletion_def deleteDeviceConfigResources_def outside_def Let_def set_gauge_def
      split: prod.splits option.splits)

text \<open>The resource is not any more what it was when it was read.\<close>

definition moved_on :: "device_config \<Rightarrow> informed \<Rightarrow> informed \<Rightarrow> bool" where
  "moved_on dc s s' \<longleftrightarrow>
     (\<exists>p. length (in_past s) \<le> p \<and> p < length (in_past s') \<and>
        \<not> alike (Some dc) (object_at w_deviceconfigs (ObjectKeyFromObject dc) (in_past s') p))"

lemma moved_on_later:
  assumes "moved_on dc s s'" "later s0 s" "later s' s''"
  shows "moved_on dc s0 s''"
proof -
  obtain p where "length (in_past s) \<le> p" "p < length (in_past s')"
    "\<not> alike (Some dc) (object_at w_deviceconfigs (ObjectKeyFromObject dc) (in_past s') p)"
    using assms(1) unfolding moved_on_def by blast
  then show ?thesis
    using laterD(2) [OF assms(2)] laterD(2) [OF assms(3)] laterD(5) [OF assms(3), of p] unfolding moved_on_def
    by (intro exI [where x = p]) (simp add: object_at_def)
qed

lemma deletion_lagging:
  assumes b: "in_bounds (cs_world cs)" and ok: "\<forall>w \<in> set (in_past (cs_world cs')). cluster_ok w"
    and run: "reconcile_deletion (operator_reconciler manager_client sch st) dc cs = ((res, None), cs')"
  shows "later (cs_world cs) (cs_world cs')" "moved_on dc (cs_world cs) (cs_world cs') \<or> \<not> ContainsDeletionFinalizer dc"
proof -
  let ?s = "cs_world cs" and ?s' = "cs_world cs'"
  have "later ?s ?s' \<and> (moved_on dc ?s ?s' \<or> \<not> ContainsDeletionFinalizer dc)"
  proof (cases "ContainsDeletionFinalizer dc")
    case False
    then have "?s' = ?s" using run by (auto simp: reconcile_deletion_def outside_def set_gauge_def Let_def)
    with False later_refl [OF b] show ?thesis by simp
  next
    case True
    obtain s2 d where d: "DeleteModule manager_client dc ?s = (None, s2)"
      "RemoveDeletionFinalizer manager_client dc s2 = ((None, d), ?s')"
      by (rule deletion_without_error [OF run True])
    note l2 = later_module_deleted [OF later_refl [OF b] d(1)]
    note l3 = later_finalizer(2) [OF later_refl [OF laterD(1) [OF l2]] d(2)]
    have "moved_on dc s2 ?s'"
      using finalizer_unlike [OF laterD(1) [OF l2] ok disjI2 [OF conjI [OF True d(2)]]] unfolding moved_on_def by blast
    from moved_on_later [OF this l2 later_refl [OF laterD(1) [OF l3]]] later_trans [OF l2 l3] show ?thesis by simp
  qed
  then show "later ?s ?s'" "moved_on dc ?s ?s' \<or> \<not> ContainsDeletionFinalizer dc" by blast+
qed

lemma alive_lagging:
  assumes b: "in_bounds s1" and ok: "\<forall>w \<in> set (in_past (cs_world cs')). cluster_ok w" and al: "\<not> being_deleted dc"
    and chk: "CheckDeviceConfigForConflictingNodeSelector manager_client dc s1 = (None, s2)"
    and fin: "(if \<not> ContainsDeletionFinalizer dc then AddDeletionFinalizer manager_client dc s2 else ((None, dc), s2)) = ((None, dc1), s3)"
    and run: "reconcile_stages (operator_reconciler manager_client (AddToScheme base) st) dc1 (cs\<lparr>cs_world := s3\<rparr>) = ((res, None), cs')"
  shows "later s1 (cs_world cs')" "moved_on dc s1 (cs_world cs') \<or> ContainsDeletionFinalizer dc \<and>
    objects_attended base st dc (in_past (cs_world cs')) (in_seen s1) \<and>
    dc_reported (ObjectKeyFromObject dc) (in_past (cs_world cs')) (length (in_past s1))"
proof -
  let ?s' = "cs_world cs'"
  note l2 = later_check [OF later_refl [OF b] chk]
  have l3: "later s2 s3"
    using later_finalizer(1) [OF later_refl [OF laterD(1) [OF l2]]] fin later_refl [OF laterD(1) [OF l2]]
    by (auto split: if_splits)
  have l4: "later s3 ?s'"
    using growing.stages_calm [of s3 "cs\<lparr>cs_world := s3\<rparr>" "AddToScheme base" st dc1] run later_refl [OF laterD(1) [OF l3]]
    by simp
  show "later s1 ?s'" by (rule later_trans [OF later_trans [OF l2 l3] l4])
  show "moved_on dc s1 ?s' \<or> ContainsDeletionFinalizer dc \<and> objects_attended base st dc (in_past ?s') (in_seen s1) \<and>
    dc_reported (ObjectKeyFromObject dc) (in_past ?s') (length (in_past s1))"
  proof (cases "ContainsDeletionFinalizer dc")
    case False
    then have add: "AddDeletionFinalizer manager_client dc s2 = ((None, dc1), s3)" using fin by simp
    have "\<forall>w \<in> set (in_past s3). cluster_ok w" using ok laterD(4) [OF l4] by blast
    from finalizer_unlike [OF laterD(1) [OF l2] this disjI1 [OF conjI [OF False add]]]
    have "moved_on dc s2 s3" unfolding moved_on_def by blast
    from moved_on_later [OF this l2 l4] show ?thesis ..
  next
    case True
    then have "dc1 = dc" "s3 = s2" using fin by simp_all
    with run stages_lagging [of "cs\<lparr>cs_world := s3\<rparr>" cs' base st dc res] laterD(1) [OF l3] ok al
    have st: "objects_attended base st dc (in_past ?s') (in_seen s3)"
      "dc_reported (ObjectKeyFromObject dc) (in_past ?s') (length (in_past s3))" by simp_all
    note l13 = later_trans [OF l2 l3]
    have "objects_attended base st dc (in_past ?s') (in_seen s1)"
      by (rule objects_later [OF st(1) later_refl [OF laterD(1) [OF l4]] laterD(3) [OF l13]])
    moreover have "dc_reported (ObjectKeyFromObject dc) (in_past ?s') (length (in_past s1))"
      using st(2) laterD(2) [OF l13] unfolding dc_reported_def using le_trans by blast
    ultimately show ?thesis using True by blast
  qed
qed

section \<open>What a reconciliation records\<close>

lemma read_key:
  assumes b: "in_bounds s" and get: "kc_get (api_deviceconfigs manager_client) req s = (Inr dc, s1)"
    and l: "later s1 s'" and ok: "\<forall>w \<in> set (in_past s'). cluster_ok w"
  shows "ObjectKeyFromObject dc = req"
proof -
  note rd = later_reads [OF b get [unfolded manager_simps delegating_simps]]
  let ?b = "in_seen s1 OfDeviceConfigs"
  have b: "?b < length (in_past s1)" using laterD(1) [OF rd(1)] by (simp add: in_bounds_def)
  then have at: "in_past s' ! ?b = in_past s1 ! ?b" "?b < length (in_past s')" using laterD(2) [OF l] laterD(5) [OF l] by auto
  then have "cluster_ok (in_past s1 ! ?b)" using ok by (metis nth_mem)
  moreover have "fmlookup (w_deviceconfigs (in_past s1 ! ?b)) req = Some dc"
    using rd(2) by (simp add: CacheReader_Get_def split: option.splits)
  ultimately show ?thesis by (rule stored_key_dc)
qed

lemma Reconcile_not_added:
  "rc_Get r req (cs_world cs) = (Inr dc, w) \<Longrightarrow> \<not> being_deleted dc \<Longrightarrow> nsv_Check r dc w = (None, w1) \<Longrightarrow>
   add_missing_finalizer r dc w1 = ((Some err, dc1), w2) \<Longrightarrow>
   Reconcile r req cs = ((empty_result, Some err), cs\<lparr>cs_world := w2\<rparr>)"
  by (simp add: Reconcile_def outside_def being_deleted_def)

lemma outside_events: "outside f cs = (x, cs') \<Longrightarrow> cs_events cs' = cs_events cs"
  by (auto simp: outside_def split: prod.splits)

lemma stage_failed_events: "cs_events (snd (stage_failed r dc reason err cs)) = cs_events cs"
  by (auto simp: stage_failed_def Let_def set_gauge_def dest: outside_events split: prod.split)

lemma deletion_events: "cs_events (snd (reconcile_deletion r dc cs)) = cs_events cs"
  by (auto simp: reconcile_deletion_def deleteDeviceConfigResources_def Let_def set_gauge_def
      dest!: outside_events split: prod.split option.split)

definition says_about :: "object_key \<Rightarrow> event list \<Rightarrow> event list \<Rightarrow> bool" where
  "says_about k es es' \<longleftrightarrow> es' = es \<or> (\<exists>e. es' = es @ [e] \<and> ev_object e = k)"

lemma stages_events: "says_about (ObjectKeyFromObject dc) (cs_events cs) (cs_events (snd (reconcile_stages r dc cs)))"
proof -
  obtain a c1 where a: "outside (mr_ReconcileModule r dc) cs = (a, c1)" by fastforce
  obtain b c2 where b: "outside (nlr_ReconcileNodeLabeler r dc) c1 = (b, c2)" by fastforce
  obtain c c3 where c: "outside (nmr_ReconcileNodeMetrics r dc) c2 = (c, c3)" by fastforce
  note ev = outside_events [OF a] outside_events [OF b] outside_events [OF c]
  show ?thesis
    by (cases a; cases b; cases c)
       (auto simp: reconcile_stages_def a b c ev stage_failed_events says_about_def Let_def record_event_def set_gauge_def
         dest: outside_events split: prod.split)
qed

lemma added_key:
  assumes "in_bounds s" "\<forall>w \<in> set (in_past s'). cluster_ok w" "AddDeletionFinalizer manager_client dc s = ((None, d), s')"
  shows "ObjectKeyFromObject d = ObjectKeyFromObject dc"
proof -
  have "kc_update (api_deviceconfigs manager_client) (finalized dc) s = (Inr d, s')"
    using assms(3) by (auto simp: AddDeletionFinalizer_eq split: prod.splits sum.splits)
  from manager_update [OF assms(1,2) disjI1 [OF this]] obtain v where "d = set_resourceVersion v (finalized dc)" by metis
  then show ?thesis by (simp add: finalized_def ObjectKeyFromObject_def)
qed

lemma reconcile_events:
  assumes b: "in_bounds (cs_world cs)" and ok: "\<forall>w \<in> set (in_past (cs_world cs')). cluster_ok w"
    and run: "Reconcile (operator_reconciler manager_client (AddToScheme base) st) req cs = (out, cs')"
  shows "says_about req (cs_events cs) (cs_events cs')"
proof -
  let ?r = "operator_reconciler manager_client (AddToScheme base) st" and ?s = "cs_world cs" and ?s' = "cs_world cs'"
  obtain x s1 where x: "kc_get (api_deviceconfigs manager_client) req ?s = (x, s1)" by fastforce
  note b1 = laterD(1) [OF later_reads(1) [OF b x [unfolded manager_simps delegating_simps]]]
  have get: "rc_Get ?r req ?s = (x, s1)" using x by simp
  show ?thesis
  proof (cases x)
    case (Inl err)
    then show ?thesis using run get by (auto simp: Reconcile_def outside_def says_about_def set_gauge_def split: if_splits)
  next
    case (Inr dc)
    note key = read_key [OF b x [unfolded Inr] _ ok]
    show ?thesis
    proof (cases "being_deleted dc")
      case True
      with Reconcile_deletion [OF get [unfolded Inr]] run
      have "cs' = snd (reconcile_deletion ?r dc (cs\<lparr>cs_world := s1\<rparr>))" by (metis snd_conv)
      then show ?thesis by (simp add: deletion_events says_about_def)
    next
      case False
      obtain e s2 where e: "CheckDeviceConfigForConflictingNodeSelector manager_client dc s1 = (e, s2)" by fastforce
      note l2 = later_check [OF later_refl [OF b1] e]
      note b2 = laterD(1) [OF l2]
      show ?thesis
      proof (cases e)
        case (Some err)
        then have "cs_world cs' = s2" "cs_events cs' = cs_events cs @
            [\<lparr>ev_object = ObjectKeyFromObject dc, ev_type = EventTypeWarning, ev_reason = ''Error'', ev_message = conflict_message\<rparr>]"
          using Reconcile_conflict [OF get [unfolded Inr] False, of err s2] e run by (auto simp: set_gauge_def record_event_def)
        with key l2 show ?thesis by (simp add: says_about_def)
      next
        case None
        obtain e' d s3 where f: "add_missing_finalizer ?r dc s2 = ((e', d), s3)" by (metis surj_pair)
        show ?thesis
        proof (cases e')
          case (Some err)
          then have "cs_events cs' = cs_events cs"
            using Reconcile_not_added [OF get [unfolded Inr] False _ f [unfolded Some]] None e run by auto
          then show ?thesis by (simp add: says_about_def)
        next
          case e': None
          have st: "reconcile_stages ?r d (cs\<lparr>cs_world := s3\<rparr>) = (out, cs')"
            using Reconcile_stages [OF get [unfolded Inr] False] None e e' f run by simp
          have l3: "later s2 s3"
            using later_finalizer(1) [OF later_refl [OF b2]] f e' later_refl [OF b2] by (auto split: if_splits)
          have l4: "later s3 ?s'"
            using growing.stages_calm [of s3 "cs\<lparr>cs_world := s3\<rparr>" "AddToScheme base" st d] st later_refl [OF laterD(1) [OF l3]]
            by simp
          have "\<forall>w \<in> set (in_past s3). cluster_ok w" using ok laterD(4) [OF l4] by blast
          then have "ObjectKeyFromObject d = ObjectKeyFromObject dc"
            using added_key [OF b2] f e' by (auto split: if_splits)
          with key [OF later_trans [OF later_trans [OF l2 l3] l4]] have "ObjectKeyFromObject d = req" by simp
          with stages_events [of d "cs\<lparr>cs_world := s3\<rparr>" ?r] show ?thesis unfolding st by simp
        qed
      qed
    qed
  qed
qed

lemma reconcile_lagging:
  assumes b: "in_bounds (cs_world cs)" and ok: "\<forall>w \<in> set (in_past (cs_world cs')). cluster_ok w"
    and run: "Reconcile (operator_reconciler manager_client (AddToScheme base) st) req cs = ((res, None), cs')"
    and calm: "cs_events cs' = cs_events cs @ es" "no_warnings es"
  shows "dc_changed req (in_past (cs_world cs')) (in_seen (cs_world cs) OfDeviceConfigs) \<or>
    (\<exists>b. in_seen (cs_world cs) OfDeviceConfigs \<le> b \<and> b < length (in_past (cs_world cs')) \<and>
       dc_done base st req (in_past (cs_world cs')) (in_seen (cs_world cs)) b)"
proof -
  let ?r = "operator_reconciler manager_client (AddToScheme base) st" and ?s = "cs_world cs" and ?s' = "cs_world cs'"
  obtain x s1 where x: "kc_get (api_deviceconfigs manager_client) req ?s = (x, s1)" by fastforce
  note rd = later_reads [OF b x [unfolded manager_simps delegating_simps]]
  note b1 = laterD(1) [OF rd(1)]
  define b where "b = in_seen s1 OfDeviceConfigs"
  have b: "in_seen ?s OfDeviceConfigs \<le> b" "b < length (in_past s1)"
    using b1 laterD(3) [OF rd(1)] by (simp_all add: b_def in_bounds_def)
  have get: "rc_Get ?r req ?s = (x, s1)" using x by simp
  have at: "object_at w_deviceconfigs req (in_past ?s') b = (case x of Inl _ \<Rightarrow> None | Inr dc \<Rightarrow> Some dc)" "b < length (in_past ?s')"
    if l: "later s1 ?s'"
    using laterD(2) [OF l] laterD(5) [OF l b(2)] b(2) rd(2)
    by (auto simp: object_at_def CacheReader_Get_def b_def split: option.split)
  show ?thesis
  proof (cases x)
    case (Inl err)
    then have "?s' = s1" using run get by (auto simp: Reconcile_def outside_def split: if_splits)
    with at later_refl [OF b1] Inl b show ?thesis by (intro disjI2 exI [where x = b]) (simp add: dc_done_def)
  next
    case (Inr dc)
    have *: "later s1 ?s' \<and> (moved_on dc s1 ?s' \<or> (if being_deleted dc then \<not> ContainsDeletionFinalizer dc
        else ContainsDeletionFinalizer dc \<and> objects_attended base st dc (in_past ?s') (in_seen s1) \<and>
          dc_reported (ObjectKeyFromObject dc) (in_past ?s') (length (in_past s1))))"
    proof (cases "being_deleted dc")
      case True
      then have "reconcile_deletion ?r dc (cs\<lparr>cs_world := s1\<rparr>) = ((res, None), cs')"
        using Reconcile_deletion [OF get [unfolded Inr]] run by simp
      from deletion_lagging [OF _ ok this] b1 True show ?thesis by simp
    next
      case False
      from alive_without_error [OF get [unfolded Inr] False run calm]
      obtain s2 dc1 s3 where c: "CheckDeviceConfigForConflictingNodeSelector manager_client dc s1 = (None, s2)"
        "(if \<not> ContainsDeletionFinalizer dc then AddDeletionFinalizer manager_client dc s2 else ((None, dc), s2)) = ((None, dc1), s3)"
        "reconcile_stages ?r dc1 (cs\<lparr>cs_world := s3\<rparr>) = ((res, None), cs')"
        unfolding operator_reconciler_simps add_missing_finalizer_operator by blast
      from alive_lagging [OF b1 ok False c] False show ?thesis by simp
    qed
    note l = conjunct1 [OF *]
    have "cluster_ok (in_past ?s' ! b)" "fmlookup (w_deviceconfigs (in_past ?s' ! b)) req = Some dc"
      using at [OF l] ok Inr by (simp_all add: object_at_def)
    then have key: "ObjectKeyFromObject dc = req" by (rule stored_key_dc)
    show ?thesis
    proof (cases "moved_on dc s1 ?s'")
      case True
      then obtain p where "length (in_past s1) \<le> p" "p < length (in_past ?s')"
        "\<not> alike (Some dc) (object_at w_deviceconfigs req (in_past ?s') p)"
        unfolding moved_on_def key by blast
      with at(1) [OF l] b Inr show ?thesis
        unfolding dc_changed_def by (intro disjI1 exI [where x = b] exI [where x = p]) auto
    next
      case False
      have "objects_attended base st dc (in_past ?s') (in_seen ?s)" if "objects_attended base st dc (in_past ?s') (in_seen s1)"
        by (rule objects_later [OF that later_refl [OF laterD(1) [OF l]] laterD(3) [OF rd(1)]])
      moreover have "dc_reported req (in_past ?s') b" if "dc_reported req (in_past ?s') (length (in_past s1))"
        using that b(2) unfolding dc_reported_def using le_trans less_imp_le by blast
      ultimately show ?thesis
        using False * at [OF l] b(1) Inr key by (intro disjI2 exI [where x = b]) (auto simp: dc_done_def)
    qed
  qed
qed

end
