(* ===== verification/Lagging_Loop.thy ===== *)
theory Lagging_Loop
  imports Control_Loop Lagging_Reconciliation
begin

text \<open>
  The control loop with the client that the manager gives to the operator. What the server changes is told to the handlers when the cache of
  that kind catches up with the change, and reaches them later still; others act at any time, also within a reconciliation. Whenever such a
  run comes to rest, everything that the operator watches is as the resources ask for.
\<close>

declare split_paired_All [simp del] split_paired_Ex [simp del]

section \<open>What the informers tell\<close>

definition informer_changes :: "informer \<Rightarrow> world \<Rightarrow> world \<Rightarrow> (string \<times> watch_event) set" where
  "informer_changes i w w' =
     (case i of
        OfDeviceConfigs \<Rightarrow> kind_changes ''DeviceConfig'' (w_deviceconfigs w) (w_deviceconfigs w')
      | OfModules \<Rightarrow> kind_changes ''Module'' (w_modules w) (w_modules w')
      | OfDaemonSets \<Rightarrow> kind_changes ''DaemonSet'' (w_daemonsets w) (w_daemonsets w')
      | OfServices \<Rightarrow> kind_changes ''Service'' (w_services w) (w_services w')
      | OfNodes \<Rightarrow> kind_changes ''Node'' (w_nodes w) (w_nodes w'))"

text \<open>The changes that the caches go through on the way from the states \<open>a\<close> to the states \<open>e\<close> of the history.\<close>

definition news :: "(informer \<Rightarrow> nat) \<Rightarrow> (informer \<Rightarrow> nat) \<Rightarrow> world list \<Rightarrow> (string \<times> watch_event) set" where
  "news a e past = (\<Union>i. \<Union>j \<in> {a i..<e i}. informer_changes i (past ! j) (past ! Suc j))"

definition up_to_date :: "world list \<Rightarrow> informer \<Rightarrow> nat" where
  "up_to_date past = (\<lambda>_. length past - 1)"

definition requests :: "(string \<times> watch_event) set \<Rightarrow> object_key set" where
  "requests E = (\<Union>ke \<in> E. set (event_requests ke))"

lemma requests_simps [simp]:
  "requests {} = {}" "requests (A \<union> B) = requests A \<union> requests B"
  "requests (insert ke A) = set (event_requests ke) \<union> requests A"
  by (auto simp: requests_def)

lemma requests_mono: "A \<subseteq> B \<Longrightarrow> requests A \<subseteq> requests B"
  by (auto simp: requests_def)

lemma newsI: "a i \<le> j \<Longrightarrow> j < e i \<Longrightarrow> k \<in> requests (informer_changes i (past ! j) (past ! Suc j)) \<Longrightarrow> k \<in> requests (news a e past)"
  by (fastforce simp: news_def requests_def)

lemma news_iff:
  "x \<in> news a e past \<longleftrightarrow> (\<exists>i j. a i \<le> j \<and> j < e i \<and> x \<in> informer_changes i (past ! j) (past ! Suc j))"
  by (fastforce simp: news_def)

lemma news_mono:
  assumes "\<And>i. a' i \<le> a i"
  shows "news a e past \<subseteq> news a' e past"
  unfolding news_def by (intro UN_mono order.refl) (simp add: assms)

section \<open>The step of the loop\<close>

record lagging_runtime =
  lr_state :: "informed controller_state"
  lr_queue :: "object_key work_queue"
  lr_events :: "(string \<times> watch_event) list"

definition scheduled :: "other_action list list \<Rightarrow> informed controller_state \<Rightarrow> informed controller_state" where
  "scheduled as cs = cs\<lparr>cs_world := (cs_world cs)\<lparr>in_schedule := as\<rparr>\<rparr>"

definition told :: "informed controller_state \<Rightarrow> informed controller_state \<Rightarrow> (string \<times> watch_event) set" where
  "told cs cs' = news (in_seen (cs_world cs)) (in_seen (cs_world cs')) (in_past (cs_world cs'))"

inductive lagging_step ::
    "rest_mapper \<Rightarrow> (string \<times> event_handler) list \<Rightarrow> scheme \<Rightarrow> controller_settings \<Rightarrow> lagging_runtime \<Rightarrow> lagging_runtime \<Rightarrow> bool"
  for mapper ws base st where
  others_happen:
    "cs' = happens base st (Others a) (lr_state s) \<Longrightarrow> set evs = told (lr_state s) cs' \<Longrightarrow>
     lagging_step mapper ws base st s (s\<lparr>lr_state := cs', lr_events := lr_events s @ evs\<rparr>)"
| handlers_called:
    "lr_events s = xs @ ke # ys \<Longrightarrow>
     lagging_step mapper ws base st s (s\<lparr>lr_queue := deliver mapper ws ke (lr_queue s), lr_events := xs @ ys\<rparr>)"
| retry_added:
    "req \<in> fmdom' (wq_waiting (lr_queue s)) \<Longrightarrow>
     lagging_step mapper ws base st s (s\<lparr>lr_queue := add_ready req (lr_queue s)\<rparr>)"
| worker_reconciles:
    "wq_processing (lr_queue s) = {} \<Longrightarrow> wq_Get (lr_queue s) = (Item req, q1) \<Longrightarrow>
     reconcileHandler (operator_reconciler manager_client (AddToScheme base) st) now bucket req (scheduled as (lr_state s), q1) = (cs', q2) \<Longrightarrow>
     set evs = told (lr_state s) cs' \<Longrightarrow>
     lagging_step mapper ws base st s (s\<lparr>lr_state := cs', lr_queue := q2, lr_events := lr_events s @ evs\<rparr>)"
| worker_finishes:
    "req \<in> wq_processing (lr_queue s) \<Longrightarrow>
     lagging_step mapper ws base st s (s\<lparr>lr_queue := wq_Done req (lr_queue s)\<rparr>)"

section \<open>Nothing is overlooked\<close>

text \<open>Of a history: some step in it leads from one state to an unlike one.\<close>

lemma first_change:
  assumes "b \<le> (p :: nat)" "\<not> alike (g b) (g p)"
  obtains j where "b \<le> j" "j < p" "alike (g b) (g j)" "\<not> alike (g j) (g (Suc j))"
proof -
  have "\<exists>j. b \<le> j \<and> j < p \<and> alike (g b) (g j) \<and> \<not> alike (g j) (g (Suc j))"
    using assms
  proof (induction p rule: dec_induct)
    case (step n)
    show ?case
    proof (cases "alike (g b) (g n)")
      case True
      with step show ?thesis using alike_trans by (metis lessI)
    next
      case False
      with step.IH show ?thesis by (meson less_SucI)
    qed
  qed simp
  with that show thesis by blast
qed

lemma last_change:
  assumes "b \<le> (p :: nat)" "\<not> alike (g b) (g p)"
  obtains j where "b \<le> j" "j < p" "alike (g (Suc j)) (g p)" "\<not> alike (g j) (g (Suc j))"
proof -
  have "\<exists>j. b \<le> j \<and> j < p \<and> alike (g (Suc j)) (g p) \<and> \<not> alike (g j) (g (Suc j))"
    using assms
  proof (induction b rule: inc_induct)
    case (step n)
    show ?case
    proof (cases "alike (g (Suc n)) (g p)")
      case True
      with step show ?thesis using alike_trans by (metis order_refl)
    next
      case False
      with step.IH show ?thesis by (meson Suc_leD)
    qed
  qed simp
  with that show thesis by blast
qed

lemma controlled_alike: "alike x y \<Longrightarrow> controlled_by cr x = controlled_by cr y"
  by (cases x; cases y) (auto simp: GetControllerOf_def dest: alike_fields(1))

text \<open>What is attended is in the desired state in the end, or a change names the resource.\<close>

context owned_writer
begin

lemma attended_end:
  assumes "attended f cr g a e"
  shows "(\<exists>x. g (e - 1) = Some x \<and> f x = Inr x) \<or>
    (\<exists>j. a \<le> j \<and> j < e - 1 \<and> \<not> alike (g j) (g (Suc j)) \<and> (controlled_by cr (g j) \<or> controlled_by cr (g (Suc j))))"
proof -
  obtain b p where bp: "a \<le> b" "b \<le> p" "p < e"
    and g: "(\<exists>x. g b = Some x \<and> f x = Inr x) \<or> \<not> alike (g b) (g p) \<and> (controlled_by cr (g b) \<or> controlled_by cr (g p))"
    using assms unfolding attended_def by blast
  have change: "\<exists>j. a \<le> j \<and> j < e - 1 \<and> \<not> alike (g j) (g (Suc j)) \<and> (controlled_by cr (g j) \<or> controlled_by cr (g (Suc j)))"
    if p': "b \<le> p'" "p' \<le> e - 1" "\<not> alike (g b) (g p')" "controlled_by cr (g b) \<or> controlled_by cr (g p')" for p'
  proof (cases "controlled_by cr (g b)")
    case True
    obtain j where "b \<le> j" "j < p'" "alike (g b) (g j)" "\<not> alike (g j) (g (Suc j))" by (rule first_change [OF p'(1,3)])
    with True bp(1) p'(2) controlled_alike show ?thesis by (intro exI [where x = j]) auto
  next
    case False
    obtain j where "b \<le> j" "j < p'" "alike (g (Suc j)) (g p')" "\<not> alike (g j) (g (Suc j))" by (rule last_change [OF p'(1,3)])
    with False bp(1) p'(2,4) controlled_alike show ?thesis by (intro exI [where x = j]) auto
  qed
  show ?thesis
    using g
  proof (elim disjE exE conjE)
    fix x assume x: "g b = Some x" "f x = Inr x"
    then have ctl: "controlled_by cr (g b)" using controlled by simp
    show ?thesis
    proof (cases "alike (g b) (g (e - 1))")
      case True
      then obtain y where y: "g (e - 1) = Some y" "alike (Some y) (Some x)" using x(1) alike_sym by (cases "g (e - 1)") auto
      have "f y = Inr y" using settles [OF x(2)] alike_same(4) [OF y(2)] by metis
      with y(1) show ?thesis by blast
    next
      case False
      with change [of "e - 1"] bp ctl show ?thesis by auto
    qed
  qed (use change [of p] bp in auto)
qed

end

text \<open>Changes that the handlers turn into requests.\<close>

lemma change_of_alike: "change_of x y = None \<longleftrightarrow> alike x y"
  by (cases x; cases y) (simp_all add: change_of_def alike_def)

lemma dc_told:
  assumes ok: "cluster_ok w" "cluster_ok w'"
    and ne: "\<not> alike (fmlookup (w_deviceconfigs w) k) (fmlookup (w_deviceconfigs w') k)"
  shows "k \<in> requests (informer_changes OfDeviceConfigs w w')"
proof -
  have key: "request_of (metadata x) = k" if "fmlookup (w_deviceconfigs w) k = Some x \<or> fmlookup (w_deviceconfigs w') k = Some x" for x
  proof -
    have "ObjectKeyFromObject x = k"
      using that by (elim disjE) (rule stored_key_dc [OF ok(1)], assumption, rule stored_key_dc [OF ok(2)], assumption)
    then show ?thesis by (simp add: request_of_def ObjectKeyFromObject_def)
  qed
  obtain e where e: "change_of (fmlookup (w_deviceconfigs w) k) (fmlookup (w_deviceconfigs w') k) = Some e"
    using ne change_of_alike by blast
  have "k \<in> set (event_requests (''DeviceConfig'', e))"
    using e key
    by (cases "fmlookup (w_deviceconfigs w) k"; cases "fmlookup (w_deviceconfigs w') k")
       (auto simp: change_of_def event_requests_def split: if_splits)
  then show ?thesis
    using e by (auto simp: requests_def informer_changes_def kind_changes_def)
qed

lemma owned_told:
  assumes ok: "tracker_ok rk a" "tracker_ok rk b" and kind: "kind \<in> {''Module'', ''DaemonSet''}"
    and ne: "\<not> alike (fmlookup a (om_namespace (metadata dc), name)) (fmlookup b (om_namespace (metadata dc), name))"
    and ctl: "controlled_by dc (fmlookup a (om_namespace (metadata dc), name)) \<or>
      controlled_by dc (fmlookup b (om_namespace (metadata dc), name))"
  shows "ObjectKeyFromObject dc \<in> requests (kind_changes kind a b)"
proof -
  let ?k = "(om_namespace (metadata dc), name)"
  have ns: "om_namespace (metadata x) = om_namespace (metadata dc)" if "fmlookup a ?k = Some x \<or> fmlookup b ?k = Some x" for x
    using that tracker_okD [OF ok(1)] tracker_okD [OF ok(2)] by (auto simp: stored_ok_def ObjectKeyFromObject_def)
  have owner: "owner_request (Some (metadata x)) = [ObjectKeyFromObject dc]"
    if "fmlookup a ?k = Some x \<or> fmlookup b ?k = Some x" "controlled_by dc (Some x)" for x
    using owner_request_controlled [of "metadata x" dc] that(2) ns [OF that(1)]
    by (simp add: dc_ref_def ObjectKeyFromObject_def)
  obtain e where e: "change_of (fmlookup a ?k) (fmlookup b ?k) = Some e" using ne change_of_alike by blast
  have "ObjectKeyFromObject dc \<in> set (event_requests (kind, e))"
    using e kind ctl owner
    by (cases "fmlookup a ?k"; cases "fmlookup b ?k")
       (auto simp: change_of_def event_requests_def split: if_splits)
  then show ?thesis using e by (auto simp: requests_def kind_changes_def)
qed

section \<open>What the operator watches is done\<close>

text \<open>All that is promised of an alive resource but the metrics Service, which the operator does not watch.\<close>

definition watched_done :: "scheme \<Rightarrow> controller_settings \<Rightarrow> world \<Rightarrow> object_key \<Rightarrow> bool" where
  "watched_done base st w k \<longleftrightarrow>
     (case fmlookup (w_deviceconfigs w) k of
        None \<Rightarrow> True
      | Some dc \<Rightarrow>
          if being_deleted dc then \<not> ContainsDeletionFinalizer dc
          else ContainsDeletionFinalizer dc \<and>
            (\<exists>m. fmlookup (w_modules w) (module_key dc) = Some m \<and>
               SetDesiredModule (AddToScheme base) st (Some m) dc = Inr m) \<and>
            (\<exists>ds. fmlookup (w_daemonsets w) (labeler_key dc) = Some ds \<and>
               SetDesiredNodeLabelerDaemonSet (AddToScheme base) st (Some ds) dc = Inr ds) \<and>
            (\<exists>ds. fmlookup (w_daemonsets w) (metrics_key dc) = Some ds \<and>
               SetDesiredNodeMetricsDaemonSet (AddToScheme base) st (Some ds) dc = Inr ds) \<and>
            reported_ready ''Reconciled'' all_reconciled (conditions (status dc)))"

text \<open>One object of a resource: a tracker that an informer watches.\<close>

lemma object_done:
  assumes ok: "\<forall>w \<in> set past. tracker_ok rk (get w)" and kind: "kind \<in> {''Module'', ''DaemonSet''}"
    and i: "\<And>w w'. informer_changes i w w' = kind_changes kind (get w) (get w')"
    and end_or_change: "(\<exists>x. object_at get (om_namespace (metadata dc), name) past (length past - 1) = Some x \<and> f x = Inr x) \<or>
      (\<exists>j. a i \<le> j \<and> j < length past - 1 \<and>
         \<not> alike (object_at get (om_namespace (metadata dc), name) past j) (object_at get (om_namespace (metadata dc), name) past (Suc j)) \<and>
         (controlled_by dc (object_at get (om_namespace (metadata dc), name) past j) \<or>
          controlled_by dc (object_at get (om_namespace (metadata dc), name) past (Suc j))))"
  shows "(\<exists>x. fmlookup (get (past ! (length past - 1))) (om_namespace (metadata dc), name) = Some x \<and> f x = Inr x) \<or>
    ObjectKeyFromObject dc \<in> requests (news a (up_to_date past) past)"
  using end_or_change
proof (rule disjE, goal_cases)
  case 1
  then show ?case by (auto simp: object_at_def)
next
  case 2
  then obtain j where j: "a i \<le> j" "j < length past - 1"
    "\<not> alike (object_at get (om_namespace (metadata dc), name) past j) (object_at get (om_namespace (metadata dc), name) past (Suc j))"
    "controlled_by dc (object_at get (om_namespace (metadata dc), name) past j) \<or>
     controlled_by dc (object_at get (om_namespace (metadata dc), name) past (Suc j))" by blast
  then have "past ! j \<in> set past" "past ! Suc j \<in> set past" by simp_all
  then have "tracker_ok rk (get (past ! j))" "tracker_ok rk (get (past ! Suc j))" using ok by blast+
  from owned_told [OF this kind j(3,4) [unfolded object_at_def]]
  have "ObjectKeyFromObject dc \<in> requests (news a (up_to_date past) past)"
    by (intro newsI [of a i j]) (use j in \<open>simp_all add: i up_to_date_def\<close>)
  then show ?case by (rule disjI2)
qed

lemma dc_news:
  assumes ok: "\<forall>w \<in> set past. cluster_ok w" and b: "a OfDeviceConfigs \<le> b" "b \<le> p" "p < length past"
    and ne: "\<not> alike (object_at w_deviceconfigs k past b) (object_at w_deviceconfigs k past p)"
  shows "k \<in> requests (news a (up_to_date past) past)"
proof -
  obtain j where j: "b \<le> j" "j < p" "\<not> alike (object_at w_deviceconfigs k past j) (object_at w_deviceconfigs k past (Suc j))"
    by (rule first_change [OF b(2) ne])
  then have "past ! j \<in> set past" "past ! Suc j \<in> set past" using b(3) by simp_all
  with ok j have "k \<in> requests (informer_changes OfDeviceConfigs (past ! j) (past ! Suc j))"
    unfolding object_at_def by (intro dc_told) blast+
  with j b show ?thesis by (intro newsI [of a OfDeviceConfigs j]) (simp_all add: up_to_date_def)
qed

lemma alike_request:
  assumes "alike (Some x) (Some (y :: device_config))"
  shows "same_request x y"
  using alike_same(1,2) [OF assms] by (auto simp: same_request_def dest: arg_cong [where f = om_name] arg_cong [where f = om_namespace]
      arg_cong [where f = om_uid])

lemma objects_done:
  assumes ok: "\<forall>w \<in> set past. cluster_ok w" and att: "objects_attended base st dc past a"
  shows "ObjectKeyFromObject dc \<in> requests (news a (up_to_date past) past) \<or>
    (\<exists>m. fmlookup (w_modules (past ! (length past - 1))) (module_key dc) = Some m \<and>
       SetDesiredModule (AddToScheme base) st (Some m) dc = Inr m) \<and>
    (\<exists>ds. fmlookup (w_daemonsets (past ! (length past - 1))) (labeler_key dc) = Some ds \<and>
       SetDesiredNodeLabelerDaemonSet (AddToScheme base) st (Some ds) dc = Inr ds) \<and>
    (\<exists>ds. fmlookup (w_daemonsets (past ! (length past - 1))) (metrics_key dc) = Some ds \<and>
       SetDesiredNodeMetricsDaemonSet (AddToScheme base) st (Some ds) dc = Inr ds)"
proof -
  note att = att [unfolded objects_attended_def]
  have ms: "\<forall>w \<in> set past. tracker_ok module_kind (w_modules w)" using ok cluster_okD(2) by blast
  have ds: "\<forall>w \<in> set past. tracker_ok daemonset_kind (w_daemonsets w)" using ok cluster_okD(3) by blast
  have dsi: "informer_changes OfDaemonSets w w' = kind_changes ''DaemonSet'' (w_daemonsets w) (w_daemonsets w')" for w w'
    by (simp add: informer_changes_def)
  have mi: "informer_changes OfModules w w' = kind_changes ''Module'' (w_modules w) (w_modules w')" for w w'
    by (simp add: informer_changes_def)
  note m = object_done [where get = w_modules and a = a and i = OfModules and f = "\<lambda>m. SetDesiredModule (AddToScheme base) st (Some m) dc", OF ms _ mi module_writer.attended_end [OF conjunct1 [OF att]]]
  note l = object_done [where get = w_daemonsets and a = a and i = OfDaemonSets and f = "\<lambda>ds. SetDesiredNodeLabelerDaemonSet (AddToScheme base) st (Some ds) dc", OF ds _ dsi labeler_writer.attended_end [OF conjunct1 [OF conjunct2 [OF att]]]]
  note n = object_done [where get = w_daemonsets and a = a and i = OfDaemonSets and f = "\<lambda>ds. SetDesiredNodeMetricsDaemonSet (AddToScheme base) st (Some ds) dc", OF ds _ dsi metrics_writer.attended_end [OF conjunct2 [OF conjunct2 [OF att]]]]
  show ?thesis using m l n by blast
qed

text \<open>What was done when it was read is done in the end, or a change names the resource.\<close>

lemma done_or_news:
  assumes ok: "\<forall>w \<in> set past. cluster_ok w" and b: "a OfDeviceConfigs \<le> b" "b < length past"
    and dd: "dc_done base st k past a b"
  shows "watched_done base st (past ! (length past - 1)) k \<or> k \<in> requests (news a (up_to_date past) past)"
proof (rule disjCI)
  let ?p = "length past - 1"
  assume none: "k \<notin> requests (news a (up_to_date past) past)"
  have same: "alike (object_at w_deviceconfigs k past j) (object_at w_deviceconfigs k past ?p)" if "b \<le> j" "j < length past" for j
  proof -
    have "a OfDeviceConfigs \<le> j" "j \<le> ?p" "?p < length past" using b(1) that by auto
    from dc_news [where a = a, OF ok this] none show ?thesis by blast
  qed
  note now = same [OF order.refl b(2)]
  show "watched_done base st (past ! ?p) k"
  proof (cases "object_at w_deviceconfigs k past b")
    case None
    then have "fmlookup (w_deviceconfigs (past ! ?p)) k = None"
      using now by (cases "fmlookup (w_deviceconfigs (past ! ?p)) k") (simp_all add: object_at_def)
    then show ?thesis by (simp add: watched_done_def)
  next
    case (Some dc0)
    then obtain dc where dc: "fmlookup (w_deviceconfigs (past ! ?p)) k = Some dc" "alike (Some dc0) (Some dc)"
      using now by (cases "fmlookup (w_deviceconfigs (past ! ?p)) k") (simp_all add: object_at_def)
    note req = alike_request [OF dc(2)]
    have eq: "being_deleted dc0 = being_deleted dc" "ContainsDeletionFinalizer dc0 = ContainsDeletionFinalizer dc"
      using alike_fields [OF dc(2)] by (simp_all add: being_deleted_def ContainsDeletionFinalizer_iff)
    have "past ! b \<in> set past" using b(2) by simp
    then have "ObjectKeyFromObject dc0 = k" using ok Some stored_key_dc unfolding object_at_def by blast
    note objects = objects_done [OF ok, of base st dc0 a, unfolded this]
    have "reported_ready ''Reconciled'' all_reconciled (conditions (status dc))" if rep: "dc_reported k past b"
    proof -
      obtain p y where p: "b \<le> p" "p < length past" "object_at w_deviceconfigs k past p = Some y"
        "reported_ready ''Reconciled'' all_reconciled (conditions (status y))" using rep unfolding dc_reported_def by blast
      from same [OF p(1,2)] p(3) dc(1) have "alike (Some y) (Some dc)" by (simp add: object_at_def)
      with p(4) alike_same(3) show ?thesis by metis
    qed
    with dd Some dc(1) eq objects none show ?thesis
      unfolding watched_done_def dc_done_def same_request_desired [OF req] same_request_keys [OF req] by auto
  qed
qed

lemma attended_now:
  assumes "n < length past" "\<exists>x. fmlookup (get (past ! n)) key = Some x \<and> f x = Inr x"
  shows "attended f cr (object_at get key past) n (length past)"
  using assms unfolding attended_def by (intro exI [where x = n]) (simp add: object_at_def)

lemma done_stays:
  assumes ok: "\<forall>w \<in> set past. cluster_ok w" and n: "n < length past" "\<And>i. a i \<le> n" and wd: "watched_done base st (past ! n) k"
  shows "watched_done base st (past ! (length past - 1)) k \<or> k \<in> requests (news a (up_to_date past) past)"
proof -
  have "dc_done base st k past (\<lambda>_. n) n"
  proof (cases "fmlookup (w_deviceconfigs (past ! n)) k")
    case (Some dc)
    have "objects_attended base st dc past (\<lambda>_. n) \<and> dc_reported k past n"
      if "\<not> being_deleted dc"
    proof
      note parts = wd [unfolded watched_done_def Some option.case if_not_P [OF that]]
      show "objects_attended base st dc past (\<lambda>_. n)"
        unfolding objects_attended_def by (intro conjI attended_now [OF n(1)]) (use parts in simp_all)
      show "dc_reported k past n"
        unfolding dc_reported_def using parts n(1) Some by (intro exI [where x = n] exI [where x = dc]) (simp add: object_at_def)
    qed
    with wd Some show ?thesis by (auto simp: watched_done_def dc_done_def object_at_def)
  qed (simp add: dc_done_def object_at_def)
  from done_or_news [OF ok _ n(1) this]
  have "watched_done base st (past ! (length past - 1)) k \<or> k \<in> requests (news (\<lambda>_. n) (up_to_date past) past)" by simp
  moreover have "news (\<lambda>_. n) (up_to_date past) past \<subseteq> news a (up_to_date past) past"
    by (rule news_mono) (rule n(2))
  ultimately show ?thesis using requests_mono by blast
qed

lemma changed_news:
  assumes "\<forall>w \<in> set past. cluster_ok w" "dc_changed k past (a OfDeviceConfigs)"
  shows "k \<in> requests (news a (up_to_date past) past)"
  using assms(2) dc_news [OF assms(1)] unfolding dc_changed_def by blast

section \<open>The invariant of the loop\<close>

text \<open>The last word about a resource was that its node selector conflicts.\<close>

definition refused :: "object_key \<Rightarrow> event list \<Rightarrow> bool" where
  "refused k es \<longleftrightarrow> (let about = filter (\<lambda>e. ev_object e = k) es in about \<noteq> [] \<and> ev_type (last about) = EventTypeWarning)"

lemma refused_later:
  assumes "says_about req es es'" "refused k es" "k \<noteq> req"
  shows "refused k es'"
  using assms by (auto simp: says_about_def refused_def)

lemma refused_now:
  assumes "says_about req es es'" "es' = es @ new" "\<not> no_warnings new"
  shows "refused req es'"
  using assms by (auto simp: says_about_def refused_def no_warnings_def)

text \<open>The requests that are queued, wait for their retry, or are in what is announced or still to be.\<close>

definition upcoming :: "informed \<Rightarrow> (string \<times> watch_event) set" where
  "upcoming s = news (in_seen s) (up_to_date (in_past s)) (in_past s)"

definition on_the_way :: "lagging_runtime \<Rightarrow> object_key set" where
  "on_the_way s =
     wq_dirty (lr_queue s) \<union> fmdom' (wq_waiting (lr_queue s)) \<union> requests (set (lr_events s)) \<union>
     requests (upcoming (cs_world (lr_state s)))"

text \<open>The server has kept its invariant so far.\<close>

definition orderly :: "informed controller_state \<Rightarrow> bool" where
  "orderly cs \<longleftrightarrow> (\<forall>w \<in> set (in_past (cs_world cs)). cluster_ok w)"

lemma orderly_before: "orderly cs' \<Longrightarrow> later (cs_world cs) (cs_world cs') \<Longrightarrow> orderly cs"
  using laterD(4) by (fastforce simp: orderly_def)

lemma news_split:
  assumes "later s s'"
  shows "upcoming s \<subseteq> news (in_seen s) (in_seen s') (in_past s') \<union> upcoming s'"
    "news (in_seen s) (up_to_date (in_past s')) (in_past s') \<subseteq> news (in_seen s) (in_seen s') (in_past s') \<union> upcoming s'"
proof -
  let ?N = "news (in_seen s) (in_seen s') (in_past s')"
  show 2: "news (in_seen s) (up_to_date (in_past s')) (in_past s') \<subseteq> ?N \<union> upcoming s'"
  proof
    fix x assume "x \<in> news (in_seen s) (up_to_date (in_past s')) (in_past s')"
    then obtain i j where ij: "in_seen s i \<le> j" "j < up_to_date (in_past s') i"
      "x \<in> informer_changes i (in_past s' ! j) (in_past s' ! Suc j)" by (auto simp: news_def)
    then show "x \<in> ?N \<union> upcoming s'"
      by (cases "j < in_seen s' i") (auto simp: news_def upcoming_def not_less)
  qed
  have "upcoming s \<subseteq> news (in_seen s) (up_to_date (in_past s')) (in_past s')"
  proof
    fix x assume "x \<in> upcoming s"
    then obtain i j where ij: "in_seen s i \<le> j" "j < length (in_past s) - 1"
      "x \<in> informer_changes i (in_past s ! j) (in_past s ! Suc j)" by (auto simp: news_def upcoming_def up_to_date_def)
    then have "j < length (in_past s)" "Suc j < length (in_past s)" by simp_all
    then have "in_past s' ! j = in_past s ! j" "in_past s' ! Suc j = in_past s ! Suc j" "j < length (in_past s') - 1"
      using laterD(5) [OF assms] laterD(2) [OF assms] by auto
    with ij show "x \<in> news (in_seen s) (up_to_date (in_past s')) (in_past s')"
      unfolding news_iff up_to_date_def by (intro exI [where x = i] exI [where x = j]) simp
  qed
  with 2 show "upcoming s \<subseteq> ?N \<union> upcoming s'" by blast
qed

lemma server_last: "in_bounds s \<Longrightarrow> server s = in_past s ! (length (in_past s) - 1)"
  by (simp add: server_def in_bounds_def last_conv_nth)

definition nothing_lost :: "scheme \<Rightarrow> controller_settings \<Rightarrow> lagging_runtime \<Rightarrow> bool" where
  "nothing_lost base st s \<longleftrightarrow>
     in_bounds (cs_world (lr_state s)) \<and> wq_ok (lr_queue s) \<and> \<not> wq_shuttingDown (lr_queue s) \<and>
     (orderly (lr_state s) \<longrightarrow>
       (\<forall>k. watched_done base st (server (cs_world (lr_state s))) k \<or> k \<in> on_the_way s \<or>
          refused k (cs_events (lr_state s))))"

lemma scheduled_simps [simp]:
  "in_bounds (cs_world (scheduled as cs)) = in_bounds (cs_world cs)" "server (cs_world (scheduled as cs)) = server (cs_world cs)"
  "upcoming (cs_world (scheduled as cs)) = upcoming (cs_world cs)" "told (scheduled as cs) cs' = told cs cs'"
  "orderly (scheduled as cs) = orderly cs" "later (cs_world (scheduled as cs)) t = later (cs_world cs) t"
  "cs_events (scheduled as cs) = cs_events cs"
  by (simp_all add: scheduled_def in_bounds_def server_def upcoming_def told_def orderly_def later_def)

text \<open>What was done, or about to be told, is so in a later state.\<close>

lemma still_known:
  assumes l: "later (cs_world cs) (cs_world cs')" and b: "in_bounds (cs_world cs)" and o: "orderly cs'"
    and k: "watched_done base st (server (cs_world cs)) k \<or> k \<in> requests (upcoming (cs_world cs))"
  shows "watched_done base st (server (cs_world cs')) k \<or> k \<in> requests (told cs cs') \<union> requests (upcoming (cs_world cs'))"
proof -
  let ?s = "cs_world cs" and ?s' = "cs_world cs'"
  note sub = news_split [OF l]
  have told: "told cs cs' = news (in_seen ?s) (in_seen ?s') (in_past ?s')" by (simp add: told_def)
  from k show ?thesis
  proof
    assume d: "watched_done base st (server ?s) k"
    have n: "length (in_past ?s) - 1 < length (in_past ?s)" "in_seen ?s i \<le> length (in_past ?s) - 1" for i
      using b by (auto simp: in_bounds_def) (metis Suc_pred length_greater_0_conv less_Suc_eq_le)
    have "watched_done base st (in_past ?s' ! (length (in_past ?s) - 1)) k"
      using d laterD(5) [OF l n(1)] by (simp add: server_last [OF b])
    from done_stays [where a = "in_seen ?s", OF _ _ n(2) this] o n(1) laterD(2) [OF l]
    have "watched_done base st (in_past ?s' ! (length (in_past ?s') - 1)) k \<or>
        k \<in> requests (news (in_seen ?s) (up_to_date (in_past ?s')) (in_past ?s'))"
      unfolding orderly_def by simp
    then show ?thesis using requests_mono [OF sub(2)] server_last [OF laterD(1) [OF l]] unfolding told by auto
  next
    assume "k \<in> requests (upcoming ?s)"
    then show ?thesis using requests_mono [OF sub(1)] unfolding told by auto
  qed
qed

text \<open>The reconciled resource: it waits for its retry, is done, or will be told of.\<close>

lemma reconciled_known:
  assumes b: "in_bounds (cs_world cs)" and o: "orderly cs'"
    and run: "Reconcile (operator_reconciler manager_client (AddToScheme base) st) req cs = ((res, None), cs')"
  shows "watched_done base st (server (cs_world cs')) req \<or> req \<in> requests (told cs cs') \<union> requests (upcoming (cs_world cs')) \<or>
    refused req (cs_events cs')"
proof -
  let ?s = "cs_world cs" and ?s' = "cs_world cs'"
  have l: "later ?s ?s'" using reconcile_later [OF b, of "AddToScheme base" st req] run by simp
  have ok: "\<forall>w \<in> set (in_past ?s'). cluster_ok w" using o by (simp add: orderly_def)
  note says = reconcile_events [OF b ok run]
  then obtain es where es: "cs_events cs' = cs_events cs @ es" by (auto simp: says_about_def)
  show ?thesis
  proof (cases "no_warnings es")
    case False
    with refused_now [OF says es] show ?thesis by simp
  next
    case True
    have "watched_done base st (in_past ?s' ! (length (in_past ?s') - 1)) req \<or>
        req \<in> requests (news (in_seen ?s) (up_to_date (in_past ?s')) (in_past ?s'))"
      using reconcile_lagging [OF b ok run es True] changed_news [where a = "in_seen ?s", OF ok]
        done_or_news [where a = "in_seen ?s", OF ok] by blast
    then show ?thesis
      using requests_mono [OF news_split(2) [OF l]] server_last [OF laterD(1) [OF l]] by (auto simp: told_def)
  qed
qed

lemma worker_step_ok:
  assumes inv: "nothing_lost base st s"
    and step: "wq_processing (lr_queue s) = {}" "wq_Get (lr_queue s) = (Item req, q1)"
      "reconcileHandler (operator_reconciler manager_client (AddToScheme base) st) now bucket req (scheduled as (lr_state s), q1) = (cs', q2)"
      "set evs = told (lr_state s) cs'"
  shows "nothing_lost base st (s\<lparr>lr_state := cs', lr_queue := q2, lr_events := lr_events s @ evs\<rparr>) \<and>
    later (cs_world (lr_state s)) (cs_world cs')"
proof -
  let ?q = "lr_queue s" and ?cs = "scheduled as (lr_state s)" and ?s' = "s\<lparr>lr_state := cs', lr_queue := q2, lr_events := lr_events s @ evs\<rparr>"
  have ok: "wq_ok ?q" "\<not> wq_shuttingDown ?q" "in_bounds (cs_world (lr_state s))"
    using inv by (simp_all add: nothing_lost_def)
  then have b: "in_bounds (cs_world ?cs)" by simp
  obtain res err where rec: "Reconcile (operator_reconciler manager_client (AddToScheme base) st) req ?cs = ((res, err), cs')"
    using step(3) by (cases "Reconcile (operator_reconciler manager_client (AddToScheme base) st) req ?cs")
      (auto simp: handler_eq)
  have l: "later (cs_world ?cs) (cs_world cs')" using reconcile_later [OF b, of "AddToScheme base" st req] rec by simp
  obtain rest where rest: "wq_queue ?q = req # rest"
    using step(2) by (auto simp: wq_Get_def split: list.splits if_splits)
  have q1: "q1 = ?q\<lparr>wq_queue := rest, wq_processing := insert req (wq_processing ?q), wq_dirty := wq_dirty ?q - {req}\<rparr>"
    using step(2) rest by (simp add: wq_Get_def)
  have q2: "q2 = (if err = None then Forget req q1 else AddRateLimited now bucket req q1)"
    using step(3) rec by (simp add: handler_eq)
  have ok2: "wq_ok q2" using wq_ok_Get [OF ok(1) step(2)] by (simp add: q2)
  have q2s: "wq_dirty q2 = wq_dirty ?q - {req}" "\<not> wq_shuttingDown q2"
    "fmdom' (wq_waiting ?q) \<union> (if err = None then {} else {req}) \<subseteq> fmdom' (wq_waiting q2)"
    using ok(2) by (auto simp: q2 q1 Forget_def AddRateLimited_eq insert_waiting_dom)
  have "watched_done base st (server (cs_world cs')) k \<or> k \<in> on_the_way ?s' \<or> refused k (cs_events cs')" if o: "orderly cs'" for k
  proof (cases "k = req \<and> err = None")
    case True
    with rec reconciled_known [OF b o, of base st req res] show ?thesis using step(4) by (auto simp: on_the_way_def)
  next
    case False
    have says: "says_about req (cs_events (lr_state s)) (cs_events cs')"
      using reconcile_events [OF b _ rec] o by (simp add: orderly_def)
    have "orderly (lr_state s)" using orderly_before [OF o l] by simp
    then have "watched_done base st (server (cs_world ?cs)) k \<or> k \<in> requests (upcoming (cs_world ?cs)) \<or>
        k \<in> wq_dirty ?q \<union> fmdom' (wq_waiting ?q) \<union> requests (set (lr_events s)) \<or> refused k (cs_events (lr_state s))"
      using inv by (auto simp: nothing_lost_def on_the_way_def)
    with still_known [OF l b o, of base st k] False q2s refused_later [OF says, of k] show ?thesis
      using step(4) by (auto simp: on_the_way_def split: if_splits)
  qed
  then show ?thesis using ok2 q2s l laterD(1) [OF l] by (simp add: nothing_lost_def)
qed

lemma lagging_step_ok:
  assumes "lagging_step mapper watches base st s s'" "nothing_lost base st s" "maps_namespaced mapper"
  shows "nothing_lost base st s'" "later (cs_world (lr_state s)) (cs_world (lr_state s'))"
proof -
  have "nothing_lost base st s' \<and> later (cs_world (lr_state s)) (cs_world (lr_state s'))"
    using assms(1,2)
  proof (induction rule: lagging_step.induct)
    case (others_happen cs' a s evs)
    have b: "in_bounds (cs_world (lr_state s))" using others_happen(3) by (simp add: nothing_lost_def)
    have l: "later (cs_world (lr_state s)) (cs_world cs')" using later_act [OF b] others_happen(1) by simp
    have g: "cs_events cs' = cs_events (lr_state s)" using others_happen(1) by simp
    have "watched_done base st (server (cs_world cs')) k \<or> k \<in> on_the_way (s\<lparr>lr_state := cs', lr_events := lr_events s @ evs\<rparr>) \<or>
        refused k (cs_events cs')"
      if "orderly cs'" for k
      using others_happen(2,3) still_known [OF l b that, of base st k] orderly_before [OF that l]
      by (auto simp: nothing_lost_def on_the_way_def g)
    then show ?case using others_happen(3) l laterD(1) [OF l] by (simp add: nothing_lost_def)
  next
    case (handlers_called s xs ke ys)
    let ?q = "lr_queue s"
    have ok: "wq_ok ?q" "\<not> wq_shuttingDown ?q" "in_bounds (cs_world (lr_state s))"
      using handlers_called(2) by (simp_all add: nothing_lost_def)
    note add = fold_Add [OF ok(2), of "event_requests ke"]
    show ?case
      using handlers_called add ok later_refl [OF ok(3)]
      by (auto simp: nothing_lost_def on_the_way_def deliver_eq [OF assms(3)])
  next
    case (retry_added req s)
    let ?q = "lr_queue s"
    have ok: "wq_ok ?q" "\<not> wq_shuttingDown ?q" "in_bounds (cs_world (lr_state s))"
      using retry_added(2) by (simp_all add: nothing_lost_def)
    then show ?case
      using retry_added later_refl [OF ok(3)] by (auto simp: nothing_lost_def on_the_way_def add_ready_def)
  next
    case (worker_reconciles s req q1 now bucket as cs' q2 evs)
    from worker_step_ok [OF worker_reconciles(5,1-4)] show ?case by simp
  next
    case (worker_finishes req s)
    then show ?case using later_refl by (auto simp: nothing_lost_def on_the_way_def)
  qed
  then show "nothing_lost base st s'" "later (cs_world (lr_state s)) (cs_world (lr_state s'))"
    by blast+
qed

lemma lagging_steps_ok:
  assumes "(lagging_step mapper watches base st)\<^sup>*\<^sup>* s s'" "nothing_lost base st s" "maps_namespaced mapper"
  shows "nothing_lost base st s'"
  using assms(1,2) by (induction rule: rtranclp_induct) (auto dest: lagging_step_ok(1) [OF _ _ assms(3)])

text \<open>At the start every resource that the cache shows is announced.\<close>

lemma nothing_lost_start:
  assumes b: "in_bounds (cs_world cs)"
    and ev: "\<And>dc. dc \<in> ran (fmlookup (w_deviceconfigs (cached OfDeviceConfigs (cs_world cs)))) \<Longrightarrow>
      (''DeviceConfig'', CreateEvent (Some (metadata dc))) \<in> set evs"
  shows "nothing_lost base st \<lparr>lr_state = cs, lr_queue = newQueue, lr_events = evs\<rparr>"
proof -
  let ?s = "cs_world cs" and ?b = "in_seen (cs_world cs) OfDeviceConfigs" and ?p = "length (in_past (cs_world cs)) - 1"
  have "watched_done base st (server ?s) k \<or> k \<in> requests (set evs) \<union> requests (upcoming ?s)" if o: "orderly cs" for k
  proof (cases "fmlookup (w_deviceconfigs (cached OfDeviceConfigs ?s)) k")
    case None
    have ok: "\<forall>w \<in> set (in_past ?s). cluster_ok w" using o by (simp add: orderly_def)
    have p: "?b \<le> ?p" "?p < length (in_past ?s)"
      using b by (auto simp: in_bounds_def) (metis Suc_pred length_greater_0_conv less_Suc_eq_le)
    note news = dc_news [where a = "in_seen ?s", OF ok order.refl p, of k]
    show ?thesis
    proof (cases "fmlookup (w_deviceconfigs (server ?s)) k")
      case (Some dc)
      then show ?thesis using news None server_last [OF b] by (simp add: object_at_def cached_def upcoming_def)
    qed (simp add: watched_done_def)
  next
    case (Some dc)
    have "cached OfDeviceConfigs ?s \<in> set (in_past ?s)" using b by (simp add: cached_def in_bounds_def)
    then have "ObjectKeyFromObject dc = k" using o Some stored_key_dc unfolding orderly_def by blast
    then have "k \<in> set (event_requests (''DeviceConfig'', CreateEvent (Some (metadata dc))))"
      by (simp add: event_requests_def request_of_def ObjectKeyFromObject_def)
    with ev [OF ranI [of "fmlookup (w_deviceconfigs (cached OfDeviceConfigs ?s))", OF Some]] show ?thesis
      unfolding requests_def by blast
  qed
  then show ?thesis using b by (auto simp: nothing_lost_def on_the_way_def)
qed

text \<open>
  C5. Nothing is overlooked but what was refused, although the operator acts on outdated reads. The operator starts with an empty queue while every
  \<open>DeviceConfig\<close> that its cache shows is announced to it. From then on others change whatever they like, within reconciliations too,
  each cache catches up in its own time, events and retries arrive in any order. As long as the server keeps its own invariant (\<open>cluster_ok\<close>,
  in each of its past states), every \<open>DeviceConfig\<close> is at any time done (gone; without the operator's
  finalizer if it is being deleted; otherwise with the finalizer, its Module and both DaemonSets in the desired state
  and the conditions of success), or on its way to the worker (queued, waiting for a retry, or named by an event that is
  announced or that a cache has yet to see), or the last that was reported of it is a conflict of node selectors, after which the operator does not come back to it.
  So when the loop rests with caches that are up to date, everything that the
  operator watches is as those resources ask for that were not refused last. The metrics Service is not among it, as the operator does not watch Services.
\<close>

theorem nothing_overlooked:
  assumes "in_bounds (cs_world cs)" "maps_namespaced mapper" "doWatch (AddToScheme base) the_builder = Inr ws"
    and "\<And>dc. dc \<in> ran (fmlookup (w_deviceconfigs (cached OfDeviceConfigs (cs_world cs)))) \<Longrightarrow>
      (''DeviceConfig'', CreateEvent (Some (metadata dc))) \<in> set evs"
    and "(lagging_step mapper ws base st)\<^sup>*\<^sup>* \<lparr>lr_state = cs, lr_queue = newQueue, lr_events = evs\<rparr> s"
    and "\<And>w. w \<in> set (in_past (cs_world (lr_state s))) \<Longrightarrow> cluster_ok w"
  shows "(watched_done base st (server (cs_world (lr_state s))) k \<or> k \<in> on_the_way s \<or> refused k (cs_events (lr_state s))) \<and>
    (wq_dirty (lr_queue s) = {} \<and> wq_waiting (lr_queue s) = fmempty \<and> lr_events s = [] \<and>
       in_seen (cs_world (lr_state s)) = up_to_date (in_past (cs_world (lr_state s))) \<longrightarrow>
     watched_done base st (server (cs_world (lr_state s))) k \<or> refused k (cs_events (lr_state s)))"
proof -
  have ws: "ws = watches" using assms(3) by (simp add: operator_watches)
  have "nothing_lost base st s"
    by (rule lagging_steps_ok [OF assms(5) [unfolded ws] nothing_lost_start [OF assms(1,4)] assms(2)])
  then have "watched_done base st (server (cs_world (lr_state s))) k \<or> k \<in> on_the_way s \<or> refused k (cs_events (lr_state s))"
    using assms(6) by (simp add: nothing_lost_def orderly_def)
  moreover have "upcoming (cs_world (lr_state s)) = {}" if "in_seen (cs_world (lr_state s)) = up_to_date (in_past (cs_world (lr_state s)))"
    using that by (simp add: upcoming_def news_def)
  ultimately show ?thesis by (auto simp: on_the_way_def)
qed

end
