(* ===== verification/Simulated_Reconciler.thy ===== *)
theory Simulated_Reconciler
  imports Controller_Safety
begin

text \<open>
  Two controllers whose collaborators, called with the same arguments in related worlds, return the same and leave related
  worlds. The relation between the worlds changes as a reconciliation goes on. The controllers then do the same: result, gauge and events.
\<close>

definition same_records :: "('s \<Rightarrow> 't \<Rightarrow> bool) \<Rightarrow> 's controller_state \<Rightarrow> 't controller_state \<Rightarrow> bool" where
  "same_records rel cs ct \<longleftrightarrow> rel (cs_world cs) (cs_world ct) \<and>
     ReconciliationFailed cs = ReconciliationFailed ct \<and> cs_events cs = cs_events ct"

definition same_call :: "('a \<Rightarrow> 's \<Rightarrow> 't \<Rightarrow> bool) \<Rightarrow> 'a \<times> 's \<Rightarrow> 'a \<times> 't \<Rightarrow> bool" where
  "same_call rel x y \<longleftrightarrow> fst x = fst y \<and> rel (fst x) (snd x) (snd y)"

lemma same_callE:
  assumes "same_call rel x y"
  obtains a s t where "x = (a, s)" "y = (a, t)" "rel a s t"
  using assms by (cases x; cases y) (auto simp: same_call_def)

lemma same_call_pair [simp]: "same_call rel (a, s) (b, t) \<longleftrightarrow> a = b \<and> rel a s t"
  by (auto simp: same_call_def)

locale simulated_reconciler =
  fixes r :: "'s reconciler" and q :: "'t reconciler"
    and start finish :: "'s \<Rightarrow> 't \<Rightarrow> bool"
    and read owned built labeled :: "device_config \<Rightarrow> 's \<Rightarrow> 't \<Rightarrow> bool"
  assumes get_same: "start s t \<Longrightarrow> fst (rc_Get r req s) = fst (rc_Get q req t) \<or>
        (\<exists>e e'. fst (rc_Get r req s) = Inl e \<and> fst (rc_Get q req t) = Inl e' \<and> IsNotFound e \<and> IsNotFound e')"
    and get_related: "start s t \<Longrightarrow> finish (snd (rc_Get r req s)) (snd (rc_Get q req t))"
    and get_read: "start s t \<Longrightarrow> rc_Get r req s = (Inr dc, s') \<Longrightarrow> rc_Get q req t = (Inr dc, t') \<Longrightarrow> read dc s' t'"
    and check_same: "read dc s t \<Longrightarrow>
        same_call (\<lambda>e s' t'. finish s' t' \<and> (e = None \<longrightarrow> read dc s' t')) (nsv_Check r dc s) (nsv_Check q dc t)"
    and finalizer_same: "read dc s t \<Longrightarrow> \<not> being_deleted dc \<Longrightarrow>
        same_call (\<lambda>(e, dc') s' t'. finish s' t' \<and> (e = None \<longrightarrow> owned dc' s' t'))
          (add_missing_finalizer r dc s) (add_missing_finalizer q dc t)"
    and module_same: "owned dc s t \<Longrightarrow>
        same_call (\<lambda>_ s' t'. finish s' t' \<and> built dc s' t') (mr_ReconcileModule r dc s) (mr_ReconcileModule q dc t)"
    and labeler_same: "built dc s t \<Longrightarrow>
        same_call (\<lambda>_ s' t'. finish s' t' \<and> labeled dc s' t') (nlr_ReconcileNodeLabeler r dc s) (nlr_ReconcileNodeLabeler q dc t)"
    and metrics_same: "labeled dc s t \<Longrightarrow>
        same_call (\<lambda>_. finish) (nmr_ReconcileNodeMetrics r dc s) (nmr_ReconcileNodeMetrics q dc t)"
    and ready_same: "finish s t \<Longrightarrow>
        same_call (\<lambda>_. finish) (cu_SetConditionsReady r dc reason message s) (cu_SetConditionsReady q dc reason message t)"
    and errored_same: "finish s t \<Longrightarrow>
        same_call (\<lambda>_. finish) (cu_SetConditionsErrored r dc reason message s) (cu_SetConditionsErrored q dc reason message t)"
    and contains_same: "read dc s t \<Longrightarrow>
        same_call (\<lambda>_. read dc) (fu_ContainsDeletionFinalizer r dc s) (fu_ContainsDeletionFinalizer q dc t)"
    and delete_same: "read dc s t \<Longrightarrow> same_call (\<lambda>_. finish) (mr_DeleteModule r dc s) (mr_DeleteModule q dc t)"
    and remove_same: "finish s t \<Longrightarrow>
        same_call (\<lambda>_. finish) (fu_RemoveDeletionFinalizer r dc s) (fu_RemoveDeletionFinalizer q dc t)"
    and read_finish: "read dc s t \<Longrightarrow> finish s t"
begin

lemma stage_failed_same:
  assumes "same_records finish cs ct"
  shows "same_call (\<lambda>_. same_records finish) (stage_failed r dc reason err cs) (stage_failed q dc reason err ct)"
proof -
  have "finish (cs_world cs) (cs_world ct)" using assms by (simp add: same_records_def)
  from errored_same [OF this, of dc reason "error_text err"] obtain a s t where
    "cu_SetConditionsErrored r dc reason (error_text err) (cs_world cs) = (a, s)"
    "cu_SetConditionsErrored q dc reason (error_text err) (cs_world ct) = (a, t)" "finish s t"
    by (rule same_callE)
  with assms show ?thesis
    by (cases a) (auto simp: stage_failed_def outside_def Let_def same_records_def set_gauge_def)
qed

lemma stages_same:
  assumes "same_records (owned dc) cs ct"
  shows "same_call (\<lambda>_. same_records finish) (reconcile_stages r dc cs) (reconcile_stages q dc ct)"
proof -
  have rec: "ReconciliationFailed cs = ReconciliationFailed ct" "cs_events cs = cs_events ct"
    using assms by (simp_all add: same_records_def)
  have "owned dc (cs_world cs) (cs_world ct)" using assms by (simp add: same_records_def)
  from module_same [OF this] obtain e1 s1 t1 where m:
    "mr_ReconcileModule r dc (cs_world cs) = (e1, s1)" "mr_ReconcileModule q dc (cs_world ct) = (e1, t1)"
    "finish s1 t1 \<and> built dc s1 t1" by (rule same_callE)
  from labeler_same [OF conjunct2 [OF m(3)]] obtain e2 s2 t2 where l:
    "nlr_ReconcileNodeLabeler r dc s1 = (e2, s2)" "nlr_ReconcileNodeLabeler q dc t1 = (e2, t2)"
    "finish s2 t2 \<and> labeled dc s2 t2" by (rule same_callE)
  from metrics_same [OF conjunct2 [OF l(3)]] obtain e3 s3 t3 where n:
    "nmr_ReconcileNodeMetrics r dc s2 = (e3, s3)" "nmr_ReconcileNodeMetrics q dc t2 = (e3, t3)" "finish s3 t3"
    by (rule same_callE)
  let ?msg = "''All resources have been successfully reconciled''"
  from ready_same [OF n(3), of dc "''Reconciled''" ?msg] obtain a s4 t4 where c:
    "cu_SetConditionsReady r dc ''Reconciled'' ?msg s3 = (a, s4)" "cu_SetConditionsReady q dc ''Reconciled'' ?msg t3 = (a, t4)"
    "finish s4 t4" by (rule same_callE)
  have failed: "same_call (\<lambda>_. same_records finish) (stage_failed r dc reason err (cs\<lparr>cs_world := s\<rparr>))
      (stage_failed q dc reason err (ct\<lparr>cs_world := t\<rparr>))" if "finish s t" for reason err s t
    using that rec by (intro stage_failed_same) (simp add: same_records_def)
  show ?thesis
    using m l n c rec
    by (cases a) (auto simp: reconcile_stages_def outside_def Let_def same_records_def set_gauge_def record_event_def
        intro!: failed split: option.split)
qed

lemma deletion_same:
  assumes "same_records (read dc) cs ct"
  shows "same_call (\<lambda>_. same_records finish) (reconcile_deletion r dc cs) (reconcile_deletion q dc ct)"
proof -
  have rec: "ReconciliationFailed cs = ReconciliationFailed ct" "cs_events cs = cs_events ct"
    using assms by (simp_all add: same_records_def)
  have "read dc (cs_world cs) (cs_world ct)" using assms by (simp add: same_records_def)
  from contains_same [OF this] obtain b s1 t1 where f:
    "fu_ContainsDeletionFinalizer r dc (cs_world cs) = (b, s1)" "fu_ContainsDeletionFinalizer q dc (cs_world ct) = (b, t1)"
    "read dc s1 t1" by (rule same_callE)
  from delete_same [OF f(3)] obtain e s2 t2 where d:
    "mr_DeleteModule r dc s1 = (e, s2)" "mr_DeleteModule q dc t1 = (e, t2)" "finish s2 t2" by (rule same_callE)
  from remove_same [OF d(3), of dc] obtain a s3 t3 where c:
    "fu_RemoveDeletionFinalizer r dc s2 = (a, s3)" "fu_RemoveDeletionFinalizer q dc t2 = (a, t3)" "finish s3 t3"
    by (rule same_callE)
  show ?thesis
    using f d c rec read_finish [OF f(3)]
    by (cases a) (auto simp: reconcile_deletion_def deleteDeviceConfigResources_def outside_def Let_def same_records_def
        set_gauge_def split: option.split)
qed

lemma alive_same:
  assumes "same_records (read dc) (cs\<lparr>cs_world := s\<rparr>) (ct\<lparr>cs_world := t\<rparr>)" "\<not> being_deleted dc"
    and "rc_Get r req (cs_world cs) = (Inr dc, s)" "rc_Get q req (cs_world ct) = (Inr dc, t)"
  shows "same_call (\<lambda>_. same_records finish) (Reconcile r req cs) (Reconcile q req ct)"
proof -
  have rec: "ReconciliationFailed cs = ReconciliationFailed ct" "cs_events cs = cs_events ct"
    using assms(1) by (simp_all add: same_records_def)
  have "read dc s t" using assms(1) by (simp add: same_records_def)
  from check_same [OF this] obtain e s2 t2 where c:
    "nsv_Check r dc s = (e, s2)" "nsv_Check q dc t = (e, t2)"
    "finish s2 t2 \<and> (e = None \<longrightarrow> read dc s2 t2)" by (rule same_callE)
  show ?thesis
  proof (cases e)
    case (Some err)
    with c rec Reconcile_conflict [OF assms(3,2), of err s2] Reconcile_conflict [OF assms(4,2), of err t2]
    show ?thesis by (auto simp: same_records_def set_gauge_def record_event_def)
  next
    case None
    with c have "read dc s2 t2" by simp
    from finalizer_same [OF this assms(2)] obtain a s3 t3 where f:
      "add_missing_finalizer r dc s2 = (a, s3)" "add_missing_finalizer q dc t2 = (a, t3)"
      "(\<lambda>(e, dc') s' t'. finish s' t' \<and> (e = None \<longrightarrow> owned dc' s' t')) a s3 t3" by (rule same_callE)
    obtain e' dc' where a: "a = (e', dc')" by (cases a)
    show ?thesis
    proof (cases e')
      case (Some err)
      with f a c None assms rec show ?thesis
        by (auto simp: Reconcile_def outside_def being_deleted_def same_records_def)
    next
      case none: None
      with f a have "same_records (owned dc') (cs\<lparr>cs_world := s3\<rparr>) (ct\<lparr>cs_world := t3\<rparr>)"
        using rec by (simp add: same_records_def)
      from stages_same [OF this] show ?thesis
        using Reconcile_stages [OF assms(3,2), of s2 dc' s3] Reconcile_stages [OF assms(4,2), of t2 dc' t3]
          f a none c None by simp
    qed
  qed
qed

theorem reconcile_same:
  assumes "same_records start cs ct"
  shows "same_call (\<lambda>_. same_records finish) (Reconcile r req cs) (Reconcile q req ct)"
proof -
  have rec: "ReconciliationFailed cs = ReconciliationFailed ct" "cs_events cs = cs_events ct"
    and st: "start (cs_world cs) (cs_world ct)"
    using assms by (simp_all add: same_records_def)
  obtain x s1 y t1 where g: "rc_Get r req (cs_world cs) = (x, s1)" "rc_Get q req (cs_world ct) = (y, t1)" by fastforce
  have fin: "finish s1 t1" using get_related [OF st, of req] g by simp
  show ?thesis
  proof (cases x)
    case (Inl e)
    then show ?thesis
      using get_same [OF st, of req] g fin rec
      by (auto simp: Reconcile_def outside_def same_records_def set_gauge_def)
  next
    case (Inr dc)
    then have y: "y = Inr dc" using get_same [OF st, of req] g by auto
    have "read dc s1 t1" using get_read [OF st] g Inr y by blast
    then have rd: "same_records (read dc) (cs\<lparr>cs_world := s1\<rparr>) (ct\<lparr>cs_world := t1\<rparr>)"
      using rec by (simp add: same_records_def)
    show ?thesis
    proof (cases "being_deleted dc")
      case True
      from deletion_same [OF rd] True g Inr y show ?thesis by (simp add: Reconcile_deletion)
    next
      case False
      from g Inr y show ?thesis by (intro alive_same [OF rd False]) simp_all
    qed
  qed
qed

end

end
