(* ===== verification/Caches_In_Sync.thy ===== *)
theory Caches_In_Sync
  imports Cached_Reads Simulated_Reconciler
begin

text \<open>
  When the caches have caught up and nobody else acts, the operator does with the manager's client what it does on the in-memory
  cluster without caches, although the caches do not follow its own writes: a reconciliation reads nothing that
  it has written. What is proved of reconciliations on the cluster so holds of the operator with its caches.
\<close>

declare split_paired_All [simp del] split_paired_Ex [simp del]

section \<open>Calls\<close>

text \<open>The caches show the world in which the reconciliation began, \<open>w0\<close>.\<close>

definition in_step :: "world \<Rightarrow> informed \<Rightarrow> world \<Rightarrow> bool" where
  "in_step w0 s w \<longleftrightarrow> in_schedule s = [] \<and> in_past s \<noteq> [] \<and> (\<forall>i. in_seen s i < length (in_past s)) \<and>
     (\<forall>i. cached i s = w0) \<and> server s = w"

lemma reads_in_step: "in_step w0 s w \<Longrightarrow> reads i f s = (f w0, s)"
  by (simp add: in_step_def reads_def others_act_def)

lemma writes_same: "in_step w0 s w \<Longrightarrow> same_call (\<lambda>_. in_step w0) (writes f s) (f w)"
  by (cases "f w")
     (auto simp: in_step_def writes_def others_act_def Let_def cached_def server_def server_becomes_def nth_append less_Suc_eq)

lemma in_step_server: "in_step w0 s w \<Longrightarrow> server s = w"
  by (simp add: in_step_def)

lemma cluster_get:
  assumes "tracker_ok rk (get w)"
  shows "kc_get (fake_client rk now get put) k w =
    ((case fmlookup (get w) k of None \<Rightarrow> Inl (NewNotFound (resource_string rk) (snd k)) | Some x \<Rightarrow> Inr x), w)"
proof (cases "fmlookup (get w) k")
  case None
  then show ?thesis by (cases k) (simp add: fake_client_def fake_Get_def tracker_Get_def)
next
  case (Some x)
  with tracker_okD [OF assms Some] show ?thesis
    by (cases k) (simp add: fake_client_def fake_Get_def tracker_Get_def stored_ok_def)
qed

lemma manager_get:
  assumes "in_step w0 s w" "fmlookup (get w0) k = fmlookup (get w) k"
  shows "kc_get (NewDelegatingClient i get rk False c) k s =
    ((case fmlookup (get w) k of None \<Rightarrow> Inl (NewNotFound (kind_string (rk_gvk rk)) (snd k)) | Some x \<Rightarrow> Inr x), s)"
  using assms by (simp add: delegating_simps reads_in_step CacheReader_Get_def)

lemma patch_object_same_call:
  assumes "in_step w0 s w"
  shows "same_call (\<lambda>_. in_step w0) (patch_object (NewDelegatingClient i get rk root c) x y s) (patch_object c x y w)"
proof -
  obtain p s1 w1 where "writes (kc_patch c x y) s = (p, s1)" "kc_patch c x y w = (p, w1)" "in_step w0 s1 w1"
    using writes_same [OF assms] by (rule same_callE)
  with assms show ?thesis by (cases p) (auto simp: patch_object_def delegating_simps)
qed

lemma patch_status_same_call:
  assumes "in_step w0 s w"
  shows "same_call (\<lambda>_. in_step w0) (patch_status (NewDelegatingClient i get rk root c) x y res z s) (patch_status c x y res z w)"
proof -
  let ?z = "if res = OperationResultUpdated then z\<lparr>status := status y\<rparr> else z"
  obtain p s1 w1 where "writes (kc_status_patch c x ?z) s = (p, s1)" "kc_status_patch c x ?z w = (p, w1)" "in_step w0 s1 w1"
    using writes_same [OF assms] by (rule same_callE)
  with assms show ?thesis by (cases p) (auto simp: patch_status_def delegating_simps Let_def)
qed

lemma CreateOrPatch_same_call:
  assumes "in_step w0 s w" "tracker_ok rk (get w)"
    and "fmlookup (get w0) (ObjectKeyFromObject x) = fmlookup (get w) (ObjectKeyFromObject x)"
  shows "same_call (\<lambda>_. in_step w0) (CreateOrPatch (NewDelegatingClient i get rk False (fake_client rk now get put)) x f s)
    (CreateOrPatch (fake_client rk now get put) x f w)"
proof (cases "fmlookup (get w) (ObjectKeyFromObject x)")
  case None
  note get = cluster_get [where get = get and w = w and rk = rk, OF assms(2)] manager_get [OF assms(1,3)] None
  show ?thesis
  proof (cases "mutate f (ObjectKeyFromObject x) x")
    case (Inl e)
    with get assms(1) show ?thesis by (simp add: CreateOrPatch_def)
  next
    case (Inr y)
    obtain p s1 w1 where "writes (kc_create (fake_client rk now get put) y) s = (p, s1)"
      "kc_create (fake_client rk now get put) y w = (p, w1)" "in_step w0 s1 w1"
      using writes_same [OF assms(1)] by (rule same_callE)
    with get Inr show ?thesis by (cases p) (simp_all add: CreateOrPatch_def delegating_simps)
  qed
next
  case (Some old)
  note get = cluster_get [where get = get and w = w and rk = rk, OF assms(2)] manager_get [OF assms(1,3)] Some
  show ?thesis
  proof (cases "mutate f (ObjectKeyFromObject x) old")
    case (Inl e)
    with get assms(1) show ?thesis by (simp add: CreateOrPatch_def)
  next
    case (Inr y)
    obtain p s1 w1 where p: "patch_object (NewDelegatingClient i get rk False (fake_client rk now get put)) old y s = (p, s1)"
      "patch_object (fake_client rk now get put) old y w = (p, w1)" "in_step w0 s1 w1"
      using patch_object_same_call [OF assms(1)] by (rule same_callE)
    show ?thesis
      using get Inr p patch_status_same_call [OF p(3)] by (cases p) (auto simp: CreateOrPatch_def)
  qed
qed

lemma ensure_object_same_call:
  assumes "in_step w0 s w" "tracker_ok rk (get w)" "fmlookup (get w0) (ns, name) = fmlookup (get w) (ns, name)"
  shows "same_call (\<lambda>_. in_step w0)
    (ensure_object (NewDelegatingClient i get rk False (fake_client rk now get put)) name ns zero f prefix s)
    (ensure_object (fake_client rk now get put) name ns zero f prefix w)"
proof -
  let ?x = "case fmlookup (get w) (ns, name) of None \<Rightarrow> named_object name ns zero | Some x \<Rightarrow> x"
  have "ObjectKeyFromObject ?x = (ns, name)"
    using tracker_okD [OF assms(2)]
    by (auto simp: named_object_def ObjectKeyFromObject_def stored_ok_def split: option.split)
  with assms(3) have "fmlookup (get w0) (ObjectKeyFromObject ?x) = fmlookup (get w) (ObjectKeyFromObject ?x)" by simp
  from CreateOrPatch_same_call [OF assms(1,2) this] obtain a s1 w1 where
    "CreateOrPatch (NewDelegatingClient i get rk False (fake_client rk now get put)) ?x f s = (a, s1)"
    "CreateOrPatch (fake_client rk now get put) ?x f w = (a, w1)" "in_step w0 s1 w1" by (rule same_callE)
  then show ?thesis
    using cluster_get [where get = get and w = w and rk = rk, OF assms(2)] manager_get [OF assms(1,3)]
    by (cases a) (auto simp: ensure_object_def split: option.split)
qed

section \<open>Reconciliations\<close>

lemma cluster_list:
  assumes "cluster_ok w"
  shows "kc_list (api_deviceconfigs cluster) sel w = (Inr (CacheReader_List sel (w_deviceconfigs w)), w)"
    "kc_list (api_nodes cluster) sel w = (Inr (CacheReader_List sel (w_nodes w)), w)"
proof -
  have "tracker_ok deviceconfig_kind (w_deviceconfigs w)" "tracker_ok node_kind (w_nodes w)"
    using assms by (simp_all add: cluster_ok_def world_ok_def)
  note items = deviceconfigs.list_items [OF this(1)] nodes.list_items [OF this(2)]
  show "kc_list (api_deviceconfigs cluster) sel w = (Inr (CacheReader_List sel (w_deviceconfigs w)), w)"
    "kc_list (api_nodes cluster) sel w = (Inr (CacheReader_List sel (w_nodes w)), w)"
    unfolding cluster_simps fake_client_def fake_List_def CacheReader_List_def Let_def kind_client.simps items
    by (simp_all split: option.split)
qed

lemma manager_list:
  assumes "in_step w s w"
  shows "kc_list (api_deviceconfigs manager_client) sel s = (Inr (CacheReader_List sel (w_deviceconfigs w)), s)"
    "kc_list (api_nodes manager_client) sel s = (Inr (CacheReader_List sel (w_nodes w)), s)"
  using assms by (simp_all add: manager_simps delegating_simps reads_in_step)

lemma collect_names_in_step:
  assumes "in_step w s w" "cluster_ok w"
  shows "collect_names manager_client dcs names s = (fst (collect_names cluster dcs names w), s)"
    "snd (collect_names cluster dcs names w) = w"
  by (induction dcs arbitrary: names)
     (simp_all add: getDeviceConfigSelectedNodes_eq manager_list [OF assms(1)] cluster_list [OF assms(2)] del: cluster_simps)

lemma check_in_step:
  assumes "in_step w s w" "cluster_ok w"
  shows "CheckDeviceConfigForConflictingNodeSelector manager_client dc s =
      (fst (CheckDeviceConfigForConflictingNodeSelector cluster dc w), s)"
    "snd (CheckDeviceConfigForConflictingNodeSelector cluster dc w) = w"
proof -
  obtain a where a: "collect_names cluster (CacheReader_List None (w_deviceconfigs w)) [] w = (a, w)"
    using collect_names_in_step(2) [OF assms] by (metis surj_pair snd_conv)
  with collect_names_in_step(1) [OF assms, of "CacheReader_List None (w_deviceconfigs w)" "[]"]
  have "collect_names manager_client (CacheReader_List None (w_deviceconfigs w)) [] s = (a, s)" by simp
  with a show "CheckDeviceConfigForConflictingNodeSelector manager_client dc s =
      (fst (CheckDeviceConfigForConflictingNodeSelector cluster dc w), s)"
    "snd (CheckDeviceConfigForConflictingNodeSelector cluster dc w) = w"
    by (cases a; simp add: CheckDeviceConfigForConflictingNodeSelector_def manager_list [OF assms(1)]
        cluster_list [OF assms(2)] del: cluster_simps)+
qed

text \<open>Updates, deletions and writes of the status read nothing.\<close>

lemma finalizer_same_call:
  assumes "in_step w0 s w"
  shows "same_call (\<lambda>_. in_step w0) (AddDeletionFinalizer manager_client dc s) (AddDeletionFinalizer cluster dc w)"
    "same_call (\<lambda>_. in_step w0) (RemoveDeletionFinalizer manager_client dc s) (RemoveDeletionFinalizer cluster dc w)"
proof -
  have upd: "same_call (\<lambda>_. in_step w0) (kc_update (api_deviceconfigs manager_client) x s)
      (kc_update (api_deviceconfigs cluster) x w)" for x
    unfolding manager_simps delegating_simps by (rule writes_same [OF assms])
  show "same_call (\<lambda>_. in_step w0) (AddDeletionFinalizer manager_client dc s) (AddDeletionFinalizer cluster dc w)"
    using upd [of "finalized dc"] unfolding AddDeletionFinalizer_eq by (auto elim!: same_callE split: sum.split)
  show "same_call (\<lambda>_. in_step w0) (RemoveDeletionFinalizer manager_client dc s) (RemoveDeletionFinalizer cluster dc w)"
    using upd [of "unfinalized dc"] unfolding RemoveDeletionFinalizer_eq by (auto elim!: same_callE split: sum.split)
qed

lemma module_delete_same_call:
  assumes "in_step w0 s w"
  shows "same_call (\<lambda>_. in_step w0) (DeleteModule manager_client dc s) (DeleteModule cluster dc w)"
proof -
  let ?m = "named_object (GetModuleName dc) (om_namespace (metadata dc)) empty_module_spec"
  have "same_call (\<lambda>_. in_step w0) (kc_delete (api_modules manager_client) ?m s) (kc_delete (api_modules cluster) ?m w)"
    unfolding manager_simps delegating_simps by (rule writes_same [OF assms])
  then show ?thesis by (auto simp: DeleteModule_def elim!: same_callE split: option.split)
qed

lemma conditions_same_call:
  assumes "in_step w0 s w"
  shows "same_call (\<lambda>_. in_step w0) (SetConditionsReady manager_client dc reason message s)
      (SetConditionsReady cluster dc reason message w)"
    "same_call (\<lambda>_. in_step w0) (SetConditionsErrored manager_client dc reason message s)
      (SetConditionsErrored cluster dc reason message w)"
proof -
  have now: "api_now manager_client s i = api_now cluster w i" for i
    using assms by (simp add: manager_client_def cluster_def in_step_def)
  have "same_call (\<lambda>_. in_step w0) (write_status manager_client x s) (write_status cluster x w)" for x
  proof -
    have "same_call (\<lambda>_. in_step w0) (kc_status_update (api_deviceconfigs manager_client) x s)
        (kc_status_update (api_deviceconfigs cluster) x w)"
      unfolding manager_simps delegating_simps by (rule writes_same [OF assms])
    then show ?thesis by (auto simp: write_status_def elim!: same_callE split: sum.split)
  qed
  then show "same_call (\<lambda>_. in_step w0) (SetConditionsReady manager_client dc reason message s)
      (SetConditionsReady cluster dc reason message w)"
    "same_call (\<lambda>_. in_step w0) (SetConditionsErrored manager_client dc reason message s)
      (SetConditionsErrored cluster dc reason message w)"
    by (simp_all only: SetConditionsReady_def SetConditionsErrored_def now)
qed

section \<open>Stages\<close>

text \<open>What the caches show of the objects that the next stages read is what the server has.\<close>

definition began :: "informed \<Rightarrow> world \<Rightarrow> bool" where
  "began s w \<longleftrightarrow> in_step w s w \<and> cluster_ok w"

definition has_read :: "device_config \<Rightarrow> informed \<Rightarrow> world \<Rightarrow> bool" where
  "has_read dc s w \<longleftrightarrow> began s w \<and> fmlookup (w_deviceconfigs w) (ObjectKeyFromObject dc) = Some dc"

definition owns_finalizer :: "device_config \<Rightarrow> informed \<Rightarrow> world \<Rightarrow> bool" where
  "owns_finalizer dc s w \<longleftrightarrow> cluster_ok w \<and>
     (\<exists>w0. in_step w0 s w \<and> w_modules w0 = w_modules w \<and> w_daemonsets w0 = w_daemonsets w \<and> w_services w0 = w_services w)"

definition module_done :: "device_config \<Rightarrow> informed \<Rightarrow> world \<Rightarrow> bool" where
  "module_done dc s w \<longleftrightarrow> cluster_ok w \<and>
     (\<exists>w0. in_step w0 s w \<and> w_daemonsets w0 = w_daemonsets w \<and> w_services w0 = w_services w)"

definition labeler_done :: "device_config \<Rightarrow> informed \<Rightarrow> world \<Rightarrow> bool" where
  "labeler_done dc s w \<longleftrightarrow> cluster_ok w \<and>
     (\<exists>w0. in_step w0 s w \<and> fmlookup (w_daemonsets w0) (metrics_key dc) = fmlookup (w_daemonsets w) (metrics_key dc) \<and>
        w_services w0 = w_services w)"

definition ended :: "informed \<Rightarrow> world \<Rightarrow> bool" where
  "ended s w \<longleftrightarrow> (\<exists>w0. in_step w0 s w)"

lemma same_call_mono: "same_call rel x y \<Longrightarrow> (\<And>a s t. x = (a, s) \<Longrightarrow> y = (a, t) \<Longrightarrow> rel a s t \<Longrightarrow> rel' a s t) \<Longrightarrow> same_call rel' x y"
  by (cases x; cases y) (auto simp: same_call_def)

lemma module_stage_same_call:
  assumes "owns_finalizer dc s w"
  shows "same_call (\<lambda>_ s w. ended s w \<and> module_done dc s w)
    (ReconcileModule manager_client (AddToScheme base) st dc s) (ReconcileModule cluster (AddToScheme base) st dc w)"
proof -
  obtain w0 where w0: "cluster_ok w" "in_step w0 s w" "w_modules w0 = w_modules w"
    "w_daemonsets w0 = w_daemonsets w" "w_services w0 = w_services w"
    using assms by (auto simp: owns_finalizer_def)
  have "same_call (\<lambda>_. in_step w0)
    (ReconcileModule manager_client (AddToScheme base) st dc s) (ReconcileModule cluster (AddToScheme base) st dc w)"
    unfolding ReconcileModule_eq manager_simps cluster_simps
    by (rule ensure_object_same_call [where get = w_modules, OF w0(2) cluster_okD(2) [OF w0(1)]]) (simp add: w0)
  then show ?thesis
  proof (rule same_call_mono)
    fix e s' w'
    assume w': "ReconcileModule cluster (AddToScheme base) st dc w = (e, w')" "in_step w0 s' w'"
    have "cluster_ok w' \<and> w_daemonsets w' = w_daemonsets w \<and> w_services w' = w_services w"
      by (cases rule: module_total [OF w0(1), where base = base and st = st and dc = dc]) (use w' w0(1) in auto)
    with w' w0 show "ended s' w' \<and> module_done dc s' w'" by (auto simp: ended_def module_done_def)
  qed
qed

lemma labeler_stage_same_call:
  assumes "module_done dc s w"
  shows "same_call (\<lambda>_ s w. ended s w \<and> labeler_done dc s w)
    (ReconcileNodeLabeler manager_client (AddToScheme base) st dc s)
    (ReconcileNodeLabeler cluster (AddToScheme base) st dc w)"
proof -
  obtain w0 where w0: "cluster_ok w" "in_step w0 s w" "w_daemonsets w0 = w_daemonsets w" "w_services w0 = w_services w"
    using assms by (auto simp: module_done_def)
  have "same_call (\<lambda>_. in_step w0)
    (ReconcileNodeLabeler manager_client (AddToScheme base) st dc s) (ReconcileNodeLabeler cluster (AddToScheme base) st dc w)"
    unfolding ReconcileNodeLabeler_eq manager_simps cluster_simps
    by (rule ensure_object_same_call [where get = w_daemonsets, OF w0(2) cluster_okD(3) [OF w0(1)]]) (simp add: w0)
  then show ?thesis
  proof (rule same_call_mono)
    fix e s' w'
    assume w': "ReconcileNodeLabeler cluster (AddToScheme base) st dc w = (e, w')" "in_step w0 s' w'"
    have "cluster_ok w' \<and> fmlookup (w_daemonsets w') (metrics_key dc) = fmlookup (w_daemonsets w) (metrics_key dc) \<and>
        w_services w' = w_services w"
      by (cases rule: labeler_total [OF w0(1), where base = base and st = st and dc = dc]) (use w' w0(1) in auto)
    with w' w0 show "ended s' w' \<and> labeler_done dc s' w'" by (auto simp: ended_def labeler_done_def)
  qed
qed

lemma metrics_stage_same_call:
  assumes "labeler_done dc s w"
  shows "same_call (\<lambda>_. ended)
    (ReconcileNodeMetrics manager_client (AddToScheme base) st dc s) (ReconcileNodeMetrics cluster (AddToScheme base) st dc w)"
proof -
  obtain w0 where w0: "cluster_ok w" "in_step w0 s w" "w_services w0 = w_services w"
    "fmlookup (w_daemonsets w0) (metrics_key dc) = fmlookup (w_daemonsets w) (metrics_key dc)"
    using assms by (auto simp: labeler_done_def)
  have "same_call (\<lambda>_. in_step w0) (ReconcileNodeMetricsDaemonSet manager_client (AddToScheme base) st dc s)
      (ReconcileNodeMetricsDaemonSet cluster (AddToScheme base) st dc w)"
    unfolding ReconcileNodeMetricsDaemonSet_eq manager_simps cluster_simps
    by (rule ensure_object_same_call [where get = w_daemonsets, OF w0(2) cluster_okD(3) [OF w0(1)]]) (simp add: w0)
  then obtain e s1 w1 where d: "ReconcileNodeMetricsDaemonSet manager_client (AddToScheme base) st dc s = (e, s1)"
    "ReconcileNodeMetricsDaemonSet cluster (AddToScheme base) st dc w = (e, w1)" "in_step w0 s1 w1" by (rule same_callE)
  have w1: "cluster_ok w1 \<and> w_services w1 = w_services w"
    by (cases rule: metrics_daemonset_total [OF w0(1), where base = base and st = st and dc = dc]) (use d(2) w0(1) in auto)
  have "same_call (\<lambda>_. in_step w0) (ReconcileNodeMetricsService manager_client (AddToScheme base) dc s1)
      (ReconcileNodeMetricsService cluster (AddToScheme base) dc w1)"
    unfolding ReconcileNodeMetricsService_eq manager_simps cluster_simps
    by (rule ensure_object_same_call [where get = w_services, OF d(3) cluster_okD(4)]) (use w0 w1 in simp_all)
  with d show ?thesis
    by (auto simp: ReconcileNodeMetrics_def setNodeMetricsConditions_def ended_def elim!: same_callE split: option.split)
qed

section \<open>The operator with its caches and without them\<close>

lemma ended_simps: "in_step w0 s w \<Longrightarrow> ended s w" "began s w \<Longrightarrow> ended s w"
  by (auto simp: ended_def began_def)

lemma get_in_step:
  assumes "began s w"
  shows "kc_get (api_deviceconfigs manager_client) k s =
      ((case fmlookup (w_deviceconfigs w) k of
          None \<Rightarrow> Inl (NewNotFound (kind_string (rk_gvk deviceconfig_kind)) (snd k)) | Some x \<Rightarrow> Inr x), s)"
    "kc_get (api_deviceconfigs cluster) k w =
      ((case fmlookup (w_deviceconfigs w) k of
          None \<Rightarrow> Inl (NewNotFound (resource_string deviceconfig_kind) (snd k)) | Some x \<Rightarrow> Inr x), w)"
  unfolding manager_simps cluster_simps
  by (rule manager_get) (use assms in \<open>auto simp: began_def\<close>,
      rule cluster_get [where get = w_deviceconfigs], use assms cluster_okD(1) in \<open>auto simp: began_def\<close>)

lemma add_finalizer_same_call:
  assumes "has_read dc s w" "\<not> being_deleted dc"
  shows "same_call (\<lambda>(e, dc') s' w'. ended s' w' \<and> (e = None \<longrightarrow> owns_finalizer dc' s' w'))
    (if \<not> ContainsDeletionFinalizer dc then AddDeletionFinalizer manager_client dc s else ((None, dc), s))
    (if \<not> ContainsDeletionFinalizer dc then AddDeletionFinalizer cluster dc w else ((None, dc), w))"
proof -
  have w: "in_step w s w" "cluster_ok w" "fmlookup (w_deviceconfigs w) (ObjectKeyFromObject dc) = Some dc"
    using assms(1) by (simp_all add: has_read_def began_def)
  have "same_call (\<lambda>_. in_step w)
    (if \<not> ContainsDeletionFinalizer dc then AddDeletionFinalizer manager_client dc s else ((None, dc), s))
    (if \<not> ContainsDeletionFinalizer dc then AddDeletionFinalizer cluster dc w else ((None, dc), w))"
    using finalizer_same_call(1) [OF w(1)] w(1) by simp
  then show ?thesis
  proof (rule same_call_mono)
    fix a s' w'
    assume a: "(if \<not> ContainsDeletionFinalizer dc then AddDeletionFinalizer cluster dc w else ((None, dc), w)) = (a, w')"
      "in_step w s' w'"
    obtain dc1 w1 where
      "(if \<not> ContainsDeletionFinalizer dc then AddDeletionFinalizer cluster dc w else ((None, dc), w)) = ((None, dc1), w1)"
      "cluster_ok w1" "w_modules w1 = w_modules w" "w_daemonsets w1 = w_daemonsets w" "w_services w1 = w_services w"
      using finalizer_step [OF w(2,3) assms(2)] by metis
    with a have w': "a = (None, dc1)" "cluster_ok w'" "w_modules w' = w_modules w" "w_daemonsets w' = w_daemonsets w"
      "w_services w' = w_services w" by simp_all
    with a(2) have "owns_finalizer dc1 s' w'"
      unfolding owns_finalizer_def by (intro conjI exI [where x = w]) simp_all
    with w'(1) ended_simps(1) [OF a(2)]
    show "(\<lambda>(e, dc') s' w'. ended s' w' \<and> (e = None \<longrightarrow> owns_finalizer dc' s' w')) a s' w'" by simp
  qed
qed

interpretation synced: simulated_reconciler "operator_reconciler manager_client (AddToScheme base) st"
  "operator_reconciler cluster (AddToScheme base) st" began ended has_read owns_finalizer module_done labeler_done
  for base st
proof (unfold_locales, unfold operator_reconciler_simps add_missing_finalizer_operator, goal_cases)
  case (1 s w req)
  then show ?case unfolding get_in_step [OF 1] by (cases "fmlookup (w_deviceconfigs w) req") simp_all
next
  case (2 s w req)
  then show ?case unfolding get_in_step [OF 2] by (simp add: ended_simps)
next
  case (3 s w req dc s' w')
  then have "fmlookup (w_deviceconfigs w) req = Some dc" "s' = s" "w' = w"
    unfolding get_in_step [OF 3(1)] by (auto split: option.splits)
  moreover have "cluster_ok w" using 3(1) by (simp add: began_def)
  ultimately show ?case using 3(1) stored_key_dc by (simp add: has_read_def)
next
  case (4 dc s w)
  then have "in_step w s w" "cluster_ok w" by (simp_all add: has_read_def began_def)
  note c = check_in_step [OF this, of dc]
  obtain e w' where "CheckDeviceConfigForConflictingNodeSelector cluster dc w = (e, w')" by fastforce
  with c 4 show ?case by (auto simp: has_read_def ended_simps)
next
  case (5 dc s w)
  then show ?case by (rule add_finalizer_same_call)
next
  case (6 dc s w)
  then show ?case by (rule module_stage_same_call)
next
  case (7 dc s w)
  then show ?case by (rule labeler_stage_same_call)
next
  case (8 dc s w)
  then show ?case by (rule metrics_stage_same_call)
next
  case (9 s w dc reason message)
  then obtain w0 where "in_step w0 s w" by (auto simp: ended_def)
  from conditions_same_call(1) [OF this] show ?case by (rule same_call_mono) (rule ended_simps(1))
next
  case (10 s w dc reason message)
  then obtain w0 where "in_step w0 s w" by (auto simp: ended_def)
  from conditions_same_call(2) [OF this] show ?case by (rule same_call_mono) (rule ended_simps(1))
next
  case (11 dc s w)
  then show ?case by simp
next
  case (12 dc s w)
  then have "in_step w s w" by (simp add: has_read_def began_def)
  from module_delete_same_call [OF this] show ?case by (rule same_call_mono) (rule ended_simps(1))
next
  case (13 s w dc)
  then obtain w0 where "in_step w0 s w" by (auto simp: ended_def)
  from finalizer_same_call(2) [OF this] show ?case by (rule same_call_mono) (rule ended_simps(1))
next
  case (14 dc s w)
  then show ?case by (simp add: has_read_def ended_simps)
qed

text \<open>Nobody else acts, and every cache shows what the server has.\<close>

definition in_sync :: "informed \<Rightarrow> bool" where
  "in_sync s \<longleftrightarrow> in_schedule s = [] \<and> in_past s \<noteq> [] \<and> in_seen s = (\<lambda>_. length (in_past s) - 1)"

definition without_caches :: "informed controller_state \<Rightarrow> world controller_state" where
  "without_caches cs =
     \<lparr>cs_world = server (cs_world cs), ReconciliationFailed = ReconciliationFailed cs, cs_events = cs_events cs\<rparr>"

text \<open>This also covers what a reconciliation leaves where it fails.\<close>

lemma in_sync_reconcile:
  assumes "in_sync (cs_world cs)" "cluster_ok (server (cs_world cs))"
  shows "map_prod id without_caches (Reconcile (operator_reconciler manager_client (AddToScheme base) st) req cs) =
     Reconcile (operator_reconciler cluster (AddToScheme base) st) req (without_caches cs)"
proof -
  have "in_step (server (cs_world cs)) (cs_world cs) (server (cs_world cs))"
    using assms(1) by (simp add: in_step_def in_sync_def cached_def server_def last_conv_nth)
  then have "same_records began cs (without_caches cs)"
    using assms(2) by (simp add: same_records_def began_def without_caches_def)
  from synced.reconcile_same [OF this, of base st req] obtain a cs' ct' where
    r: "Reconcile (operator_reconciler manager_client (AddToScheme base) st) req cs = (a, cs')"
    "Reconcile (operator_reconciler cluster (AddToScheme base) st) req (without_caches cs) = (a, ct')"
    "same_records ended cs' ct'" by (rule same_callE)
  from r(3) have "without_caches cs' = ct'"
    by (auto simp: same_records_def ended_def without_caches_def in_step_def)
  with r show ?thesis by simp
qed

text \<open>
  C8. The caches do not matter once they have caught up. While nobody else acts, a reconciliation of the operator with the
  manager's client, whose caches do not follow its own writes, returns what it returns without caches, on the
  server alone, and leaves the same server, gauge and events. What the other theorems say of a reconciliation on the
  cluster therefore holds of the operator as it is deployed.
\<close>

theorem caches_in_sync_agree:
  assumes "in_sync (cs_world cs)" "cluster_ok (server (cs_world cs))"
  shows "map_prod id without_caches (Reconcile (operator_reconciler manager_client (AddToScheme base) st) req cs) =
     Reconcile (operator_reconciler cluster (AddToScheme base) st) req (without_caches cs)"
  using assms by (rule in_sync_reconcile)

section \<open>Recovery\<close>

definition caches_catch_up :: "nat \<Rightarrow> happening list" where
  "caches_catch_up n =
     map (\<lambda>i. Others (CacheCatchesUp i n)) [OfDeviceConfigs, OfModules, OfDaemonSets, OfServices, OfNodes]"

lemma caught_up:
  assumes "in_past (cs_world cs) \<noteq> []" "length (in_past (cs_world cs)) \<le> n"
  shows "run base st (caches_catch_up n) cs =
    cs\<lparr>cs_world := (cs_world cs)\<lparr>in_seen := (\<lambda>_. length (in_past (cs_world cs)) - 1)\<rparr>\<rparr>"
proof -
  have "min (k + n) (length (in_past (cs_world cs)) - 1) = length (in_past (cs_world cs)) - 1" for k
    using assms by auto
  moreover have "f(OfDeviceConfigs := x, OfModules := x, OfDaemonSets := x, OfServices := x, OfNodes := x) = (\<lambda>_. x)"
    for f :: "informer \<Rightarrow> nat" and x
    by (rule ext, rename_tac i, case_tac i) simp_all
  ultimately show ?thesis by (simp add: run_def caches_catch_up_def)
qed

text \<open>
  C7. Lag leaves no trace. For a resource that is not being deleted, in a cluster without a conflict of node selectors and none of whose objects another controller owns:
  however far the caches lag, once they have caught up, one reconciliation that nobody interferes with provisions the resource and makes it ready. Nothing else on the server changes, and the gauge is zero.
\<close>

theorem recovers_from_lag:
  assumes "in_past (cs_world cs) \<noteq> []" "length (in_past (cs_world cs)) \<le> n" "cluster_ok (server (cs_world cs))"
    and "fmlookup (w_deviceconfigs (server (cs_world cs))) req = Some dc" "\<not> being_deleted dc"
    and "conflict_free (ran (fmlookup (w_deviceconfigs (server (cs_world cs)))))
           (ran (fmlookup (w_nodes (server (cs_world cs)))))"
    and "all_adoptable dc (server (cs_world cs))"
  shows "let cs' = run base st (caches_catch_up n @ [Reconciles req []]) cs; w' = server (cs_world cs') in
     cluster_ok w' \<and> provisioned base st dc w' \<and> ready req dc w' \<and> only_for dc (server (cs_world cs)) w' \<and>
     ReconciliationFailed cs' (om_name (metadata dc)) = Some 0"
proof -
  let ?s = "(cs_world cs)\<lparr>in_seen := (\<lambda>_. length (in_past (cs_world cs)) - 1), in_schedule := []\<rparr>"
  let ?cs = "cs\<lparr>cs_world := ?s\<rparr>" and ?r = "operator_reconciler manager_client (AddToScheme base) st"
  have run: "run base st (caches_catch_up n @ [Reconciles req []]) cs = snd (Reconcile ?r req ?cs)"
    using caught_up [OF assms(1,2), of base st] by (simp add: run_def)
  have srv: "server ?s = server (cs_world cs)" by (simp add: server_def)
  have ok: "in_sync (cs_world ?cs)" "cluster_ok (server (cs_world ?cs))"
    using assms(1,3) srv by (simp_all add: in_sync_def)
  have w: "cs_world (without_caches ?cs) = server (cs_world cs)" by (simp add: without_caches_def server_def)
  from reconciled_provisions [of "without_caches ?cs" req dc base st] assms(3-7) obtain w' where
    "Reconcile (operator_reconciler cluster (AddToScheme base) st) req (without_caches ?cs) =
       ((empty_result, None),
        \<lparr>cs_world = w', ReconciliationFailed = (ReconciliationFailed (without_caches ?cs))(om_name (metadata dc) \<mapsto> 0),
         cs_events = cs_events (without_caches ?cs) @ [success_event dc]\<rparr>)"
    "cluster_ok w'" "provisioned base st dc w'" "ready req dc w'" "only_for dc (server (cs_world cs)) w'"
    unfolding w by auto
  with in_sync_reconcile [OF ok, of base st req] show ?thesis
    by (cases "Reconcile ?r req ?cs") (auto simp: run Let_def without_caches_def)
qed

end
