(* ===== verification/Lagging_Recovery.thy ===== *)
theory Lagging_Recovery
  imports Lagging_Loop Caches_In_Sync
begin

text \<open>
  Left alone, the loop on lagging caches comes to rest from wherever it is: the caches catch up, the handlers hear what there is to hear,
  and the worker reconciles one request after the other.
\<close>

declare split_paired_All [simp del] split_paired_Ex [simp del]

section \<open>A settled resource is left as it is\<close>

lemma ensure_unchanged:
  assumes "kc_get c (ns, name) s = (Inr x, s)" "ObjectKeyFromObject x = (ns, name)" "f x = Inr x"
  shows "ensure_object c name ns zero f prefix s = (None, s)"
  using assms by (simp add: ensure_object_def CreateOrPatch_def mutate_def patch_status_same)

lemma found_in_step:
  assumes "in_step w s w" "tracker_ok rk (get w)" "fmlookup (get w) k = Some x"
  shows "kc_get (NewDelegatingClient i get rk False c) k s = (Inr x, s)" "ObjectKeyFromObject x = k"
  using manager_get [where get = get and k = k and i = i and rk = rk and c = c, OF assms(1) refl] assms(3) tracker_okD [OF assms(2,3)] by (simp_all add: stored_ok_def)

lemma stages_unchanged:
  assumes s: "in_step w s w" and ok: "cluster_ok w" and pv: "provisioned base st dc w"
  shows "ReconcileModule manager_client (AddToScheme base) st dc s = (None, s)"
    "ReconcileNodeLabeler manager_client (AddToScheme base) st dc s = (None, s)"
    "ReconcileNodeMetrics manager_client (AddToScheme base) st dc s = (None, s)"
proof -
  obtain m l n v where m: "fmlookup (w_modules w) (module_key dc) = Some m" "SetDesiredModule (AddToScheme base) st (Some m) dc = Inr m"
    and l: "fmlookup (w_daemonsets w) (labeler_key dc) = Some l" "SetDesiredNodeLabelerDaemonSet (AddToScheme base) st (Some l) dc = Inr l"
    and n: "fmlookup (w_daemonsets w) (metrics_key dc) = Some n" "SetDesiredNodeMetricsDaemonSet (AddToScheme base) st (Some n) dc = Inr n"
    and v: "fmlookup (w_services w) (metrics_key dc) = Some v" "SetDesiredNodeMetricsService (AddToScheme base) (Some v) dc = Inr v"
    using pv unfolding provisioned_def by blast
  note fm = found_in_step [where get = w_modules, OF s cluster_okD(2) [OF ok] m(1)]
  note fl = found_in_step [where get = w_daemonsets, OF s cluster_okD(3) [OF ok] l(1)]
  note fn = found_in_step [where get = w_daemonsets, OF s cluster_okD(3) [OF ok] n(1)]
  note fv = found_in_step [where get = w_services, OF s cluster_okD(4) [OF ok] v(1)]
  show "ReconcileModule manager_client (AddToScheme base) st dc s = (None, s)"
    unfolding ReconcileModule_eq manager_simps by (rule ensure_unchanged [OF fm]) (rule m(2))
  show "ReconcileNodeLabeler manager_client (AddToScheme base) st dc s = (None, s)"
    unfolding ReconcileNodeLabeler_eq manager_simps by (rule ensure_unchanged [OF fl]) (rule l(2))
  have "ReconcileNodeMetricsDaemonSet manager_client (AddToScheme base) st dc s = (None, s)"
    unfolding ReconcileNodeMetricsDaemonSet_eq manager_simps by (rule ensure_unchanged [OF fn]) (rule n(2))
  moreover have "ReconcileNodeMetricsService manager_client (AddToScheme base) dc s = (None, s)"
    unfolding ReconcileNodeMetricsService_eq manager_simps by (rule ensure_unchanged [OF fv]) (rule v(2))
  ultimately show "ReconcileNodeMetrics manager_client (AddToScheme base) st dc s = (None, s)"
    by (simp add: ReconcileNodeMetrics_def setNodeMetricsConditions_def)
qed

lemma in_sync_in_step: "in_sync s \<Longrightarrow> in_step (server s) s (server s)"
  by (simp add: in_step_def in_sync_def cached_def server_def last_conv_nth)

text \<open>At most one write, of the status.\<close>

definition one_write :: "informed \<Rightarrow> informed \<Rightarrow> bool" where
  "one_write s s' \<longleftrightarrow> in_seen s' = in_seen s \<and> (in_past s' = in_past s \<or> (\<exists>w. in_past s' = in_past s @ [w]))"

lemma settled_one_write:
  assumes s: "in_sync (cs_world cs)" and wk: "workable (server (cs_world cs))"
    and st: "settled (phase_of base st (server (cs_world cs)) req)"
    and run: "Reconcile (operator_reconciler manager_client (AddToScheme base) st) req cs = (res, cs')"
  shows "one_write (cs_world cs) (cs_world cs')"
proof -
  let ?s = "cs_world cs" and ?w = "server (cs_world cs)" and ?r = "operator_reconciler manager_client (AddToScheme base) st"
  note step = in_sync_in_step [OF s]
  have ok: "cluster_ok ?w" and cf: "conflict_free (ran (fmlookup (w_deviceconfigs ?w))) (ran (fmlookup (w_nodes ?w)))"
    using wk by (simp_all add: workable_def)
  have "began ?s ?w" using step ok by (simp add: began_def)
  note get = get_in_step(1) [OF this, of req]
  show ?thesis
  proof (cases "fmlookup (w_deviceconfigs ?w) req")
    case None
    with get run show ?thesis by (auto simp: Reconcile_def outside_def one_write_def split: if_splits)
  next
    case (Some dc)
    with get have got: "rc_Get ?r req ?s = (Inr dc, ?s)" by simp
    show ?thesis
    proof (cases "being_deleted dc")
      case True
      with st Some have "\<not> ContainsDeletionFinalizer dc" by (auto simp: settled_def phase_of_def split: if_splits)
      with run Reconcile_deletion [OF got True] show ?thesis
        by (auto simp: reconcile_deletion_def outside_def one_write_def Let_def)
    next
      case False
      with st Some have dc: "ContainsDeletionFinalizer dc" "provisioned base st dc ?w"
        by (auto simp: settled_def phase_of_def split: if_splits)
      have "nsv_Check ?r dc ?s = (None, ?s)"
        using check_in_step(1) [OF step ok, of dc] no_conflict [OF ok cf] by simp
      from Reconcile_stages [OF got False this, of dc ?s] dc(1)
      have "Reconcile ?r req cs = reconcile_stages ?r dc cs" by simp
      moreover obtain x s5 where "SetConditionsReady manager_client dc ''Reconciled'' all_reconciled ?s = (x, s5)" "one_write ?s s5"
        by (cases "SetConditionsReady manager_client dc ''Reconciled'' all_reconciled ?s")
           (use step in \<open>auto simp: SetConditionsReady_def write_status_def manager_simps delegating_simps writes_def others_act_def
              in_step_def server_becomes_def one_write_def Let_def split: prod.splits sum.splits\<close>)
      ultimately show ?thesis
        using run stages_unchanged [OF step ok dc(2)]
        by (cases x) (auto simp: reconcile_stages_def outside_def all_reconciled_def Let_def set_gauge_def record_event_def split: prod.splits)
    qed
  qed
qed

section \<open>One turn of the worker\<close>

lemma settled_watched_done: "settled (phase_of base st w k) \<Longrightarrow> watched_done base st w k"
  by (auto simp: settled_def phase_of_def watched_done_def provisioned_def split: option.splits if_splits)

lemma watched_done_elsewhere:
  assumes "cluster_ok w" "only_for dc w w'" "k \<noteq> ObjectKeyFromObject dc" "watched_done base st w k"
  shows "watched_done base st w' k"
proof -
  have "fmlookup (w_deviceconfigs w') k = fmlookup (w_deviceconfigs w) k" using assms(2,3) by (simp add: only_for_def)
  then show ?thesis
    using assms(3,4) stored_key_dc [OF assms(1), of k] confined_elsewhere [OF assms(2)]
    by (cases "fmlookup (w_deviceconfigs w) k") (simp_all add: watched_done_def)
qed

lemma reconcile_elsewhere:
  assumes "cluster_ok (cs_world cs)" "k \<noteq> req" "watched_done base st (cs_world cs) k"
    and "Reconcile (operator_reconciler cluster (AddToScheme base) st) req cs = (res, cs')"
  shows "watched_done base st (cs_world cs') k"
  using assms(1)
proof (cases rule: reconcile_total [where req = req and base = base and st = st])
  case (leaving dc w')
  with assms stored_key_dc [OF assms(1) leaving(1)] watched_done_elsewhere [OF assms(1) leaving(6) _ assms(3)] show ?thesis by auto
next
  case (failed dc dc' reason err w')
  with assms stored_key_dc [OF assms(1) failed(1)] watched_done_elsewhere [OF assms(1) failed(6) _ assms(3)] show ?thesis by auto
next
  case (provisioned dc dc' w')
  with assms stored_key_dc [OF assms(1) provisioned(1)] watched_done_elsewhere [OF assms(1) provisioned(6) _ assms(3)]
  show ?thesis by auto
qed (use assms in auto)

lemma changes_requests: "requests (informer_changes i w w') \<subseteq> requests (changes w w')"
proof (cases "i = OfNodes")
  case True
  then show ?thesis by (auto simp: informer_changes_def requests_def kind_changes_def event_requests_def)
next
  case False
  then show ?thesis by (intro requests_mono) (cases i; simp add: informer_changes_def changes_def le_supI1)
qed

lemma synced_turn:
  assumes s: "in_sync (cs_world cs)" and wk: "workable (server (cs_world cs))"
    and run: "Reconcile (operator_reconciler manager_client (AddToScheme base) st) req cs = ((res, err), cs')"
  shows "err = None" "workable (server (cs_world cs'))" "in_bounds (cs_world cs')"
    "unsettled base st (server (cs_world cs')) = unsettled base st (server (cs_world cs)) - {req}"
    "req \<notin> unsettled base st (server (cs_world cs)) \<Longrightarrow>
       told cs cs' = {} \<and> requests (upcoming (cs_world cs')) = {}"
    "watched_done base st (server (cs_world cs)) k \<or> k = req \<Longrightarrow> watched_done base st (server (cs_world cs')) k"
proof -
  let ?s = "cs_world cs" and ?s' = "cs_world cs'"
  have ok: "cluster_ok (server ?s)" using wk by (simp add: workable_def)
  have without: "cs_world (without_caches c) = server (cs_world c)" for c by (simp add: without_caches_def)
  from in_sync_reconcile [OF s ok, of base st req]
  have rec: "Reconcile (operator_reconciler cluster (AddToScheme base) st) req (without_caches cs) = ((res, err), without_caches cs')"
    by (simp add: run)
  have "workable (cs_world (without_caches cs))" using wk by (simp add: without)
  note turn = turn [OF this rec, unfolded without]
  show "err = None" "workable (server ?s')" "unsettled base st (server ?s') = unsettled base st (server ?s) - {req}"
    by (rule turn(1), rule turn(2), rule turn(3))
  have b: "in_bounds ?s" using s by (auto simp: in_sync_def in_bounds_def)
  show "in_bounds ?s'" using laterD(1) [OF reconcile_later [OF b, of "AddToScheme base" st req]] run by simp
  have "settled (phase_of base st (server ?s') req)" using turn(3) by (auto simp: unsettled_def)
  then show "watched_done base st (server ?s') k" if "watched_done base st (server ?s) k \<or> k = req"
  proof (cases "k = req")
    case False
    with that have "watched_done base st (server ?s) k" by simp
    from reconcile_elsewhere [where cs = "without_caches cs", unfolded without, OF ok False this rec] show ?thesis by (simp add: without)
  next
    case True
    then show ?thesis using settled_watched_done [OF \<open>settled (phase_of base st (server ?s') req)\<close>] by simp
  qed
  assume "req \<notin> unsettled base st (server ?s)"
  then have st: "settled (phase_of base st (server ?s) req)" by (simp add: unsettled_def)
  have none: "requests (informer_changes i (server ?s) (server ?s')) = {}" for i
    using changes_requests [of i "server ?s" "server ?s'"] turn(4) [OF st] by simp
  from settled_one_write [OF s wk st run] show "told cs cs' = {} \<and> requests (upcoming ?s') = {}"
  proof (unfold one_write_def, elim conjE disjE exE)
    fix w assume w: "in_seen ?s' = in_seen ?s" "in_past ?s' = in_past ?s @ [w]"
    have "in_seen ?s' i = length (in_past ?s) - 1" "0 < length (in_past ?s)" for i using s w by (auto simp: in_sync_def)
    then have "{in_seen ?s' i..<up_to_date (in_past ?s') i} = {length (in_past ?s) - 1}" for i
      using w(2) by (auto simp: up_to_date_def)
    moreover have "in_past ?s' ! (length (in_past ?s) - 1) = server ?s" "in_past ?s' ! Suc (length (in_past ?s) - 1) = server ?s'"
      using w(2) b by (auto simp: server_def in_bounds_def nth_append last_conv_nth)
    ultimately show ?thesis using none w(1) by (simp add: told_def upcoming_def news_def requests_def)
  qed (use s in \<open>simp add: told_def upcoming_def news_def in_sync_def up_to_date_def\<close>)
qed

section \<open>What the operator does by itself\<close>

text \<open>The steps of the loop in which nobody else acts.\<close>

definition operator_step ::
    "rest_mapper \<Rightarrow> (string \<times> event_handler) list \<Rightarrow> scheme \<Rightarrow> controller_settings \<Rightarrow> lagging_runtime \<Rightarrow> lagging_runtime \<Rightarrow> bool" where
  "operator_step mapper ws base st s s' \<longleftrightarrow> lagging_step mapper ws base st s s' \<and>
     (lr_state s' = lr_state s \<or>
      (\<exists>i n. lr_state s' = happens base st (Others (CacheCatchesUp i n)) (lr_state s)) \<or>
      (\<exists>req. lr_state s' = happens base st (Reconciles req []) (lr_state s)))"

lemma news_trans:
  assumes "\<And>i. a i \<le> m i" "\<And>i. m i \<le> e i"
  shows "news a m past \<union> news m e past = news a e past"
proof -
  have "{a i..<m i} \<union> {m i..<e i} = {a i..<e i}" for i using assms by (rule ivl_disj_un_two(3))
  then show ?thesis unfolding news_def by (simp add: UN_Un_distrib [symmetric] UN_Un [symmetric])
qed

lemma finite_news [simp]: "finite (news a e past)"
proof -
  have "finite (informer_changes i w w')" for i w w' by (cases i) (simp_all add: informer_changes_def)
  moreover have all: "UNIV = {OfDeviceConfigs, OfModules, OfDaemonSets, OfServices, OfNodes}" by (auto intro: informer.exhaust)
  have "finite (UNIV :: informer set)" unfolding all by simp
  ultimately show ?thesis unfolding news_def by (intro finite_UN_I) simp_all
qed

definition shown :: "informer list \<Rightarrow> informed \<Rightarrow> informer \<Rightarrow> nat" where
  "shown is s = (\<lambda>i. if i \<in> set is then length (in_past s) - 1 else in_seen s i)"

lemma shown_bounds: "in_bounds s \<Longrightarrow> in_seen s i \<le> shown is s i" "in_bounds s \<Longrightarrow> shown is s i \<le> shown (j # is) s i"
  by (auto simp: shown_def in_bounds_def intro: Suc_leI diff_le_mono [of "Suc _" _ 1, simplified])

text \<open>The caches catch up, one informer after the other.\<close>

lemma caches_shown:
  assumes "in_bounds (cs_world (lr_state s))"
  shows "\<exists>evs. set evs = news (in_seen (cs_world (lr_state s))) (shown is (cs_world (lr_state s))) (in_past (cs_world (lr_state s))) \<and>
    (operator_step mapper ws base st)\<^sup>*\<^sup>* s
      (s\<lparr>lr_state := (lr_state s)\<lparr>cs_world := (cs_world (lr_state s))\<lparr>in_seen := shown is (cs_world (lr_state s))\<rparr>\<rparr>,
         lr_events := lr_events s @ evs\<rparr>)"
proof (induction "is")
  case Nil
  then show ?case by (intro exI [where x = "[]"]) (simp add: shown_def news_def)
next
  case (Cons i "is")
  let ?w = "cs_world (lr_state s)"
  let ?t = "\<lambda>is evs. s\<lparr>lr_state := (lr_state s)\<lparr>cs_world := ?w\<lparr>in_seen := shown is ?w\<rparr>\<rparr>, lr_events := lr_events s @ evs\<rparr>"
  obtain evs where evs: "set evs = news (in_seen ?w) (shown is ?w) (in_past ?w)" "(operator_step mapper ws base st)\<^sup>*\<^sup>* s (?t is evs)"
    using Cons by blast
  obtain more where more: "set more = news (shown is ?w) (shown (i # is) ?w) (in_past ?w)" using finite_list [OF finite_news] by blast
  have "(shown is ?w)(i := min (shown is ?w i + length (in_past ?w)) (length (in_past ?w) - 1)) = shown (i # is) ?w"
    by (auto simp: shown_def)
  then have st: "lr_state (?t (i # is) (evs @ more)) = happens base st (Others (CacheCatchesUp i (length (in_past ?w)))) (lr_state (?t is evs))"
    by simp
  have "lagging_step mapper ws base st (?t is evs) (?t (i # is) (evs @ more))"
    using others_happen [OF st, of more mapper ws] more by (simp add: told_def)
  with st have "operator_step mapper ws base st (?t is evs) (?t (i # is) (evs @ more))"
    unfolding operator_step_def by blast
  moreover have "set (evs @ more) = news (in_seen ?w) (shown (i # is) ?w) (in_past ?w)"
    using news_trans [OF shown_bounds(1) [OF assms] shown_bounds(2) [OF assms], where past = "in_past ?w"] evs(1) more by simp
  ultimately show ?case using evs(2) by (meson rtranclp.rtrancl_into_rtrancl)
qed

text \<open>The handlers hear of all events, the worker finishes, all retries become due.\<close>

lemma queue_step:
  assumes "lagging_step mapper ws base st s s'" "lr_state s' = lr_state s"
  shows "operator_step mapper ws base st s s'"
  using assms by (simp add: operator_step_def)

lemma events_delivered:
  assumes "maps_namespaced mapper" "wq_ok (lr_queue s)" "\<not> wq_shuttingDown (lr_queue s)"
  shows "\<exists>q. (operator_step mapper watches base st)\<^sup>*\<^sup>* s (s\<lparr>lr_queue := q, lr_events := []\<rparr>) \<and> wq_ok q \<and> \<not> wq_shuttingDown q \<and>
    wq_dirty q = wq_dirty (lr_queue s) \<union> requests (set (lr_events s)) \<and> wq_processing q = wq_processing (lr_queue s) \<and>
    wq_waiting q = wq_waiting (lr_queue s)"
  using assms(2,3)
proof (induction "lr_events s" arbitrary: s)
  case Nil
  then have same: "s\<lparr>lr_queue := lr_queue s, lr_events := []\<rparr> = s" by (cases s) simp
  show ?case using Nil(2,3) Nil(1) [symmetric] by (intro exI [where x = "lr_queue s"]) (unfold same, simp)
next
  case (Cons ke ys)
  let ?q = "lr_queue s" and ?s = "s\<lparr>lr_queue := deliver mapper watches ke (lr_queue s), lr_events := ys\<rparr>"
  note add = fold_Add [OF Cons.prems(2), of "event_requests ke"]
  have q: "wq_ok (lr_queue ?s)" "\<not> wq_shuttingDown (lr_queue ?s)"
    using add Cons.prems by (simp_all add: deliver_eq [OF assms(1)])
  have "operator_step mapper watches base st s ?s"
    using handlers_called [of s "[]" ke ys mapper watches base st] Cons.hyps(2) by (intro queue_step) simp_all
  moreover obtain q where "(operator_step mapper watches base st)\<^sup>*\<^sup>* ?s (?s\<lparr>lr_queue := q, lr_events := []\<rparr>)" "wq_ok q"
    "\<not> wq_shuttingDown q" "wq_dirty q = wq_dirty (lr_queue ?s) \<union> requests (set ys)"
    "wq_processing q = wq_processing (lr_queue ?s)" "wq_waiting q = wq_waiting (lr_queue ?s)"
    using Cons.hyps(1) [of ?s, OF _ q] by auto
  ultimately show ?case
    using add Cons.hyps(2) [symmetric]
    by (intro exI [where x = q]) (auto simp: deliver_eq [OF assms(1)] intro: converse_rtranclp_into_rtranclp)
qed

lemma processing_finished:
  assumes "wq_ok (lr_queue s)" "\<not> wq_shuttingDown (lr_queue s)"
  shows "\<exists>q. (operator_step mapper ws base st)\<^sup>*\<^sup>* s (s\<lparr>lr_queue := q\<rparr>) \<and> wq_ok q \<and> \<not> wq_shuttingDown q \<and>
    wq_dirty q = wq_dirty (lr_queue s) \<and> wq_processing q = {} \<and> wq_waiting q = wq_waiting (lr_queue s)"
  using wq_okD(2) [OF assms(1)] assms
proof (induction "card (wq_processing (lr_queue s))" arbitrary: s rule: less_induct)
  case less
  let ?q = "lr_queue s"
  show ?case
  proof (cases "wq_processing ?q = {}")
    case True
    with less.prems show ?thesis by (intro exI [where x = ?q]) simp
  next
    case False
    then obtain req where req: "req \<in> wq_processing ?q" by blast
    let ?s = "s\<lparr>lr_queue := wq_Done req ?q\<rparr>"
    have "card (wq_processing (lr_queue ?s)) < card (wq_processing ?q)" using card_Diff1_less [OF less.prems(1) req] by simp
    from less.hyps [OF this] less.prems req obtain q where
      "(operator_step mapper ws base st)\<^sup>*\<^sup>* ?s (?s\<lparr>lr_queue := q\<rparr>)" "wq_ok q" "\<not> wq_shuttingDown q"
      "wq_dirty q = wq_dirty ?q" "wq_processing q = {}" "wq_waiting q = wq_waiting ?q" by auto
    moreover have "operator_step mapper ws base st s ?s"
      using worker_finishes [of req s mapper ws base st] req by (intro queue_step) simp_all
    ultimately show ?thesis by (intro exI [where x = q]) (auto intro: converse_rtranclp_into_rtranclp)
  qed
qed

lemma retries_added:
  assumes "wq_ok (lr_queue s)" "\<not> wq_shuttingDown (lr_queue s)"
  shows "\<exists>q. (operator_step mapper ws base st)\<^sup>*\<^sup>* s (s\<lparr>lr_queue := q\<rparr>) \<and> wq_ok q \<and> \<not> wq_shuttingDown q \<and>
    wq_dirty q = wq_dirty (lr_queue s) \<union> fmdom' (wq_waiting (lr_queue s)) \<and> wq_processing q = wq_processing (lr_queue s) \<and>
    wq_waiting q = fmempty"
  using wq_okD(3) [OF assms(1)] assms
proof (induction "card (fmdom' (wq_waiting (lr_queue s)))" arbitrary: s rule: less_induct)
  case less
  let ?q = "lr_queue s"
  show ?case
  proof (cases "fmdom' (wq_waiting ?q) = {}")
    case True
    then have "wq_waiting ?q = fmempty" by (intro fmap_ext) (metis empty_iff fmdom'_notI fmdom'_empty fmlookup_dom'_iff not_None_eq)
    with less.prems show ?thesis by (intro exI [where x = ?q]) simp
  next
    case False
    then obtain req where req: "req \<in> fmdom' (wq_waiting ?q)" by blast
    let ?s = "s\<lparr>lr_queue := add_ready req ?q\<rparr>"
    have q: "wq_dirty (add_ready req ?q) = insert req (wq_dirty ?q)" "wq_waiting (add_ready req ?q) = fmdrop req (wq_waiting ?q)"
      "wq_processing (add_ready req ?q) = wq_processing ?q" "\<not> wq_shuttingDown (add_ready req ?q)"
      using less.prems by (simp_all add: add_ready_def)
    have "card (fmdom' (wq_waiting (lr_queue ?s))) < card (fmdom' (wq_waiting ?q))"
      using card_Diff1_less [OF less.prems(1) req] q by simp
    from less.hyps [OF this] less.prems q obtain q' where
      "(operator_step mapper ws base st)\<^sup>*\<^sup>* ?s (?s\<lparr>lr_queue := q'\<rparr>)" "wq_ok q'" "\<not> wq_shuttingDown q'"
      "wq_dirty q' = insert req (wq_dirty ?q) \<union> (fmdom' (wq_waiting ?q) - {req})" "wq_processing q' = wq_processing ?q"
      "wq_waiting q' = fmempty" by auto
    moreover have "operator_step mapper ws base st s ?s"
      using retry_added [of req s mapper ws base st] req by (intro queue_step) simp_all
    ultimately show ?thesis using req by (intro exI [where x = q']) (auto intro: converse_rtranclp_into_rtranclp)
  qed
qed

section \<open>Tidy states\<close>

text \<open>Nothing is left to hear, and the worker is idle; requests may be queued.\<close>

definition tidy :: "lagging_runtime \<Rightarrow> bool" where
  "tidy s \<longleftrightarrow> wq_ok (lr_queue s) \<and> \<not> wq_shuttingDown (lr_queue s) \<and> wq_processing (lr_queue s) = {} \<and>
     wq_waiting (lr_queue s) = fmempty \<and> lr_events s = [] \<and> in_bounds (cs_world (lr_state s)) \<and>
     in_seen (cs_world (lr_state s)) = up_to_date (in_past (cs_world (lr_state s)))"

lemma tidied:
  assumes "in_bounds (cs_world (lr_state s))" "wq_ok (lr_queue s)" "\<not> wq_shuttingDown (lr_queue s)" "maps_namespaced mapper"
  shows "\<exists>s'. (operator_step mapper watches base st)\<^sup>*\<^sup>* s s' \<and> tidy s' \<and> wq_dirty (lr_queue s') = on_the_way s \<and>
    server (cs_world (lr_state s')) = server (cs_world (lr_state s))"
proof -
  let ?w = "cs_world (lr_state s)" and ?op = "operator_step mapper watches base st"
  let ?all = "[OfDeviceConfigs, OfModules, OfDaemonSets, OfServices, OfNodes]"
  let ?cs = "(lr_state s)\<lparr>cs_world := ?w\<lparr>in_seen := up_to_date (in_past ?w)\<rparr>\<rparr>"
  have "shown ?all ?w = up_to_date (in_past ?w)"
    by (rule ext, rename_tac i, case_tac i) (simp_all add: shown_def up_to_date_def)
  with caches_shown [OF assms(1), of ?all mapper watches base st] obtain evs where
    evs: "set evs = upcoming ?w" and s1: "?op\<^sup>*\<^sup>* s (s\<lparr>lr_state := ?cs, lr_events := lr_events s @ evs\<rparr>)"
    unfolding upcoming_def by auto
  let ?s1 = "s\<lparr>lr_state := ?cs, lr_events := lr_events s @ evs\<rparr>"
  from events_delivered [OF assms(4), of ?s1 base st] assms(2,3) obtain q2 where
    s2: "?op\<^sup>*\<^sup>* ?s1 (?s1\<lparr>lr_queue := q2, lr_events := []\<rparr>)" "wq_ok q2" "\<not> wq_shuttingDown q2"
    "wq_dirty q2 = wq_dirty (lr_queue s) \<union> requests (set (lr_events s) \<union> upcoming ?w)" "wq_waiting q2 = wq_waiting (lr_queue s)"
    using evs by auto
  let ?s2 = "?s1\<lparr>lr_queue := q2, lr_events := []\<rparr>"
  from processing_finished [of ?s2 mapper watches base st] s2 obtain q3 where
    s3: "?op\<^sup>*\<^sup>* ?s2 (?s2\<lparr>lr_queue := q3\<rparr>)" "wq_ok q3" "\<not> wq_shuttingDown q3" "wq_dirty q3 = wq_dirty q2"
    "wq_processing q3 = {}" "wq_waiting q3 = wq_waiting q2" by auto
  let ?s3 = "?s2\<lparr>lr_queue := q3\<rparr>"
  from retries_added [of ?s3 mapper watches base st] s3 obtain q4 where
    s4: "?op\<^sup>*\<^sup>* ?s3 (?s3\<lparr>lr_queue := q4\<rparr>)" "wq_ok q4" "\<not> wq_shuttingDown q4"
    "wq_dirty q4 = wq_dirty q3 \<union> fmdom' (wq_waiting q3)" "wq_processing q4 = {}" "wq_waiting q4 = fmempty" by auto
  let ?s4 = "?s3\<lparr>lr_queue := q4\<rparr>"
  have "?op\<^sup>*\<^sup>* s ?s4" using s1 s2(1) s3(1) s4(1) by (meson rtranclp_trans)
  moreover have "tidy ?s4" using s4 assms(1) by (simp add: tidy_def in_bounds_def up_to_date_def)
  moreover have "wq_dirty (lr_queue ?s4) = on_the_way s" using s2 s3 s4 by (auto simp: on_the_way_def)
  moreover have "server (cs_world (lr_state ?s4)) = server ?w" by (simp add: server_def)
  ultimately show ?thesis by blast
qed

section \<open>Coming to rest\<close>

text \<open>What is not done (but for a set \<open>R\<close>), or of a set \<open>K\<close> not settled, is queued. The cluster can be worked on.\<close>

definition accounted ::
    "scheme \<Rightarrow> controller_settings \<Rightarrow> object_key set \<Rightarrow> object_key set \<Rightarrow> lagging_runtime \<Rightarrow> bool" where
  "accounted base st R K s \<longleftrightarrow> workable (server (cs_world (lr_state s))) \<and>
     (\<forall>k. watched_done base st (server (cs_world (lr_state s))) k \<or> k \<in> wq_dirty (lr_queue s) \<or> k \<in> R) \<and>
     K \<inter> unsettled base st (server (cs_world (lr_state s))) \<subseteq> wq_dirty (lr_queue s)"

lemma one_round:
  assumes t: "tidy s" and acc: "accounted base st R K s" and ne: "wq_dirty (lr_queue s) \<noteq> {}" and mapper: "maps_namespaced mapper"
  shows "\<exists>s'. (operator_step mapper watches base st)\<^sup>*\<^sup>* s s' \<and> tidy s' \<and> accounted base st R K s' \<and>
    (card (unsettled base st (server (cs_world (lr_state s')))) < card (unsettled base st (server (cs_world (lr_state s)))) \<or>
     unsettled base st (server (cs_world (lr_state s'))) = unsettled base st (server (cs_world (lr_state s))) \<and>
     card (wq_dirty (lr_queue s')) < card (wq_dirty (lr_queue s)))"
proof -
  let ?q = "lr_queue s" and ?cs = "scheduled [] (lr_state s)" and ?r = "operator_reconciler manager_client (AddToScheme base) st"
    and ?U = "\<lambda>s. unsettled base st (server (cs_world (lr_state s)))"
  have q: "wq_ok ?q" "\<not> wq_shuttingDown ?q" "wq_processing ?q = {}" "wq_waiting ?q = fmempty" and b: "in_bounds (cs_world (lr_state s))"
    using t by (simp_all add: tidy_def)
  then have "wq_queue ?q \<noteq> []" using ne by (auto simp: wq_ok_def)
  then obtain req rest where rest: "wq_queue ?q = req # rest" by (cases "wq_queue ?q") auto
  define q1 where "q1 = ?q\<lparr>wq_queue := rest, wq_processing := {req}, wq_dirty := wq_dirty ?q - {req}\<rparr>"
  have get: "wq_Get ?q = (Item req, q1)" using rest q(3) by (simp add: wq_Get_def q1_def)
  obtain res err cs' where run: "Reconcile ?r req ?cs = ((res, err), cs')" by (metis surj_pair)
  have sync: "in_sync (cs_world ?cs)" using t by (auto simp: tidy_def in_sync_def scheduled_def in_bounds_def up_to_date_def)
  have "workable (server (cs_world ?cs))" using acc by (simp add: accounted_def)
  note turn = synced_turn [OF sync this run, simplified]
  let ?q2 = "Forget req q1"
  have handler: "reconcileHandler ?r 0 0 req (?cs, q1) = (cs', ?q2)" using run turn(1) by (simp add: handler_eq)
  obtain evs where evs: "set evs = told (lr_state s) cs'" unfolding told_def using finite_list [OF finite_news] by blast
  let ?s1 = "s\<lparr>lr_state := cs', lr_queue := ?q2, lr_events := lr_events s @ evs\<rparr>"
  have "cs' = happens base st (Reconciles req []) (lr_state s)" using run by (simp add: scheduled_def)
  then have s1: "operator_step mapper watches base st s ?s1"
    using worker_reconciles [OF q(3) get handler evs] unfolding operator_step_def by auto
  have q2: "wq_ok ?q2" "\<not> wq_shuttingDown ?q2" "wq_dirty ?q2 = wq_dirty ?q - {req}" "wq_waiting ?q2 = fmempty"
    using wq_ok_Get [OF q(1) get] q(2,4) by (simp_all add: Forget_def q1_def)
  from tidied [of ?s1 mapper base st] turn(3) q2 mapper obtain s' where
    s': "(operator_step mapper watches base st)\<^sup>*\<^sup>* ?s1 s'" "tidy s'" "wq_dirty (lr_queue s') = on_the_way ?s1"
    "server (cs_world (lr_state s')) = server (cs_world cs')" by auto
  have dirty: "wq_dirty (lr_queue s') = (wq_dirty ?q - {req}) \<union> requests (told (lr_state s) cs') \<union> requests (upcoming (cs_world cs'))"
    using s'(3) q2 t evs by (auto simp: on_the_way_def tidy_def)
  have "req \<in> wq_dirty ?q" using q(1) rest by (auto simp: wq_ok_def)
  have "accounted base st R K s'"
    unfolding accounted_def s'(4)
  proof (intro conjI allI)
    show "workable (server (cs_world cs'))" by (rule turn(2))
    show "watched_done base st (server (cs_world cs')) k \<or> k \<in> wq_dirty (lr_queue s') \<or> k \<in> R" for k
      using acc turn(6) [of k] dirty by (cases "k = req") (auto simp: accounted_def)
    show "K \<inter> unsettled base st (server (cs_world cs')) \<subseteq> wq_dirty (lr_queue s')"
      using acc turn(4) dirty by (auto simp: accounted_def)
  qed
  moreover have "card (?U s') < card (?U s) \<or> ?U s' = ?U s \<and> card (wq_dirty (lr_queue s')) < card (wq_dirty ?q)"
  proof (cases "req \<in> ?U s")
    case True
    then have "card (?U s - {req}) < card (?U s)" by (intro card_Diff1_less) simp_all
    then show ?thesis using turn(4) s'(4) by simp
  next
    case False
    then have "wq_dirty (lr_queue s') = wq_dirty ?q - {req}" using dirty turn(5) by simp
    moreover have "card (wq_dirty ?q - {req}) < card (wq_dirty ?q)"
      using wq_okD(1) [OF q(1)] \<open>req \<in> wq_dirty ?q\<close> by (intro card_Diff1_less)
    ultimately show ?thesis using turn(4) s'(4) False by simp
  qed
  ultimately show ?thesis using s1 s'(1,2) by (meson converse_rtranclp_into_rtranclp)
qed

definition rest_measure :: "scheme \<Rightarrow> controller_settings \<Rightarrow> (lagging_runtime \<times> lagging_runtime) set" where
  "rest_measure base st = measures
     [\<lambda>s. card (unsettled base st (server (cs_world (lr_state s)))), \<lambda>s. card (wq_dirty (lr_queue s))]"

lemma comes_to_rest:
  assumes "tidy s" "accounted base st R K s" "maps_namespaced mapper"
  shows "\<exists>s'. (operator_step mapper watches base st)\<^sup>*\<^sup>* s s' \<and> tidy s' \<and> accounted base st R K s' \<and> wq_dirty (lr_queue s') = {}"
proof -
  have "wf (rest_measure base st)" by (simp add: rest_measure_def)
  then show ?thesis
    using assms(1,2)
  proof (induction s rule: wf_induct_rule)
    case (less s)
    show ?case
    proof (cases "wq_dirty (lr_queue s) = {}")
      case False
      from one_round [OF less.prems False assms(3)] obtain s1 where
        s1: "(operator_step mapper watches base st)\<^sup>*\<^sup>* s s1" "tidy s1" "accounted base st R K s1" "(s1, s) \<in> rest_measure base st"
        unfolding rest_measure_def by auto
      from less.IH [OF s1(4,2,3)] s1(1) show ?thesis by (meson rtranclp_trans)
    qed (use less.prems in blast)
  qed
qed

text \<open>
  C6. From wherever it is, the operator can finish its work alone. After any run as in the property before, in which others did what they liked while
  the server kept its own invariant, and with a server on which every resource can be reconciled by now (no two select a common node, no other controller owns an object of one that is
  alive), some run of steps in which only the operator acts (caches catch up, handlers are called, retries become due, the worker
  reconciles without interference) leads to rest: nothing is queued, being processed, waiting or announced, and the caches
  are up to date. Then every \<open>DeviceConfig\<close> that was on the way is settled with all four
  objects, the metrics Service included, and every other one is done, but for those of which a conflict of node selectors was the last that had been reported:
  to these, as long as nobody touches them, the operator does not come back, although the conflict is resolved.
\<close>

theorem left_alone_finishes:
  assumes "in_bounds (cs_world cs)" "maps_namespaced mapper" "doWatch (AddToScheme base) the_builder = Inr ws"
    and "\<And>dc. dc \<in> ran (fmlookup (w_deviceconfigs (cached OfDeviceConfigs (cs_world cs)))) \<Longrightarrow>
      (''DeviceConfig'', CreateEvent (Some (metadata dc))) \<in> set evs"
    and "(lagging_step mapper ws base st)\<^sup>*\<^sup>* \<lparr>lr_state = cs, lr_queue = newQueue, lr_events = evs\<rparr> s"
    and "\<And>w. w \<in> set (in_past (cs_world (lr_state s))) \<Longrightarrow> cluster_ok w"
    and "workable (server (cs_world (lr_state s)))"
  shows "\<exists>s'. (operator_step mapper ws base st)\<^sup>*\<^sup>* s s' \<and>
    wq_dirty (lr_queue s') = {} \<and> wq_processing (lr_queue s') = {} \<and> wq_waiting (lr_queue s') = fmempty \<and>
    lr_events s' = [] \<and> in_seen (cs_world (lr_state s')) = up_to_date (in_past (cs_world (lr_state s'))) \<and>
    (\<forall>k. k \<in> on_the_way s \<longrightarrow> settled (phase_of base st (server (cs_world (lr_state s'))) k)) \<and>
    (\<forall>k. watched_done base st (server (cs_world (lr_state s'))) k \<or> k \<notin> on_the_way s \<and> refused k (cs_events (lr_state s)))"
proof -
  let ?R = "{k. refused k (cs_events (lr_state s))}"
  have ws: "ws = watches" using assms(3) by (simp add: operator_watches)
  have "nothing_lost base st s"
    by (rule lagging_steps_ok [OF assms(5) [unfolded ws] nothing_lost_start [OF assms(1,4)] assms(2)])
  then have s: "in_bounds (cs_world (lr_state s))" "wq_ok (lr_queue s)" "\<not> wq_shuttingDown (lr_queue s)"
    and known: "\<And>k. watched_done base st (server (cs_world (lr_state s))) k \<or> k \<in> on_the_way s \<or> k \<in> ?R"
    using assms(6) by (simp_all add: nothing_lost_def orderly_def)
  from tidied [OF s assms(2)] obtain s1 where
    s1: "(operator_step mapper watches base st)\<^sup>*\<^sup>* s s1" "tidy s1" "wq_dirty (lr_queue s1) = on_the_way s"
      "server (cs_world (lr_state s1)) = server (cs_world (lr_state s))" by blast
  then have "accounted base st ?R (on_the_way s) s1" using known assms(7) by (auto simp: accounted_def)
  from comes_to_rest [OF s1(2) this assms(2)] obtain s' where
    s': "(operator_step mapper watches base st)\<^sup>*\<^sup>* s1 s'" "tidy s'" "accounted base st ?R (on_the_way s) s'" "wq_dirty (lr_queue s') = {}"
    by blast
  have run: "(operator_step mapper ws base st)\<^sup>*\<^sup>* s s'" using s1(1) s'(1) unfolding ws by (rule rtranclp_trans)
  have settled: "settled (phase_of base st (server (cs_world (lr_state s'))) k)" if "k \<in> on_the_way s" for k
    using s'(3,4) that by (auto simp: accounted_def unsettled_def)
  have "watched_done base st (server (cs_world (lr_state s'))) k \<or> k \<notin> on_the_way s \<and> k \<in> ?R" for k
    using s'(3,4) settled [THEN settled_watched_done, of k] by (auto simp: accounted_def)
  with run settled s'(2,4) show ?thesis by (intro exI [where x = s']) (simp add: tidy_def)
qed

end
