(* ===== verification/Sample_Cluster.thy ===== *)
theory Sample_Cluster
  imports Operator_Lifecycle
begin

text \<open>
  A concrete cluster, on which the properties of the operator are instantiated: one namespace with one
  \<open>DeviceConfig\<close> and two nodes, one of them with the device.
\<close>

definition sample_settings :: controller_settings where
  "sample_settings =
     \<lparr>DevicePluginImage = ''registry/plugin:1'', DriverHabanaImageBasename = ''registry/driver'',
      NodeMetricsImage = ''registry/metrics:1'', NodeLabelerImage = ''registry/labeler:1''\<rparr>"

definition sample_dc :: "string list \<Rightarrow> time option \<Rightarrow> device_config" where
  "sample_dc fins deleted =
     \<lparr>metadata = empty_meta\<lparr>om_name := ''gaudi'', om_namespace := ''habana'', om_uid := ''1a2b'',
        om_resourceVersion := ''1'', om_deletionTimestamp := deleted, om_finalizers := fins\<rparr>,
      spec = \<lparr>driverImage = ''registry/driver'', driverVersion = ''1.7.0'', nodeSelector = None\<rparr>,
      status = \<lparr>conditions = []\<rparr>\<rparr>"

definition sample_node :: "string \<Rightarrow> labels \<Rightarrow> node" where
  "sample_node name ls =
     \<lparr>metadata = empty_meta\<lparr>om_name := name, om_resourceVersion := ''1'', om_labels := ls\<rparr>,
      spec = no_fields, status = no_fields\<rparr>"

definition sample_nodes :: "(other_fields, other_fields) tracker" where
  "sample_nodes = fmap_of_list
     [(('''', ''node-a''), sample_node ''node-a''
         (fmap_of_list [(''feature.node.kubernetes.io/pci-1da3.present'', ''true'')])),
      (('''', ''node-b''), sample_node ''node-b'' fmempty)]"

abbreviation sample_key :: object_key where "sample_key \<equiv> (''habana'', ''gaudi'')"

definition sample_world :: "device_config \<Rightarrow> world" where
  "sample_world dc =
     \<lparr>w_deviceconfigs = fmap_of_list [(sample_key, dc)], w_modules = fmempty, w_daemonsets = fmempty,
      w_services = fmempty, w_nodes = sample_nodes, w_clock = 41\<rparr>"

definition sample_state :: "world \<Rightarrow> world controller_state" where
  "sample_state w = \<lparr>cs_world = w, ReconciliationFailed = Map.empty, cs_events = []\<rparr>"

abbreviation fresh_dc where "fresh_dc \<equiv> sample_dc [] None"
abbreviation kept_dc where "kept_dc \<equiv> sample_dc [DeviceConfigDeletionFinalizer] None"
abbreviation leaving_dc where "leaving_dc \<equiv> sample_dc [DeviceConfigDeletionFinalizer] (Some 40)"

lemma sample_dc_simps [simp]:
  "om_name (metadata (sample_dc f t)) = ''gaudi''" "om_namespace (metadata (sample_dc f t)) = ''habana''"
  "om_uid (metadata (sample_dc f t)) = ''1a2b''" "om_resourceVersion (metadata (sample_dc f t)) = ''1''"
  "om_finalizers (metadata (sample_dc f t)) = f" "om_deletionTimestamp (metadata (sample_dc f t)) = t"
  "spec (sample_dc f t) = \<lparr>driverImage = ''registry/driver'', driverVersion = ''1.7.0'', nodeSelector = None\<rparr>"
  "conditions (status (sample_dc f t)) = []" "ObjectKeyFromObject (sample_dc f t) = sample_key"
  by (simp_all add: sample_dc_def empty_meta_def ObjectKeyFromObject_def)

lemma sample_world_simps [simp]:
  "w_deviceconfigs (sample_world dc) = fmap_of_list [(sample_key, dc)]" "w_modules (sample_world dc) = fmempty"
  "w_daemonsets (sample_world dc) = fmempty" "w_services (sample_world dc) = fmempty"
  "w_nodes (sample_world dc) = sample_nodes"
  by (simp_all add: sample_world_def)

lemma sample_state_simps [simp]:
  "cs_world (sample_state w) = w" "cs_events (sample_state w) = []"
  "ReconciliationFailed (sample_state w) = Map.empty"
  by (simp_all add: sample_state_def)

lemma tracker_ok_empty [simp]: "tracker_ok rk fmempty"
  by (simp add: tracker_ok_def)

lemma sample_node_ok: "name \<noteq> [] \<Longrightarrow> stored_ok node_kind ('''', name) (sample_node name ls)"
  by (simp add: stored_ok_def sample_node_def empty_meta_def ObjectKeyFromObject_def decode_object_id
      node_kind_def kept_alive_def time_IsZero_def)

lemma sample_nodes_ok: "tracker_ok node_kind sample_nodes"
  unfolding sample_nodes_def fmap_of_list.rep_eq
  by (simp add: tracker_ok_upd sample_node_ok)

lemma sample_dc_ok:
  assumes "t \<noteq> Some 0" "t \<noteq> None \<Longrightarrow> f \<noteq> []"
  shows "stored_ok deviceconfig_kind sample_key (sample_dc f t)"
  using assms
  by (auto simp: stored_ok_def decode_object_id deviceconfig_kind_def decode_device_config_spec_def
      kept_alive_def time_IsZero_def split: option.splits)

lemma sample_cluster_ok:
  assumes "t \<noteq> Some 0" "t \<noteq> None \<Longrightarrow> f \<noteq> []"
  shows "cluster_ok (sample_world (sample_dc f t))"
proof -
  have "nodes_unscoped (sample_world (sample_dc f t))"
    unfolding nodes_unscoped_def
  proof
    fix n assume "n \<in> fmran' (w_nodes (sample_world (sample_dc f t)))"
    then obtain k where "fmlookup sample_nodes k = Some n" by (auto elim: fmran'E)
    then show "om_namespace (metadata n) = []"
      by (auto simp: sample_nodes_def sample_node_def empty_meta_def split: if_splits)
  qed
  then show ?thesis
    using sample_dc_ok [OF assms] by (simp add: cluster_ok_def world_ok_def sample_nodes_ok tracker_ok_upd)
qed

lemma sample_conflict_free:
  "conflict_free (ran (fmlookup (w_deviceconfigs (sample_world dc)))) nodes"
  by (auto simp: conflict_free_def ran_def split: if_splits)

lemma sample_adoptable: "all_adoptable dc (sample_world dc')"
  by (simp add: all_adoptable_def free_to_adopt_def)

end
