(* ===== verification/Workload_Properties.thy ===== *)
theory Workload_Properties
  imports Node_Metrics Node_Selector
begin

text \<open>
  What the objects of the three reconcilers have to do with each other and with the validation:
  where their pods run, which pods each object selects, which resources they ask for.
\<close>

section \<open>Resources\<close>

definition resource_constants :: "string list" where
  "resource_constants =
     [devicePluginLimitsCpu, devicePluginLimitsMemory, devicePluginRequestsCpu, devicePluginRequestsMemory,
      nodeLabelerLimitsCpu, nodeLabelerLimitsMemory, nodeLabelerRequestsCpu, nodeLabelerRequestsMemory,
      nodeMetricsLimitsCpu, nodeMetricsLimitsMemory, nodeMetricsRequestsCpu, nodeMetricsRequestsMemory]"

text \<open>Every request has a limit of the same resource that it does not exceed.\<close>

definition within_limits :: "resource_requirements \<Rightarrow> bool" where
  "within_limits r \<longleftrightarrow> list_all (\<lambda>(name, q).
     case fmlookup (rr_limits r) name of None \<Rightarrow> False | Some limit \<Rightarrow> \<not> quantity_less limit q)
     (sorted_list_of_fmap (rr_requests r))"

lemma within_limits_iff:
  "within_limits r \<longleftrightarrow> (\<forall>name q. fmlookup (rr_requests r) name = Some q \<longrightarrow>
     (\<exists>limit. fmlookup (rr_limits r) name = Some limit \<and> \<not> quantity_less limit q))"
proof -
  have "(case x of None \<Rightarrow> False | Some l \<Rightarrow> P l) \<longleftrightarrow> (\<exists>l. x = Some l \<and> P l)"
    for x :: "quantity option" and P by (cases x) simp_all
  then show ?thesis by (simp add: within_limits_def list_all_iff set_sorted_list_of_fmap)
qed

lemma resource_constants_parse: "list_all parses resource_constants"
  by code_simp

lemma requests_below_limits:
  "\<not> quantity_less (MustParse devicePluginLimitsCpu) (MustParse devicePluginRequestsCpu)"
  "\<not> quantity_less (MustParse devicePluginLimitsMemory) (MustParse devicePluginRequestsMemory)"
  "\<not> quantity_less (MustParse nodeLabelerLimitsCpu) (MustParse nodeLabelerRequestsCpu)"
  "\<not> quantity_less (MustParse nodeLabelerLimitsMemory) (MustParse nodeLabelerRequestsMemory)"
  "\<not> quantity_less (MustParse nodeMetricsLimitsCpu) (MustParse nodeMetricsRequestsCpu)"
  "\<not> quantity_less (MustParse nodeMetricsLimitsMemory) (MustParse nodeMetricsRequestsMemory)"
  by code_simp+

text \<open>
  C37. No quantity in the code can make \<^verbatim>\<open>resource.MustParse\<close> panic, and in each of the three
  containers the requests stay within the limits; the amounts are what they look like
  (\<open>200Mi\<close> is 209715200, \<open>100m\<close> is a tenth, for instance).
\<close>

theorem workload_resources:
  "list_all parses resource_constants \<and>
   within_limits (dpc_resources (dp_container (makeDevicePlugin st cr deviceType))) \<and>
   within_limits (c_resources (makeNodeLabelerContainer st cr)) \<and>
   within_limits (c_resources (makeNodeMetricsContainer st cr)) \<and>
   map (\<lambda>c. q_amount (MustParse c)) [devicePluginLimitsCpu, devicePluginLimitsMemory,
       nodeMetricsLimitsCpu, nodeMetricsLimitsMemory, nodeMetricsRequestsCpu] =
     [Int64Amount 200 (-3), Int64Amount 104857600 0, Int64Amount 1 0, Int64Amount 209715200 0, Int64Amount 100 (-3)]"
proof (intro conjI)
  show "list_all parses resource_constants" by (rule resource_constants_parse)
  show "within_limits (dpc_resources (dp_container (makeDevicePlugin st cr deviceType)))"
    using requests_below_limits(1,2) by (auto simp: within_limits_iff makeDevicePlugin_def)
  show "within_limits (c_resources (makeNodeLabelerContainer st cr))"
    using requests_below_limits(3,4) by (auto simp: within_limits_iff makeNodeLabelerContainer_def Let_def)
  show "within_limits (c_resources (makeNodeMetricsContainer st cr))"
    using requests_below_limits(5,6) by (auto simp: within_limits_iff makeNodeMetricsContainer_def Let_def)
qed code_simp

section \<open>Where the pods run\<close>

text \<open>
  C27. One node selector. The nodes that the Module, the labeler's pods and the metrics' pods of a
  resource are assigned to are the nodes that the validation counts for it: those with all the labels
  of its node selector, or, where it has none, those on which node feature discovery has
  found a device of the vendor. The device type that callers pass makes no difference.
\<close>

theorem one_node_selector:
  assumes "SetDesiredModule (AddToScheme base) st (Some m) cr = Inr m'"
    and "SetDesiredNodeLabelerDaemonSet (AddToScheme base) st (Some l) cr = Inr l'"
    and "SetDesiredNodeMetricsDaemonSet (AddToScheme base) st (Some n) cr = Inr n'"
  shows "(ms_selector (spec m') = Some (GetNodeSelector cr []) \<and>
      ps_nodeSelector (pt_spec (ds_template (spec l'))) = GetNodeSelector cr [] \<and>
      ps_nodeSelector (pt_spec (ds_template (spec n'))) = GetNodeSelector cr [] \<and>
      (selects cr node \<longleftrightarrow>
        (case nodeSelector (spec cr) of
           Some ls \<Rightarrow> ls \<subseteq>\<^sub>f om_labels (metadata node)
         | None \<Rightarrow> fmlookup (om_labels (metadata node)) ''feature.node.kubernetes.io/pci-1da3.present'' = Some ''true''))) \<and>
      GetNodeSelector cr ts = GetNodeSelector cr []"
proof -
  have any: "GetNodeSelector cr ts = GetNodeSelector cr []" for ts
    by (simp add: GetNodeSelector_def)
  have "selects cr node \<longleftrightarrow>
        (case nodeSelector (spec cr) of
           Some ls \<Rightarrow> ls \<subseteq>\<^sub>f om_labels (metadata node)
         | None \<Rightarrow> fmlookup (om_labels (metadata node)) ''feature.node.kubernetes.io/pci-1da3.present'' = Some ''true'')"
  proof (cases "nodeSelector (spec cr)")
    case None
    then show ?thesis by (auto simp: selects_def AsSelector_Matches GetNodeSelector_None)
  qed (simp add: selects_iff GetNodeSelector_Some)
  moreover have "m' = owned_by cr (write_desired id id (\<lambda>_. desired_module_spec st cr) m)"
    "l' = owned_by cr (write_desired id id (write_daemon_set (labelsForNodeLabelerDaemonSet cr) (labeler_template st cr)) l)"
    "n' = owned_by cr (write_desired id id (write_daemon_set (labelsForNodeMetricsDaemonSet cr) (metrics_template st cr)) n)"
    using assms by (simp_all add: module_writer.accepted_iff labeler_writer.accepted_iff metrics_writer.accepted_iff)
  ultimately show ?thesis
    using any by (simp add: desired_module_spec_def labeler_template_def metrics_template_def)
qed

section \<open>Which pods an object selects\<close>

text \<open>The selector of a DaemonSet, and the labels of the pods made from its template.\<close>

definition pods_of :: "daemon_set \<Rightarrow> labels \<Rightarrow> bool" where
  "pods_of ds ls \<longleftrightarrow>
     (case ds_selector (spec ds) of
        None \<Rightarrow> False
      | Some sel \<Rightarrow> selector_Matches (AsSelector (lsel_matchLabels sel)) ls \<and>
                    selector_Matches (lsel_matchExpressions sel) ls)"

definition pod_labels :: "daemon_set \<Rightarrow> labels" where
  "pod_labels ds = om_labels (pt_metadata (ds_template (spec ds)))"

lemma component_labels:
  "(labelsForNodeLabelerDaemonSet cr \<subseteq>\<^sub>f labelsForNodeMetricsDaemonSet cr') = False"
  "(labelsForNodeMetricsDaemonSet cr \<subseteq>\<^sub>f labelsForNodeLabelerDaemonSet cr') = False"
  "labelsForNodeLabelerDaemonSet cr \<subseteq>\<^sub>f labelsForNodeLabelerDaemonSet cr'"
  "labelsForNodeMetricsDaemonSet cr \<subseteq>\<^sub>f labelsForNodeMetricsDaemonSet cr'"
  by (simp_all add: workload_defs HabanaAIOperatorName_def fmsubset.rep_eq map_le_def)

lemma written_daemonsets:
  "SetDesiredNodeLabelerDaemonSet (AddToScheme base) st (Some l) cr = Inr l' \<Longrightarrow>
     pod_labels l' = labelsForNodeLabelerDaemonSet cr \<and>
     pods_of l' ls = (labelsForNodeLabelerDaemonSet cr \<subseteq>\<^sub>f ls)"
  "SetDesiredNodeMetricsDaemonSet (AddToScheme base) st (Some n) cr = Inr n' \<Longrightarrow>
     pod_labels n' = labelsForNodeMetricsDaemonSet cr \<and>
     pods_of n' ls = (labelsForNodeMetricsDaemonSet cr \<subseteq>\<^sub>f ls)"
  by (auto simp: labeler_writer.accepted_iff metrics_writer.accepted_iff pods_of_def pod_labels_def
      AsSelector_subset labeler_template_def metrics_template_def)

text \<open>
  C26. The objects of a resource fit together: each DaemonSet selects the pods of its own
  template and not those of the other, the Service selects the pods of the metrics DaemonSet
  and not the labeler's, and it forwards its port to the port that the metrics container opens, on
  the node too, with the same protocol; the number is a valid port and survives the conversion to 32 bits.
\<close>

theorem workloads_fit_together:
  assumes "SetDesiredNodeLabelerDaemonSet (AddToScheme base) st (Some l) cr = Inr l'"
    and "SetDesiredNodeMetricsDaemonSet (AddToScheme base) st (Some n) cr = Inr n'"
    and "SetDesiredNodeMetricsService (AddToScheme base) (Some s) cr = Inr s'"
  shows "pods_of l' (pod_labels l') \<and> \<not> pods_of l' (pod_labels n') \<and>
     pods_of n' (pod_labels n') \<and> \<not> pods_of n' (pod_labels l') \<and>
     selector_Matches (AsSelector (svc_selector (spec s'))) (pod_labels n') \<and>
     \<not> selector_Matches (AsSelector (svc_selector (spec s'))) (pod_labels l') \<and>
     (\<exists>p. map sp_targetPort (svc_ports (spec s')) = [IntVal p] \<and> map sp_port (svc_ports (spec s')) = [p] \<and>
        concat (map (\<lambda>c. map (\<lambda>x. (cp_containerPort x, cp_hostPort x, cp_protocol x)) (c_ports c))
          (ps_containers (pt_spec (ds_template (spec n'))))) = map (\<lambda>x. (p, p, sp_protocol x)) (svc_ports (spec s')) \<and>
        0 < p \<and> p < 2 ^ 16)"
proof -
  have s': "s' = owned_by cr (write_desired (\<lambda>_. labelsForNodeMetricsDaemonSet cr) (\<lambda>_. scrape_annotations)
      (\<lambda>_. desired_service_spec cr) s)"
    and n': "n' = owned_by cr (write_desired id id
      (write_daemon_set (labelsForNodeMetricsDaemonSet cr) (metrics_template st cr)) n)"
    using assms(2,3) by (simp_all add: service_writer.accepted_iff metrics_writer.accepted_iff)
  have port: "FromInt nodeMetricsPort = IntVal nodeMetricsPort" "0 < nodeMetricsPort" "nodeMetricsPort < 2 ^ 16"
    by (simp_all add: FromInt_def int32_def nodeMetricsPort_def)
  have "svc_ports (spec s') = [\<lparr>sp_name = nodeMetricsSuffix, sp_protocol = ProtocolTCP, sp_port = nodeMetricsPort,
      sp_targetPort = IntVal nodeMetricsPort, sp_other = no_fields\<rparr>]"
    by (simp add: s' desired_service_spec_def port)
  moreover have "map c_ports (ps_containers (pt_spec (ds_template (spec n')))) =
      [[\<lparr>cp_name = nodeMetricsSuffix, cp_hostPort = nodeMetricsPort, cp_containerPort = nodeMetricsPort,
         cp_protocol = ProtocolTCP, cp_other = no_fields\<rparr>]]"
    by (simp add: n' metrics_template_def makeNodeMetricsContainer_def Let_def)
  moreover have "svc_selector (spec s') = labelsForNodeMetricsDaemonSet cr"
    by (simp add: s' desired_service_spec_def)
  ultimately show ?thesis
    using written_daemonsets(1) [OF assms(1)] written_daemonsets(2) [OF assms(2)] port
    by (auto simp: component_labels AsSelector_subset)
qed

text \<open>
  C28. The selectors do not tell two resources apart: the labeler's and the metrics' DaemonSets
  and the Service of one \<open>DeviceConfig\<close> select the pods of any other \<open>DeviceConfig\<close> as well.
\<close>

theorem selectors_shared_by_resources:
  assumes "SetDesiredNodeLabelerDaemonSet (AddToScheme base) st (Some l) cr = Inr l'"
    and "SetDesiredNodeLabelerDaemonSet (AddToScheme base) st (Some k) cr2 = Inr k'"
    and "SetDesiredNodeMetricsDaemonSet (AddToScheme base) st (Some n) cr = Inr n'"
    and "SetDesiredNodeMetricsDaemonSet (AddToScheme base) st (Some o2) cr2 = Inr o'"
    and "SetDesiredNodeMetricsService (AddToScheme base) (Some s) cr = Inr s'"
  shows "pods_of l' (pod_labels k') \<and> pods_of n' (pod_labels o') \<and>
     selector_Matches (AsSelector (svc_selector (spec s'))) (pod_labels o')"
  using written_daemonsets(1) [OF assms(1)] written_daemonsets(1) [OF assms(2)]
    written_daemonsets(2) [OF assms(3)] written_daemonsets(2) [OF assms(4)] assms(5)
  by (auto simp: component_labels AsSelector_subset service_writer.accepted_iff desired_service_spec_def)

end
