(* ===== verification/Sample_Runs.thy ===== *)
theory Sample_Runs
  imports Sample_Cluster Workload_Properties
begin

text \<open>
  The properties of the reconciler applied to the sample cluster, and to reconcilers of which one
  collaborator is replaced by one that fails: the runs in which the hypotheses of the properties
  hold. Every run is that of the operator's own definitions.
\<close>

abbreviation sample_reconciler :: "world reconciler" where
  "sample_reconciler \<equiv> operator_reconciler cluster (AddToScheme Map.empty) sample_settings"

definition outage :: go_error where
  "outage = StatusError StatusReasonServiceUnavailable 503 ''unavailable''"

lemma sample_get:
  assumes "t \<noteq> Some 0" "t \<noteq> None \<Longrightarrow> f \<noteq> []"
  shows "kc_get (api_deviceconfigs cluster) sample_key (sample_world (sample_dc f t)) =
           (Inr (sample_dc f t), sample_world (sample_dc f t))"
  by (rule get_stored_dc [OF sample_cluster_ok]) (use assms in simp_all)

lemmas sample_gets =
  sample_get [of None "[]", simplified] sample_get [of None "[DeviceConfigDeletionFinalizer]", simplified]
  sample_get [of "Some 40" "[DeviceConfigDeletionFinalizer]", simplified]

lemma sample_being_deleted [simp]:
  "being_deleted leaving_dc" "\<not> being_deleted fresh_dc" "\<not> being_deleted kept_dc"
  by (simp_all add: being_deleted_def time_IsZero_def)

section \<open>Safety of the reconciler\<close>

text \<open>The Module cannot be deleted: the finalizer is not removed.\<close>

lemma finalizer_removed_only_after_module_run:
  "Reconcile (sample_reconciler\<lparr>mr_DeleteModule := \<lambda>_ w. (Some outage, w),
       fu_RemoveDeletionFinalizer := \<lambda>dc w. ((None, dc), w)\<rparr>) sample_key (sample_state (sample_world leaving_dc)) =
   Reconcile (sample_reconciler\<lparr>mr_DeleteModule := \<lambda>_ w. (Some outage, w)\<rparr>)
     sample_key (sample_state (sample_world leaving_dc))"
  by (rule finalizer_removed_only_after_module) simp

lemma deletion_only_cleans_up_run:
  "Reconcile (sample_reconciler\<lparr>mr_ReconcileModule := \<lambda>_ w. (Some outage, w),
       nlr_ReconcileNodeLabeler := \<lambda>_ w. (Some outage, w), nmr_ReconcileNodeMetrics := \<lambda>_ w. (Some outage, w),
       fu_AddDeletionFinalizer := \<lambda>dc w. ((Some outage, dc), w),
       cu_SetConditionsReady := \<lambda>dc _ _ w. ((Some outage, dc), w),
       cu_SetConditionsErrored := \<lambda>dc _ _ w. ((Some outage, dc), w), nsv_Check := \<lambda>_ w. (Some outage, w)\<rparr>)
     sample_key (sample_state (sample_world leaving_dc)) =
   Reconcile sample_reconciler sample_key (sample_state (sample_world leaving_dc))"
  by (rule deletion_only_cleans_up [where dc = leaving_dc and w = "sample_world leaving_dc"])
     (simp_all add: sample_gets)

lemma conflict_stops_run:
  "Reconcile (sample_reconciler\<lparr>nsv_Check := \<lambda>_ w. (Some outage, w)\<rparr>) sample_key
     (sample_state (sample_world fresh_dc)) =
   ((empty_result, None),
    \<lparr>cs_world = sample_world fresh_dc, ReconciliationFailed = [''gaudi'' \<mapsto> 1],
     cs_events = [\<lparr>ev_object = sample_key, ev_type = ''Warning'', ev_reason = ''Error'',
                   ev_message = conflict_message\<rparr>]\<rparr>)"
  using conflict_stops [of "sample_reconciler\<lparr>nsv_Check := \<lambda>_ w. (Some outage, w)\<rparr>" sample_key
      "sample_state (sample_world fresh_dc)" fresh_dc "sample_world fresh_dc" outage "sample_world fresh_dc"]
  by (simp add: sample_gets)

lemma stages_in_order_run:
  "reconcile_stages (sample_reconciler\<lparr>mr_ReconcileModule := \<lambda>_ w. (Some outage, w),
       nlr_ReconcileNodeLabeler := \<lambda>_ w. (None, w), nmr_ReconcileNodeMetrics := \<lambda>_ w. (None, w),
       cu_SetConditionsReady := \<lambda>dc _ _ w. ((None, dc), w)\<rparr>) kept_dc (sample_state (sample_world kept_dc)) =
   reconcile_stages (sample_reconciler\<lparr>mr_ReconcileModule := \<lambda>_ w. (Some outage, w)\<rparr>) kept_dc
     (sample_state (sample_world kept_dc))"
  using stages_in_order [where r = "sample_reconciler\<lparr>mr_ReconcileModule := \<lambda>_ w. (Some outage, w)\<rparr>"
      and dc = kept_dc and cs = "sample_state (sample_world kept_dc)" and f = "\<lambda>_ w. (None, w)"
      and g = "\<lambda>_ w. (None, w)" and h = "\<lambda>dc _ _ w. ((None, dc), w)"]
  by simp

lemma update_keeps_key:
  "kc_update (api_deviceconfigs cluster) dc w = (Inr dc', w') \<Longrightarrow> ObjectKeyFromObject dc' = ObjectKeyFromObject dc"
  "kc_status_update (api_deviceconfigs cluster) dc w = (Inr dc', w') \<Longrightarrow> ObjectKeyFromObject dc' = ObjectKeyFromObject dc"
  by (auto simp: fake_client_def on_tracker_def versioned_Update_def versioned_Create_def Let_def
      split: if_splits sum.splits option.splits)

lemma cluster_keeps_key: "keeps_key (operator_reconciler cluster scheme st)"
  unfolding keeps_key_def
proof (intro conjI allI impI)
  fix dc w e dc' w'
  assume "fu_AddDeletionFinalizer (operator_reconciler cluster scheme st) dc w = ((e, dc'), w')"
  then show "ObjectKeyFromObject dc' = ObjectKeyFromObject dc"
    using update_keeps_key(1) [of "finalized dc"]
    by (auto simp: AddDeletionFinalizer_eq finalized_def simp del: cluster_simps split: prod.splits sum.splits)
next
  fix dc rs m w e dc' w'
  assume "cu_SetConditionsErrored (operator_reconciler cluster scheme st) dc rs m w = ((e, dc'), w')"
  then show "ObjectKeyFromObject dc' = ObjectKeyFromObject dc"
    using update_keeps_key(2)
    by (fastforce simp: SetConditionsErrored_def write_status_def ObjectKeyFromObject_def simp del: cluster_simps
        split: prod.splits sum.splits)
qed

lemma reconcile_reports_run:
  "Reconcile (sample_reconciler\<lparr>nsv_Check := \<lambda>_ w. (Some outage, w)\<rparr>) sample_key (sample_state (sample_world fresh_dc)) =
     shown (''habana'', ''gaudi'') (Conflicting, sample_world fresh_dc) (sample_state (sample_world fresh_dc))"
proof -
  let ?r = "sample_reconciler\<lparr>nsv_Check := \<lambda>_ w. (Some outage, w)\<rparr>"
  have "keeps_key ?r" using cluster_keeps_key by (simp add: keeps_key_def)
  from reconcile_reports [OF this, of sample_key "sample_state (sample_world fresh_dc)"] show ?thesis
    by (simp add: intended_def subject_def sample_gets live_steps_def report_live_def ObjectKeyFromObject_def)
qed

section \<open>Reconciling on the cluster\<close>

definition sample_module :: "owner_reference list \<Rightarrow> kmm_module" where
  "sample_module owners =
     \<lparr>metadata = empty_meta\<lparr>om_name := ''gaudi-module'', om_namespace := ''habana'',
        om_resourceVersion := ''1'', om_ownerReferences := owners\<rparr>,
      spec = empty_module_spec, status = no_fields\<rparr>"

definition foreign_ref :: owner_reference where
  "foreign_ref = \<lparr>or_apiVersion = ''apps/v1'', or_kind = ''Deployment'', or_name = ''other'', or_uid = ''77'',
     or_controller = Some True, or_blockOwnerDeletion = Some True\<rparr>"

definition with_module :: "kmm_module \<Rightarrow> world \<Rightarrow> world" where
  "with_module m w = put_modules (fmap_of_list [((''habana'', ''gaudi-module''), m)]) w"

lemma with_module_simps [simp]:
  "w_modules (with_module m w) = fmap_of_list [((''habana'', ''gaudi-module''), m)]"
  "w_deviceconfigs (with_module m w) = w_deviceconfigs w" "w_nodes (with_module m w) = w_nodes w"
  by (simp_all add: with_module_def)

lemma sample_module_key [simp]: "module_key (sample_dc f t) = (''habana'', ''gaudi-module'')"
  by (simp add: GetModuleName_def moduleSuffix_def)

lemma sample_module_name [simp]: "GetModuleName (sample_dc f t) = ''gaudi-module''"
  by (simp add: GetModuleName_def moduleSuffix_def)

lemma with_module_ok:
  assumes "cluster_ok w"
  shows "cluster_ok (with_module (sample_module owners) w)"
  unfolding with_module_def
  by (rule cluster_ok_put(2) [OF assms])
     (simp add: tracker_ok_upd stored_ok_def sample_module_def empty_meta_def ObjectKeyFromObject_def
       decode_object_id module_kind_def kept_alive_def time_IsZero_def)

lemmas sample_ok = sample_cluster_ok [of None "[]", simplified]
  sample_cluster_ok [of None "[DeviceConfigDeletionFinalizer]", simplified]
  sample_cluster_ok [of "Some 40" "[DeviceConfigDeletionFinalizer]", simplified]

lemma reconcile_provisions_run:
  "\<exists>w'. Reconcile sample_reconciler sample_key (sample_state (sample_world fresh_dc)) =
     ((empty_result, None),
      \<lparr>cs_world = w', ReconciliationFailed = [''gaudi'' \<mapsto> 0], cs_events = [success_event fresh_dc]\<rparr>) \<and>
     provisioned Map.empty sample_settings fresh_dc w' \<and> ready sample_key fresh_dc w'"
  using reconcile_provisions [of "sample_state (sample_world fresh_dc)" sample_key fresh_dc Map.empty sample_settings]
    sample_ok(1) sample_conflict_free [of fresh_dc] sample_adoptable [of fresh_dc fresh_dc]
  by auto

definition provisioned_world :: world where
  "provisioned_world =
     (let s = AddToScheme Map.empty;
          w = snd (ReconcileModule cluster s sample_settings kept_dc (sample_world kept_dc));
          w = snd (ReconcileNodeLabeler cluster s sample_settings kept_dc w)
      in snd (ReconcileNodeMetrics cluster s sample_settings kept_dc w))"

lemma provisioned_world:
  "cluster_ok provisioned_world" "provisioned Map.empty sample_settings kept_dc provisioned_world"
  "w_deviceconfigs provisioned_world = fmap_of_list [(sample_key, kept_dc)]"
  by (rule all_stages [OF sample_ok(2) sample_adoptable [of kept_dc kept_dc], of Map.empty sample_settings];
      simp add: provisioned_world_def)+

lemma reconcile_idempotent_run:
  "\<exists>dc'. let w' = put_deviceconfigs (fmap_of_list [(sample_key, dc')]) provisioned_world in
     fst (Reconcile sample_reconciler sample_key (sample_state provisioned_world)) = (empty_result, None) \<and>
     cs_world (snd (Reconcile sample_reconciler sample_key (sample_state provisioned_world))) = w' \<and>
     provisioned Map.empty sample_settings kept_dc w' \<and> ready sample_key kept_dc w'"
proof -
  have cf: "conflict_free (ran (fmlookup (w_deviceconfigs provisioned_world))) nodes" for nodes
    using sample_conflict_free [of kept_dc nodes] by (simp add: provisioned_world(3))
  have upd: "fmupd sample_key dc' (fmap_of_list [(sample_key, kept_dc)]) = fmap_of_list [(sample_key, dc')]" for dc'
    by (rule fmap_ext) simp
  show ?thesis
    using reconcile_idempotent [of "sample_state provisioned_world" sample_key kept_dc Map.empty sample_settings]
      provisioned_world cf upd
    by (auto simp: ContainsDeletionFinalizer_iff Let_def)
qed

lemma sample_module_simps [simp]:
  "om_finalizers (metadata (sample_module owners)) = []"
  "GetControllerOf (metadata (sample_module [foreign_ref])) = Some foreign_ref"
  by (simp_all add: sample_module_def empty_meta_def GetControllerOf_def foreign_ref_def)

lemma foreign_ref_other: "\<not> referSameObject foreign_ref (dc_ref dc)"
  by (simp add: foreign_ref_def referSameObject_def ParseGroupVersion_def dc_ref_def controller_ref_def
      dc_gvk_def before_slash_def gv_string_def)

lemma foreign_ref_error:
  "error_text (AlreadyOwnedError (metadata (sample_module [foreign_ref])) foreign_ref) =
     ''Object habana/gaudi-module is already owned by another Deployment controller other''"
  by (simp add: AlreadyOwnedError_def sample_module_def empty_meta_def foreign_ref_def)

lemma fmdrop_single: "fmdrop k (fmupd k v fmempty) = fmempty"
  by (rule fmap_ext) simp

text \<open>With a Module without finalizers: it is gone, and so is the resource.\<close>

lemma reconcile_deletes_run:
  "Reconcile sample_reconciler sample_key (sample_state (with_module (sample_module []) (sample_world leaving_dc))) =
   ((empty_result, None),
    \<lparr>cs_world = (sample_world leaving_dc)\<lparr>w_modules := fmempty, w_deviceconfigs := fmempty\<rparr>,
     ReconciliationFailed = [''gaudi'' \<mapsto> 0], cs_events = []\<rparr>)"
  using reconcile_deletes [of "sample_state (with_module (sample_module []) (sample_world leaving_dc))" sample_key
      leaving_dc Map.empty sample_settings]
    with_module_ok [OF sample_ok(3), of "[]"]
  by (auto simp: ContainsDeletionFinalizer_iff fmdrop_single sample_state_def with_module_def put_defs)

lemma foreign_module_reported_run:
  "fst (Reconcile sample_reconciler sample_key
      (sample_state (with_module (sample_module [foreign_ref]) (sample_world fresh_dc)))) =
   (empty_result, Some (TextError (''could not create or patch Module: '' @
      ''Object habana/gaudi-module is already owned by another Deployment controller other'')))"
  using foreign_module_reported [of "sample_state (with_module (sample_module [foreign_ref]) (sample_world fresh_dc))"
      sample_key fresh_dc "sample_module [foreign_ref]" foreign_ref Map.empty sample_settings]
    with_module_ok [OF sample_ok(1), of "[foreign_ref]"] sample_conflict_free [of fresh_dc]
  by (auto simp: foreign_ref_other errorf_v_def foreign_ref_error Let_def)

text \<open>Two resources with the default selector, and a node that both select.\<close>

definition crowded_world :: world where
  "crowded_world = put_deviceconfigs
     (fmap_of_list [(sample_key, fresh_dc),
        ((''habana'', ''spare''), fresh_dc\<lparr>metadata := (metadata fresh_dc)\<lparr>om_name := ''spare''\<rparr>\<rparr>)])
     (sample_world fresh_dc)"

lemma crowded_world_ok: "cluster_ok crowded_world"
  unfolding crowded_world_def
  by (rule cluster_ok_put(1) [OF sample_ok(1)])
     (simp add: tracker_ok_upd stored_ok_def sample_dc_def empty_meta_def ObjectKeyFromObject_def
       decode_object_id deviceconfig_kind_def decode_device_config_spec_def kept_alive_def time_IsZero_def)

lemma crowded_conflict:
  "\<not> conflict_free (ran (fmlookup (w_deviceconfigs crowded_world))) (ran (fmlookup (w_nodes crowded_world)))"
proof -
  let ?n = "sample_node ''node-a'' (fmap_of_list [(''feature.node.kubernetes.io/pci-1da3.present'', ''true'')])"
  let ?spare = "fresh_dc\<lparr>metadata := (metadata fresh_dc)\<lparr>om_name := ''spare''\<rparr>\<rparr>"
  have "fmlookup (w_deviceconfigs crowded_world) sample_key = Some fresh_dc"
    "fmlookup (w_deviceconfigs crowded_world) (''habana'', ''spare'') = Some ?spare"
    "fmlookup (w_nodes crowded_world) ('''', ''node-a'') = Some ?n"
    by (simp_all add: crowded_world_def sample_nodes_def)
  then have "fresh_dc \<in> ran (fmlookup (w_deviceconfigs crowded_world))"
    "?spare \<in> ran (fmlookup (w_deviceconfigs crowded_world))" "?n \<in> ran (fmlookup (w_nodes crowded_world))"
    by (auto intro: ranI)
  moreover have "selects fresh_dc ?n" "selects ?spare ?n"
    by (simp_all add: selects_iff GetNodeSelector_None sample_node_def fmsubset.rep_eq)
  moreover have "om_name (metadata fresh_dc) \<noteq> om_name (metadata ?spare)" by simp
  ultimately show ?thesis unfolding conflict_free_def by metis
qed

lemma conflict_writes_nothing_run:
  "cs_world (snd (Reconcile sample_reconciler sample_key (sample_state crowded_world))) = crowded_world \<and>
   length (cs_events (snd (Reconcile sample_reconciler sample_key (sample_state crowded_world)))) = 1"
  using conflict_writes_nothing [of "sample_state crowded_world" sample_key fresh_dc Map.empty sample_settings]
    crowded_world_ok crowded_conflict
  by (auto simp: crowded_world_def)

lemma no_orphaned_modules_run:
  "no_orphans (cs_world (snd (Reconcile sample_reconciler sample_key (sample_state (sample_world fresh_dc)))))"
proof -
  have "reachable Map.empty sample_settings (sample_state (sample_world fresh_dc))"
    using sample_ok(1) by (intro reachable.start) simp_all
  then have "reachable Map.empty sample_settings
      (snd (Reconcile sample_reconciler sample_key (sample_state (sample_world fresh_dc))))"
    by (rule reachable.step) (rule cluster_step.operator_reconciles, rule prod.collapse [symmetric])
  from no_orphaned_modules [OF this] show ?thesis ..
qed

section \<open>Helpers and data\<close>

lemma group_version_roundtrip_run: "ParseGroupVersion (gv_string dc_gvk) = Inr GroupVersion"
  using group_version_roundtrip [of dc_gvk]
  by (simp add: dc_gvk_def GroupVersion_def group_version.truncate_def)

lemma label_set_selector_run:
  "sort_key req_key (equality_requirements [(''b'', ''2''), (''a'', ''1'')]) =
     AsSelector (fmap_of_list [(''a'', ''1''), (''b'', ''2'')])"
proof -
  have "sorted_list_of_fmap (fmap_of_list [(''a'', ''1''), (''b'', ''2'')]) = [(''a'', ''1''), (''b'', ''2'')]"
    by code_simp
  then show ?thesis
    using label_set_selector [of "[(''b'', ''2''), (''a'', ''1'')]" "fmap_of_list [(''a'', ''1''), (''b'', ''2'')]" fmempty]
    by (simp add: add_mset_commute)
qed

lemma owned_sample: "SetControllerReference ''DeviceConfig'' (metadata fresh_dc) (metadata (sample_module []))
     (AddToScheme Map.empty) = Inr (upsertOwnerRef (dc_ref fresh_dc) (metadata (sample_module [])))"
  by (simp add: SetControllerReference_def validateOwner_def sample_module_def empty_meta_def GetControllerOf_def
      dc_ref_def dc_gvk_def)


lemma controller_reference_set_run:
  "GetControllerOf (upsertOwnerRef (dc_ref fresh_dc) (metadata (sample_module []))) = Some (dc_ref fresh_dc)"
  using controller_reference_set [OF owned_sample, of dc_gvk] dc_ref_parsable [of fresh_dc]
  by (simp add: dc_gvk_def dc_ref_def)

lemma create_or_patch_writes_run:
  "CreateOrPatch (api_modules cluster) (sample_module []) Inr (with_module (sample_module []) (sample_world kept_dc)) =
     ((OperationResultNone, None, sample_module []), with_module (sample_module []) (sample_world kept_dc))"
proof -
  have key: "ObjectKeyFromObject (sample_module []) = (''habana'', ''gaudi-module'')"
    by (simp add: sample_module_def empty_meta_def ObjectKeyFromObject_def)
  have "kc_get (api_modules cluster) (''habana'', ''gaudi-module'') (with_module (sample_module []) (sample_world kept_dc)) =
      (Inr (sample_module []), with_module (sample_module []) (sample_world kept_dc))"
    using modules.get_stored [OF cluster_okD(2) [OF with_module_ok [OF sample_ok(2)]]] by simp
  then show ?thesis
    using create_or_patch_writes [of "api_modules cluster" "sample_module []"] by (simp add: key)
qed

lemma stored_sample: "fmlookup (w_deviceconfigs (sample_world dc)) (ObjectKeyFromObject (sample_dc f t)) = Some dc"
  by simp

lemma stale_update_conflicts_run:
  "versioned_Update deviceconfig_kind (set_resourceVersion ''7'' kept_dc) ''habana''
     (w_deviceconfigs (sample_world kept_dc)) =
   (Inl (NewConflict ''deviceconfigs.habana.ai'' ''gaudi'' ''object was modified''), w_deviceconfigs (sample_world kept_dc))"
  using stale_update_conflicts [of "w_deviceconfigs (sample_world kept_dc)" "set_resourceVersion ''7'' kept_dc"
      kept_dc deviceconfig_kind]
  by (simp add: resource_string_def deviceconfig_kind_def dc_gvk_def)

lemma update_advances_version_run:
  "\<exists>rv. ParseUint64 rv = Some 2 \<and> fst (versioned_Update deviceconfig_kind kept_dc ''habana''
     (w_deviceconfigs (sample_world fresh_dc))) = Inr (set_resourceVersion rv kept_dc)"
proof -
  have "ParseUint64 ''1'' = Some 1" by code_simp
  then show ?thesis
    using update_advances_version [OF cluster_okD(1) [OF sample_ok(1)], of kept_dc fresh_dc]
    by (auto simp: time_IsZero_def)
qed

section \<open>The objects of a resource\<close>

abbreviation new_daemonset :: "string \<Rightarrow> daemon_set" where
  "new_daemonset name \<equiv> named_object name ''habana'' empty_daemon_set_spec"

lemma desired_samples:
  assumes "om_namespace (metadata dc) = ''habana''"
  obtains m l n s where
    "SetDesiredModule (AddToScheme Map.empty) sample_settings
       (Some (named_object ''gaudi-module'' ''habana'' empty_module_spec)) dc = Inr m"
    "SetDesiredNodeLabelerDaemonSet (AddToScheme Map.empty) sample_settings (Some (new_daemonset ''l'')) dc = Inr l"
    "SetDesiredNodeMetricsDaemonSet (AddToScheme Map.empty) sample_settings (Some (new_daemonset ''n'')) dc = Inr n"
    "SetDesiredNodeMetricsService (AddToScheme Map.empty) (Some (named_object ''n'' ''habana'' empty_service_spec)) dc = Inr s"
  using assms
  by (simp add: module_writer.accepted_iff labeler_writer.accepted_iff metrics_writer.accepted_iff
      service_writer.accepted_iff adoptable_iff)

abbreviation spare_dc :: device_config where
  "spare_dc \<equiv> fresh_dc\<lparr>metadata := (metadata fresh_dc)\<lparr>om_name := ''spare''\<rparr>\<rparr>"

lemma one_node_selector_run:
  "GetNodeSelector fresh_dc [''gaudi''] = GetNodeSelector fresh_dc [] \<and>
   selects fresh_dc (sample_node ''node-a'' (fmap_of_list [(''feature.node.kubernetes.io/pci-1da3.present'', ''true'')])) \<and>
   \<not> selects fresh_dc (sample_node ''node-b'' fmempty)"
proof -
  obtain m l n where "SetDesiredModule (AddToScheme Map.empty) sample_settings
        (Some (named_object ''gaudi-module'' ''habana'' empty_module_spec)) fresh_dc = Inr m"
    "SetDesiredNodeLabelerDaemonSet (AddToScheme Map.empty) sample_settings (Some (new_daemonset ''l'')) fresh_dc = Inr l"
    "SetDesiredNodeMetricsDaemonSet (AddToScheme Map.empty) sample_settings (Some (new_daemonset ''n'')) fresh_dc = Inr n"
    by (rule desired_samples [of fresh_dc, simplified])
  from one_node_selector [OF this] show ?thesis by (simp add: sample_node_def)
qed

lemma workloads_fit_together_run:
  "\<exists>l n. SetDesiredNodeLabelerDaemonSet (AddToScheme Map.empty) sample_settings (Some (new_daemonset ''l'')) fresh_dc = Inr l \<and>
     SetDesiredNodeMetricsDaemonSet (AddToScheme Map.empty) sample_settings (Some (new_daemonset ''n'')) fresh_dc = Inr n \<and>
     pods_of l (pod_labels l) \<and> \<not> pods_of l (pod_labels n)"
proof -
  obtain l n s where *: "SetDesiredNodeLabelerDaemonSet (AddToScheme Map.empty) sample_settings (Some (new_daemonset ''l'')) fresh_dc = Inr l"
    "SetDesiredNodeMetricsDaemonSet (AddToScheme Map.empty) sample_settings (Some (new_daemonset ''n'')) fresh_dc = Inr n"
    "SetDesiredNodeMetricsService (AddToScheme Map.empty) (Some (named_object ''n'' ''habana'' empty_service_spec)) fresh_dc = Inr s"
    by (rule desired_samples [of fresh_dc, simplified])
  with workloads_fit_together [OF *] show ?thesis by blast
qed

lemma selectors_shared_by_resources_run:
  "\<exists>n k. SetDesiredNodeMetricsDaemonSet (AddToScheme Map.empty) sample_settings (Some (new_daemonset ''n'')) fresh_dc = Inr n \<and>
     SetDesiredNodeMetricsDaemonSet (AddToScheme Map.empty) sample_settings (Some (new_daemonset ''n'')) spare_dc = Inr k \<and>
     pods_of n (pod_labels k)"
proof -
  obtain l n s where *: "SetDesiredNodeLabelerDaemonSet (AddToScheme Map.empty) sample_settings (Some (new_daemonset ''l'')) fresh_dc = Inr l"
    "SetDesiredNodeMetricsDaemonSet (AddToScheme Map.empty) sample_settings (Some (new_daemonset ''n'')) fresh_dc = Inr n"
    "SetDesiredNodeMetricsService (AddToScheme Map.empty) (Some (named_object ''n'' ''habana'' empty_service_spec)) fresh_dc = Inr s"
    by (rule desired_samples [of fresh_dc, simplified])
  obtain l2 k where 2: "SetDesiredNodeLabelerDaemonSet (AddToScheme Map.empty) sample_settings (Some (new_daemonset ''l'')) spare_dc = Inr l2"
    "SetDesiredNodeMetricsDaemonSet (AddToScheme Map.empty) sample_settings (Some (new_daemonset ''n'')) spare_dc = Inr k"
    by (rule desired_samples [of spare_dc]) simp_all
  from selectors_shared_by_resources [OF *(1) 2(1) *(2) 2(2) *(3)] *(2) 2(2) show ?thesis by blast
qed

section \<open>Errors and deletion\<close>

lemma unread_writes_nothing_run:
  "Reconcile (sample_reconciler\<lparr>rc_Get := \<lambda>_ w. (Inl outage, w)\<rparr>) sample_key (sample_state (sample_world fresh_dc)) =
     ((empty_result, Some outage), sample_state (sample_world fresh_dc))"
  using unread_writes_nothing [of "sample_reconciler\<lparr>rc_Get := \<lambda>_ w. (Inl outage, w)\<rparr>" sample_key
      "sample_state (sample_world fresh_dc)" outage "sample_world fresh_dc"]
  by (simp add: outage_def IsNotFound_StatusError knownReason_def sample_state_def)

lemma finalizer_stored_first_run:
  "Reconcile (sample_reconciler\<lparr>fu_AddDeletionFinalizer := \<lambda>dc w. ((Some outage, dc), w)\<rparr>) sample_key
     (sample_state (sample_world fresh_dc)) = ((empty_result, Some outage), sample_state (sample_world fresh_dc))"
  using finalizer_stored_first [of "sample_reconciler\<lparr>fu_AddDeletionFinalizer := \<lambda>dc w. ((Some outage, dc), w)\<rparr>"
      sample_key "sample_state (sample_world fresh_dc)" fresh_dc "sample_world fresh_dc" "sample_world fresh_dc"
      "sample_world fresh_dc" outage fresh_dc "sample_world fresh_dc"]
    no_conflict [OF sample_ok(1)] sample_conflict_free [of fresh_dc]
  by (simp add: sample_gets sample_state_def ContainsDeletionFinalizer_iff)

lemma stage_failures_reported_run:
  "reconcile_stages (sample_reconciler\<lparr>mr_ReconcileModule := \<lambda>_ w. (Some outage, w)\<rparr>) kept_dc
     (sample_state (sample_world kept_dc)) =
   stage_failed (sample_reconciler\<lparr>mr_ReconcileModule := \<lambda>_ w. (Some outage, w)\<rparr>) kept_dc ''ModuleFailed'' outage
     (sample_state (sample_world kept_dc))"
  using stage_failures_reported [where r = "sample_reconciler\<lparr>mr_ReconcileModule := \<lambda>_ w. (Some outage, w)\<rparr>"
      and dc = kept_dc and cs = "sample_state (sample_world kept_dc)" and err = outage and w = "sample_world kept_dc"]
  by (simp add: sample_state_def)

lemma validation_exact_run:
  "CheckDeviceConfigForConflictingNodeSelector cluster fresh_dc (sample_world fresh_dc) =
     (None, sample_world fresh_dc)"
  using validation_exact [OF sample_ok(1), of fresh_dc] by (auto simp: ran_def split: if_splits)

lemma workloads_deleted_run:
  "DeleteNodeLabeler cluster kept_dc (sample_world kept_dc) = (None, sample_world kept_dc) \<and>
   DeleteNodeMetrics cluster kept_dc (sample_world kept_dc) = (None, sample_world kept_dc)"
  using workloads_deleted [OF sample_ok(2), of kept_dc] by (simp add: sample_world_def)

lemma deletion_completes_run:
  "\<exists>w1. kc_delete (api_deviceconfigs cluster) kept_dc (with_module (sample_module []) (sample_world kept_dc)) = (None, w1) \<and>
     fst (Reconcile sample_reconciler sample_key (sample_state w1)) = (empty_result, None) \<and>
     cs_world (snd (Reconcile sample_reconciler sample_key (sample_state w1))) =
       (sample_world kept_dc)\<lparr>w_modules := fmempty, w_deviceconfigs := fmempty\<rparr>"
  using deletion_completes [of "sample_state (with_module (sample_module []) (sample_world kept_dc))" sample_key kept_dc
      Map.empty sample_settings] with_module_ok [OF sample_ok(2), of "[]"]
  by (auto simp: fmdrop_single sample_state_def with_module_def put_defs)

end
