(* ===== verification/Sample_Loops.thy ===== *)
theory Sample_Loops
  imports Sample_Runs Control_Loop
begin

text \<open>
  The properties of whole runs on the sample cluster: the outcomes of one reconciliation, the life of
  a resource as the specification sees it, and the loop around the reconciler.
\<close>

declare split_paired_All [simp del] split_paired_Ex [simp del]

section \<open>Outcomes\<close>

lemma reconcile_confined_run:
  "cluster_ok (cs_world (snd (Reconcile sample_reconciler sample_key (sample_state crowded_world)))) \<and>
   only_for fresh_dc crowded_world (cs_world (snd (Reconcile sample_reconciler sample_key (sample_state crowded_world))))"
  using reconcile_confined [of "sample_state crowded_world" Map.empty sample_settings sample_key] crowded_world_ok
  by (simp add: crowded_world_def Let_def)

text \<open>The labeler's DaemonSet belongs to somebody else: the Module is written, the rest is not.\<close>

definition foreign_daemonset :: daemon_set where
  "foreign_daemonset =
     \<lparr>metadata = empty_meta\<lparr>om_name := ''gaudi-node-labeler'', om_namespace := ''habana'',
        om_resourceVersion := ''1'', om_ownerReferences := [foreign_ref]\<rparr>,
      spec = empty_daemon_set_spec, status = no_fields\<rparr>"

definition occupied_world :: world where
  "occupied_world =
     put_daemonsets (fmap_of_list [((''habana'', ''gaudi-node-labeler''), foreign_daemonset)]) (sample_world fresh_dc)"

lemma occupied_world_ok: "cluster_ok occupied_world"
  unfolding occupied_world_def
  by (rule cluster_ok_put(3) [OF sample_ok(1)])
     (simp add: tracker_ok_upd stored_ok_def foreign_daemonset_def empty_meta_def ObjectKeyFromObject_def
       decode_object_id daemonset_kind_def kept_alive_def time_IsZero_def)

lemma occupied_obstacle:
  "first_obstacle fresh_dc occupied_world = Some (ReasonNodeLabelerFailed,
     TextError (''could not create or patch DaemonSet: '' @
       ''Object habana/gaudi-node-labeler is already owned by another Deployment controller other''))"
proof -
  have "GetControllerOf (metadata foreign_daemonset) = Some foreign_ref"
    by (simp add: foreign_daemonset_def GetControllerOf_def foreign_ref_def)
  moreover have "error_text (AlreadyOwnedError (metadata foreign_daemonset) foreign_ref) =
      ''Object habana/gaudi-node-labeler is already owned by another Deployment controller other''"
    by (simp add: AlreadyOwnedError_def foreign_daemonset_def empty_meta_def foreign_ref_def)
  ultimately show ?thesis
    by (simp add: first_obstacle_def takeover_def occupied_world_def foreign_ref_other errorf_v_def object_names)
qed

lemma reconcile_error_exact_run:
  "snd (fst (Reconcile sample_reconciler sample_key (sample_state occupied_world))) =
     Some (TextError (''could not create or patch DaemonSet: '' @
       ''Object habana/gaudi-node-labeler is already owned by another Deployment controller other''))"
proof -
  have "w_deviceconfigs occupied_world = fmap_of_list [(sample_key, fresh_dc)]" "w_nodes occupied_world = sample_nodes"
    by (simp_all add: occupied_world_def)
  then show ?thesis
    using reconcile_error_exact [of "sample_state occupied_world" sample_key fresh_dc Map.empty sample_settings]
      occupied_world_ok sample_conflict_free [of fresh_dc] occupied_obstacle
    by (auto simp: Let_def split: prod.splits)
qed

section \<open>The life of the sample resource\<close>

definition after_reconcile :: "world \<Rightarrow> world controller_state" where
  "after_reconcile w = snd (Reconcile sample_reconciler sample_key (sample_state w))"

lemma reconcile_is_step:
  "cluster_step Map.empty sample_settings (sample_state w) (after_reconcile w)"
  unfolding after_reconcile_def by (rule operator_reconciles [OF surjective_pairing])

lemma reconcile_is_run:
  "(cluster_step Map.empty sample_settings)\<^sup>*\<^sup>* (sample_state w) (after_reconcile w)"
  using reconcile_is_step by (rule r_into_rtranclp [of "cluster_step Map.empty sample_settings"])

lemma cluster_stays_well_formed_run:
  "cluster_ok (cs_world (after_reconcile (sample_world fresh_dc)))"
  using cluster_stays_well_formed [OF reconcile_is_run [of "sample_world fresh_dc"]] sample_ok(1) by simp

lemma lifecycle_refines_run:
  "spec_step (phase_of Map.empty sample_settings (sample_world fresh_dc))
     (phase_of Map.empty sample_settings (cs_world (after_reconcile (sample_world fresh_dc))))"
  using lifecycle_refines [of "sample_state (sample_world fresh_dc)" Map.empty sample_settings]
    reconcile_is_step [of "sample_world fresh_dc"] sample_ok(1)
  by auto

lemma deletion_is_final_run:
  "\<exists>cs'. (cluster_step Map.empty sample_settings)\<^sup>*\<^sup>* (sample_state (sample_world leaving_dc)) cs' \<and>
     (phase_of Map.empty sample_settings (cs_world cs') sample_key \<in> {Leaving, Released} \<or>
      (\<exists>mid. (cluster_step Map.empty sample_settings)\<^sup>*\<^sup>* (sample_state (sample_world leaving_dc)) mid \<and>
             fmlookup (w_deviceconfigs (cs_world mid)) sample_key = None))"
proof -
  have "phase_of Map.empty sample_settings (sample_world leaving_dc) sample_key = Leaving"
    by (simp add: phase_of_def ContainsDeletionFinalizer_iff)
  then show ?thesis
    using deletion_is_final [OF reconcile_is_run [of "sample_world leaving_dc"], of sample_key]
      reconcile_is_run [of "sample_world leaving_dc"] sample_ok(3)
    by auto
qed

section \<open>The loop on the sample cluster\<close>

definition sample_mapper :: rest_mapper where
  "sample_mapper g kind v = Inr (kind = ''Node'')"

lemma sample_mapper_namespaced: "maps_namespaced sample_mapper"
  by (simp add: maps_namespaced_def sample_mapper_def)

definition queued :: "object_key \<Rightarrow> object_key work_queue" where
  "queued req = wq_Add req newQueue"

lemma queued_simps [simp]:
  "wq_queue (queued req) = [req]" "wq_processing (queued req) = {}" "\<not> wq_shuttingDown (queued req)"
  "wq_ok (queued req)" "wq_failures (queued req) = (\<lambda>_. 0)" "wq_waiting (queued req) = fmempty"
  by (simp_all add: queued_def newQueue_def wq_Add_def wq_ok_def)

lemma watched_changes_run:
  "deliver sample_mapper watches (''Service'', DeleteEvent (Some (metadata fresh_dc))) newQueue = newQueue \<and>
   wq_dirty (deliver sample_mapper watches (''DeviceConfig'', DeleteEvent (Some (metadata fresh_dc))) newQueue) = {sample_key} \<and>
   wq_dirty (deliver sample_mapper watches
     (''Module'', UpdateEvent (Some (metadata (owned_by fresh_dc (sample_module [])))) (Some (metadata (sample_module [])))) newQueue)
       = {sample_key}"
proof -
  note changes = watched_changes [OF operator_watches sample_mapper_namespaced newQueue_simps(4) refl]
  have none: "GetControllerOf (metadata (sample_module [])) = None"
    by (simp add: sample_module_def empty_meta_def GetControllerOf_def)
  have own: "GetControllerOf (metadata (owned_by fresh_dc (sample_module []))) = Some (dc_ref fresh_dc)"
    by (simp add: owned_by_controller adoptable_iff none sample_module_def empty_meta_def)
  have ns: "om_namespace (metadata (owned_by fresh_dc (sample_module []))) = ''habana''" by (simp add: sample_module_def)
  have "names_device_config (dc_ref fresh_dc)" "or_name (dc_ref fresh_dc) = ''gaudi''"
    using names_device_config_ref [of "metadata fresh_dc"] by (simp_all add: dc_ref_def controller_ref_def)
  then have "concerned ''Module'' (UpdateEvent (Some (metadata (owned_by fresh_dc (sample_module []))))
      (Some (metadata (sample_module [])))) = {sample_key}"
    using none own ns by (auto simp: concerned_def intro!: exI [where x = "metadata (owned_by fresh_dc (sample_module []))"])
  then show ?thesis
    using changes [of "''Service''" "DeleteEvent (Some (metadata fresh_dc))"]
      changes [of "''DeviceConfig''" "DeleteEvent (Some (metadata fresh_dc))"]
      changes [of "''Module''" "UpdateEvent (Some (metadata (owned_by fresh_dc (sample_module [])))) (Some (metadata (sample_module [])))"]
    by (simp add: concerned_def request_of_def)
qed

lemma sample_workable: "workable (sample_world fresh_dc)"
  using sample_ok(1) sample_conflict_free [of fresh_dc] sample_adoptable [of _ fresh_dc]
  by (simp add: workable_def)

lemma control_loop_converges_run:
  "\<not> (\<exists>run. run 0 = \<lparr>rt_state = sample_state (sample_world fresh_dc), rt_queue = newQueue,
         rt_events = [(''DeviceConfig'', CreateEvent (Some (metadata fresh_dc)))]\<rparr> \<and>
       (\<forall>i. loop_step sample_mapper watches Map.empty sample_settings (run i) (run (Suc i))))"
  by (rule control_loop_converges [THEN conjunct1, OF _ sample_mapper_namespaced operator_watches _ refl])
     (auto simp: sample_workable ran_def split: if_splits)

lemma failed_request_waits_run:
  "\<exists>q'. processNextWorkItem (sample_reconciler\<lparr>rc_Get := \<lambda>_ w. (Inl outage, w)\<rparr>) 100 0
      (sample_state (sample_world fresh_dc), queued sample_key) =
      Some (True, sample_state (sample_world fresh_dc), q') \<and> wq_queue q' = [] \<and>
    fmlookup (wq_waiting q') sample_key = Some 5000100"
proof -
  let ?r = "sample_reconciler\<lparr>rc_Get := \<lambda>_ w. (Inl outage, w)\<rparr>" and ?cs = "sample_state (sample_world fresh_dc)"
  have "Reconcile ?r sample_key ?cs = ((empty_result, Some outage), ?cs)"
    by (simp add: Reconcile_def outside_def outage_def IsNotFound_StatusError knownReason_def sample_state_def)
  from failed_request_waits [OF _ _ _ _ this, of "queued sample_key" "[]" 100 0] show ?thesis by auto
qed

lemma conflict_resolution_unnoticed_run:
  "\<exists>cs' q'. processNextWorkItem sample_reconciler 100 0 (sample_state crowded_world, queued sample_key) =
      Some (True, cs', q') \<and> sample_key \<notin> wq_dirty q' \<and>
    (\<forall>ke \<in> changes crowded_world (sample_world fresh_dc).
       sample_key \<notin> wq_dirty (deliver sample_mapper watches ke newQueue))"
proof -
  have "put_deviceconfigs (fmap_of_list [(sample_key, fresh_dc)]) crowded_world = sample_world fresh_dc"
    by (simp add: crowded_world_def sample_world_def put_defs)
  moreover have "tracker_ok deviceconfig_kind (fmap_of_list [(sample_key, fresh_dc)])"
    using cluster_okD(1) [OF sample_ok(1)] by simp
  moreover have "\<exists>cs' q'. processNextWorkItem sample_reconciler 100 0 (sample_state crowded_world, queued sample_key) =
        Some (True, cs', q') \<and> cs_world cs' = crowded_world \<and> sample_key \<notin> wq_dirty q' \<and>
      wq_waiting q' = wq_waiting (queued sample_key) \<and>
      (\<forall>dcs ke q0. tracker_ok deviceconfig_kind dcs \<longrightarrow> fmlookup dcs sample_key = Some fresh_dc \<longrightarrow>
         ke \<in> changes crowded_world (put_deviceconfigs dcs crowded_world) \<longrightarrow>
         \<not> wq_shuttingDown q0 \<longrightarrow> sample_key \<notin> wq_dirty q0 \<longrightarrow>
         sample_key \<notin> wq_dirty (deliver sample_mapper watches ke q0))"
    using conflict_resolution_unnoticed [where cs = "sample_state crowded_world" and req = sample_key and dc = fresh_dc
        and q = "queued sample_key" and rest = "[]" and base = Map.empty and st = sample_settings and now = 100 and bucket = 0,
        OF _ _ _ _ _ _ _ _ sample_mapper_namespaced operator_watches] crowded_world_ok crowded_conflict
    by (simp add: crowded_world_def)
  ultimately show ?thesis by (fastforce simp: newQueue_def)
qed

end
