(* ===== verification/Sample_Lagging_Runs.thy ===== *)
theory Sample_Lagging_Runs
  imports Lagging_Recovery Sample_Loops
begin

text \<open>
  The loop on lagging caches, on the sample cluster: the operator starts while its cache does not show the resource yet; then the
  cache catches up, and the handlers hear of the resource.
\<close>

declare split_paired_All [simp del] split_paired_Ex [simp del]

definition empty_cluster :: world where
  "empty_cluster = put_deviceconfigs fmempty (sample_world fresh_dc)"

definition late_start :: "(informer \<Rightarrow> nat) \<Rightarrow> informed controller_state" where
  "late_start seen =
     \<lparr>cs_world = \<lparr>in_past = [empty_cluster, sample_world fresh_dc], in_seen = seen, in_schedule = []\<rparr>,
      ReconciliationFailed = Map.empty, cs_events = []\<rparr>"

abbreviation "creation \<equiv> (''DeviceConfig'', CreateEvent (Some (metadata fresh_dc)))"
abbreviation "resource_seen \<equiv> (\<lambda>_. 0)(OfDeviceConfigs := 1)"

lemma late_start_simps [simp]:
  "in_past (cs_world (late_start seen)) = [empty_cluster, sample_world fresh_dc]" "in_seen (cs_world (late_start seen)) = seen"
  "server (cs_world (late_start seen)) = sample_world fresh_dc" "cs_events (late_start seen) = []"
  "w_deviceconfigs empty_cluster = fmempty"
  by (simp_all add: late_start_def server_def empty_cluster_def)

lemma empty_cluster_ok: "cluster_ok empty_cluster"
  unfolding empty_cluster_def by (rule cluster_ok_put(1) [OF sample_ok(1)]) simp

lemma creation_told: "told (late_start (\<lambda>_. 0)) (late_start resource_seen) = {creation}"
proof -
  have "change_of (fmlookup fmempty k) (fmlookup (fmap_of_list [(sample_key, fresh_dc)]) k) =
      (if k = sample_key then Some (CreateEvent (Some (metadata fresh_dc))) else None)" for k
    by (simp add: change_of_def)
  then have "informer_changes OfDeviceConfigs empty_cluster (sample_world fresh_dc) = {creation}"
    by (auto simp: informer_changes_def kind_changes_def)
  then have "(\<Union>j\<in>{0..<resource_seen i}. informer_changes i ([empty_cluster, sample_world fresh_dc] ! j)
      ([empty_cluster, sample_world fresh_dc] ! Suc j)) = (if i = OfDeviceConfigs then {creation} else {})" for i
    by simp
  then show ?thesis unfolding told_def news_def late_start_simps by simp
qed

definition late_runtime :: lagging_runtime where
  "late_runtime = \<lparr>lr_state = late_start (\<lambda>_. 0), lr_queue = newQueue, lr_events = []\<rparr>"

definition woken_runtime :: lagging_runtime where
  "woken_runtime = \<lparr>lr_state = late_start resource_seen, lr_queue = queued sample_key, lr_events = []\<rparr>"

lemma late_run:
  "(lagging_step sample_mapper watches Map.empty sample_settings)\<^sup>*\<^sup>* late_runtime woken_runtime"
proof -
  let ?step = "lagging_step sample_mapper watches Map.empty sample_settings"
  have seen: "late_start resource_seen =
      happens Map.empty sample_settings (Others (CacheCatchesUp OfDeviceConfigs 1)) (lr_state late_runtime)"
    by (simp add: late_start_def late_runtime_def)
  have "set [creation] = told (lr_state late_runtime) (late_start resource_seen)"
    using creation_told by (simp add: late_runtime_def)
  from others_happen [OF seen this]
  have "?step late_runtime (late_runtime\<lparr>lr_state := late_start resource_seen, lr_events := [creation]\<rparr>)"
    by (simp add: late_runtime_def)
  moreover have "?step (late_runtime\<lparr>lr_state := late_start resource_seen, lr_events := [creation]\<rparr>) woken_runtime"
    using handlers_called [of "late_runtime\<lparr>lr_state := late_start resource_seen, lr_events := [creation]\<rparr>" "[]" creation "[]"
        sample_mapper watches Map.empty sample_settings]
    by (simp add: late_runtime_def woken_runtime_def deliver_eq [OF sample_mapper_namespaced] event_requests_def request_of_def queued_def)
  ultimately show ?thesis by (meson converse_rtranclp_into_rtranclp rtranclp.rtrancl_refl)
qed

text \<open>What both properties ask for.\<close>

lemma woken_simps [simp]: "lr_state woken_runtime = late_start resource_seen" "lr_queue woken_runtime = queued sample_key"
  by (simp_all add: woken_runtime_def)

lemma late_conditions:
  "in_bounds (cs_world (late_start (\<lambda>_. 0)))"
  "dc \<in> ran (fmlookup (w_deviceconfigs (cached OfDeviceConfigs (cs_world (late_start (\<lambda>_. 0)))))) \<Longrightarrow>
     (''DeviceConfig'', CreateEvent (Some (metadata dc))) \<in> set []"
  "w \<in> set (in_past (cs_world (lr_state woken_runtime))) \<Longrightarrow> cluster_ok w"
  using empty_cluster_ok sample_ok(1) by (auto simp: in_bounds_def cached_def ran_def)

lemma nothing_overlooked_run:
  "sample_key \<in> on_the_way woken_runtime \<and> \<not> watched_done Map.empty sample_settings (sample_world fresh_dc) sample_key"
proof -
  have nd: "\<not> watched_done Map.empty sample_settings (sample_world fresh_dc) sample_key"
    by (simp add: watched_done_def ContainsDeletionFinalizer_iff being_deleted_def time_IsZero_def)
  from nothing_overlooked [OF late_conditions(1) sample_mapper_namespaced operator_watches late_conditions(2)
      late_run [unfolded late_runtime_def] late_conditions(3), THEN conjunct1, of sample_key]
  show ?thesis using nd by (simp add: refused_def)
qed

lemma left_alone_finishes_run:
  "\<exists>s'. (operator_step sample_mapper watches Map.empty sample_settings)\<^sup>*\<^sup>* woken_runtime s' \<and> wq_dirty (lr_queue s') = {} \<and>
     settled (phase_of Map.empty sample_settings (server (cs_world (lr_state s'))) sample_key)"
proof -
  have "workable (server (cs_world (lr_state woken_runtime)))" using sample_workable by simp
  moreover have "sample_key \<in> on_the_way woken_runtime" by (simp add: on_the_way_def queued_def)
  ultimately show ?thesis
    using left_alone_finishes [OF late_conditions(1) sample_mapper_namespaced operator_watches late_conditions(2)
        late_run [unfolded late_runtime_def] late_conditions(3)] by blast
qed

end
