(* ===== verification/Stale_Reads.thy ===== *)
theory Stale_Reads
  imports Cached_Reads
begin

text \<open>
  What lagging caches and the actions of others cannot break. The reasoning is by rely and guarantee: a set of states that
  the others' actions do not leave is carried from one call of the operator to the next.
\<close>

declare split_paired_All [simp del] split_paired_Ex [simp del]

section \<open>Versions\<close>

definition version_no :: "('sp, 'st) k8s_object \<Rightarrow> nat" where
  "version_no x = nat (the (ParseUint64 (om_resourceVersion (metadata x))))"

lemma version_no_decimal [simp]: "n < 2 ^ 64 \<Longrightarrow> version_no (set_resourceVersion (decimal n) x) = n"
  by (simp add: version_no_def ParseUint64_decimal set_resourceVersion_def)

lemma version_no_eq:
  "om_resourceVersion (metadata x) = om_resourceVersion (metadata y) \<Longrightarrow> version_no x = version_no y"
  by (simp add: version_no_def)

lemma next_version_no:
  assumes "version_ok (om_resourceVersion (metadata x))" "Suc (version_no x) < 2 ^ 64"
    and "ParseUint64 (om_resourceVersion (metadata x)) = Some n"
  shows "next_version n = decimal (Suc (version_no x))"
proof -
  obtain m where m: "m < 2 ^ 64" "om_resourceVersion (metadata x) = decimal m"
    using assms(1) by (auto simp only: version_ok_def)
  have "n = int m" using assms(3) unfolding m(2) ParseUint64_decimal [OF m(1)] by simp
  moreover have "version_no x = m" unfolding version_no_def m(2) ParseUint64_decimal [OF m(1)] by simp
  moreover have "(int m + 1) mod 2 ^ 64 = int m + 1"
    using assms(2) calculation(2) of_nat_less_iff [of "Suc m" "2 ^ 64", where 'a = int]
    by (intro mod_pos_pos_trivial) simp_all
  ultimately show ?thesis unfolding next_version_def by (simp add: nat_add_distrib)
qed

text \<open>The next version is the next number, as long as the numbers last.\<close>

definition countable :: "('sp, 'st) tracker \<Rightarrow> bool" where
  "countable t \<longleftrightarrow> (\<forall>k x. fmlookup t k = Some x \<longrightarrow> Suc (version_no x) < 2 ^ 64)"

lemma update_cases:
  assumes ok: "tracker_ok rk t" "countable t"
    and kind: "\<not> allowsUnconditionalUpdate (rk_gvk rk)" "\<not> allowsCreateOnUpdate (rk_gvk rk)"
    and upd: "versioned_Update rk y (om_namespace (metadata y)) t = (r, t')"
  obtains (refused) e where "r = Inl e" "t' = t"
  | (stored) x where "fmlookup t (ObjectKeyFromObject y) = Some x"
      "om_resourceVersion (metadata y) = om_resourceVersion (metadata x)"
      "r = Inr (set_resourceVersion (decimal (Suc (version_no x))) y)"
      "t' = (if being_deleted y \<and> om_finalizers (metadata y) = [] then fmdrop (ObjectKeyFromObject y) t
             else fmupd (ObjectKeyFromObject y) (set_resourceVersion (decimal (Suc (version_no x))) y) t)"
proof (cases "fmlookup t (ObjectKeyFromObject y)")
  case None
  then have "\<exists>e. r = Inl e \<and> t' = t"
    using upd kind by (auto simp: versioned_Update_def tracker_Get_def ObjectKeyFromObject_def split: if_splits)
  then show thesis using refused by blast
next
  case (Some x)
  then have name: "om_name (metadata y) \<noteq> []"
    using tracker_okD [OF ok(1) Some] by (auto simp: stored_ok_def ObjectKeyFromObject_def)
  show thesis
  proof (cases "om_resourceVersion (metadata y) = om_resourceVersion (metadata x)")
    case True
    obtain n where n: "ParseUint64 (om_resourceVersion (metadata x)) = Some n"
      "versioned_Update rk y (om_namespace (metadata y)) t =
        (Inr (set_resourceVersion (next_version n) y),
         if \<not> time_IsZero (om_deletionTimestamp (metadata y)) \<and> om_finalizers (metadata y) = []
         then fmdrop (ObjectKeyFromObject y) t
         else fmupd (ObjectKeyFromObject y) (set_resourceVersion (next_version n) y) t)"
      by (rule versioned_Update_next [OF ok(1) Some True])
    have "next_version n = decimal (Suc (version_no x))"
      using next_version_no [OF _ _ n(1)] ok(2) Some tracker_okD [OF ok(1) Some]
      unfolding countable_def stored_ok_def by blast
    with n(2) upd stored [OF Some True] show thesis by (auto simp: being_deleted_def split: if_splits)
  next
    case False
    with stale_update_conflicts [OF Some name False] kind(1) upd refused show thesis by auto
  qed
qed

text \<open>What an update, a creation and a deletion of a resource do to the resources that are stored.\<close>

definition dcs_step ::
    "nat \<Rightarrow> (device_config_spec, device_config_status) tracker \<Rightarrow> (device_config_spec, device_config_status) tracker \<Rightarrow> bool"
  where
  "dcs_step n t t' \<longleftrightarrow>
     (\<forall>k y. fmlookup t' k = Some y \<longrightarrow> fmlookup t k = Some y \<or>
        stored_ok deviceconfig_kind k y \<and>
        ((\<exists>x. fmlookup t k = Some x \<and> version_no y = Suc (version_no x)) \<or> version_no y = n))"

definition finalizers_kept ::
    "(device_config_spec, device_config_status) tracker \<Rightarrow> (device_config_spec, device_config_status) tracker \<Rightarrow> bool"
  where
  "finalizers_kept t t' \<longleftrightarrow>
     (\<forall>k x. fmlookup t k = Some x \<longrightarrow> ContainsDeletionFinalizer x \<longrightarrow>
        (\<exists>y. fmlookup t' k = Some y \<and> ContainsDeletionFinalizer y))"

lemma dcs_step_refl [simp]: "dcs_step n t t" "finalizers_kept t t"
  by (simp_all add: dcs_step_def finalizers_kept_def)

lemma dcs_step_drop: "dcs_step n t (fmdrop k t)"
  by (simp add: dcs_step_def)

lemma dcs_step_upd:
  assumes "stored_ok deviceconfig_kind k y"
    and "(\<exists>x. fmlookup t k = Some x \<and> version_no y = Suc (version_no x)) \<or> version_no y = n"
  shows "dcs_step n t (fmupd k y t)"
  using assms by (simp add: dcs_step_def)

lemma finalizers_kept_drop:
  "(\<And>x. fmlookup t k = Some x \<Longrightarrow> \<not> ContainsDeletionFinalizer x) \<Longrightarrow> finalizers_kept t (fmdrop k t)"
  by (auto simp: finalizers_kept_def)

lemma finalizers_kept_upd:
  "(\<And>x. fmlookup t k = Some x \<Longrightarrow> ContainsDeletionFinalizer x \<Longrightarrow> ContainsDeletionFinalizer y) \<Longrightarrow>
   finalizers_kept t (fmupd k y t)"
  by (auto simp: finalizers_kept_def)

lemma dc_updated:
  assumes ok: "tracker_ok deviceconfig_kind (w_deviceconfigs w)" "countable (w_deviceconfigs w)"
    and dec: "decode_object deviceconfig_kind y = y"
    and upd: "kc_update (api_deviceconfigs cluster) y w = (r, w')"
  obtains (refused) e where "r = Inl e" "w' = w"
  | (removed) x where "fmlookup (w_deviceconfigs w) (ObjectKeyFromObject y) = Some x"
      "om_resourceVersion (metadata y) = om_resourceVersion (metadata x)" "being_deleted y" "om_finalizers (metadata y) = []"
      "w' = put_deviceconfigs (fmdrop (ObjectKeyFromObject y) (w_deviceconfigs w)) w"
      "dcs_step n (w_deviceconfigs w) (w_deviceconfigs w')"
  | (stored) x v where "fmlookup (w_deviceconfigs w) (ObjectKeyFromObject y) = Some x"
      "om_resourceVersion (metadata y) = om_resourceVersion (metadata x)"
      "r = Inr (set_resourceVersion v y)"
      "w' = put_deviceconfigs (fmupd (ObjectKeyFromObject y) (set_resourceVersion v y) (w_deviceconfigs w)) w"
      "dcs_step n (w_deviceconfigs w) (w_deviceconfigs w')"
proof -
  let ?t = "w_deviceconfigs w" and ?k = "ObjectKeyFromObject y"
  obtain t' where t': "versioned_Update deviceconfig_kind y (om_namespace (metadata y)) ?t = (r, t')"
      "w' = put_deviceconfigs t' w"
    using upd by (auto simp: fake_client_def on_tracker_def split: prod.splits)
  from ok dc_kind_strict t'(1) show thesis
  proof (cases rule: update_cases)
    case refused
    with t'(2) that(1) show thesis by (simp add: put_defs)
  next
    case (stored x)
    let ?y = "set_resourceVersion (decimal (Suc (version_no x))) y"
    have v: "Suc (version_no x) < 2 ^ 64" using ok(2) stored(1) by (simp add: countable_def)
    show thesis
    proof (cases "being_deleted y \<and> om_finalizers (metadata y) = []")
      case True
      with stored t'(2) that(2) [of x] show thesis by (simp add: dcs_step_drop)
    next
      case False
      have "version_ok (decimal (Suc (version_no x)))" using v unfolding version_ok_def by blast
      moreover have "om_name (metadata y) \<noteq> []"
        using tracker_okD [OF ok(1) stored(1)] by (auto simp: stored_ok_def ObjectKeyFromObject_def)
      ultimately have "stored_ok deviceconfig_kind ?k ?y"
        using dec False by (simp add: stored_ok_set_version kept_alive_def being_deleted_def)
      then have "dcs_step n ?t (fmupd ?k ?y ?t)"
        using stored(1) v by (intro dcs_step_upd) simp_all
      with False stored t'(2) that(3) [of x] show thesis by auto
    qed
  qed
qed

section \<open>What others may do to the server\<close>

definition keyed :: "('sp, 'st) tracker \<Rightarrow> bool" where
  "keyed t \<longleftrightarrow> (\<forall>k x. fmlookup t k = Some x \<longrightarrow> ObjectKeyFromObject x = k)"

lemma keyed_upd: "keyed t \<Longrightarrow> keyed (fmupd (ObjectKeyFromObject x) x t)"
  by (simp add: keyed_def)

lemma keyed_drop: "keyed t \<Longrightarrow> keyed (fmdrop k t)"
  by (simp add: keyed_def)

definition live_module :: "world \<Rightarrow> object_key \<Rightarrow> bool" where
  "live_module w k \<longleftrightarrow> (\<exists>m. fmlookup (w_modules w) k = Some m \<and> \<not> being_deleted m)"

text \<open>The rely, between two states of the server of which the second one is number \<open>n\<close>.\<close>

definition harmless :: "nat \<Rightarrow> world \<Rightarrow> world \<Rightarrow> bool" where
  "harmless n w w' \<longleftrightarrow>
     dcs_step n (w_deviceconfigs w) (w_deviceconfigs w') \<and>
     finalizers_kept (w_deviceconfigs w) (w_deviceconfigs w') \<and>
     (keyed (w_modules w) \<longrightarrow> keyed (w_modules w')) \<and>
     (\<forall>k. live_module w' k \<longrightarrow> live_module w k)"

lemma harmless_same:
  "w_deviceconfigs w' = w_deviceconfigs w \<Longrightarrow> w_modules w' = w_modules w \<Longrightarrow> harmless n w w'"
  by (simp add: harmless_def live_module_def)

lemma harmless_dcs:
  "dcs_step n (w_deviceconfigs w) t \<Longrightarrow> finalizers_kept (w_deviceconfigs w) t \<Longrightarrow> harmless n w (put_deviceconfigs t w)"
  by (simp add: harmless_def live_module_def)

lemma user_creates_harmless:
  assumes "n < 2 ^ 64"
  shows "harmless n w (user_creates_at n dc w)"
proof (cases "decode_object deviceconfig_kind dc = dc \<and> \<not> being_deleted dc \<and> \<not> ContainsDeletionFinalizer dc")
  case False
  then show ?thesis by (simp only: user_creates_at_def if_False harmless_same)
next
  case True
  let ?k = "ObjectKeyFromObject dc" and ?t = "w_deviceconfigs w"
  show ?thesis
  proof (cases "kc_create (api_deviceconfigs cluster) dc w")
    case (Pair r w')
    show ?thesis
    proof (cases r)
      case (Inl e)
      with Pair have "w' = w"
        by (auto simp: fake_client_def on_tracker_def versioned_Create_def put_defs Let_def split: if_splits sum.splits)
      with Pair Inl True show ?thesis by (simp add: user_creates_at_def harmless_same)
    next
      case (Inr dc')
      with Pair have made: "kc_create (api_deviceconfigs cluster) dc w = (Inr dc', w')" by simp
      then have new: "om_name (metadata dc) \<noteq> []" "om_resourceVersion (metadata dc) = []"
        by (auto simp: fake_client_def on_tracker_def versioned_Create_def split: if_splits)
      have none: "fmlookup ?t ?k = None"
        using made new tracker_add_own [of "resource_string deviceconfig_kind" "set_resourceVersion ''1'' dc" False ?t]
        by (auto simp: fake_client_def on_tracker_def versioned_Create_def Let_def split: if_splits)
      have res: "dc' = set_resourceVersion ''1'' dc" "w' = put_deviceconfigs (fmupd ?k dc' ?t) w"
        using made versioned_Create_new [OF none new, of deviceconfig_kind] by (auto simp: fake_client_def on_tracker_def)
      let ?y = "set_resourceVersion (decimal n) dc"
      have "version_ok (decimal n)" using assms unfolding version_ok_def by blast
      then have "stored_ok deviceconfig_kind ?k ?y"
        using True new(1) by (simp add: stored_ok_set_version kept_alive_def being_deleted_def)
      then have "dcs_step n ?t (fmupd ?k ?y ?t)" using assms by (intro dcs_step_upd) simp_all
      moreover have "finalizers_kept ?t (fmupd ?k ?y ?t)" using none by (intro finalizers_kept_upd) simp
      moreover have "user_creates_at n dc w = put_deviceconfigs (fmupd ?k ?y ?t) w"
        using True made res by (simp add: user_creates_at_def put_defs)
      ultimately show ?thesis by (simp add: harmless_dcs)
    qed
  qed
qed

lemma user_updates_harmless:
  assumes "tracker_ok deviceconfig_kind (w_deviceconfigs w)" "countable (w_deviceconfigs w)"
  shows "harmless n w (user_updates dc w)"
proof (cases "fmlookup (w_deviceconfigs w) (ObjectKeyFromObject dc)")
  case None
  then show ?thesis by (simp add: user_updates_def harmless_same)
next
  case (Some old)
  let ?upd = "kc_update (api_deviceconfigs cluster) dc w"
  show ?thesis
  proof (cases "decode_object deviceconfig_kind dc = dc \<and>
      om_deletionTimestamp (metadata dc) = om_deletionTimestamp (metadata old) \<and>
      ContainsDeletionFinalizer dc = ContainsDeletionFinalizer old")
    case False
    with Some show ?thesis by (auto simp: user_updates_def intro: harmless_same)
  next
    case True
    then have w': "user_updates dc w = snd ?upd" using Some by (simp add: user_updates_def)
    obtain r w' where upd: "?upd = (r, w')" by (cases ?upd)
    from assms True have dec: "decode_object deviceconfig_kind dc = dc" by blast
    from assms dec upd have "harmless n w w'"
    proof (cases rule: dc_updated [where n = n])
      case (removed x)
      then have "x = old" using Some by simp
      with removed True have "\<not> ContainsDeletionFinalizer old" by (simp add: ContainsDeletionFinalizer_iff)
      with removed Some show ?thesis by (auto intro!: harmless_dcs finalizers_kept_drop)
    next
      case (stored x v)
      with Some True show ?thesis
        by (auto intro!: harmless_dcs finalizers_kept_upd simp: ContainsDeletionFinalizer_iff)
    qed (simp add: harmless_same)
    with w' upd show ?thesis by simp
  qed
qed

lemma user_deletes_harmless:
  assumes ok: "tracker_ok deviceconfig_kind (w_deviceconfigs w)" "countable (w_deviceconfigs w)"
  shows "harmless n w (user_deletes k w)"
proof (cases "fmlookup (w_deviceconfigs w) k")
  case None
  then show ?thesis by (simp add: user_deletes_def harmless_same)
next
  case (Some x)
  have key: "ObjectKeyFromObject x = k" using tracker_okD [OF ok(1) Some] by (simp add: stored_ok_def)
  with Some have st: "fmlookup (w_deviceconfigs w) (ObjectKeyFromObject x) = Some x" by simp
  let ?x = "x\<lparr>metadata := (metadata x)\<lparr>om_deletionTimestamp := Some (world_now w)\<rparr>\<rparr>"
  have ky: "ObjectKeyFromObject ?x = k" using key by (simp add: ObjectKeyFromObject_def)
  show ?thesis
  proof (cases "om_finalizers (metadata x) = []")
    case True
    then have "user_deletes k w = put_deviceconfigs (fmdrop k (w_deviceconfigs w)) w"
      using Some deviceconfigs.delete_result(1) [OF ok(1) st True] key by (simp add: user_deletes_def)
    moreover have "\<not> ContainsDeletionFinalizer x" using True by (simp add: ContainsDeletionFinalizer_iff)
    ultimately show ?thesis using Some by (auto intro!: harmless_dcs finalizers_kept_drop dcs_step_drop)
  next
    case False
    have dec: "decode_object deviceconfig_kind ?x = ?x"
      using deviceconfigs.stored_decoded [OF ok(1) Some] by (simp add: decode_object_id world_now_def)
    obtain r w' where upd: "kc_update (api_deviceconfigs cluster) ?x w = (r, w')"
      by (cases "kc_update (api_deviceconfigs cluster) ?x w")
    have del: "user_deletes k w = w'"
      using Some upd key False ky
      by (simp add: user_deletes_def fake_client_def on_tracker_def deleteObject_def tracker_Get_def Let_def
          ObjectKeyFromObject_def put_defs split: prod.splits sum.splits)
    from ok dec upd have "harmless n w w'"
    proof (cases rule: dc_updated [where n = n])
      case (removed y)
      with False show ?thesis by simp
    next
      case (stored y v)
      with Some ky have "y = x" by simp
      with stored ky Some show ?thesis
        by (auto intro!: harmless_dcs finalizers_kept_upd simp: ContainsDeletionFinalizer_iff)
    qed (simp add: harmless_same)
    with del show ?thesis by simp
  qed
qed

lemma others_write_module_harmless: "harmless n w (others_write_module m w)"
proof (cases "fmlookup (w_modules w) (ObjectKeyFromObject m)")
  case None
  then show ?thesis by (simp add: others_write_module_def harmless_same)
next
  case (Some old)
  then show ?thesis
    by (auto simp: others_write_module_def harmless_def live_module_def keyed_upd)
qed

lemma others_remove_module_harmless: "harmless n w (put_modules (fmdrop k (w_modules w)) w)"
  by (auto simp: harmless_def live_module_def keyed_drop split: if_splits)

section \<open>What is kept\<close>

abbreviation dcs_at :: "informed \<Rightarrow> nat \<Rightarrow> (device_config_spec, device_config_status) tracker" where
  "dcs_at s i \<equiv> w_deviceconfigs (in_past s ! i)"

abbreviation dcs_now :: "informed \<Rightarrow> (device_config_spec, device_config_status) tracker" where
  "dcs_now s \<equiv> w_deviceconfigs (server s)"

text \<open>Versions tell the states of a resource apart, and their order is that of the states.\<close>

definition history_ok :: "informed \<Rightarrow> bool" where
  "history_ok s \<longleftrightarrow>
     in_past s \<noteq> [] \<and> (\<forall>i. in_seen s i < length (in_past s)) \<and>
     (\<forall>i < length (in_past s). tracker_ok deviceconfig_kind (dcs_at s i) \<and> keyed (w_modules (in_past s ! i))) \<and>
     (\<forall>i k x. i < length (in_past s) \<longrightarrow> fmlookup (dcs_at s i) k = Some x \<longrightarrow> version_no x \<le> i) \<and>
     (\<forall>i j k x y. i \<le> j \<longrightarrow> j < length (in_past s) \<longrightarrow> fmlookup (dcs_at s i) k = Some x \<longrightarrow>
        fmlookup (dcs_at s j) k = Some y \<longrightarrow> version_no x < version_no y \<or> x = y)"

text \<open>
  What the operator may yet be told of is still so: a resource that the cache shows, or is going to show, with the finalizer and not being
  deleted has the finalizer on the server.
\<close>

definition promises_hold :: "informed \<Rightarrow> bool" where
  "promises_hold s \<longleftrightarrow>
     (\<forall>i k x. in_seen s OfDeviceConfigs \<le> i \<longrightarrow> i < length (in_past s) \<longrightarrow> fmlookup (dcs_at s i) k = Some x \<longrightarrow>
        ContainsDeletionFinalizer x \<longrightarrow> \<not> being_deleted x \<longrightarrow>
        (\<exists>y. fmlookup (dcs_now s) k = Some y \<and> ContainsDeletionFinalizer y))"

definition modules_covered :: "world \<Rightarrow> bool" where
  "modules_covered w \<longleftrightarrow> (\<forall>k. live_module w k \<longrightarrow> covers (w_deviceconfigs w) k)"

definition settled :: "informed \<Rightarrow> bool" where
  "settled s \<longleftrightarrow> history_ok s \<and> promises_hold s \<and> modules_covered (server s)"

lemma server_nth: "in_past s \<noteq> [] \<Longrightarrow> server s = in_past s ! (length (in_past s) - 1)"
  by (simp add: server_def last_conv_nth)

lemma server_becomes_simps [simp]:
  "server (server_becomes w s) = w" "in_past (server_becomes w s) = in_past s @ [w]"
  "in_seen (server_becomes w s) = in_seen s" "in_schedule (server_becomes w s) = in_schedule s"
  by (simp_all add: server_def server_becomes_def)

lemma history_now:
  assumes "history_ok s"
  shows "tracker_ok deviceconfig_kind (dcs_now s)" "keyed (w_modules (server s))"
    "\<And>k x. fmlookup (dcs_now s) k = Some x \<Longrightarrow> version_no x < length (in_past s)"
    "\<And>i k x y. i < length (in_past s) \<Longrightarrow> fmlookup (dcs_at s i) k = Some x \<Longrightarrow> fmlookup (dcs_now s) k = Some y \<Longrightarrow>
       version_no x < version_no y \<or> x = y"
proof -
  let ?n = "length (in_past s) - 1"
  have ne: "in_past s \<noteq> []" using assms by (simp add: history_ok_def)
  then have n: "?n < length (in_past s)" by simp
  show "tracker_ok deviceconfig_kind (dcs_now s)" "keyed (w_modules (server s))"
    using assms n unfolding server_nth [OF ne] history_ok_def by blast+
  show "version_no x < length (in_past s)" if "fmlookup (dcs_now s) k = Some x" for k x
  proof -
    have "version_no x \<le> ?n" using assms n that unfolding server_nth [OF ne] history_ok_def by blast
    with n show ?thesis by linarith
  qed
  show "version_no x < version_no y \<or> x = y"
    if "i < length (in_past s)" "fmlookup (dcs_at s i) k = Some x" "fmlookup (dcs_now s) k = Some y" for i k x y
  proof -
    from that(1) have "i \<le> ?n" by linarith
    with that assms n show ?thesis unfolding server_nth [OF ne] history_ok_def by blast
  qed
qed

lemma history_countable:
  "history_ok s \<Longrightarrow> length (in_past s) < 2 ^ 64 \<Longrightarrow> countable (dcs_now s)"
  unfolding countable_def using history_now(3) by (metis Suc_leI le_less_trans)

lemma history_append:
  assumes h: "history_ok s" and st: "dcs_step (length (in_past s)) (dcs_now s) (w_deviceconfigs w)" and ky: "keyed (w_modules w)"
  shows "history_ok (server_becomes w s)"
proof -
  let ?n = "length (in_past s)" and ?s = "server_becomes w s"
  note now = history_now [OF h]
  have old: "in_past ?s ! i = in_past s ! i" if "i < ?n" for i using that by (simp add: nth_append)
  have new: "in_past ?s ! ?n = w" by (simp add: nth_append)
  have y: "fmlookup (dcs_now s) k = Some y \<or> stored_ok deviceconfig_kind k y \<and>
      ((\<exists>x. fmlookup (dcs_now s) k = Some x \<and> version_no y = Suc (version_no x)) \<or> version_no y = ?n)"
    if "fmlookup (w_deviceconfigs w) k = Some y" for k y
    using st that unfolding dcs_step_def by blast
  have ok: "tracker_ok deviceconfig_kind (w_deviceconfigs w)"
    unfolding tracker_ok_def using y tracker_okD [OF now(1)] by blast
  have bound: "version_no x \<le> ?n" if "fmlookup (w_deviceconfigs w) k = Some x" for k x
    using y [OF that] now(3) by fastforce
  have order: "version_no x < version_no y \<or> x = y"
    if "i < ?n" "fmlookup (dcs_at s i) k = Some x" "fmlookup (w_deviceconfigs w) k = Some y" for i k x y
    using y [OF that(3)]
  proof (elim disjE conjE exE)
    assume "fmlookup (dcs_now s) k = Some y"
    with now(4) that show ?thesis by blast
  next
    fix z assume z: "fmlookup (dcs_now s) k = Some z" "version_no y = Suc (version_no z)"
    with now(4) [OF that(1,2) z(1)] show ?thesis by auto
  next
    assume "version_no y = ?n"
    moreover have "version_no x \<le> i" using h that unfolding history_ok_def by blast
    ultimately show ?thesis using that(1) by simp
  qed
  show ?thesis unfolding history_ok_def
  proof (intro conjI allI impI)
    show "in_past ?s \<noteq> []" by simp
    show "in_seen ?s i < length (in_past ?s)" for i using h by (simp add: history_ok_def less_Suc_eq)
  next
    fix i assume "i < length (in_past ?s)"
    then consider "i < ?n" | "i = ?n" by fastforce
    then show "tracker_ok deviceconfig_kind (dcs_at ?s i)" "keyed (w_modules (in_past ?s ! i))"
      using h ok ky old new by (cases; simp add: history_ok_def)+
  next
    fix i k x assume i: "i < length (in_past ?s)" "fmlookup (dcs_at ?s i) k = Some x"
    from i(1) consider "i < ?n" | "i = ?n" by fastforce
    then show "version_no x \<le> i"
    proof cases
      case 1 with i(2) old h show ?thesis unfolding history_ok_def by metis
    next
      case 2 with i(2) new bound show ?thesis by metis
    qed
  next
    fix i j k x z assume i: "i \<le> j" "j < length (in_past ?s)" "fmlookup (dcs_at ?s i) k = Some x" "fmlookup (dcs_at ?s j) k = Some z"
    from i(1,2) consider "i < ?n" "j < ?n" | "i < ?n" "j = ?n" | "i = ?n" "j = ?n" by fastforce
    then show "version_no x < version_no z \<or> x = z"
    proof cases
      case 1 with i old h show ?thesis unfolding history_ok_def by metis
    next
      case 2 with i(3,4) old new order show ?thesis by metis
    next
      case 3 with i(3,4) show ?thesis by simp
    qed
  qed
qed

lemma promises_append:
  assumes "promises_hold s"
    and "\<And>k x. fmlookup (dcs_now s) k = Some x \<Longrightarrow> ContainsDeletionFinalizer x \<Longrightarrow>
      (\<exists>y. fmlookup (w_deviceconfigs w) k = Some y \<and> ContainsDeletionFinalizer y) \<or>
      (\<forall>i z. in_seen s OfDeviceConfigs \<le> i \<longrightarrow> i < length (in_past s) \<longrightarrow> fmlookup (dcs_at s i) k = Some z \<longrightarrow>
         ContainsDeletionFinalizer z \<longrightarrow> being_deleted z)"
  shows "promises_hold (server_becomes w s)"
  unfolding promises_hold_def server_becomes_simps
proof (intro allI impI)
  fix i k x
  assume i: "in_seen s OfDeviceConfigs \<le> i" "i < length (in_past s @ [w])"
    and x: "fmlookup (w_deviceconfigs ((in_past s @ [w]) ! i)) k = Some x" "ContainsDeletionFinalizer x" "\<not> being_deleted x"
  show "\<exists>y. fmlookup (w_deviceconfigs w) k = Some y \<and> ContainsDeletionFinalizer y"
  proof (cases "i < length (in_past s)")
    case True
    with x have at: "fmlookup (dcs_at s i) k = Some x" by (simp add: nth_append)
    with assms(1) i(1) True x(2,3) obtain y where y: "fmlookup (dcs_now s) k = Some y" "ContainsDeletionFinalizer y"
      unfolding promises_hold_def by blast
    with assms(2) [OF y] i(1) True at x(2,3) show ?thesis by blast
  next
    case False
    with i(2) x show ?thesis by (auto simp: nth_append)
  qed
qed

lemma covers_kept:
  assumes ok: "tracker_ok deviceconfig_kind t" "tracker_ok deviceconfig_kind t'"
    and cov: "covers t mk"
    and kept: "\<And>k x. fmlookup t k = Some x \<Longrightarrow> ContainsDeletionFinalizer x \<Longrightarrow> module_key x = mk \<Longrightarrow>
      \<exists>y. fmlookup t' k = Some y \<and> ContainsDeletionFinalizer y"
  shows "covers t' mk"
  using cov
proof (rule coversE)
  fix k x assume x: "fmlookup t k = Some x" "ContainsDeletionFinalizer x" "module_key x = mk"
  then obtain y where y: "fmlookup t' k = Some y" "ContainsDeletionFinalizer y" using kept by blast
  have "ObjectKeyFromObject y = ObjectKeyFromObject x"
    using tracker_okD [OF ok(1) x(1)] tracker_okD [OF ok(2) y(1)] by (simp add: stored_ok_def)
  then have "module_key y = module_key x" using module_key_inj by blast
  with x(3) show ?thesis by (intro coversI [OF y]) simp
qed

text \<open>What others do keeps all of it.\<close>

lemma settled_step:
  assumes s: "settled s" and h: "dcs_step (length (in_past s)) (dcs_now s) (w_deviceconfigs w)"
    "finalizers_kept (dcs_now s) (w_deviceconfigs w)" "keyed (w_modules w)"
    and live: "\<And>k. live_module w k \<Longrightarrow> live_module (server s) k \<or> covers (w_deviceconfigs w) k"
  shows "settled (server_becomes w s)"
proof -
  have hist: "history_ok s" "promises_hold s" "modules_covered (server s)" using s by (simp_all add: settled_def)
  have new: "history_ok (server_becomes w s)" by (rule history_append [OF hist(1) h(1,3)])
  have "promises_hold (server_becomes w s)"
    using h(2) by (intro promises_append [OF hist(2)]) (simp add: finalizers_kept_def)
  moreover have "modules_covered w" unfolding modules_covered_def
  proof (intro allI impI)
    fix k assume "live_module w k"
    then consider "covers (dcs_now s) k" | "covers (w_deviceconfigs w) k"
      using live hist(3) unfolding modules_covered_def by blast
    then show "covers (w_deviceconfigs w) k"
    proof cases
      case 1
      then show ?thesis
        using covers_kept [OF history_now(1) [OF hist(1)]] history_now(1) [OF new] h(2)
        unfolding server_becomes_simps finalizers_kept_def by blast
    qed
  qed
  ultimately show ?thesis using new by (simp add: settled_def)
qed

lemma settled_harmless:
  assumes "settled s" "harmless (length (in_past s)) (server s) w"
  shows "settled (server_becomes w s)"
  using assms(2) history_now(2) assms(1)
  by (intro settled_step [OF assms(1)]) (auto simp: harmless_def settled_def)

definition others_step :: "informed \<Rightarrow> informed \<Rightarrow> bool" where
  "others_step s s' \<longleftrightarrow>
     (\<exists>w. harmless (length (in_past s)) (server s) w \<and> in_past s' = in_past s @ [w] \<and> in_seen s' = in_seen s) \<or>
     in_past s' = in_past s \<and> (\<forall>i. in_seen s i \<le> in_seen s' i \<and> in_seen s' i < length (in_past s))"

lemma act_is_others_step:
  assumes s: "settled s" "length (in_past s) < 2 ^ 64"
  shows "others_step s (act a s)"
proof -
  have ok: "tracker_ok deviceconfig_kind (dcs_now s)" "countable (dcs_now s)"
    using s history_now(1) history_countable by (auto simp: settled_def)
  have becomes: "others_step s (server_becomes w s)" if "harmless (length (in_past s)) (server s) w" for w
    using that by (auto simp: others_step_def)
  show ?thesis
  proof (cases a)
    case (CacheCatchesUp i n)
    have seen: "in_seen s j < length (in_past s)" for j using s(1) by (simp add: settled_def history_ok_def)
    have "in_seen s j \<le> in_seen (act a s) j \<and> in_seen (act a s) j < length (in_past s)" for j
      using seen [of i] seen [of j] CacheCatchesUp by auto
    then show ?thesis unfolding others_step_def using CacheCatchesUp by simp
  qed (use becomes user_creates_harmless [OF s(2)] user_updates_harmless [OF ok] user_deletes_harmless [OF ok]
      others_write_module_harmless others_remove_module_harmless in \<open>auto simp: put_nodes_def intro!: becomes harmless_same\<close>)
qed

lemma settled_others_step:
  assumes s: "settled s" and step: "others_step s s'"
  shows "settled s'"
  using step unfolding others_step_def
proof (elim disjE exE conjE)
  fix w assume w: "harmless (length (in_past s)) (server s) w" "in_past s' = in_past s @ [w]" "in_seen s' = in_seen s"
  have "settled (server_becomes w s)" by (rule settled_harmless [OF s w(1)])
  with w(2,3) show ?thesis
    by (simp add: settled_def history_ok_def promises_hold_def server_def)
next
  assume past: "in_past s' = in_past s" and seen: "\<forall>i. in_seen s i \<le> in_seen s' i \<and> in_seen s' i < length (in_past s)"
  from seen have "in_seen s' OfDeviceConfigs \<le> i \<Longrightarrow> in_seen s OfDeviceConfigs \<le> i" for i by (meson le_trans)
  then have "promises_hold s'"
    using s unfolding settled_def promises_hold_def server_def past by blast
  moreover have "history_ok s'" using s past seen by (simp add: settled_def history_ok_def)
  ultimately show ?thesis using s past by (simp add: settled_def server_def)
qed

end
