(* ===== verification/Stale_Cluster.thy ===== *)
theory Stale_Cluster
  imports Stale_Reads Guarded_Reconciler
begin

text \<open>
  The operator's own calls on the manager's client, and with them whole reconciliations, keep what others keep:
  under lagging caches, too, no Module is left without its resource.
\<close>

declare split_paired_All [simp del] split_paired_Ex [simp del]

section \<open>Writing an object touches its key\<close>

definition touches :: "object_key \<Rightarrow> ('sp, 'st) tracker \<Rightarrow> ('sp, 'st) tracker \<Rightarrow> bool" where
  "touches k t t' \<longleftrightarrow> (keyed t \<longrightarrow> keyed t') \<and> (\<forall>k'. k' \<noteq> k \<longrightarrow> fmlookup t' k' = fmlookup t k')"

lemma touches_simps [simp]: "touches k t t" "touches (ObjectKeyFromObject x) t (fmupd (ObjectKeyFromObject x) x t)" "touches k t (fmdrop k t)"
  by (simp_all add: touches_def keyed_upd keyed_drop)

lemma touches_set_version [simp]:
  "touches (ObjectKeyFromObject x) t (fmupd (ObjectKeyFromObject x) (set_resourceVersion v x) t)"
  using touches_simps(2) [of "set_resourceVersion v x" t] by simp

lemma create_touches:
  assumes "versioned_Create rk x (om_namespace (metadata x)) t = (r, t')"
  shows "touches (ObjectKeyFromObject x) t t'" "r = Inr z \<Longrightarrow> ObjectKeyFromObject z = ObjectKeyFromObject x"
  using assms tracker_add_own [of "resource_string rk" "set_resourceVersion ''1'' x" False t]
  by (auto simp: versioned_Create_def Let_def split: if_splits)

lemma store_touches:
  assumes "(case (if gone then tracker_Delete gr (om_namespace (metadata x)) (om_name (metadata x)) t
      else tracker_add gr x (om_namespace (metadata x)) True t) of Inl e \<Rightarrow> (Inl e, t) | Inr t' \<Rightarrow> (Inr x, t')) = (r, t')"
  shows "touches (ObjectKeyFromObject x) t t' \<and> (\<forall>z. r = Inr z \<longrightarrow> ObjectKeyFromObject z = ObjectKeyFromObject x)"
proof -
  have drop: "tracker_Delete gr (om_namespace (metadata x)) (om_name (metadata x)) t = Inr t'' \<Longrightarrow>
      t'' = fmdrop (ObjectKeyFromObject x) t" for t''
    by (auto simp: tracker_Delete_def ObjectKeyFromObject_def split: option.splits)
  show ?thesis
    using assms drop by (auto simp: tracker_add_own Let_def split: if_splits sum.splits)
qed

lemma update_touches:
  assumes "versioned_Update rk x (om_namespace (metadata x)) t = (r, t')"
  shows "touches (ObjectKeyFromObject x) t t' \<and> (\<forall>z. r = Inr z \<longrightarrow> ObjectKeyFromObject z = ObjectKeyFromObject x)"
proof (cases "om_name (metadata x) = []")
  case True
  with assms show ?thesis by (auto simp: versioned_Update_def)
next
  case name: False
  show ?thesis
  proof (cases "tracker_Get (resource_string rk) (om_namespace (metadata x)) (om_name (metadata x)) t")
    case (Inl e)
    with assms name show ?thesis
      using create_touches [of rk x t r t'] by (auto simp: versioned_Update_def split: if_splits)
  next
    case (Inr old)
    show ?thesis
    proof (cases "\<exists>e. r = Inl e \<and> t' = t")
      case False
      let ?z = "\<lambda>n. set_resourceVersion (next_version n) x"
      obtain n where "(case (if \<not> time_IsZero (om_deletionTimestamp (metadata x)) \<and> om_finalizers (metadata x) = []
          then tracker_Delete (resource_string rk) (om_namespace (metadata (?z n))) (om_name (metadata (?z n))) t
          else tracker_add (resource_string rk) (?z n) (om_namespace (metadata (?z n))) True t) of
          Inl e \<Rightarrow> (Inl e, t) | Inr t' \<Rightarrow> (Inr (?z n), t')) = (r, t')"
        using assms name Inr False
        by (cases "om_resourceVersion (metadata x) = [] \<and> allowsUnconditionalUpdate (rk_gvk rk)")
           (auto simp: versioned_Update_def Let_def split: if_split_asm option.splits)
      from store_touches [OF this] show ?thesis by simp
    qed auto
  qed
qed

lemma patch_touches:
  assumes "keyed t" "fake_Patch rk x y t = (r, t')"
  shows "touches (ObjectKeyFromObject y) t t' \<and> (\<forall>z. r = Inr z \<longrightarrow> ObjectKeyFromObject z = ObjectKeyFromObject y)"
proof (cases "fmlookup t (ObjectKeyFromObject y)")
  case None
  with assms(2) show ?thesis by (auto simp: fake_Patch_def tracker_Get_def ObjectKeyFromObject_def)
next
  case (Some old)
  then have old: "tracker_Get (resource_string rk) (om_namespace (metadata y)) (om_name (metadata y)) t = Inr old"
    by (simp add: tracker_Get_def ObjectKeyFromObject_def)
  have "ObjectKeyFromObject (decode_object rk old) = ObjectKeyFromObject y"
    using assms(1) Some by (simp add: keyed_def ObjectKeyFromObject_def decode_object_def)
  note key = merged_key [OF this, of rk "rk_merge_spec rk" "rk_merge_status rk" x]
  let ?p = "decode_object rk (merge_object (rk_merge_spec rk) (rk_merge_status rk) x y (decode_object rk old))"
  obtain r0 t0 where upd: "versioned_Update rk ?p (om_namespace (metadata ?p)) t = (r0, t0)" by fastforce
  have dec: "ObjectKeyFromObject (decode_object rk z) = ObjectKeyFromObject z" for z
    by (simp add: decode_object_def ObjectKeyFromObject_def)
  from assms(2) old upd update_touches [OF upd] key dec show ?thesis
    by (auto simp: fake_Patch_def Let_def split: sum.splits)
qed

text \<open>The writes of the three kinds of objects that the operator creates.\<close>

lemma module_writes:
  assumes "keyed (w_modules w)"
    and "kc_create (api_modules cluster) y w = (r, w') \<or> kc_patch (api_modules cluster) x y w = (r, w') \<or>
      kc_status_patch (api_modules cluster) x y w = (r, w')"
  shows "w_deviceconfigs w' = w_deviceconfigs w \<and> touches (ObjectKeyFromObject y) (w_modules w) (w_modules w') \<and>
    (\<forall>z. r = Inr z \<longrightarrow> ObjectKeyFromObject z = ObjectKeyFromObject y)"
  using assms create_touches [of module_kind y "w_modules w"] patch_touches [OF assms(1), of module_kind x y]
  by (auto simp: fake_client_def on_tracker_def split: prod.splits)

lemma workload_writes:
  "kc_create (api_daemonsets cluster) d w = (r, w') \<Longrightarrow> w_deviceconfigs w' = w_deviceconfigs w \<and> w_modules w' = w_modules w"
  "kc_patch (api_daemonsets cluster) d' d w = (r, w') \<Longrightarrow> w_deviceconfigs w' = w_deviceconfigs w \<and> w_modules w' = w_modules w"
  "kc_status_patch (api_daemonsets cluster) d' d w = (r, w') \<Longrightarrow> w_deviceconfigs w' = w_deviceconfigs w \<and> w_modules w' = w_modules w"
  "kc_create (api_services cluster) e w = (q, w') \<Longrightarrow> w_deviceconfigs w' = w_deviceconfigs w \<and> w_modules w' = w_modules w"
  "kc_patch (api_services cluster) e' e w = (q, w') \<Longrightarrow> w_deviceconfigs w' = w_deviceconfigs w \<and> w_modules w' = w_modules w"
  "kc_status_patch (api_services cluster) e' e w = (q, w') \<Longrightarrow> w_deviceconfigs w' = w_deviceconfigs w \<and> w_modules w' = w_modules w"
  by (auto simp: fake_client_def on_tracker_def split: prod.splits)

section \<open>Assertions\<close>

definition stable :: "(informed \<Rightarrow> bool) \<Rightarrow> bool" where
  "stable E \<longleftrightarrow> (\<forall>s s'. settled s \<longrightarrow> E s \<longrightarrow> others_step s s' \<longrightarrow> E s')"

text \<open>An assertion, as long as the versions last. That Modules lie under their keys does not depend on versions.\<close>

definition modules_keyed :: "informed \<Rightarrow> bool" where
  "modules_keyed s \<longleftrightarrow> in_past s \<noteq> [] \<and> (\<forall>i. in_seen s i < length (in_past s)) \<and>
     (\<forall>w \<in> set (in_past s). keyed (w_modules w))"

definition while_versions_last :: "(informed \<Rightarrow> bool) \<Rightarrow> informed \<Rightarrow> bool" where
  "while_versions_last E s \<longleftrightarrow> modules_keyed s \<and> (length (in_past s) < 2 ^ 64 \<longrightarrow> settled s \<and> E s)"

lemma modules_keyedD:
  assumes "modules_keyed s"
  shows "keyed (w_modules (server s))" "keyed (w_modules (cached i s))"
  using assms by (auto simp: modules_keyed_def server_def cached_def)

lemma modules_keyed_becomes [simp]:
  "modules_keyed s \<Longrightarrow> modules_keyed (server_becomes w s) = keyed (w_modules w)"
  by (auto simp: modules_keyed_def less_Suc_eq)

lemma user_modules [simp]:
  "w_modules (user_creates_at n dc w) = w_modules w" "w_modules (user_updates dc w) = w_modules w"
  "w_modules (user_deletes k w) = w_modules w"
  by (auto simp: user_creates_at_def user_updates_def user_deletes_def fake_client_def on_tracker_def
      split: prod.split sum.split option.split)

lemma act_keyed:
  assumes "modules_keyed s"
  shows "modules_keyed (act a s)"
proof (cases a)
  case (CacheCatchesUp i n)
  moreover have "in_seen s j < length (in_past s)" for j using assms by (simp add: modules_keyed_def)
  ultimately show ?thesis using assms by (simp add: modules_keyed_def min_less_iff_disj)
next
  case (OthersWriteModule m)
  then show ?thesis
    using assms modules_keyedD(1) [OF assms] by (auto simp: others_write_module_def keyed_upd split: option.split)
qed (use assms modules_keyedD(1) [OF assms] in \<open>simp_all add: put_nodes_def keyed_drop\<close>)

lemma within_others_step:
  assumes "stable E" "while_versions_last E s" "length (in_past s) \<le> length (in_past s')" "modules_keyed s'"
    and "settled s \<Longrightarrow> length (in_past s) < 2 ^ 64 \<Longrightarrow> others_step s s'"
  shows "while_versions_last E s'"
  using assms settled_others_step unfolding while_versions_last_def stable_def by (meson le_less_trans)

lemma act_past: "length (in_past s) \<le> length (in_past (act a s))"
  by (cases a) simp_all

lemma within_act: "stable E \<Longrightarrow> while_versions_last E s \<Longrightarrow> while_versions_last E (act a s)"
  by (rule within_others_step) (use act_past act_is_others_step act_keyed in \<open>auto simp: while_versions_last_def\<close>)

lemma within_schedule: "stable E \<Longrightarrow> while_versions_last E s \<Longrightarrow> while_versions_last E (s\<lparr>in_schedule := as\<rparr>)"
  by (rule within_others_step)
     (auto simp: others_step_def settled_def history_ok_def while_versions_last_def modules_keyed_def)

lemma within_others_act:
  assumes "stable E" "while_versions_last E s"
  shows "while_versions_last E (others_act s)"
proof -
  have "while_versions_last E (fold act as s)" if "while_versions_last E s" for as s
    using that by (induction as arbitrary: s) (simp_all add: within_act [OF assms(1)])
  then show ?thesis
    using assms within_schedule by (auto simp: others_act_def split: list.split)
qed

lemma within_reads:
  assumes "stable E" "while_versions_last E s" "reads i f s = (r, s')"
  shows "while_versions_last E s'" "r = f (cached i s')"
  using assms within_others_act by (auto simp: reads_def Let_def)

lemma within_writes:
  assumes "stable E" "while_versions_last E s" "writes f s = (r, s')"
    and "\<And>s w. settled s \<Longrightarrow> E s \<Longrightarrow> length (in_past s) < 2 ^ 64 \<Longrightarrow> f (server s) = (r, w) \<Longrightarrow>
      settled (server_becomes w s) \<and> E' (server_becomes w s)"
    and "\<And>w w'. keyed (w_modules w) \<Longrightarrow> f w = (r, w') \<Longrightarrow> keyed (w_modules w')"
  shows "while_versions_last E' s'"
proof -
  obtain w where w: "f (server (others_act s)) = (r, w)" "s' = server_becomes w (others_act s)"
    using assms(3) by (auto simp: writes_def Let_def split: prod.splits)
  have s: "while_versions_last E (others_act s)" by (rule within_others_act [OF assms(1,2)])
  then have k: "modules_keyed (others_act s)" by (simp add: while_versions_last_def)
  show ?thesis
    using s assms(4) [OF _ _ _ w(1)] assms(5) [OF modules_keyedD(1) [OF k] w(1)] k
    unfolding w(2) while_versions_last_def by simp
qed

section \<open>Modules and workloads\<close>

text \<open>The resource under a key has the finalizer, and while it has it others do not take it away.\<close>

definition has_finalizer :: "object_key \<Rightarrow> informed \<Rightarrow> bool" where
  "has_finalizer k s \<longleftrightarrow> (\<exists>x. fmlookup (dcs_now s) k = Some x \<and> ContainsDeletionFinalizer x)"

lemma stable_finalizer: "stable (has_finalizer k)"
  unfolding stable_def has_finalizer_def others_step_def harmless_def finalizers_kept_def server_def by auto

lemma stable_and: "stable E \<Longrightarrow> stable (\<lambda>s. P \<and> E s)"
  by (auto simp: stable_def)

lemma stable_imp: "stable E \<Longrightarrow> stable (\<lambda>s. P \<longrightarrow> E s)"
  by (auto simp: stable_def)

lemma stable_True: "stable (\<lambda>_. True)"
  by (simp add: stable_def)

lemma finalizer_covers:
  assumes "settled s" "has_finalizer (ObjectKeyFromObject dc) s"
  shows "covers (dcs_now s) (module_key dc)"
proof -
  obtain x where x: "fmlookup (dcs_now s) (ObjectKeyFromObject dc) = Some x" "ContainsDeletionFinalizer x"
    using assms(2) by (auto simp: has_finalizer_def)
  have "ObjectKeyFromObject x = ObjectKeyFromObject dc"
    using tracker_okD [OF history_now(1) x(1)] assms(1) by (simp add: stored_ok_def settled_def)
  then have "module_key x = module_key dc" using module_key_inj by blast
  then show ?thesis by (rule coversI [OF x])
qed

lemma module_write_settled:
  assumes s: "settled s" "has_finalizer (ObjectKeyFromObject dc) s"
    and w: "w_deviceconfigs w = dcs_now s" "touches (module_key dc) (w_modules (server s)) (w_modules w)"
  shows "settled (server_becomes w s)"
proof (rule settled_step [OF s(1)])
  show "keyed (w_modules w)" using w(2) s(1) history_now(2) by (auto simp: touches_def settled_def)
  show "live_module (server s) k \<or> covers (w_deviceconfigs w) k" if "live_module w k" for k
  proof (cases "k = module_key dc")
    case True
    with finalizer_covers [OF s] w(1) show ?thesis by simp
  next
    case False
    with that w(2) show ?thesis by (simp add: live_module_def touches_def)
  qed
qed (simp_all add: w)

text \<open>\<open>P\<close> is what is known of the operator's copy of the resource.\<close>

abbreviation finalized_on_server :: "bool \<Rightarrow> object_key \<Rightarrow> informed \<Rightarrow> bool" where
  "finalized_on_server P k \<equiv> while_versions_last (\<lambda>s. P \<and> has_finalizer k s)"

lemmas stable_finalized = stable_and [OF stable_finalizer]

lemma module_write_within:
  assumes "finalized_on_server P (ObjectKeyFromObject dc) s" "writes f s = (r, s')"
    and f: "\<And>w w'. keyed (w_modules w) \<Longrightarrow> f w = (r, w') \<Longrightarrow>
      w_deviceconfigs w' = w_deviceconfigs w \<and> touches (module_key dc) (w_modules w) (w_modules w')"
  shows "finalized_on_server P (ObjectKeyFromObject dc) s'"
proof (rule within_writes [OF stable_finalized assms(1,2)])
  fix s w
  assume s: "settled s" "P \<and> has_finalizer (ObjectKeyFromObject dc) s" "f (server s) = (r, w)"
  then have "keyed (w_modules (server s))" using history_now(2) by (simp add: settled_def)
  note w = f [OF this s(3)]
  show "settled (server_becomes w s) \<and> P \<and> has_finalizer (ObjectKeyFromObject dc) (server_becomes w s)"
    using module_write_settled [OF s(1) conjunct2 [OF s(2)]] w s(2) by (simp add: has_finalizer_def)
next
  fix w w'
  assume "keyed (w_modules w)" "f w = (r, w')"
  with f [OF this] show "keyed (w_modules w')" by (simp add: touches_def)
qed

lemma workload_write_within:
  assumes "finalized_on_server P k s" "writes f s = (r, s')"
    and f: "\<And>w w'. f w = (r, w') \<Longrightarrow> w_deviceconfigs w' = w_deviceconfigs w \<and> w_modules w' = w_modules w"
  shows "finalized_on_server P k s'"
proof (rule within_writes [OF stable_finalized assms(1,2)])
  fix s w
  assume s: "settled s" "P \<and> has_finalizer k s" "f (server s) = (r, w)"
  then have "harmless (length (in_past s)) (server s) w" using f by (intro harmless_same) blast+
  with s f [OF s(3)] show "settled (server_becomes w s) \<and> P \<and> has_finalizer k (server_becomes w s)"
    using settled_harmless by (simp add: has_finalizer_def)
qed (use f in metis)

interpretation module_calls: carrying_client "api_modules manager_client"
  "finalized_on_server P (ObjectKeyFromObject dc)" "\<lambda>k. k = module_key dc" for P dc
proof (unfold_locales, unfold manager_simps delegating_simps, goal_cases)
  case (1 s k r s')
  show ?case by (rule within_reads(1) [OF stable_finalized 1])
next
  case (2 s k x s')
  from within_reads(1) [OF stable_finalized 2(1,2)]
  have "keyed (w_modules (cached OfModules s'))" using modules_keyedD(2) by (simp add: while_versions_last_def)
  with within_reads(2) [OF stable_finalized 2(1,2)] 2(3) show ?case
    by (auto simp: keyed_def CacheReader_Get_found dest: sym)
next
  case (3 s x r s')
  then show ?case using module_writes [where y = x] by (intro module_write_within [OF 3(1,3)]) auto
next
  case (4 s y x r s')
  then show ?case using module_writes [where y = y] by (intro module_write_within [OF 4(1,3)]) auto
next
  case (5 s y x z s')
  from 5(3) obtain w where w: "kc_patch (api_modules cluster) x y (server (others_act s)) = (Inr z, w)"
    by (auto simp: writes_def Let_def split: prod.splits)
  have "keyed (w_modules (server (others_act s)))"
    using within_others_act [OF stable_finalized 5(1)] modules_keyedD(1) by (simp add: while_versions_last_def)
  from module_writes [OF this, where y = y and x = x and r = "Inr z" and w' = w] w 5(2) show ?case by simp
next
  case (6 s y x r s')
  then show ?case using module_writes [where y = y] by (intro module_write_within [OF 6(1,3)]) auto
qed

lemma workload_client:
  assumes "\<And>x y w r w'. kc_create c x w = (r, w') \<or> kc_patch c y x w = (r, w') \<or> kc_status_patch c y x w = (r, w') \<Longrightarrow>
    w_deviceconfigs w' = w_deviceconfigs w \<and> w_modules w' = w_modules w"
  shows "carrying_client (NewDelegatingClient i get rk root c) (finalized_on_server P k) (\<lambda>_. True)"
proof (unfold_locales, unfold delegating_simps, goal_cases)
  case (1 s k' r s')
  show ?case by (rule within_reads(1) [OF stable_finalized 1])
next
  case (3 s x r s')
  show ?case by (rule workload_write_within [OF 3(1,3)]) (use assms in blast)
next
  case (4 s y x r s')
  show ?case by (rule workload_write_within [OF 4(1,3)]) (use assms in blast)
next
  case (6 s y x r s')
  show ?case by (rule workload_write_within [OF 6(1,3)]) (use assms in blast)
qed auto

interpretation daemonset_calls: carrying_client "api_daemonsets manager_client" "finalized_on_server P k" "\<lambda>_. True" for P k
  unfolding manager_simps by (rule workload_client) (use workload_writes(1-3) in metis)

interpretation service_calls: carrying_client "api_services manager_client" "finalized_on_server P k" "\<lambda>_. True" for P k
  unfolding manager_simps by (rule workload_client) (use workload_writes(4-6) in metis)

end
