(* ===== verification/Stale_Safety.thy ===== *)
theory Stale_Safety
  imports Stale_Cluster
begin

text \<open>
  The operator's calls on the resource itself, and with them whole reconciliations and runs: with lagging caches
  and with others acting between any two calls, no Module is left without its resource.
\<close>

declare split_paired_All [simp del] split_paired_Ex [simp del]

section \<open>Reading the resource\<close>

definition alive_copy :: "device_config \<Rightarrow> bool" where
  "alive_copy dc \<longleftrightarrow> decode_object deviceconfig_kind dc = dc \<and> \<not> being_deleted dc"

definition leaving_copy :: "device_config \<Rightarrow> bool" where
  "leaving_copy dc \<longleftrightarrow> decode_object deviceconfig_kind dc = dc \<and> being_deleted dc"

text \<open>The cache had it at some time.\<close>

definition was_cached :: "device_config \<Rightarrow> informed \<Rightarrow> bool" where
  "was_cached dc s \<longleftrightarrow> (\<exists>i \<le> in_seen s OfDeviceConfigs. fmlookup (dcs_at s i) (ObjectKeyFromObject dc) = Some dc)"

definition calm_state :: "informed \<Rightarrow> bool" where
  "calm_state = while_versions_last (\<lambda>_. True)"

definition read_state :: "device_config \<Rightarrow> informed \<Rightarrow> bool" where
  "read_state dc = while_versions_last
     (\<lambda>s. alive_copy dc \<and> (ContainsDeletionFinalizer dc \<longrightarrow> has_finalizer (ObjectKeyFromObject dc) s))"

definition owned_state :: "device_config \<Rightarrow> informed \<Rightarrow> bool" where
  "owned_state dc = finalized_on_server (alive_copy dc \<and> ContainsDeletionFinalizer dc) (ObjectKeyFromObject dc)"

definition leaving_state :: "device_config \<Rightarrow> informed \<Rightarrow> bool" where
  "leaving_state dc = while_versions_last (\<lambda>s. leaving_copy dc \<and> was_cached dc s)"

definition cleaned_state :: "device_config \<Rightarrow> informed \<Rightarrow> bool" where
  "cleaned_state dc = while_versions_last
     (\<lambda>s. leaving_copy dc \<and> was_cached dc s \<and> \<not> live_module (server s) (module_key dc))"

lemmas state_defs = calm_state_def read_state_def owned_state_def leaving_state_def cleaned_state_def

lemma weaken:
  assumes "while_versions_last E s" "\<And>s. settled s \<Longrightarrow> E s \<Longrightarrow> E' s"
  shows "while_versions_last E' s"
  using assms by (simp add: while_versions_last_def)

lemma calm_states:
  "read_state dc s \<Longrightarrow> calm_state s" "owned_state dc s \<Longrightarrow> calm_state s" "leaving_state dc s \<Longrightarrow> calm_state s"
  "cleaned_state dc s \<Longrightarrow> calm_state s"
  unfolding state_defs by (erule weaken; simp)+

lemma stable_cached: "stable (was_cached dc)"
  unfolding stable_def
proof (intro allI impI)
  fix s s' assume s: "settled s" "was_cached dc s" "others_step s s'"
  then obtain i where i: "i \<le> in_seen s OfDeviceConfigs" "fmlookup (dcs_at s i) (ObjectKeyFromObject dc) = Some dc"
    by (auto simp: was_cached_def)
  from s(1) have "in_seen s OfDeviceConfigs < length (in_past s)" by (simp add: settled_def history_ok_def)
  with i s(3) show "was_cached dc s'"
    unfolding others_step_def was_cached_def
    by (auto simp: nth_append intro!: exI [where x = i] dest: spec [where x = OfDeviceConfigs])
qed

lemma stable_states:
  "stable (\<lambda>s. alive_copy dc \<and> (ContainsDeletionFinalizer dc \<longrightarrow> has_finalizer k s))"
  "stable (\<lambda>s. leaving_copy dc \<and> was_cached dc s)"
  by (intro stable_and stable_imp stable_finalizer stable_cached)+

lemma stable_cleaned: "stable (\<lambda>s. leaving_copy dc \<and> was_cached dc s \<and> \<not> live_module (server s) k)"
  using stable_cached unfolding stable_def others_step_def harmless_def server_def by (metis last_snoc)

lemma got_resource:
  assumes "calm_state s" "kc_get (api_deviceconfigs manager_client) req s = (r, s')"
  shows "calm_state s' \<and> (\<forall>dc. r = Inr dc \<longrightarrow> (if being_deleted dc then leaving_state dc s' else read_state dc s'))"
proof -
  note get = assms(2) [unfolded manager_simps delegating_simps]
  have s': "calm_state s'" using within_reads(1) [OF stable_True assms(1) [unfolded calm_state_def] get] by (simp add: calm_state_def)
  have r: "r = CacheReader_Get deviceconfig_kind False req (w_deviceconfigs (cached OfDeviceConfigs s'))"
    by (rule within_reads(2) [OF stable_True assms(1) [unfolded calm_state_def] get])
  have "if being_deleted dc then leaving_state dc s' else read_state dc s'" if "r = Inr dc" for dc
  proof -
    have at: "fmlookup (dcs_at s' (in_seen s' OfDeviceConfigs)) req = Some dc"
      using r that CacheReader_Get_found unfolding cached_def by metis
    have known: "decode_object deviceconfig_kind dc = dc \<and> ObjectKeyFromObject dc = req \<and> was_cached dc s' \<and>
        (ContainsDeletionFinalizer dc \<longrightarrow> \<not> being_deleted dc \<longrightarrow> has_finalizer req s')" if "settled s'"
    proof -
      have "in_seen s' OfDeviceConfigs < length (in_past s')" using that by (simp add: settled_def history_ok_def)
      moreover from this have "stored_ok deviceconfig_kind req dc"
        using that at tracker_okD unfolding settled_def history_ok_def by blast
      ultimately show ?thesis
        using that at unfolding settled_def promises_hold_def has_finalizer_def was_cached_def stored_ok_def by blast
    qed
    show ?thesis
      using s' known unfolding state_defs while_versions_last_def alive_copy_def leaving_copy_def by auto
  qed
  with s' show ?thesis by blast
qed

lemma listed_nodes:
  assumes "stable E" "while_versions_last E s" "collect_names manager_client dcs names s = (r, s')"
  shows "while_versions_last E s'"
  using assms(2,3)
proof (induction dcs arbitrary: names s)
  case (Cons dc dcs)
  obtain l s1 where l: "getDeviceConfigSelectedNodes manager_client dc s = (l, s1)" by fastforce
  have "while_versions_last E s1"
    by (rule within_reads(1) [OF assms(1) Cons.prems(1)
        l [unfolded getDeviceConfigSelectedNodes_eq manager_simps delegating_simps]])
  with Cons l show ?case by (auto split: sum.splits)
qed simp

lemma checked_resource:
  assumes "read_state dc s" "CheckDeviceConfigForConflictingNodeSelector manager_client dc s = (e, s')"
  shows "read_state dc s'"
proof -
  obtain l s1 where l: "kc_list (api_deviceconfigs manager_client) None s = (l, s1)" by fastforce
  have "read_state dc s1"
    unfolding read_state_def
    by (rule within_reads(1) [OF stable_states(1) assms(1) [unfolded read_state_def]
        l [unfolded manager_simps delegating_simps]])
  then show ?thesis
    using assms(2) l listed_nodes [OF stable_states(1)] unfolding read_state_def
    by (auto simp: CheckDeviceConfigForConflictingNodeSelector_def split: sum.splits prod.splits if_splits)
qed

section \<open>Writing the resource\<close>

lemma update_within:
  assumes "stable E" "while_versions_last E s" "kc_update (api_deviceconfigs manager_client) y s = (r, s')"
    and "\<And>s w. settled s \<Longrightarrow> E s \<Longrightarrow> length (in_past s) < 2 ^ 64 \<Longrightarrow>
      kc_update (api_deviceconfigs cluster) y (server s) = (r, w) \<Longrightarrow>
      settled (server_becomes w s) \<and> E' (server_becomes w s)"
  shows "while_versions_last E' s'"
proof (rule within_writes [OF assms(1,2) assms(3) [unfolded manager_simps delegating_simps] assms(4)])
  fix w w'
  assume "keyed (w_modules w)" "kc_update (api_deviceconfigs cluster) y w = (r, w')"
  then show "keyed (w_modules w')" by (auto simp: fake_client_def on_tracker_def split: prod.splits)
qed

text \<open>A resource written with the finalizer has it afterwards, if the write was accepted.\<close>

lemma finalized_write:
  assumes s: "settled s" "length (in_past s) < 2 ^ 64" and y: "alive_copy y" "ContainsDeletionFinalizer y"
    and upd: "kc_update (api_deviceconfigs cluster) y (server s) = (r, w)"
  shows "settled (server_becomes w s)" and "r = Inr z \<Longrightarrow> alive_copy z \<and> ContainsDeletionFinalizer z \<and>
    ObjectKeyFromObject z = ObjectKeyFromObject y \<and> has_finalizer (ObjectKeyFromObject z) (server_becomes w s)"
proof -
  have ok: "tracker_ok deviceconfig_kind (dcs_now s)" "countable (dcs_now s)"
    using s history_now(1) history_countable by (auto simp: settled_def)
  have dec: "decode_object deviceconfig_kind y = y" using y(1) by (simp add: alive_copy_def)
  from ok dec upd have "settled (server_becomes w s) \<and> (\<forall>z. r = Inr z \<longrightarrow>
    alive_copy z \<and> ContainsDeletionFinalizer z \<and> ObjectKeyFromObject z = ObjectKeyFromObject y \<and>
    has_finalizer (ObjectKeyFromObject z) (server_becomes w s))"
  proof (cases rule: dc_updated [where n = "length (in_past s)"])
    case refused
    then show ?thesis using settled_harmless [OF s(1) harmless_same] by simp
  next
    case (removed x)
    then show ?thesis using y(1) by (simp add: alive_copy_def)
  next
    case (stored x v)
    have fin: "ContainsDeletionFinalizer (set_resourceVersion v y)"
      using y(2) by (simp add: ContainsDeletionFinalizer_iff)
    have "harmless (length (in_past s)) (server s) w"
      using stored(5) fin unfolding stored(4) by (intro harmless_dcs finalizers_kept_upd) simp_all
    with settled_harmless [OF s(1)] stored fin y(1) show ?thesis
      by (simp add: alive_copy_def has_finalizer_def being_deleted_def)
  qed
  then show "settled (server_becomes w s)" and "r = Inr z \<Longrightarrow> alive_copy z \<and> ContainsDeletionFinalizer z \<and>
    ObjectKeyFromObject z = ObjectKeyFromObject y \<and> has_finalizer (ObjectKeyFromObject z) (server_becomes w s)"
    by blast+
qed

lemma alive_copy_changes [simp]:
  "alive_copy (finalized dc) = alive_copy dc" "alive_copy (set_conditions c dc) = alive_copy dc"
  "ContainsDeletionFinalizer (finalized dc)" "ContainsDeletionFinalizer (set_conditions c dc) = ContainsDeletionFinalizer dc"
  "ObjectKeyFromObject (finalized dc) = ObjectKeyFromObject dc"
  by (simp_all add: alive_copy_def being_deleted_def decode_object_id finalized_def ContainsDeletionFinalizer_iff
      set_conditions_def ObjectKeyFromObject_def)

lemma finalizer_ensured:
  assumes "read_state dc s"
    and "add_missing_finalizer (operator_reconciler manager_client sch st) dc s = ((e, dc'), s')"
  shows "calm_state s' \<and> (e = None \<longrightarrow> owned_state dc' s')"
proof (cases "ContainsDeletionFinalizer dc")
  case True
  with assms(2) have "e = None" "dc' = dc" "s' = s" by simp_all
  with assms(1) True show ?thesis
    using calm_states(1) [OF assms(1)] by (auto simp: read_state_def owned_state_def elim!: weaken)
next
  case False
  obtain r s1 where u: "kc_update (api_deviceconfigs manager_client) (finalized dc) s = (r, s1)" by fastforce
  let ?E = "\<lambda>s. case r of Inl _ \<Rightarrow> True | Inr z \<Rightarrow> (alive_copy z \<and> ContainsDeletionFinalizer z) \<and> has_finalizer (ObjectKeyFromObject z) s"
  have "while_versions_last ?E s1"
  proof (rule update_within [OF stable_states(1) assms(1) [unfolded read_state_def] u])
    fix s w
    assume s: "settled s" "length (in_past s) < 2 ^ 64" "kc_update (api_deviceconfigs cluster) (finalized dc) (server s) = (r, w)"
      and "alive_copy dc \<and> (ContainsDeletionFinalizer dc \<longrightarrow> has_finalizer (ObjectKeyFromObject dc) s)"
    then have "alive_copy (finalized dc)" "ContainsDeletionFinalizer (finalized dc)" by simp_all
    note written = finalized_write [OF s(1,2) this s(3)]
    show "settled (server_becomes w s) \<and> ?E (server_becomes w s)"
      using written by (cases r) auto
  qed
  moreover from this have "calm_state s1" unfolding calm_state_def by (rule weaken) simp
  moreover have "s' = s1" "e = None \<longrightarrow> r = Inr dc'"
    using assms(2) False u by (auto simp: AddDeletionFinalizer_eq split: sum.splits)
  ultimately show ?thesis by (auto simp: owned_state_def)
qed

lemma status_written:
  assumes "owned_state dc s" "write_status manager_client (set_conditions c dc) s = (x, s')"
  shows "calm_state s'"
proof -
  obtain r s1 where u: "kc_update (api_deviceconfigs manager_client) (set_conditions c dc) s = (r, s1)" by fastforce
  have "kc_status_update (api_deviceconfigs manager_client) = kc_update (api_deviceconfigs manager_client)"
    by (simp add: manager_simps delegating_simps fake_client_def fun_eq_iff)
  with assms(2) u have "s' = s1" by (auto simp: write_status_def split: sum.splits)
  moreover have "while_versions_last (\<lambda>_. True) s1"
  proof (rule update_within [OF stable_finalized assms(1) [unfolded owned_state_def] u])
    fix s w
    assume s: "settled s" "length (in_past s) < 2 ^ 64"
        "kc_update (api_deviceconfigs cluster) (set_conditions c dc) (server s) = (r, w)"
      and "(alive_copy dc \<and> ContainsDeletionFinalizer dc) \<and> has_finalizer (ObjectKeyFromObject dc) s"
    then have "alive_copy (set_conditions c dc)" "ContainsDeletionFinalizer (set_conditions c dc)" by simp_all
    from finalized_write(1) [OF s(1,2) this s(3)] show "settled (server_becomes w s) \<and> True" by blast
  qed
  ultimately show ?thesis by (simp add: calm_state_def)
qed

section \<open>Cleaning up\<close>

lemma module_deleted_on_server:
  assumes ky: "keyed (w_modules w)" and del: "kc_delete (api_modules cluster) m w = (e, w')"
  shows "w_deviceconfigs w' = w_deviceconfigs w" "touches (ObjectKeyFromObject m) (w_modules w) (w_modules w')"
    "live_module w' k \<Longrightarrow> live_module w k"
    "e = None \<or> (\<exists>err. e = Some err \<and> IsNotFound err) \<Longrightarrow> \<not> live_module w' (ObjectKeyFromObject m)"
proof -
  let ?t = "w_modules w" and ?k = "ObjectKeyFromObject m"
  obtain t' where t': "deleteObject module_kind (world_now w) (metadata m) ?t = (e, t')" "w' = put_modules t' w"
    using del by (auto simp: fake_client_def on_tracker_def split: prod.splits)
  have key: "(om_namespace (metadata m), om_name (metadata m)) = ?k" by (simp add: ObjectKeyFromObject_def)
  have "touches ?k ?t t' \<and> (\<forall>k x. fmlookup t' k = Some x \<longrightarrow> \<not> being_deleted x \<longrightarrow> fmlookup ?t k = Some x) \<and>
    (e = None \<or> (\<exists>err. e = Some err \<and> IsNotFound err) \<longrightarrow> (\<forall>x. fmlookup t' ?k = Some x \<longrightarrow> being_deleted x))"
  proof (cases "fmlookup ?t ?k")
    case None
    with t'(1) have "t' = ?t"
      by (auto simp: deleteObject_def tracker_Get_def tracker_Delete_def key Let_def)
    with None show ?thesis by simp
  next
    case (Some old)
    let ?old = "old\<lparr>metadata := (metadata old)\<lparr>om_deletionTimestamp := Some (world_now w)\<rparr>\<rparr>"
    have ko: "ObjectKeyFromObject ?old = ?k" using ky Some by (simp add: keyed_def ObjectKeyFromObject_def)
    then have ns: "om_namespace (metadata ?old) = om_namespace (metadata m)" by (simp add: ObjectKeyFromObject_def)
    show ?thesis
    proof (cases "om_finalizers (metadata old) = []")
      case True
      with Some t'(1) have "t' = fmdrop ?k ?t" "e = None"
        by (auto simp: deleteObject_def tracker_Get_def tracker_Delete_def key Let_def)
      then show ?thesis by simp
    next
      case False
      obtain r t1 where u: "versioned_Update module_kind ?old (om_namespace (metadata ?old)) ?t = (r, t1)" by fastforce
      then have e: "e = (case r of Inl err \<Rightarrow> Some err | Inr _ \<Rightarrow> None)" "t' = t1"
        using Some t'(1) False ns
        by (auto simp: deleteObject_def tracker_Get_def key Let_def split: prod.splits sum.splits)
      have at: "tracker_Get (resource_string module_kind) (om_namespace (metadata ?old)) (om_name (metadata ?old)) ?t = Inr old"
        using Some ko by (simp add: tracker_Get_def ObjectKeyFromObject_def)
      have add: "tracker_add gr (set_resourceVersion v ?old) (om_namespace (metadata ?old)) True ?t =
          Inr (fmupd ?k (set_resourceVersion v ?old) ?t)" for gr v
        using tracker_add_own [of gr "set_resourceVersion v ?old" True ?t] Some ko by (simp add: Let_def)
      have "(\<exists>err. r = Inl err \<and> \<not> IsNotFound err \<and> t1 = ?t) \<or>
          (\<exists>v z. r = Inr z \<and> t1 = fmupd ?k (set_resourceVersion v ?old) ?t)"
        using u at add False unfolding versioned_Update_def Let_def
        by (auto simp: IsNotFound_TextError split: if_splits option.splits)
      then show ?thesis
      proof (elim disjE exE conjE)
        fix v z assume r: "r = Inr z" "t1 = fmupd ?k (set_resourceVersion v ?old) ?t"
        have "being_deleted (set_resourceVersion v ?old)"
          by (simp add: being_deleted_def time_IsZero_def world_now_def)
        moreover have "touches ?k ?t (fmupd ?k (set_resourceVersion v ?old) ?t)"
          using touches_set_version [of ?old ?t v] unfolding ko .
        ultimately show ?thesis unfolding e(2) r(2) by simp
      qed (simp add: e)
    qed
  qed
  then show "w_deviceconfigs w' = w_deviceconfigs w" "touches ?k (w_modules w) (w_modules w')"
    "live_module w' k \<Longrightarrow> live_module w k"
    "e = None \<or> (\<exists>err. e = Some err \<and> IsNotFound err) \<Longrightarrow> \<not> live_module w' ?k"
    unfolding t'(2) live_module_def by auto
qed

lemma module_deleted:
  assumes "leaving_state dc s" "DeleteModule manager_client dc s = (e, s')"
  shows "calm_state s' \<and> (e = None \<longrightarrow> cleaned_state dc s')"
proof -
  let ?m = "named_object (GetModuleName dc) (om_namespace (metadata dc)) empty_module_spec"
  have key: "ObjectKeyFromObject ?m = module_key dc" by (simp add: named_object_def ObjectKeyFromObject_def)
  obtain r s1 where d: "kc_delete (api_modules manager_client) ?m s = (r, s1)" by fastforce
  let ?gone = "r = None \<or> (\<exists>err. r = Some err \<and> IsNotFound err)"
  have "while_versions_last
      (\<lambda>s. (leaving_copy dc \<and> was_cached dc s) \<and> (?gone \<longrightarrow> \<not> live_module (server s) (module_key dc))) s1"
  proof (rule within_writes [OF stable_states(2) assms(1) [unfolded leaving_state_def]
        d [unfolded manager_simps delegating_simps]])
    fix s w
    assume s: "settled s" "leaving_copy dc \<and> was_cached dc s" "kc_delete (api_modules cluster) ?m (server s) = (r, w)"
    then have "keyed (w_modules (server s))" using history_now(2) by (simp add: settled_def)
    note del = module_deleted_on_server [OF this s(3)]
    have "harmless (length (in_past s)) (server s) w"
      using del(1-3) by (auto simp: harmless_def touches_def)
    then have "settled (server_becomes w s)" "others_step s (server_becomes w s)"
      using settled_harmless [OF s(1)] by (auto simp: others_step_def)
    then show "settled (server_becomes w s) \<and> (leaving_copy dc \<and> was_cached dc (server_becomes w s)) \<and>
        (?gone \<longrightarrow> \<not> live_module (server (server_becomes w s)) (module_key dc))"
      using del(4) s(1,2) stable_cached unfolding key stable_def server_becomes_simps by blast
  next
    fix w w' assume "keyed (w_modules w)" "kc_delete (api_modules cluster) ?m w = (r, w')"
    with module_deleted_on_server(2) [OF this] show "keyed (w_modules w')" by (simp add: touches_def)
  qed
  moreover have "s' = s1" "e = None \<longrightarrow> ?gone"
    using assms(2) d by (auto simp: DeleteModule_def Let_def split: option.splits if_splits)
  ultimately show ?thesis
    unfolding calm_state_def cleaned_state_def by (auto elim!: weaken)
qed

text \<open>
  The finalizer is taken away only if the server still has the resource as the operator read it; then nothing that the cache
  is going to show is alive.
\<close>

lemma last_look:
  assumes s: "settled s" and read: "was_cached dc s" "leaving_copy dc"
    and now: "fmlookup (dcs_now s) (ObjectKeyFromObject dc) = Some x" "om_resourceVersion (metadata dc) = om_resourceVersion (metadata x)"
    and seen: "in_seen s OfDeviceConfigs \<le> j" "j < length (in_past s)" "fmlookup (dcs_at s j) (ObjectKeyFromObject dc) = Some z"
  shows "being_deleted z"
proof -
  obtain i where i: "i \<le> in_seen s OfDeviceConfigs" "fmlookup (dcs_at s i) (ObjectKeyFromObject dc) = Some dc"
    using read(1) by (auto simp: was_cached_def)
  have h: "history_ok s" using s by (simp add: settled_def)
  have "i \<le> j" using i(1) seen(1) by simp
  with h i(2) seen(2,3) have "version_no dc < version_no z \<or> dc = z" unfolding history_ok_def by blast
  moreover have "version_no z < version_no x \<or> z = x" by (rule history_now(4) [OF h seen(2,3) now(1)])
  moreover have "version_no dc = version_no x" using now(2) by (rule version_no_eq)
  ultimately have "dc = z" by auto
  with read(2) show ?thesis by (simp add: leaving_copy_def)
qed

lemma last_look_settled:
  assumes s: "settled s" and dc: "leaving_copy dc" "was_cached dc s" "\<not> live_module (server s) (module_key dc)"
    and now: "fmlookup (dcs_now s) (ObjectKeyFromObject dc) = Some x"
      "om_resourceVersion (metadata dc) = om_resourceVersion (metadata x)"
    and w: "w_modules w = w_modules (server s)" "dcs_step (length (in_past s)) (dcs_now s) (w_deviceconfigs w)"
      "\<And>k. k \<noteq> ObjectKeyFromObject dc \<Longrightarrow> fmlookup (w_deviceconfigs w) k = fmlookup (dcs_now s) k"
  shows "settled (server_becomes w s)"
proof -
  let ?k = "ObjectKeyFromObject dc"
  have hist: "history_ok s" "promises_hold s" "modules_covered (server s)" using s by (simp_all add: settled_def)
  have new: "history_ok (server_becomes w s)"
    using history_append [OF hist(1) w(2)] history_now(2) [OF hist(1)] w(1) by simp
  have ok: "tracker_ok deviceconfig_kind (dcs_now s)" "tracker_ok deviceconfig_kind (w_deviceconfigs w)"
    using history_now(1) [OF hist(1)] history_now(1) [OF new] by simp_all
  have "promises_hold (server_becomes w s)"
  proof (rule promises_append [OF hist(2)])
    fix k x'
    assume x': "fmlookup (dcs_now s) k = Some x'" "ContainsDeletionFinalizer x'"
    show "(\<exists>y. fmlookup (w_deviceconfigs w) k = Some y \<and> ContainsDeletionFinalizer y) \<or>
        (\<forall>i z. in_seen s OfDeviceConfigs \<le> i \<longrightarrow> i < length (in_past s) \<longrightarrow> fmlookup (dcs_at s i) k = Some z \<longrightarrow>
           ContainsDeletionFinalizer z \<longrightarrow> being_deleted z)"
      using last_look [OF s dc(2,1) now] w(3) [of k] x' by (cases "k = ?k") auto
  qed
  moreover have "modules_covered w" unfolding modules_covered_def
  proof (intro allI impI)
    fix mk assume live: "live_module w mk"
    with w(1) dc(3) have mk: "live_module (server s) mk" "mk \<noteq> module_key dc" by (auto simp: live_module_def)
    have "covers (dcs_now s) mk" using hist(3) mk(1) by (simp add: modules_covered_def)
    then show "covers (w_deviceconfigs w) mk"
    proof (rule covers_kept [OF ok])
      fix k x' assume x': "fmlookup (dcs_now s) k = Some x'" "ContainsDeletionFinalizer x'" "module_key x' = mk"
      then have "k \<noteq> ?k"
        using mk(2) tracker_okD [OF ok(1) x'(1)] module_key_inj [of x' dc] by (auto simp: stored_ok_def)
      with w(3) x' show "\<exists>y. fmlookup (w_deviceconfigs w) k = Some y \<and> ContainsDeletionFinalizer y" by simp
    qed
  qed
  ultimately show ?thesis using new by (simp add: settled_def)
qed

lemma finalizer_removed_settled:
  assumes s: "settled s" "length (in_past s) < 2 ^ 64"
    and dc: "leaving_copy dc" "was_cached dc s" "\<not> live_module (server s) (module_key dc)"
    and upd: "kc_update (api_deviceconfigs cluster) (unfinalized dc) (server s) = (r, w)"
  shows "settled (server_becomes w s)"
proof -
  have ok: "tracker_ok deviceconfig_kind (dcs_now s)" "countable (dcs_now s)"
    using s history_now(1) history_countable by (auto simp: settled_def)
  have y: "decode_object deviceconfig_kind (unfinalized dc) = unfinalized dc"
    "ObjectKeyFromObject (unfinalized dc) = ObjectKeyFromObject dc"
    "om_resourceVersion (metadata (unfinalized dc)) = om_resourceVersion (metadata dc)"
    using dc(1) by (simp_all add: leaving_copy_def unfinalized_def decode_object_id)
  from ok y(1) upd show ?thesis
  proof (cases rule: dc_updated [where n = "length (in_past s)"])
    case refused
    then show ?thesis using settled_harmless [OF s(1) harmless_same] by simp
  next
    case (removed x)
    then show ?thesis using y by (intro last_look_settled [OF s(1) dc, of x]) simp_all
  next
    case (stored x v)
    then show ?thesis using y by (intro last_look_settled [OF s(1) dc, of x]) simp_all
  qed
qed

lemma finalizer_removed:
  assumes "cleaned_state dc s" "RemoveDeletionFinalizer manager_client dc s = (x, s')"
  shows "calm_state s'"
proof -
  obtain r s1 where u: "kc_update (api_deviceconfigs manager_client) (unfinalized dc) s = (r, s1)" by fastforce
  have "while_versions_last (\<lambda>_. True) s1"
    using finalizer_removed_settled
    by (intro update_within [OF stable_cleaned assms(1) [unfolded cleaned_state_def] u]) blast
  moreover have "s' = s1" using assms(2) u by (auto simp: RemoveDeletionFinalizer_eq split: sum.splits)
  ultimately show ?thesis by (simp add: calm_state_def)
qed

section \<open>Reconciliations\<close>

lemma metrics_stage_carries:
  assumes "finalized_on_server P k s" "ReconcileNodeMetrics manager_client sch st dc s = (e, s')"
  shows "finalized_on_server P k s'"
proof -
  obtain e1 s1 where d: "ReconcileNodeMetricsDaemonSet manager_client sch st dc s = (e1, s1)" by fastforce
  obtain e2 s2 where v: "ReconcileNodeMetricsService manager_client sch dc s1 = (e2, s2)" by fastforce
  have s1: "finalized_on_server P k s1"
    by (rule daemonset_calls.ensure_object_carries [OF assms(1) TrueI d [unfolded ReconcileNodeMetricsDaemonSet_eq]])
  have "finalized_on_server P k s2"
    by (rule service_calls.ensure_object_carries [OF s1 TrueI v [unfolded ReconcileNodeMetricsService_eq]])
  moreover have "s' = s1 \<or> s' = s2"
    using assms(2) d v by (auto simp: ReconcileNodeMetrics_def split: option.splits)
  ultimately show ?thesis using s1 by blast
qed

interpretation stale: guarded_reconciler "operator_reconciler manager_client sch st"
  calm_state read_state owned_state leaving_state cleaned_state for sch st
proof (unfold_locales, goal_cases)
  case (1 s req x s')
  from got_resource [OF 1(1)] 1(2) show ?case by simp
next
  case (2 dc s e s')
  then have "read_state dc s'" using checked_resource by simp
  then show ?case using calm_states(1) by blast
next
  case (3 dc s e dc' s')
  then show ?case by (rule finalizer_ensured)
next
  case (4 dc s)
  then show ?case by (rule calm_states(2))
next
  case (5 dc s e s')
  show ?case
    using module_calls.ensure_object_carries [where dc = dc, OF 5(1) [unfolded owned_state_def] refl] 5(2)
    by (simp add: owned_state_def ReconcileModule_eq)
next
  case (6 dc s e s')
  show ?case
    using daemonset_calls.ensure_object_carries [OF 6(1) [unfolded owned_state_def] TrueI] 6(2)
    by (simp add: owned_state_def ReconcileNodeLabeler_eq)
next
  case (7 dc s e s')
  then show ?case unfolding owned_state_def operator_reconciler_simps by (rule metrics_stage_carries)
next
  case (8 dc s reason message y s')
  then show ?case using status_written by (auto simp: SetConditionsReady_def)
next
  case (9 dc s reason message y s')
  then show ?case using status_written by (auto simp: SetConditionsErrored_def)
next
  case (10 dc s b s')
  then show ?case using calm_states(3) by simp
next
  case (11 dc s e s')
  then show ?case using module_deleted by simp
next
  case (12 dc s y s')
  then show ?case using finalizer_removed by simp
qed

lemma happens_calm:
  assumes "calm_state (cs_world cs)"
  shows "calm_state (cs_world (happens base st h cs))"
proof (cases h)
  case (Others a)
  then show ?thesis using within_act [OF stable_True] assms by (simp add: calm_state_def)
next
  case (Reconciles req schedule)
  have "calm_state ((cs_world cs)\<lparr>in_schedule := schedule\<rparr>)"
    using within_schedule [OF stable_True] assms by (simp add: calm_state_def)
  with Reconciles show ?thesis
    using stale.reconcile_calm [of "cs\<lparr>cs_world := (cs_world cs)\<lparr>in_schedule := schedule\<rparr>\<rparr>"] by simp
qed

lemma installed_calm: "installed cs \<Longrightarrow> calm_state (cs_world cs)"
  by (auto simp: installed_def calm_state_def while_versions_last_def modules_keyed_def settled_def history_ok_def
      promises_hold_def modules_covered_def live_module_def server_def keyed_def tracker_ok_def)

lemma run_calm: "installed cs \<Longrightarrow> calm_state (cs_world (run base st hs cs))"
proof -
  have "calm_state (cs_world (fold (happens base st) hs cs))" if "calm_state (cs_world cs)" for cs
    using that by (induction hs arbitrary: cs) (simp_all add: happens_calm)
  then show "installed cs \<Longrightarrow> calm_state (cs_world (run base st hs cs))"
    using installed_calm by (simp add: run_def)
qed

text \<open>
  C2. Safety under stale reads. The operator reads from caches that lag behind the server, each kind by as much as it likes, and users,
  the Kernel Module Management operator and others act between any two of its calls, in the middle of a reconciliation too. From its
  installation on, whatever they all do: a Module that is not being deleted belongs to a stored
  \<open>DeviceConfig\<close> with the deletion finalizer; and what the cache shows alive with that finalizer, however old, is on the server with
  it. (The versions of the server are numbers of 64 bits, and the run is no longer than they last.)
\<close>

theorem stale_reads_safe:
  assumes "installed cs" "s = cs_world (run base st hs cs)" "length (in_past s) < 2 ^ 64"
  shows "no_orphans (server s) \<and> cached_finalizers_hold s"
proof -
  have s: "settled s"
    using run_calm [OF assms(1), of base st hs] assms(2,3) by (simp add: calm_state_def while_versions_last_def)
  then have ky: "keyed (w_modules (server s))" using history_now(2) by (simp add: settled_def)
  have "no_orphans (server s)" unfolding no_orphans_def
  proof (intro ballI impI)
    fix m assume m: "m \<in> fmran' (w_modules (server s))" "\<not> being_deleted m"
    from m(1) obtain k where k: "fmlookup (w_modules (server s)) k = Some m" by (rule fmran'E)
    with ky have "ObjectKeyFromObject m = k" by (simp add: keyed_def)
    with k m(2) s show "covers (w_deviceconfigs (server s)) (ObjectKeyFromObject m)"
      unfolding settled_def modules_covered_def live_module_def by blast
  qed
  moreover have "cached_finalizers_hold s" unfolding cached_finalizers_hold_def
  proof (intro ballI impI)
    fix dc assume dc: "dc \<in> fmran' (w_deviceconfigs (cached OfDeviceConfigs s))" "ContainsDeletionFinalizer dc" "\<not> being_deleted dc"
    have seen: "in_seen s OfDeviceConfigs < length (in_past s)" using s by (simp add: settled_def history_ok_def)
    from dc(1) obtain k where k: "fmlookup (dcs_at s (in_seen s OfDeviceConfigs)) k = Some dc"
      unfolding cached_def by (rule fmran'E)
    with seen s have "ObjectKeyFromObject dc = k"
      using tracker_okD unfolding settled_def history_ok_def stored_ok_def by blast
    moreover obtain y where "fmlookup (dcs_now s) k = Some y" "ContainsDeletionFinalizer y"
      using s seen k dc(2,3) unfolding settled_def promises_hold_def by blast
    ultimately show "case fmlookup (dcs_now s) (ObjectKeyFromObject dc) of None \<Rightarrow> False | Some dc' \<Rightarrow> ContainsDeletionFinalizer dc'"
      by simp
  qed
  ultimately show ?thesis by simp
qed

end
