(* ===== verification/Sample_Stale_Runs.thy ===== *)
theory Sample_Stale_Runs
  imports Stale_Safety Caches_In_Sync Sample_Cluster
begin

text \<open>
  A run with a lagging cache, evaluated: a resource is deleted in the middle of its first reconciliation, right before its
  Module is created; the cache notices late.
\<close>

definition bare_world :: world where
  "bare_world =
     \<lparr>w_deviceconfigs = fmempty, w_modules = fmempty, w_daemonsets = fmempty, w_services = fmempty,
      w_nodes = sample_nodes, w_clock = 41\<rparr>"

definition just_installed :: "informed controller_state" where
  "just_installed =
     \<lparr>cs_world = \<lparr>in_past = [bare_world], in_seen = (\<lambda>_. 0), in_schedule = []\<rparr>,
      ReconciliationFailed = Map.empty, cs_events = []\<rparr>"

lemma just_installed_ok: "installed just_installed"
  by (auto simp: installed_def just_installed_def bare_world_def)

text \<open>Of the first reconciliation the fifth call is the first one on Modules.\<close>

definition deleted_meanwhile :: "happening list" where
  "deleted_meanwhile =
     [Others (UserCreates (set_resourceVersion '''' fresh_dc)), Others (CacheCatchesUp OfDeviceConfigs 1),
      Reconciles sample_key [[], [], [], [], [UserDeletes sample_key]]]"

definition after_run :: "happening list \<Rightarrow> informed" where
  "after_run hs = cs_world (run Map.empty sample_settings hs just_installed)"

text \<open>What there is of the resource and of its Module: nothing, alive, or being deleted.\<close>

definition what_is_left :: "informed \<Rightarrow> bool option \<times> bool option" where
  "what_is_left s =
     (map_option being_deleted (fmlookup (w_deviceconfigs (server s)) sample_key),
      map_option being_deleted (fmlookup (w_modules (server s)) (''habana'', ''gaudi-module'')))"

definition length_and_rest :: "informed \<Rightarrow> nat \<times> bool option \<times> bool option" where
  "length_and_rest s = (length (in_past s), what_is_left s)"

lemma deleted_meanwhile_run: "length_and_rest (after_run deleted_meanwhile) = (9, Some True, Some False)"
  by code_simp

lemma stale_reads_safe_run:
  "what_is_left (after_run deleted_meanwhile) = (Some True, Some False) \<and>
   no_orphans (server (after_run deleted_meanwhile)) \<and> cached_finalizers_hold (after_run deleted_meanwhile)"
  using stale_reads_safe [OF just_installed_ok, of "after_run deleted_meanwhile" Map.empty sample_settings deleted_meanwhile]
    deleted_meanwhile_run
  by (simp add: after_run_def length_and_rest_def)

section \<open>Catching up\<close>

text \<open>The server has the resource; the caches show it, or the empty cluster from before.\<close>

definition informed_of :: "world list \<Rightarrow> informed controller_state" where
  "informed_of past =
     \<lparr>cs_world = \<lparr>in_past = past, in_seen = (\<lambda>_. 0), in_schedule = []\<rparr>,
      ReconciliationFailed = Map.empty, cs_events = []\<rparr>"

lemma fresh_dc_ok: "cluster_ok (sample_world fresh_dc)"
  by (rule sample_cluster_ok) simp_all

lemma informed_of_simps:
  "in_past (cs_world (informed_of past)) = past" "in_sync (cs_world (informed_of [w]))"
  "server (cs_world (informed_of past)) = last past" "without_caches (informed_of [w]) = sample_state w"
  by (simp_all add: informed_of_def in_sync_def server_def without_caches_def sample_state_def)

lemma caches_in_sync_agree_run:
  "map_prod id without_caches
     (Reconcile (operator_reconciler manager_client (AddToScheme Map.empty) sample_settings) sample_key
       (informed_of [sample_world fresh_dc])) =
   Reconcile (operator_reconciler cluster (AddToScheme Map.empty) sample_settings) sample_key
     (sample_state (sample_world fresh_dc))"
  unfolding informed_of_simps(4) [symmetric]
  by (rule caches_in_sync_agree [OF informed_of_simps(2)]) (simp add: informed_of_simps fresh_dc_ok)

definition recovered :: "informed controller_state" where
  "recovered = run Map.empty sample_settings (caches_catch_up 2 @ [Reconciles sample_key []])
     (informed_of [bare_world, sample_world fresh_dc])"

lemma recovers_from_lag_run:
  "provisioned Map.empty sample_settings fresh_dc (server (cs_world recovered)) \<and>
   ready sample_key fresh_dc (server (cs_world recovered)) \<and> ReconciliationFailed recovered ''gaudi'' = Some 0"
proof -
  let ?cs = "informed_of [bare_world, sample_world fresh_dc]"
  have srv: "server (cs_world ?cs) = sample_world fresh_dc" by (simp add: informed_of_simps)
  have "\<not> being_deleted fresh_dc" by (simp add: being_deleted_def time_IsZero_def)
  from recovers_from_lag [of ?cs 2 sample_key fresh_dc Map.empty sample_settings, unfolded srv Let_def, OF _ _ fresh_dc_ok _ this
      sample_conflict_free sample_adoptable]
  show ?thesis unfolding recovered_def sample_dc_simps by (simp add: informed_of_simps)
qed

end
