(* ===== verification/Main_Program.thy ===== *)
theory Main_Program
  imports Device_Config_Controller
begin

text \<open>
  The program itself (\<^verbatim>\<open>main.go\<close>): the scheme it builds, the namespace it watches, and the
  steps of its start, over an arbitrary manager (\<^verbatim>\<open>sigs.k8s.io/controller-runtime\<close>) whose state is
  \<open>'m\<close>; the client configuration that is read first is part of that state. The result of parsing the command line is an argument.
  An exit ends the program with its code, also the two inside of library calls: of \<^verbatim>\<open>flag.Parse\<close> on the command line (zero after the help text,
  two after an error) and of \<^verbatim>\<open>ctrl.GetConfigOrDie\<close>. The messages that are logged as errors by these and by \<^verbatim>\<open>main\<close> are kept.
\<close>

section \<open>The scheme\<close>

text \<open>The types of the Kernel Module Management operator, registered under its group and version.\<close>

definition kmm_gvk :: "string \<Rightarrow> group_version_kind" where
  "kmm_gvk kind = \<lparr>gv_group = ''kmm.sigs.x-k8s.io'', gv_version = ''v1beta1'', gvk_kind = kind\<rparr>"

definition kmm_AddToScheme :: "scheme \<Rightarrow> scheme" where
  "kmm_AddToScheme scheme = scheme
     (''Module'' \<mapsto> kmm_gvk ''Module'', ''ModuleList'' \<mapsto> kmm_gvk ''ModuleList'',
      ''PreflightValidation'' \<mapsto> kmm_gvk ''PreflightValidation'',
      ''PreflightValidationList'' \<mapsto> kmm_gvk ''PreflightValidationList'')"

text \<open>\<open>clientgo\<close> registers the built-in types.\<close>

definition init_scheme :: "(scheme \<Rightarrow> scheme) \<Rightarrow> scheme" where
  "init_scheme clientgo =
     (let scheme = Map.empty; scheme = clientgo scheme; scheme = AddToScheme scheme in kmm_AddToScheme scheme)"

text \<open>The form in which the other theories use it: the operator's own types on top of the rest.\<close>

lemma init_scheme_eq: "init_scheme clientgo = AddToScheme (kmm_AddToScheme (clientgo Map.empty))"
  by (rule ext) (simp add: init_scheme_def kmm_AddToScheme_def AddToScheme_def SchemeBuilder_def Let_def)

section \<open>Start\<close>

definition getWatchNamespace :: "environment \<Rightarrow> string \<times> go_error option" where
  "getWatchNamespace env =
     (let watchNamespaceEnvVar = ''WATCH_NAMESPACE'';
          (ns, found) = LookupEnv env watchNamespaceEnvVar
      in if \<not> found then ('''', Some (TextError (watchNamespaceEnvVar @ '' must be set'')))
         else (ns, None))"

record flags =
  metricsAddr :: string
  probeAddr :: string
  enableLeaderElection :: bool

definition default_flags :: flags where
  "default_flags = \<lparr>metricsAddr = '':8080'', probeAddr = '':8081'', enableLeaderElection = False\<rparr>"

datatype parsed_flags = Flags flags | Help_asked | Bad_flags

record manager_options =
  MetricsBindAddress :: string
  Port :: int
  HealthProbeBindAddress :: string
  LeaderElection :: bool
  LeaderElectionID :: string
  Namespace :: string

record 'm manager_api =
  mgr_GetConfig :: "('m, go_error option) effect"
  mgr_NewManager :: "manager_options \<Rightarrow> ('m, go_error option) effect"
  mgr_Complete :: "controller_builder \<Rightarrow> ('m, go_error option) effect"
  mgr_AddHealthzCheck :: "string \<Rightarrow> ('m, go_error option) effect"
  mgr_AddReadyzCheck :: "string \<Rightarrow> ('m, go_error option) effect"
  mgr_Start :: "('m, go_error option) effect"

record outcome =
  exit_code :: nat
  error_log :: "string list"

definition no_namespace_message :: string where
  "no_namespace_message = ''unable to get WatchNamespace, the manager will watch and manage resources in all namespaces''"

definition main ::
    "'m manager_api \<Rightarrow> environment \<Rightarrow> controller_settings \<Rightarrow> parsed_flags \<Rightarrow> ('m, outcome \<times> controller_settings) effect" where
  "main api env settings parsed m =
     (case parsed of
        Help_asked \<Rightarrow> ((\<lparr>exit_code = 0, error_log = []\<rparr>, settings), m)
      | Bad_flags \<Rightarrow> ((\<lparr>exit_code = 2, error_log = []\<rparr>, settings), m)
      | Flags fl \<Rightarrow>
     (let (watchNamespace, err) = getWatchNamespace env;
          log = (case err of None \<Rightarrow> [] | Some _ \<Rightarrow> [no_namespace_message]);
          exit1 = (\<lambda>msg st m. ((\<lparr>exit_code = 1, error_log = log @ [msg]\<rparr>, st), m))
      in case mgr_GetConfig api m of
           (Some _, m) \<Rightarrow> exit1 ''unable to get kubeconfig'' settings m
         | (None, m) \<Rightarrow>
         (case mgr_NewManager api
             \<lparr>MetricsBindAddress = metricsAddr fl, Port = 9443, HealthProbeBindAddress = probeAddr fl,
              LeaderElection = enableLeaderElection fl, LeaderElectionID = ''c572fd62.habana.ai'',
              Namespace = watchNamespace\<rparr> m of
           (Some _, m) \<Rightarrow> exit1 ''unable to start manager'' settings m
         | (None, m) \<Rightarrow>
             (case SetupWithManager env settings (mgr_Complete api) m of
                ((Some _, settings), m) \<Rightarrow> exit1 ''unable to create controller'' settings m
              | ((None, settings), m) \<Rightarrow>
                  (case mgr_AddHealthzCheck api ''healthz'' m of
                     (Some _, m) \<Rightarrow> exit1 ''unable to set up health check'' settings m
                   | (None, m) \<Rightarrow>
                       (case mgr_AddReadyzCheck api ''readyz'' m of
                          (Some _, m) \<Rightarrow> exit1 ''unable to set up ready check'' settings m
                        | (None, m) \<Rightarrow>
                            (case mgr_Start api m of
                               (Some _, m) \<Rightarrow> exit1 ''problem running manager'' settings m
                             | (None, m) \<Rightarrow> ((\<lparr>exit_code = 0, error_log = log\<rparr>, settings), m))))))))"

section \<open>What the start guarantees\<close>

lemma getWatchNamespace_eq:
  "getWatchNamespace env =
     (case env ''WATCH_NAMESPACE'' of
        None \<Rightarrow> ('''', Some (TextError ''WATCH_NAMESPACE must be set'')) | Some ns \<Rightarrow> (ns, None))"
  by (simp add: getWatchNamespace_def LookupEnv_def split: option.split)

definition watched :: "environment \<Rightarrow> string" where
  "watched env = (case env ''WATCH_NAMESPACE'' of None \<Rightarrow> [] | Some ns \<Rightarrow> ns)"

definition the_options :: "environment \<Rightarrow> flags \<Rightarrow> manager_options" where
  "the_options env fl =
     \<lparr>MetricsBindAddress = metricsAddr fl, Port = 9443, HealthProbeBindAddress = probeAddr fl,
      LeaderElection = enableLeaderElection fl, LeaderElectionID = ''c572fd62.habana.ai'',
      Namespace = watched env\<rparr>"

lemma SetupWithManager_eq:
  "SetupWithManager env settings complete m =
     (if missing_vars env = [] then ((fst (complete the_builder m), settings_of env), snd (complete the_builder m))
      else ((fst (Load env settings), settings_of env), m))"
  by (simp add: SetupWithManager_def Load_eq the_builder_def split: prod.split)

text \<open>
  The start as a list of steps, each with the message that is logged when it fails. The settings are read before the controller is
  handed to the manager; both fail with the same message.
\<close>

definition start_steps ::
    "'m manager_api \<Rightarrow> environment \<Rightarrow> flags \<Rightarrow> (string \<times> ('m, go_error option) effect) list" where
  "start_steps api env fl =
     [(''unable to get kubeconfig'', mgr_GetConfig api),
      (''unable to start manager'', mgr_NewManager api (the_options env fl)),
      (''unable to create controller'', \<lambda>m. (if set required_vars \<subseteq> dom env then None else Some errEnvVarNotSet, m)),
      (''unable to create controller'', mgr_Complete api the_builder),
      (''unable to set up health check'', mgr_AddHealthzCheck api ''healthz''),
      (''unable to set up ready check'', mgr_AddReadyzCheck api ''readyz''),
      (''problem running manager'', mgr_Start api)]"

lemma required_present: "set required_vars \<subseteq> dom env \<longleftrightarrow> missing_vars env = []"
  by (auto simp: missing_vars_def filter_empty_conv)

text \<open>
  C31. How the program ends. Help about the flags ends it with code zero and a wrong flag with code two, with nothing done. Otherwise
  the steps of its start run in order: client configuration, manager, settings, controller, health check, readiness check, run. Its code is zero
  exactly when all of them succeed, and else one; what is logged is the message about an unset namespace, which is not an error that stops it (it then watches all
  namespaces, as for an empty value), and then the message of the step that failed; no later step is called.
\<close>

theorem main_exit_code:
  "fst (main api env settings Help_asked m) = (\<lparr>exit_code = 0, error_log = []\<rparr>, settings) \<and>
   fst (main api env settings Bad_flags m) = (\<lparr>exit_code = 2, error_log = []\<rparr>, settings) \<and>
   snd (main api env settings Help_asked m) = m \<and> snd (main api env settings Bad_flags m) = m \<and>
   (case first_failure (start_steps api env fl) m of (failed, m') \<Rightarrow>
      fst (fst (main api env settings (Flags fl) m)) =
        \<lparr>exit_code = (case failed of None \<Rightarrow> 0 | Some _ \<Rightarrow> 1),
         error_log = (if env ''WATCH_NAMESPACE'' = None then [no_namespace_message] else []) @
           (case failed of None \<Rightarrow> [] | Some (message, _) \<Rightarrow> [message])\<rparr> \<and>
      snd (main api env settings (Flags fl) m) = m')"
proof -
  have err: "\<exists>e. fst (Load env settings) = Some e" if "missing_vars env \<noteq> []"
    using that by (simp add: Load_eq)
  obtain e0 m0 where 0: "mgr_GetConfig api m = (e0, m0)" by fastforce
  obtain e1 m1 where 1: "mgr_NewManager api (the_options env fl) m0 = (e1, m1)" by fastforce
  obtain e2 m2 where 2: "mgr_Complete api the_builder m1 = (e2, m2)" by fastforce
  obtain e3 m3 where 3: "mgr_AddHealthzCheck api ''healthz'' m2 = (e3, m3)" by fastforce
  obtain e4 m4 where 4: "mgr_AddReadyzCheck api ''readyz'' m3 = (e4, m4)" by fastforce
  obtain e5 m5 where 5: "mgr_Start api m4 = (e5, m5)" by fastforce
  have ns: "getWatchNamespace env = (watched env, if env ''WATCH_NAMESPACE'' = None then Some (TextError ''WATCH_NAMESPACE must be set'') else None)"
    by (simp add: getWatchNamespace_eq watched_def split: option.split)
  note steps = main_def ns SetupWithManager_eq Let_def 0 1 [unfolded the_options_def] 2 3 4 5 start_steps_def the_options_def required_present
  show ?thesis
  proof (cases "e0 = None \<and> e1 = None \<and> missing_vars env = []")
    case True
    then show ?thesis by (cases e2; cases e3; cases e4; cases e5) (simp_all add: steps)
  next
    case False
    then show ?thesis using err by (cases e0; cases e1; cases "missing_vars env = []") (auto simp: steps)
  qed
qed

text \<open>
  Without one of the image variables the controller is not registered and nothing is started: after
  the manager was made, neither the registration, nor the checks, nor the run of the manager is called.
\<close>

theorem settings_required:
  assumes "\<not> set required_vars \<subseteq> dom env"
  shows "main (api\<lparr>mgr_Complete := c, mgr_AddHealthzCheck := h, mgr_AddReadyzCheck := r, mgr_Start := s\<rparr>)
             env settings parsed m = main api env settings parsed m \<and>
         (parsed \<noteq> Help_asked \<longrightarrow> exit_code (fst (fst (main api env settings parsed m))) \<noteq> 0)"
proof -
  have miss: "missing_vars env \<noteq> []"
    using assms by (simp add: required_present)
  then obtain e where e: "fst (Load env settings) = Some e" by (simp add: Load_eq)
  show ?thesis using miss
    by (auto simp: main_def SetupWithManager_eq Let_def e split: parsed_flags.split prod.split option.split)
qed

text \<open>Every step succeeds in a manager that counts its calls; without images it stops after the first two.\<close>

definition counting_manager :: "nat manager_api" where
  "counting_manager =
     \<lparr>mgr_GetConfig = \<lambda>n. (None, n + 1), mgr_NewManager = \<lambda>_ n. (None, n + 1), mgr_Complete = \<lambda>_ n. (None, n + 1),
      mgr_AddHealthzCheck = \<lambda>_ n. (None, n + 1), mgr_AddReadyzCheck = \<lambda>_ n. (None, n + 1),
      mgr_Start = \<lambda>n. (None, n + 1)\<rparr>"

definition no_settings :: controller_settings where
  "no_settings = \<lparr>DevicePluginImage = '''', DriverHabanaImageBasename = '''', NodeMetricsImage = '''',
     NodeLabelerImage = ''''\<rparr>"

lemma settings_required_run:
  "exit_code (fst (fst (main counting_manager [DevicePluginImageEnvVar \<mapsto> ''x''] no_settings (Flags default_flags) 0))) \<noteq> 0"
  using settings_required [where env = "[DevicePluginImageEnvVar \<mapsto> ''x'']" and api = counting_manager
      and settings = no_settings and parsed = "Flags default_flags" and m = 0]
  by (simp add: required_vars_def env_vars)

end
