(* ===== verification/Go_Memory.thy ===== *)
theory Go_Memory
  imports Operator_Prelude
begin

text \<open>
  Memory with references, for the code whose point is what is shared and what is not: cells of any
  type under addresses, allocation, and the contract of a function that makes a deep copy. The contract is a
  locale; lemmas show that it carries over from a type to slices, pointers and structs of it.
\<close>

section \<open>Cells and references\<close>

type_synonym ref = nat
type_synonym 'c heap = "(ref, 'c) fmap"

definition fresh :: "'c heap \<Rightarrow> ref" where
  "fresh h = (if fmdom' h = {} then 0 else Suc (Max (fmdom' h)))"

lemma fresh_new: "fresh h \<notin> fmdom' h"
proof
  assume in_dom: "fresh h \<in> fmdom' h"
  then have "fresh h = Suc (Max (fmdom' h))" by (auto simp: fresh_def split: if_splits)
  moreover have "fresh h \<le> Max (fmdom' h)" by (rule Max_ge [OF _ in_dom]) simp
  ultimately show False by simp
qed

definition grows :: "'c heap \<Rightarrow> 'c heap \<Rightarrow> bool" where
  "grows h h' \<longleftrightarrow> (\<forall>l \<in> fmdom' h. fmlookup h' l = fmlookup h l)"

lemma grows_refl [simp]: "grows h h"
  by (simp add: grows_def)

lemma grows_dom: "grows h h' \<Longrightarrow> fmdom' h \<subseteq> fmdom' h'"
  by (auto simp: grows_def fmlookup_dom'_iff)

lemma grows_trans: "grows h h1 \<Longrightarrow> grows h1 h2 \<Longrightarrow> grows h h2"
  using grows_dom unfolding grows_def by (metis subsetD)

lemma grows_new [simp]: "grows h (fmupd (fresh h) c h)"
  using fresh_new [of h] by (auto simp: grows_def)

text \<open>
  Reading through a reference at a type: \<open>un\<close> takes the contents out of a cell. A reference to nothing
  does not exist in Go; the model reads \<open>nothing\<close> there, and \<open>valid\<close> below rules it out.
\<close>

definition load :: "'c \<Rightarrow> ('c \<Rightarrow> 'a) \<Rightarrow> 'c heap \<Rightarrow> ref \<Rightarrow> 'a" where
  "load nothing un h a = un (case fmlookup h a of Some c \<Rightarrow> c | None \<Rightarrow> nothing)"

text \<open>Copying the elements of a slice, first to last.\<close>

fun copy_each :: "('a \<Rightarrow> 's \<Rightarrow> 'b \<times> 's) \<Rightarrow> 'a list \<Rightarrow> 's \<Rightarrow> 'b list \<times> 's" where
  "copy_each f [] h = ([], h)"
| "copy_each f (x # xs) h = (case f x h of (y, h) \<Rightarrow> (case copy_each f xs h of (ys, h) \<Rightarrow> (y # ys, h)))"

text \<open>Copying what is behind a pointer that may be nil into a new cell.\<close>

definition copy_ref ::
    "'c \<Rightarrow> ('a \<Rightarrow> 'c) \<Rightarrow> ('c \<Rightarrow> 'a) \<Rightarrow> ('a \<Rightarrow> 'c heap \<Rightarrow> 'a \<times> 'c heap) \<Rightarrow> ref option \<Rightarrow> 'c heap
      \<Rightarrow> ref option \<times> 'c heap" where
  "copy_ref nothing wrap un f r h =
     (case r of
        None \<Rightarrow> (None, h)
      | Some a \<Rightarrow> (case f (load nothing un h a) h of (y, h) \<Rightarrow> (Some (fresh h), fmupd (fresh h) (wrap y) h)))"

text \<open>What is seen through such a pointer, the cells on the way, and that they exist with the right types.\<close>

definition ref_view :: "'c \<Rightarrow> ('c \<Rightarrow> 'a) \<Rightarrow> ('c heap \<Rightarrow> 'a \<Rightarrow> 'v) \<Rightarrow> 'c heap \<Rightarrow> ref option \<Rightarrow> 'v option" where
  "ref_view nothing un view h r = map_option (\<lambda>a. view h (load nothing un h a)) r"

definition ref_locs :: "'c \<Rightarrow> ('c \<Rightarrow> 'a) \<Rightarrow> ('c heap \<Rightarrow> 'a \<Rightarrow> ref set) \<Rightarrow> 'c heap \<Rightarrow> ref option \<Rightarrow> ref set" where
  "ref_locs nothing un locs h r = (case r of None \<Rightarrow> {} | Some a \<Rightarrow> insert a (locs h (load nothing un h a)))"

definition ref_valid ::
    "'c \<Rightarrow> ('a \<Rightarrow> 'c) \<Rightarrow> ('c \<Rightarrow> 'a) \<Rightarrow> ('c heap \<Rightarrow> 'a \<Rightarrow> bool) \<Rightarrow> 'c heap \<Rightarrow> ref option \<Rightarrow> bool" where
  "ref_valid nothing wrap un valid h r =
     (case r of
        None \<Rightarrow> True
      | Some a \<Rightarrow> fmlookup h a = Some (wrap (load nothing un h a)) \<and> valid h (load nothing un h a))"

section \<open>The contract of a deep copy\<close>

text \<open>
  The copy shows the value of the original, and whatever is later written to the cells of the one does not
  change the other.
\<close>

definition separate_copy :: "('c heap \<Rightarrow> 'a \<Rightarrow> 'v) \<Rightarrow> ('c heap \<Rightarrow> 'a \<Rightarrow> ref set) \<Rightarrow> 'c heap \<Rightarrow> 'a \<Rightarrow> 'c heap \<Rightarrow> 'a \<Rightarrow> bool" where
  "separate_copy view locs h x h' y \<longleftrightarrow>
     view h' y = view h x \<and> locs h' y \<inter> locs h x = {} \<and>
     (\<forall>h2. (\<forall>l. l \<notin> locs h' y \<longrightarrow> fmlookup h2 l = fmlookup h' l) \<longrightarrow> view h2 x = view h x) \<and>
     (\<forall>h2. (\<forall>l. l \<notin> locs h x \<longrightarrow> fmlookup h2 l = fmlookup h' l) \<longrightarrow> view h2 y = view h x)"

text \<open>
  \<open>view\<close> is the value that a reader sees, \<open>locs\<close> the cells it goes through, \<open>valid\<close> that these
  exist with the right types. A copy allocates, shows the same value, and goes through new cells only.
\<close>

locale deep_copier =
  fixes view :: "'c heap \<Rightarrow> 'a \<Rightarrow> 'v"
    and locs :: "'c heap \<Rightarrow> 'a \<Rightarrow> ref set"
    and valid :: "'c heap \<Rightarrow> 'a \<Rightarrow> bool"
    and copy :: "'a \<Rightarrow> 'c heap \<Rightarrow> 'a \<times> 'c heap"
  assumes reads: "(\<And>l. l \<in> locs h x \<Longrightarrow> fmlookup h' l = fmlookup h l) \<Longrightarrow>
        view h' x = view h x \<and> locs h' x = locs h x \<and> valid h' x = valid h x"
    and scoped: "valid h x \<Longrightarrow> locs h x \<subseteq> fmdom' h"
    and copies: "valid h x \<Longrightarrow> copy x h = (y, h') \<Longrightarrow>
        grows h h' \<and> valid h' y \<and> view h' y = view h x \<and> locs h' y \<inter> fmdom' h = {}"
begin

lemma kept: "valid h x \<Longrightarrow> grows h h' \<Longrightarrow> view h' x = view h x \<and> locs h' x = locs h x \<and> valid h' x"
  using reads [of h x h'] scoped [of h x] by (auto simp: grows_def)

lemma copy_separate:
  assumes "valid h x" "copy x h = (y, h')"
  shows "separate_copy view locs h x h' y"
proof -
  note c = copies [OF assms] and k = kept [OF assms(1), of h'] and s = scoped [OF assms(1)]
  have "view h2 x = view h x" if "\<And>l. l \<notin> locs h' y \<Longrightarrow> fmlookup h2 l = fmlookup h' l" for h2
    using reads [of h' x h2] c k s that by (auto simp: disjoint_iff)
  moreover have "view h2 y = view h x" if "\<And>l. l \<notin> locs h x \<Longrightarrow> fmlookup h2 l = fmlookup h' l" for h2
    using reads [of h' y h2] c s that by (auto simp: disjoint_iff)
  ultimately show ?thesis using c s by (auto simp: separate_copy_def)
qed

text \<open>Slices.\<close>

lemma each_step:
  assumes "\<forall>x \<in> set xs. valid h x" "copy_each copy xs h = (ys, h')"
  shows "grows h h' \<and> (\<forall>y \<in> set ys. valid h' y \<and> locs h' y \<inter> fmdom' h = {}) \<and> map (view h') ys = map (view h) xs"
  using assms
proof (induction xs arbitrary: h ys)
  case (Cons x xs)
  obtain y h1 where y: "copy x h = (y, h1)" by fastforce
  obtain zs where zs: "copy_each copy xs h1 = (zs, h')" "ys = y # zs"
    using Cons.prems(2) y by (auto split: prod.splits)
  note c = copies [OF _ y]
  have "\<forall>z \<in> set xs. valid h1 z \<and> view h1 z = view h z" using kept c Cons.prems(1) by auto
  with Cons.IH [OF _ zs(1)] have IH: "grows h1 h'"
    "\<forall>z \<in> set zs. valid h' z \<and> locs h' z \<inter> fmdom' h1 = {}" "map (view h') zs = map (view h) xs"
    by (auto cong: map_cong)
  have "fmdom' h \<subseteq> fmdom' h1" using c Cons.prems(1) grows_dom by auto
  with IH c kept [OF _ IH(1), of y] Cons.prems(1) grows_trans [OF _ IH(1)] zs(2) show ?case by auto
qed simp

lemma each_copier:
  "deep_copier (\<lambda>h. map (view h)) (\<lambda>h xs. \<Union> (locs h ` set xs)) (\<lambda>h xs. \<forall>x \<in> set xs. valid h x) (copy_each copy)"
proof
  fix h h' :: "'c heap" and xs assume "\<And>l. l \<in> \<Union> (locs h ` set xs) \<Longrightarrow> fmlookup h' l = fmlookup h l"
  then have "\<forall>x \<in> set xs. view h' x = view h x \<and> locs h' x = locs h x \<and> valid h' x = valid h x"
    using reads by blast
  then show "map (view h') xs = map (view h) xs \<and> \<Union> (locs h' ` set xs) = \<Union> (locs h ` set xs) \<and>
      (\<forall>x \<in> set xs. valid h' x) = (\<forall>x \<in> set xs. valid h x)" by auto
next
  show "\<Union> (locs h ` set xs) \<subseteq> fmdom' h" if "\<forall>x \<in> set xs. valid h x" for h xs using scoped that by auto
next
  show "grows h h' \<and> (\<forall>x \<in> set ys. valid h' x) \<and> map (view h') ys = map (view h) xs \<and>
      \<Union> (locs h' ` set ys) \<inter> fmdom' h = {}"
    if "\<forall>x \<in> set xs. valid h x" "copy_each copy xs h = (ys, h')" for h xs ys h'
    using each_step [OF that] by auto
qed

text \<open>Pointers.\<close>

lemma ref_copier:
  assumes "\<And>c. un (wrap c) = c"
  shows "deep_copier (ref_view nothing un view) (ref_locs nothing un locs) (ref_valid nothing wrap un valid)
    (copy_ref nothing wrap un copy)"
proof
  fix h h' :: "'c heap" and r assume same: "\<And>l. l \<in> ref_locs nothing un locs h r \<Longrightarrow> fmlookup h' l = fmlookup h l"
  show "ref_view nothing un view h' r = ref_view nothing un view h r \<and> ref_locs nothing un locs h' r = ref_locs nothing un locs h r \<and> ref_valid nothing wrap un valid h' r = ref_valid nothing wrap un valid h r"
  proof (cases r)
    case (Some a)
    then have "load nothing un h' a = load nothing un h a" using same by (simp add: load_def ref_locs_def)
    then show ?thesis using reads [of h "load nothing un h a" h'] same Some
      by (simp add: ref_view_def ref_locs_def ref_valid_def)
  qed (simp add: ref_view_def ref_locs_def ref_valid_def)
next
  show "ref_locs nothing un locs h r \<subseteq> fmdom' h" if "ref_valid nothing wrap un valid h r" for h r
    using that scoped [of h] by (auto simp: ref_locs_def ref_valid_def fmlookup_dom'_iff split: option.splits)
next
  fix h r y h' assume ok: "ref_valid nothing wrap un valid h r" and cp: "copy_ref nothing wrap un copy r h = (y, h')"
  show "grows h h' \<and> ref_valid nothing wrap un valid h' y \<and> ref_view nothing un view h' y = ref_view nothing un view h r \<and> ref_locs nothing un locs h' y \<inter> fmdom' h = {}"
  proof (cases r)
    case None
    with cp show ?thesis by (simp add: copy_ref_def ref_view_def ref_locs_def ref_valid_def)
  next
    case (Some a)
    obtain c h1 where c: "copy (load nothing un h a) h = (c, h1)" by fastforce
    note cc = copies [OF _ c]
    have y: "y = Some (fresh h1)" "h' = fmupd (fresh h1) (wrap c) h1"
      using cp c by (auto simp: copy_ref_def Some)
    have "load nothing un h' (fresh h1) = c" using assms by (simp add: load_def y)
    moreover have "grows h1 h'" by (simp add: y)
    ultimately show ?thesis
      using ok cc kept [of h1 c h'] grows_trans [of h h1 h'] fresh_new [of h1] grows_dom [of h h1] by (auto simp: Some y ref_view_def ref_locs_def ref_valid_def)
  qed
qed

text \<open>Structs: \<open>parts\<close> are the fields that are copied, \<open>build\<close> replaces them; the rest is plain.\<close>

lemma struct_copier:
  assumes "\<And>b a. parts (build b a) = a"
    and "\<And>h h' b a. view h' a = view h (parts b) \<Longrightarrow> view' h' (build b a) = view' h b"
    and "\<And>h h' b. view h' (parts b) = view h (parts b) \<Longrightarrow> view' h' b = view' h b"
    and "\<And>b h. copy' b h = (case copy (parts b) h of (a, h') \<Rightarrow> (build b a, h'))"
  shows "deep_copier view' (\<lambda>h b. locs h (parts b)) (\<lambda>h b. valid h (parts b)) copy'"
proof
  show "view' h' b = view' h b \<and> locs h' (parts b) = locs h (parts b) \<and> valid h' (parts b) = valid h (parts b)"
    if "\<And>l. l \<in> locs h (parts b) \<Longrightarrow> fmlookup h' l = fmlookup h l" for h h' b
    using reads [OF that] assms(3) by blast
  show "locs h (parts b) \<subseteq> fmdom' h" if "valid h (parts b)" for h b by (rule scoped [OF that])
  show "grows h h' \<and> valid h' (parts y) \<and> view' h' y = view' h b \<and> locs h' (parts y) \<inter> fmdom' h = {}"
    if ok: "valid h (parts b)" and cp: "copy' b h = (y, h')" for h b y h'
  proof -
    obtain a where a: "copy (parts b) h = (a, h')" "y = build b a" using cp assms(4) by (auto split: prod.splits)
    then show ?thesis using copies [OF ok a(1)] assms(1,2) by simp
  qed
qed

end

text \<open>Plain values, and two fields in a row.\<close>

lemma plain_copier:
  assumes "\<And>x h. copy x h = (x, h)"
  shows "deep_copier (\<lambda>h x. x) (\<lambda>h x. {}) (\<lambda>h x. True) copy"
  by unfold_locales (simp_all add: assms)

definition copy_pair ::
    "('a \<Rightarrow> 'h \<Rightarrow> 'a \<times> 'h) \<Rightarrow> ('b \<Rightarrow> 'h \<Rightarrow> 'b \<times> 'h) \<Rightarrow> 'a \<times> 'b \<Rightarrow> 'h \<Rightarrow> ('a \<times> 'b) \<times> 'h" where
  "copy_pair f g p h = (case f (fst p) h of (x, h) \<Rightarrow> (case g (snd p) h of (y, h) \<Rightarrow> ((x, y), h)))"

locale two_copiers =
  A: deep_copier view locs valid copy + B: deep_copier view2 locs2 valid2 copy2
  for view :: "'c heap \<Rightarrow> 'a \<Rightarrow> 'v" and locs valid copy and view2 :: "'c heap \<Rightarrow> 'b \<Rightarrow> 'w" and locs2 valid2 copy2
begin

lemma pair_copier:
  "deep_copier (\<lambda>h p. (view h (fst p), view2 h (snd p))) (\<lambda>h p. locs h (fst p) \<union> locs2 h (snd p))
     (\<lambda>h p. valid h (fst p) \<and> valid2 h (snd p)) (copy_pair copy copy2)"
proof
  show "(view h' (fst p), view2 h' (snd p)) = (view h (fst p), view2 h (snd p)) \<and>
      locs h' (fst p) \<union> locs2 h' (snd p) = locs h (fst p) \<union> locs2 h (snd p) \<and>
      (valid h' (fst p) \<and> valid2 h' (snd p)) = (valid h (fst p) \<and> valid2 h (snd p))"
    if "\<And>l. l \<in> locs h (fst p) \<union> locs2 h (snd p) \<Longrightarrow> fmlookup h' l = fmlookup h l" for h h' p
    using A.reads [of h "fst p" h'] B.reads [of h "snd p" h'] that by simp
  show "locs h (fst p) \<union> locs2 h (snd p) \<subseteq> fmdom' h" if "valid h (fst p) \<and> valid2 h (snd p)" for h p
    using A.scoped B.scoped that by blast
  show "grows h h' \<and> (valid h' (fst q) \<and> valid2 h' (snd q)) \<and>
      (view h' (fst q), view2 h' (snd q)) = (view h (fst p), view2 h (snd p)) \<and>
      (locs h' (fst q) \<union> locs2 h' (snd q)) \<inter> fmdom' h = {}"
    if ok: "valid h (fst p) \<and> valid2 h (snd p)" and cp: "copy_pair copy copy2 p h = (q, h')" for h p q h'
  proof -
    obtain h1 where 1: "copy (fst p) h = (fst q, h1)" "copy2 (snd p) h1 = (snd q, h')"
      using cp by (auto simp: copy_pair_def split: prod.splits)
    note a = A.copies [OF _ 1(1)]
    note b = B.copies [OF _ 1(2)]
    have "valid2 h1 (snd p)" "view2 h1 (snd p) = view2 h (snd p)" using B.kept a ok by blast+
    then show ?thesis
      using a b ok A.kept [of h1 "fst q" h'] grows_trans [of h h1 h'] grows_dom [of h h1] by auto
  qed
qed

end

end
