(* ===== verification/Deep_Copies.thy ===== *)
theory Deep_Copies
  imports Go_Memory Desired_State
begin

text \<open>
  The deep copies of the API types (\<^verbatim>\<open>api/v1alpha1/zz_generated.deepcopy.go\<close>), on values with references:
  a map, a slice and a pointer of Go are a reference to a cell, or nil. The rest of the library works
  on the values; here it is shown that this is sound for an object and its deep copy, such as what a client
  hands out of its cache: neither can be changed through the other. Of the metadata there are the fields of the model.
\<close>

section \<open>The types in memory\<close>

record go_owner_reference =
  gor_apiVersion :: string
  gor_kind :: string
  gor_name :: string
  gor_uid :: string
  gor_controller :: "ref option"
  gor_blockOwnerDeletion :: "ref option"

record go_object_meta =
  gom_name :: string
  gom_namespace :: string
  gom_uid :: string
  gom_resourceVersion :: string
  gom_deletionTimestamp :: "ref option"
  gom_labels :: "ref option"
  gom_annotations :: "ref option"
  gom_ownerReferences :: "ref option"
  gom_finalizers :: "ref option"

record go_spec =
  gs_driverImage :: string
  gs_driverVersion :: string
  gs_nodeSelector :: "ref option"

record go_status =
  gt_conditions :: "ref option"

record go_device_config =
  gd_typeMeta :: "string \<times> string"
  gd_objectMeta :: go_object_meta
  gd_spec :: go_spec
  gd_status :: go_status

record go_list_meta =
  gl_resourceVersion :: string
  gl_continue :: string
  gl_remainingItemCount :: "ref option"

record go_device_config_list =
  gcl_typeMeta :: "string \<times> string"
  gcl_listMeta :: go_list_meta
  gcl_items :: "ref option"

datatype cell =
    Nothing
  | BoolCell bool | Int64Cell int | TimeCell time | MapCell labels
  | StringsCell "string list" | ConditionsCell "condition list" | OwnersCell "go_owner_reference list"
  | ItemsCell "go_device_config list" | SpecCell go_spec | StatusCell go_status
  | ConfigCell go_device_config | ListCell go_device_config_list

type_synonym memory = "cell heap"

text \<open>The contents of a cell at a type, with the zero value for a cell of another type.\<close>

definition zero_meta :: go_object_meta where
  "zero_meta = \<lparr>gom_name = '''', gom_namespace = '''', gom_uid = '''', gom_resourceVersion = '''',
     gom_deletionTimestamp = None, gom_labels = None, gom_annotations = None, gom_ownerReferences = None,
     gom_finalizers = None\<rparr>"

definition zero_spec :: go_spec where
  "zero_spec = \<lparr>gs_driverImage = '''', gs_driverVersion = '''', gs_nodeSelector = None\<rparr>"

definition zero_config :: go_device_config where
  "zero_config = \<lparr>gd_typeMeta = ('''', ''''), gd_objectMeta = zero_meta, gd_spec = zero_spec,
     gd_status = \<lparr>gt_conditions = None\<rparr>\<rparr>"

definition zero_list :: go_device_config_list where
  "zero_list = \<lparr>gcl_typeMeta = ('''', ''''),
     gcl_listMeta = \<lparr>gl_resourceVersion = '''', gl_continue = '''', gl_remainingItemCount = None\<rparr>, gcl_items = None\<rparr>"

definition as_bool :: "cell \<Rightarrow> bool" where "as_bool c = (case c of BoolCell x \<Rightarrow> x | _ \<Rightarrow> False)"
definition as_int64 :: "cell \<Rightarrow> int" where "as_int64 c = (case c of Int64Cell x \<Rightarrow> x | _ \<Rightarrow> 0)"
definition as_time :: "cell \<Rightarrow> time" where "as_time c = (case c of TimeCell x \<Rightarrow> x | _ \<Rightarrow> 0)"
definition as_map :: "cell \<Rightarrow> labels" where "as_map c = (case c of MapCell x \<Rightarrow> x | _ \<Rightarrow> fmempty)"
definition as_strings :: "cell \<Rightarrow> string list" where "as_strings c = (case c of StringsCell x \<Rightarrow> x | _ \<Rightarrow> [])"
definition as_conditions :: "cell \<Rightarrow> condition list" where
  "as_conditions c = (case c of ConditionsCell x \<Rightarrow> x | _ \<Rightarrow> [])"
definition as_owners :: "cell \<Rightarrow> go_owner_reference list" where "as_owners c = (case c of OwnersCell x \<Rightarrow> x | _ \<Rightarrow> [])"
definition as_items :: "cell \<Rightarrow> go_device_config list" where "as_items c = (case c of ItemsCell x \<Rightarrow> x | _ \<Rightarrow> [])"
definition as_spec :: "cell \<Rightarrow> go_spec" where "as_spec c = (case c of SpecCell x \<Rightarrow> x | _ \<Rightarrow> zero_spec)"
definition as_status :: "cell \<Rightarrow> go_status" where
  "as_status c = (case c of StatusCell x \<Rightarrow> x | _ \<Rightarrow> \<lparr>gt_conditions = None\<rparr>)"
definition as_config :: "cell \<Rightarrow> go_device_config" where "as_config c = (case c of ConfigCell x \<Rightarrow> x | _ \<Rightarrow> zero_config)"
definition as_list :: "cell \<Rightarrow> go_device_config_list" where "as_list c = (case c of ListCell x \<Rightarrow> x | _ \<Rightarrow> zero_list)"

lemma as_cell [simp]:
  "as_bool (BoolCell b) = b" "as_int64 (Int64Cell i) = i" "as_time (TimeCell t) = t" "as_map (MapCell m) = m"
  "as_strings (StringsCell ss) = ss" "as_conditions (ConditionsCell cs) = cs" "as_owners (OwnersCell os) = os"
  "as_items (ItemsCell ds) = ds" "as_spec (SpecCell sp) = sp" "as_status (StatusCell st) = st"
  "as_config (ConfigCell d) = d" "as_list (ListCell ls) = ls"
  by (simp_all add: as_bool_def as_int64_def as_time_def as_map_def as_strings_def as_conditions_def as_owners_def
      as_items_def as_spec_def as_status_def as_config_def as_list_def)

section \<open>The functions\<close>

text \<open>
  \<^verbatim>\<open>in.DeepCopyInto(out)\<close> reads \<^verbatim>\<open>*in\<close> and writes \<^verbatim>\<open>*out\<close>, which every caller has just allocated: here it
  takes the one struct and returns the other.
\<close>

definition copy_pointer ::
    "('a \<Rightarrow> cell) \<Rightarrow> (cell \<Rightarrow> 'a) \<Rightarrow> ('a \<Rightarrow> memory \<Rightarrow> 'a \<times> memory) \<Rightarrow> ref option \<Rightarrow> memory \<Rightarrow> ref option \<times> memory" where
  "copy_pointer = copy_ref Nothing"

definition copy_map :: "ref option \<Rightarrow> memory \<Rightarrow> ref option \<times> memory" where
  "copy_map = copy_pointer MapCell as_map (\<lambda>m h. (copy_labels m, h))"

definition OwnerReference_DeepCopyInto :: "go_owner_reference \<Rightarrow> memory \<Rightarrow> go_owner_reference \<times> memory" where
  "OwnerReference_DeepCopyInto r h =
     (let (c, h) = copy_pointer BoolCell as_bool Pair (gor_controller r) h;
          (b, h) = copy_pointer BoolCell as_bool Pair (gor_blockOwnerDeletion r) h
      in (r\<lparr>gor_controller := c, gor_blockOwnerDeletion := b\<rparr>, h))"

definition ObjectMeta_DeepCopyInto :: "go_object_meta \<Rightarrow> memory \<Rightarrow> go_object_meta \<times> memory" where
  "ObjectMeta_DeepCopyInto m h =
     (let (t, h) = copy_pointer TimeCell as_time Pair (gom_deletionTimestamp m) h;
          (ls, h) = copy_map (gom_labels m) h;
          (as, h) = copy_map (gom_annotations m) h;
          (os, h) = copy_pointer OwnersCell as_owners (copy_each OwnerReference_DeepCopyInto) (gom_ownerReferences m) h;
          (fs, h) = copy_pointer StringsCell as_strings Pair (gom_finalizers m) h
      in (m\<lparr>gom_deletionTimestamp := t, gom_labels := ls, gom_annotations := as, gom_ownerReferences := os,
            gom_finalizers := fs\<rparr>, h))"

text \<open>A condition has no references.\<close>

definition Condition_DeepCopyInto :: "condition \<Rightarrow> memory \<Rightarrow> condition \<times> memory" where
  "Condition_DeepCopyInto c h = (c, h)"

definition ListMeta_DeepCopyInto :: "go_list_meta \<Rightarrow> memory \<Rightarrow> go_list_meta \<times> memory" where
  "ListMeta_DeepCopyInto m h =
     (let (n, h) = copy_pointer Int64Cell as_int64 Pair (gl_remainingItemCount m) h
      in (m\<lparr>gl_remainingItemCount := n\<rparr>, h))"

definition DeviceConfigSpec_DeepCopyInto :: "go_spec \<Rightarrow> memory \<Rightarrow> go_spec \<times> memory" where
  "DeviceConfigSpec_DeepCopyInto s h =
     (let (ns, h) = copy_map (gs_nodeSelector s) h in (s\<lparr>gs_nodeSelector := ns\<rparr>, h))"

definition DeviceConfigStatus_DeepCopyInto :: "go_status \<Rightarrow> memory \<Rightarrow> go_status \<times> memory" where
  "DeviceConfigStatus_DeepCopyInto s h =
     (let (cs, h) = copy_pointer ConditionsCell as_conditions (copy_each Condition_DeepCopyInto) (gt_conditions s) h
      in (s\<lparr>gt_conditions := cs\<rparr>, h))"

definition DeviceConfig_DeepCopyInto :: "go_device_config \<Rightarrow> memory \<Rightarrow> go_device_config \<times> memory" where
  "DeviceConfig_DeepCopyInto d h =
     (let (m, h) = ObjectMeta_DeepCopyInto (gd_objectMeta d) h;
          (sp, h) = DeviceConfigSpec_DeepCopyInto (gd_spec d) h;
          (st, h) = DeviceConfigStatus_DeepCopyInto (gd_status d) h
      in (d\<lparr>gd_objectMeta := m, gd_spec := sp, gd_status := st\<rparr>, h))"

definition DeviceConfigList_DeepCopyInto :: "go_device_config_list \<Rightarrow> memory \<Rightarrow> go_device_config_list \<times> memory" where
  "DeviceConfigList_DeepCopyInto l h =
     (let (m, h) = ListMeta_DeepCopyInto (gcl_listMeta l) h;
          (ds, h) = copy_pointer ItemsCell as_items (copy_each DeviceConfig_DeepCopyInto) (gcl_items l) h
      in (l\<lparr>gcl_listMeta := m, gcl_items := ds\<rparr>, h))"

text \<open>On pointers: nil for nil, otherwise a new struct.\<close>

definition DeviceConfig_DeepCopy :: "ref option \<Rightarrow> memory \<Rightarrow> ref option \<times> memory" where
  "DeviceConfig_DeepCopy = copy_pointer ConfigCell as_config DeviceConfig_DeepCopyInto"

definition DeviceConfigList_DeepCopy :: "ref option \<Rightarrow> memory \<Rightarrow> ref option \<times> memory" where
  "DeviceConfigList_DeepCopy = copy_pointer ListCell as_list DeviceConfigList_DeepCopyInto"

definition DeviceConfigSpec_DeepCopy :: "ref option \<Rightarrow> memory \<Rightarrow> ref option \<times> memory" where
  "DeviceConfigSpec_DeepCopy = copy_pointer SpecCell as_spec DeviceConfigSpec_DeepCopyInto"

definition DeviceConfigStatus_DeepCopy :: "ref option \<Rightarrow> memory \<Rightarrow> ref option \<times> memory" where
  "DeviceConfigStatus_DeepCopy = copy_pointer StatusCell as_status DeviceConfigStatus_DeepCopyInto"

text \<open>
  As an interface value: the type with the pointer, or the nil interface. A nil pointer becomes the nil
  interface, not an interface that holds a nil pointer.
\<close>

type_synonym runtime_object = "(string \<times> ref option) option"

definition DeviceConfig_DeepCopyObject :: "ref option \<Rightarrow> memory \<Rightarrow> runtime_object \<times> memory" where
  "DeviceConfig_DeepCopyObject r h =
     (let (c, h) = DeviceConfig_DeepCopy r h
      in if c \<noteq> None then (Some (''DeviceConfig'', c), h) else (None, h))"

definition DeviceConfigList_DeepCopyObject :: "ref option \<Rightarrow> memory \<Rightarrow> runtime_object \<times> memory" where
  "DeviceConfigList_DeepCopyObject r h =
     (let (c, h) = DeviceConfigList_DeepCopy r h
      in if c \<noteq> None then (Some (''DeviceConfigList'', c), h) else (None, h))"

section \<open>Values and the memory they take\<close>

text \<open>The value behind a pointer to plain data; what nil is read as in the model's types.\<close>

abbreviation plain_view :: "memory \<Rightarrow> 'a \<Rightarrow> 'a" where "plain_view h x \<equiv> x"
abbreviation plain_locs :: "memory \<Rightarrow> 'a \<Rightarrow> ref set" where "plain_locs h x \<equiv> {}"
abbreviation plain_valid :: "memory \<Rightarrow> 'a \<Rightarrow> bool" where "plain_valid h x \<equiv> True"

abbreviation at :: "(cell \<Rightarrow> 'a) \<Rightarrow> memory \<Rightarrow> ref option \<Rightarrow> 'a option" where
  "at un \<equiv> ref_view Nothing un plain_view"

abbreviation cell_of :: "(cell \<Rightarrow> 'a) \<Rightarrow> memory \<Rightarrow> ref option \<Rightarrow> ref set" where
  "cell_of un \<equiv> ref_locs Nothing un plain_locs"

abbreviation points :: "('a \<Rightarrow> cell) \<Rightarrow> (cell \<Rightarrow> 'a) \<Rightarrow> memory \<Rightarrow> ref option \<Rightarrow> bool" where
  "points wrap un \<equiv> ref_valid Nothing wrap un plain_valid"

definition nil_as :: "'a \<Rightarrow> 'a option \<Rightarrow> 'a" where
  "nil_as z x = (case x of None \<Rightarrow> z | Some y \<Rightarrow> y)"

definition owner_value :: "memory \<Rightarrow> go_owner_reference \<Rightarrow> owner_reference" where
  "owner_value h r =
     \<lparr>or_apiVersion = gor_apiVersion r, or_kind = gor_kind r, or_name = gor_name r, or_uid = gor_uid r,
      or_controller = at as_bool h (gor_controller r), or_blockOwnerDeletion = at as_bool h (gor_blockOwnerDeletion r)\<rparr>"

definition owner_locs :: "memory \<Rightarrow> go_owner_reference \<Rightarrow> ref set" where
  "owner_locs h r = cell_of as_bool h (gor_controller r) \<union> cell_of as_bool h (gor_blockOwnerDeletion r)"

definition owner_valid :: "memory \<Rightarrow> go_owner_reference \<Rightarrow> bool" where
  "owner_valid h r \<longleftrightarrow> points BoolCell as_bool h (gor_controller r) \<and> points BoolCell as_bool h (gor_blockOwnerDeletion r)"

definition owners_at :: "memory \<Rightarrow> ref option \<Rightarrow> owner_reference list option" where
  "owners_at = ref_view Nothing as_owners (\<lambda>h. map (owner_value h))"

definition owners_locs :: "memory \<Rightarrow> ref option \<Rightarrow> ref set" where
  "owners_locs = ref_locs Nothing as_owners (\<lambda>h rs. \<Union> (owner_locs h ` set rs))"

definition owners_valid :: "memory \<Rightarrow> ref option \<Rightarrow> bool" where
  "owners_valid = ref_valid Nothing OwnersCell as_owners (\<lambda>h rs. \<forall>r \<in> set rs. owner_valid h r)"

definition meta_value :: "memory \<Rightarrow> go_object_meta \<Rightarrow> object_meta" where
  "meta_value h m =
     \<lparr>om_name = gom_name m, om_namespace = gom_namespace m, om_uid = gom_uid m, om_resourceVersion = gom_resourceVersion m,
      om_deletionTimestamp = at as_time h (gom_deletionTimestamp m),
      om_finalizers = nil_as [] (at as_strings h (gom_finalizers m)),
      om_ownerReferences = nil_as [] (owners_at h (gom_ownerReferences m)),
      om_labels = nil_as fmempty (at as_map h (gom_labels m)),
      om_annotations = nil_as fmempty (at as_map h (gom_annotations m))\<rparr>"

definition meta_locs :: "memory \<Rightarrow> go_object_meta \<Rightarrow> ref set" where
  "meta_locs h m = cell_of as_time h (gom_deletionTimestamp m) \<union> (cell_of as_map h (gom_labels m) \<union>
     (cell_of as_map h (gom_annotations m) \<union> (owners_locs h (gom_ownerReferences m) \<union> cell_of as_strings h (gom_finalizers m))))"

definition meta_valid :: "memory \<Rightarrow> go_object_meta \<Rightarrow> bool" where
  "meta_valid h m \<longleftrightarrow> points TimeCell as_time h (gom_deletionTimestamp m) \<and> points MapCell as_map h (gom_labels m) \<and>
     points MapCell as_map h (gom_annotations m) \<and> owners_valid h (gom_ownerReferences m) \<and>
     points StringsCell as_strings h (gom_finalizers m)"

definition spec_value :: "memory \<Rightarrow> go_spec \<Rightarrow> device_config_spec" where
  "spec_value h s = \<lparr>driverImage = gs_driverImage s, driverVersion = gs_driverVersion s,
     nodeSelector = at as_map h (gs_nodeSelector s)\<rparr>"

definition spec_locs :: "memory \<Rightarrow> go_spec \<Rightarrow> ref set" where
  "spec_locs h s = cell_of as_map h (gs_nodeSelector s)"

definition spec_valid :: "memory \<Rightarrow> go_spec \<Rightarrow> bool" where
  "spec_valid h s \<longleftrightarrow> points MapCell as_map h (gs_nodeSelector s)"

definition status_value :: "memory \<Rightarrow> go_status \<Rightarrow> device_config_status" where
  "status_value h s = \<lparr>conditions = nil_as [] (at as_conditions h (gt_conditions s))\<rparr>"

text \<open>The model does not tell nil conditions from empty ones; a view does.\<close>

definition status_view :: "memory \<Rightarrow> go_status \<Rightarrow> device_config_status \<times> bool" where
  "status_view h s = (status_value h s, gt_conditions s = None)"

definition status_locs :: "memory \<Rightarrow> go_status \<Rightarrow> ref set" where
  "status_locs h s = cell_of as_conditions h (gt_conditions s)"

definition status_valid :: "memory \<Rightarrow> go_status \<Rightarrow> bool" where
  "status_valid h s \<longleftrightarrow> points ConditionsCell as_conditions h (gt_conditions s)"

definition meta_nils :: "go_object_meta \<Rightarrow> bool list" where
  "meta_nils m = [gom_labels m = None, gom_annotations m = None, gom_ownerReferences m = None, gom_finalizers m = None]"

text \<open>A resource: its value, and which of its fields are nil.\<close>

type_synonym config_seen = "(string \<times> string) \<times> device_config \<times> bool list"

definition config_value :: "memory \<Rightarrow> go_device_config \<Rightarrow> device_config" where
  "config_value h d =
     \<lparr>metadata = meta_value h (gd_objectMeta d), spec = spec_value h (gd_spec d), status = status_value h (gd_status d)\<rparr>"

definition config_view :: "memory \<Rightarrow> go_device_config \<Rightarrow> config_seen" where
  "config_view h d = (gd_typeMeta d, config_value h d, snd (status_view h (gd_status d)) # meta_nils (gd_objectMeta d))"

definition config_locs :: "memory \<Rightarrow> go_device_config \<Rightarrow> ref set" where
  "config_locs h d = meta_locs h (gd_objectMeta d) \<union> (spec_locs h (gd_spec d) \<union> status_locs h (gd_status d))"

definition config_valid :: "memory \<Rightarrow> go_device_config \<Rightarrow> bool" where
  "config_valid h d \<longleftrightarrow> meta_valid h (gd_objectMeta d) \<and> spec_valid h (gd_spec d) \<and> status_valid h (gd_status d)"

text \<open>A list: its metadata, and its items unless they are nil.\<close>

definition list_view ::
    "memory \<Rightarrow> go_device_config_list
      \<Rightarrow> (string \<times> string) \<times> (string \<times> string \<times> int option) \<times> config_seen list option" where
  "list_view h l =
     (gcl_typeMeta l,
      (gl_resourceVersion (gcl_listMeta l), gl_continue (gcl_listMeta l), at as_int64 h (gl_remainingItemCount (gcl_listMeta l))),
      ref_view Nothing as_items (\<lambda>h. map (config_view h)) h (gcl_items l))"

definition list_locs :: "memory \<Rightarrow> go_device_config_list \<Rightarrow> ref set" where
  "list_locs h l = cell_of as_int64 h (gl_remainingItemCount (gcl_listMeta l)) \<union>
     ref_locs Nothing as_items (\<lambda>h ds. \<Union> (config_locs h ` set ds)) h (gcl_items l)"

definition list_valid :: "memory \<Rightarrow> go_device_config_list \<Rightarrow> bool" where
  "list_valid h l \<longleftrightarrow> points Int64Cell as_int64 h (gl_remainingItemCount (gcl_listMeta l)) \<and>
     ref_valid Nothing ItemsCell as_items (\<lambda>h ds. \<forall>d \<in> set ds. config_valid h d) h (gcl_items l)"

section \<open>Every copy keeps the contract\<close>

lemma copy_pointer_plain:
  assumes "\<And>c. un (wrap c) = c" "\<And>x h. copy x h = (x, h)"
  shows "deep_copier (at un) (cell_of un) (points wrap un) (copy_pointer wrap un copy)"
  unfolding copy_pointer_def by (rule deep_copier.ref_copier [OF plain_copier, OF assms(2,1)])

lemma copy_map_copier: "deep_copier (at as_map) (cell_of as_map) (points MapCell as_map) copy_map"
  unfolding copy_map_def by (rule copy_pointer_plain) simp_all

lemmas copy_fields = two_copiers.pair_copier [OF two_copiers.intro]

lemma same_nil:
  "ref_view n un v h' r' = ref_view n un v h r \<Longrightarrow> (r' = None) = (r = None)"
  "owners_at h' r' = owners_at h r \<Longrightarrow> (r' = None) = (r = None)"
  by (auto simp: ref_view_def owners_at_def)

interpretation owners: deep_copier owner_value owner_locs owner_valid OwnerReference_DeepCopyInto
proof -
  note bool = copy_pointer_plain [of as_bool BoolCell Pair, simplified]
  show "deep_copier owner_value owner_locs owner_valid OwnerReference_DeepCopyInto"
    using deep_copier.struct_copier [OF copy_fields [OF bool bool],
        where parts = "\<lambda>r. (gor_controller r, gor_blockOwnerDeletion r)" and view' = owner_value and
          build = "\<lambda>r a. r\<lparr>gor_controller := fst a, gor_blockOwnerDeletion := snd a\<rparr>" and
          copy' = OwnerReference_DeepCopyInto]
    by (simp add: owner_value_def owner_locs_def [abs_def] owner_valid_def [abs_def] OwnerReference_DeepCopyInto_def
        copy_pair_def split: prod.split)
qed

lemma owners_copier:
  "deep_copier owners_at owners_locs owners_valid (copy_pointer OwnersCell as_owners (copy_each OwnerReference_DeepCopyInto))"
  unfolding owners_at_def owners_locs_def owners_valid_def copy_pointer_def
  by (rule deep_copier.ref_copier [OF owners.each_copier]) simp

interpretation metas: deep_copier "\<lambda>h m. (meta_value h m, meta_nils m)" meta_locs meta_valid ObjectMeta_DeepCopyInto
proof -
  note time = copy_pointer_plain [of as_time TimeCell Pair, simplified]
    and strings = copy_pointer_plain [of as_strings StringsCell Pair, simplified]
  let ?parts = "\<lambda>m. (gom_deletionTimestamp m, gom_labels m, gom_annotations m, gom_ownerReferences m, gom_finalizers m)"
  let ?build = "\<lambda>m a. m\<lparr>gom_deletionTimestamp := fst a, gom_labels := fst (snd a), gom_annotations := fst (snd (snd a)),
      gom_ownerReferences := fst (snd (snd (snd a))), gom_finalizers := snd (snd (snd (snd a)))\<rparr>"
  show "deep_copier (\<lambda>h m. (meta_value h m, meta_nils m)) meta_locs meta_valid ObjectMeta_DeepCopyInto"
    unfolding meta_locs_def [abs_def] meta_valid_def [abs_def]
    by (rule deep_copier.struct_copier
        [OF copy_fields [OF time copy_fields [OF copy_map_copier copy_fields [OF copy_map_copier copy_fields [OF owners_copier strings]]]],
          where parts = ?parts and build = ?build, simplified prod.sel])
      (auto simp: meta_value_def meta_nils_def ObjectMeta_DeepCopyInto_def copy_pair_def split_beta dest: same_nil)
qed

lemma conditions_copier:
  "deep_copier (at as_conditions) (cell_of as_conditions) (points ConditionsCell as_conditions)
     (copy_pointer ConditionsCell as_conditions (copy_each Condition_DeepCopyInto))"
proof (rule copy_pointer_plain)
  show "copy_each Condition_DeepCopyInto cs h = (cs, h)" for cs :: "condition list" and h
    by (induction cs arbitrary: h) (simp_all add: Condition_DeepCopyInto_def)
qed simp

interpretation specs: deep_copier spec_value spec_locs spec_valid DeviceConfigSpec_DeepCopyInto
  unfolding spec_locs_def [abs_def] spec_valid_def [abs_def]
  by (rule deep_copier.struct_copier [OF copy_map_copier,
        where parts = gs_nodeSelector and build = "\<lambda>s a. s\<lparr>gs_nodeSelector := a\<rparr>"])
    (auto simp: spec_value_def DeviceConfigSpec_DeepCopyInto_def split_beta)

interpretation statuses: deep_copier status_view status_locs status_valid DeviceConfigStatus_DeepCopyInto
  unfolding status_locs_def [abs_def] status_valid_def [abs_def]
  by (rule deep_copier.struct_copier [OF conditions_copier,
        where parts = gt_conditions and build = "\<lambda>s a. s\<lparr>gt_conditions := a\<rparr>"])
    (auto simp: status_view_def status_value_def DeviceConfigStatus_DeepCopyInto_def split_beta dest: same_nil)

interpretation spec_and_status: two_copiers spec_value spec_locs spec_valid DeviceConfigSpec_DeepCopyInto
    status_view status_locs status_valid DeviceConfigStatus_DeepCopyInto ..

interpretation configs: deep_copier config_view config_locs config_valid DeviceConfig_DeepCopyInto
  unfolding config_locs_def [abs_def] config_valid_def [abs_def]
  by (rule deep_copier.struct_copier
      [OF copy_fields [OF metas.deep_copier_axioms spec_and_status.pair_copier],
        where parts = "\<lambda>d. (gd_objectMeta d, gd_spec d, gd_status d)" and
          build = "\<lambda>d a. d\<lparr>gd_objectMeta := fst a, gd_spec := fst (snd a), gd_status := snd (snd a)\<rparr>", simplified prod.sel])
    (auto simp: config_view_def config_value_def status_view_def DeviceConfig_DeepCopyInto_def copy_pair_def split_beta)

interpretation lists: deep_copier list_view list_locs list_valid DeviceConfigList_DeepCopyInto
proof -
  note int64 = copy_pointer_plain [of as_int64 Int64Cell Pair, simplified]
  have items: "deep_copier (ref_view Nothing as_items (\<lambda>h. map (config_view h)))
      (ref_locs Nothing as_items (\<lambda>h ds. \<Union> (config_locs h ` set ds)))
      (ref_valid Nothing ItemsCell as_items (\<lambda>h ds. \<forall>d \<in> set ds. config_valid h d))
      (copy_pointer ItemsCell as_items (copy_each DeviceConfig_DeepCopyInto))"
    unfolding copy_pointer_def by (rule deep_copier.ref_copier [OF configs.each_copier]) simp
  show "deep_copier list_view list_locs list_valid DeviceConfigList_DeepCopyInto"
    using deep_copier.struct_copier [OF copy_fields [OF int64 items],
        where parts = "\<lambda>l. (gl_remainingItemCount (gcl_listMeta l), gcl_items l)" and
          build = "\<lambda>l a. l\<lparr>gcl_listMeta := (gcl_listMeta l)\<lparr>gl_remainingItemCount := fst a\<rparr>, gcl_items := snd a\<rparr>" and
          view' = list_view and copy' = DeviceConfigList_DeepCopyInto]
    by (simp add: list_view_def list_locs_def [abs_def] list_valid_def [abs_def] DeviceConfigList_DeepCopyInto_def
        ListMeta_DeepCopyInto_def copy_pair_def split: prod.split)
qed

text \<open>Pointers to the four types, for which there are copying functions.\<close>

definition config_at :: "memory \<Rightarrow> ref option \<Rightarrow> config_seen option" where
  "config_at = ref_view Nothing as_config config_view"

definition config_cells :: "memory \<Rightarrow> ref option \<Rightarrow> ref set" where
  "config_cells = ref_locs Nothing as_config config_locs"

definition config_pointer :: "memory \<Rightarrow> ref option \<Rightarrow> bool" where
  "config_pointer = ref_valid Nothing ConfigCell as_config config_valid"

interpretation config_pointers: deep_copier config_at config_cells config_pointer DeviceConfig_DeepCopy
  unfolding config_at_def config_cells_def config_pointer_def DeviceConfig_DeepCopy_def copy_pointer_def
  by (rule configs.ref_copier) simp

interpretation list_pointers: deep_copier "ref_view Nothing as_list list_view" "ref_locs Nothing as_list list_locs"
    "ref_valid Nothing ListCell as_list list_valid" DeviceConfigList_DeepCopy
  unfolding DeviceConfigList_DeepCopy_def copy_pointer_def by (rule lists.ref_copier) simp

interpretation spec_pointers: deep_copier "ref_view Nothing as_spec spec_value" "ref_locs Nothing as_spec spec_locs"
    "ref_valid Nothing SpecCell as_spec spec_valid" DeviceConfigSpec_DeepCopy
  unfolding DeviceConfigSpec_DeepCopy_def copy_pointer_def by (rule specs.ref_copier) simp

interpretation status_pointers: deep_copier "ref_view Nothing as_status status_view" "ref_locs Nothing as_status status_locs"
    "ref_valid Nothing StatusCell as_status status_valid" DeviceConfigStatus_DeepCopy
  unfolding DeviceConfigStatus_DeepCopy_def copy_pointer_def by (rule statuses.ref_copier) simp

lemma copy_pointer_nil: "(fst (copy_pointer wrap un f r h) = None) = (r = None)"
  by (simp add: copy_pointer_def copy_ref_def split: option.split prod.split)

lemma config_object_copy:
  assumes "config_pointer h p"
  shows "case DeviceConfig_DeepCopyObject p h of
      (None, h') \<Rightarrow> p = None
    | (Some (kind, q), h') \<Rightarrow> p \<noteq> None \<and> kind = ''DeviceConfig'' \<and> q \<noteq> None \<and>
        separate_copy config_at config_cells h p h' q"
proof -
  obtain q h' where q: "DeviceConfig_DeepCopy p h = (q, h')" by fastforce
  with copy_pointer_nil [of ConfigCell as_config DeviceConfig_DeepCopyInto p h] have "(q = None) = (p = None)"
    by (simp add: DeviceConfig_DeepCopy_def)
  then show ?thesis
    unfolding DeviceConfig_DeepCopyObject_def q using config_pointers.copy_separate [OF assms q] by (cases q) simp_all
qed

lemma list_object_copy:
  assumes "ref_valid Nothing ListCell as_list list_valid h l"
  shows "case DeviceConfigList_DeepCopyObject l h of
      (None, h') \<Rightarrow> l = None
    | (Some (kind, q), h') \<Rightarrow> l \<noteq> None \<and> kind = ''DeviceConfigList'' \<and> q \<noteq> None \<and>
        separate_copy (ref_view Nothing as_list list_view) (ref_locs Nothing as_list list_locs) h l h' q"
proof -
  obtain q h' where q: "DeviceConfigList_DeepCopy l h = (q, h')" by fastforce
  with copy_pointer_nil [of ListCell as_list DeviceConfigList_DeepCopyInto l h] have "(q = None) = (l = None)"
    by (simp add: DeviceConfigList_DeepCopy_def)
  then show ?thesis
    unfolding DeviceConfigList_DeepCopyObject_def q using list_pointers.copy_separate [OF assms q] by (cases q) simp_all
qed

lemma spec_copy:
  assumes "ref_valid Nothing SpecCell as_spec spec_valid h sp"
  shows "case DeviceConfigSpec_DeepCopy sp h of (q, h') \<Rightarrow> (q = None) = (sp = None) \<and>
    separate_copy (ref_view Nothing as_spec spec_value) (ref_locs Nothing as_spec spec_locs) h sp h' q"
  using spec_pointers.copy_separate [OF assms] copy_pointer_nil [of SpecCell as_spec DeviceConfigSpec_DeepCopyInto sp h]
  by (auto simp: DeviceConfigSpec_DeepCopy_def split: prod.split)

lemma status_copy:
  assumes "ref_valid Nothing StatusCell as_status status_valid h st"
  shows "case DeviceConfigStatus_DeepCopy st h of (q, h') \<Rightarrow> (q = None) = (st = None) \<and>
    separate_copy (ref_view Nothing as_status status_view) (ref_locs Nothing as_status status_locs) h st h' q"
  using status_pointers.copy_separate [OF assms] copy_pointer_nil [of StatusCell as_status DeviceConfigStatus_DeepCopyInto st h]
  by (auto simp: DeviceConfigStatus_DeepCopy_def split: prod.split)

text \<open>
  C23. Deep copies share nothing. The copy of a pointer that is not nil is an object of the same type that is not
  nil, in new memory: it has the same value as the original, down to which maps and slices are
  nil, all of it in cells that the original does not use; and whatever is later written to the cells of the copy
  leaves the value of the original unchanged, and the other way round. A nil pointer gives the nil interface. This holds
  for \<open>DeviceConfig\<close>, for its list with all items, and (without the interface) for spec and status.
\<close>

theorem deep_copies_separate:
  shows "(config_pointer h p \<longrightarrow>
       (case DeviceConfig_DeepCopyObject p h of
          (None, h') \<Rightarrow> p = None
        | (Some (kind, q), h') \<Rightarrow> p \<noteq> None \<and> kind = ''DeviceConfig'' \<and> q \<noteq> None \<and>
            separate_copy config_at config_cells h p h' q)) \<and>
    (ref_valid Nothing ListCell as_list list_valid h l \<longrightarrow>
       (case DeviceConfigList_DeepCopyObject l h of
          (None, h') \<Rightarrow> l = None
        | (Some (kind, q), h') \<Rightarrow> l \<noteq> None \<and> kind = ''DeviceConfigList'' \<and> q \<noteq> None \<and>
            separate_copy (ref_view Nothing as_list list_view) (ref_locs Nothing as_list list_locs) h l h' q)) \<and>
    (ref_valid Nothing SpecCell as_spec spec_valid h sp \<longrightarrow>
       (case DeviceConfigSpec_DeepCopy sp h of (q, h') \<Rightarrow> (q = None) = (sp = None) \<and>
          separate_copy (ref_view Nothing as_spec spec_value) (ref_locs Nothing as_spec spec_locs) h sp h' q)) \<and>
    (ref_valid Nothing StatusCell as_status status_valid h st \<longrightarrow>
       (case DeviceConfigStatus_DeepCopy st h of (q, h') \<Rightarrow> (q = None) = (st = None) \<and>
          separate_copy (ref_view Nothing as_status status_view) (ref_locs Nothing as_status status_locs) h st h' q))"
  by (intro conjI impI config_object_copy list_object_copy spec_copy status_copy)

text \<open>A resource in memory with a finalizer, labels and a node selector, whose copy is written to.\<close>

definition sample_memory :: memory where
  "sample_memory = fmap_of_list
     [(0, ConfigCell (zero_config\<lparr>
            gd_objectMeta := zero_meta\<lparr>gom_name := ''gaudi'', gom_labels := Some 1, gom_finalizers := Some 2\<rparr>,
            gd_spec := zero_spec\<lparr>gs_nodeSelector := Some 3\<rparr>\<rparr>)),
      (1, MapCell (fmap_of_list [(''app'', ''ai'')])), (2, StringsCell [DeviceConfigDeletionFinalizer]),
      (3, MapCell (fmap_of_list [(''node'', ''a'')]))]"

lemma sample_memory_valid: "config_pointer sample_memory (Some 0)"
  by (simp add: config_pointer_def ref_valid_def load_def sample_memory_def config_valid_def meta_valid_def spec_valid_def
      status_valid_def owners_valid_def zero_config_def zero_meta_def zero_spec_def)

lemma deep_copies_separate_run:
  "\<exists>q h'. DeviceConfig_DeepCopyObject (Some 0) sample_memory = (Some (''DeviceConfig'', q), h') \<and>
     config_at h' q = config_at sample_memory (Some 0) \<and>
     (\<forall>h2. (\<forall>l. l \<notin> config_cells h' q \<longrightarrow> fmlookup h2 l = fmlookup h' l) \<longrightarrow>
        config_at h2 (Some 0) = config_at sample_memory (Some 0))"
  using deep_copies_separate [of sample_memory "Some 0" None None None] sample_memory_valid
  by (auto simp: separate_copy_def split: prod.splits option.splits)

end
