(* ===== verification/Go_Mock.thy ===== *)
theory Go_Mock
  imports Workload_Types Label_Selectors
begin

text \<open>
  The mocking library of the tests (vendored \<^verbatim>\<open>gomock\<close>): a controller holds the calls that a test
  expects; a mocked method looks for one that matches, and fails the test where there is none. The texts
  of its messages are left out. A failed test ends its goroutine; here the program goes on
  with zero values, on a controller that ignores everything, and the failure is kept.
\<close>

section \<open>Values, matchers and calls\<close>

text \<open>The values that the operator's interfaces pass. A pointer is compared by what it points to.\<close>

datatype go_value =
    GoNil | GoContext | GoError go_error | GoBool bool | GoString string | GoKey object_key
  | GoConfig device_config | GoModule "kmm_module option" | GoDaemonSet "daemon_set option" | GoService "service option"
  | GoNode node | GoSelector selector | GoMergeFrom go_value | GoSlice "go_value list" | GoList "go_value list"
  | GoMock nat | GoOther string

datatype matcher = Any | Eq go_value | IsNil

fun nil_value :: "go_value \<Rightarrow> bool" where
  "nil_value GoNil = True"
| "nil_value (GoModule None) = True"
| "nil_value (GoDaemonSet None) = True"
| "nil_value (GoService None) = True"
| "nil_value _ = False"

fun matcher_Matches :: "matcher \<Rightarrow> go_value \<Rightarrow> bool" where
  "matcher_Matches Any x = True"
| "matcher_Matches (Eq y) x = (y = x)"
| "matcher_Matches IsNil x = nil_value x"

text \<open>What a test passes where it records a call: a matcher, or a value to be equal to.\<close>

datatype expected_arg = Matching matcher | Value go_value

record method_type =
  mt_NumIn :: nat
  mt_IsVariadic :: bool
  mt_zeros :: "go_value list"

text \<open>An action sees the arguments, may change what they point to, and may set the results.\<close>

type_synonym mock_action = "go_value list \<Rightarrow> go_value list \<times> go_value list option"

record mock_call =
  mc_receiver :: nat
  mc_method :: string
  mc_methodType :: method_type
  mc_args :: "matcher list"
  mc_preReqs :: "nat list"
  mc_minCalls :: nat
  mc_maxCalls :: nat
  mc_numCalls :: nat
  mc_actions :: "mock_action list"

definition newCall :: "nat \<Rightarrow> string \<Rightarrow> method_type \<Rightarrow> expected_arg list \<Rightarrow> mock_call" where
  "newCall receiver meth methodType args =
     \<lparr>mc_receiver = receiver, mc_method = meth, mc_methodType = methodType,
      mc_args = map (\<lambda>arg. case arg of Matching m \<Rightarrow> m | Value v \<Rightarrow> if v = GoNil then IsNil else Eq v) args,
      mc_preReqs = [], mc_minCalls = 1, mc_maxCalls = 1, mc_numCalls = 0,
      mc_actions = [\<lambda>args. (args, Some (mt_zeros methodType))]\<rparr>"

definition satisfied :: "mock_call \<Rightarrow> bool" where
  "satisfied c \<longleftrightarrow> mc_numCalls c \<ge> mc_minCalls c"

definition call_exhausted :: "mock_call \<Rightarrow> bool" where
  "call_exhausted c \<longleftrightarrow> mc_numCalls c \<ge> mc_maxCalls c"

text \<open>The arguments of a variadic method: a matcher in the last place may match the rest as one slice.\<close>

fun variadic_match :: "nat \<Rightarrow> go_value list \<Rightarrow> nat \<Rightarrow> matcher list \<Rightarrow> bool" where
  "variadic_match fixed args i [] = True"
| "variadic_match fixed args i (m # ms) =
     (if i < fixed then matcher_Matches m (args ! i) \<and> variadic_match fixed args (i + 1) ms
      else if i < length args \<and> matcher_Matches m (args ! i) then variadic_match fixed args (i + 1) ms
      else matcher_Matches m (GoSlice (drop i args)))"

definition args_match :: "mock_call \<Rightarrow> go_value list \<Rightarrow> bool" where
  "args_match c args =
     (let numIn = mt_NumIn (mc_methodType c) in
      if \<not> mt_IsVariadic (mc_methodType c) then
        length args = length (mc_args c) \<and> list_all2 matcher_Matches (mc_args c) args
      else if length (mc_args c) < numIn - 1 then False
      else if length (mc_args c) \<noteq> numIn \<and> length args \<noteq> length (mc_args c) then False
      else if length args < length (mc_args c) - 1 then False
      else variadic_match (numIn - 1) args 0 (mc_args c))"

fun run_actions :: "mock_action list \<Rightarrow> go_value list \<Rightarrow> go_value list \<Rightarrow> go_value list \<times> go_value list" where
  "run_actions [] args rets = (args, rets)"
| "run_actions (action # actions) args rets =
     (case action args of (args, r) \<Rightarrow> run_actions actions args (case r of None \<Rightarrow> rets | Some r \<Rightarrow> r))"

section \<open>The controller\<close>

text \<open>Calls are known by the order in which they were recorded, mocks by that in which they were made.\<close>

record mock_ctrl =
  ct_mocks :: nat
  ct_calls :: "mock_call list"
  ct_expected :: "nat \<times> string \<Rightarrow> nat list"
  ct_exhausted :: "nat \<times> string \<Rightarrow> nat list"
  ct_fatal :: bool

definition NewController :: mock_ctrl where
  "NewController = \<lparr>ct_mocks = 0, ct_calls = [], ct_expected = (\<lambda>_. []), ct_exhausted = (\<lambda>_. []), ct_fatal = False\<rparr>"

text \<open>A new mock of any type.\<close>

definition new_mock :: "(mock_ctrl, nat) effect" where
  "new_mock s = (ct_mocks s, s\<lparr>ct_mocks := ct_mocks s + 1\<rparr>)"

definition call_key :: "mock_call \<Rightarrow> nat \<times> string" where
  "call_key c = (mc_receiver c, mc_method c)"

definition callSet_Add :: "nat \<Rightarrow> mock_ctrl \<Rightarrow> mock_ctrl" where
  "callSet_Add i s =
     (let c = ct_calls s ! i; key = call_key c in
      if call_exhausted c then s\<lparr>ct_exhausted := (ct_exhausted s)(key := ct_exhausted s key @ [i])\<rparr>
      else s\<lparr>ct_expected := (ct_expected s)(key := ct_expected s key @ [i])\<rparr>)"

definition callSet_Remove :: "nat \<Rightarrow> mock_ctrl \<Rightarrow> mock_ctrl" where
  "callSet_Remove i s =
     (let key = call_key (ct_calls s ! i) in
      if i \<in> set (ct_expected s key) then
        s\<lparr>ct_expected := (ct_expected s)(key := remove1 i (ct_expected s key)),
          ct_exhausted := (ct_exhausted s)(key := ct_exhausted s key @ [i])\<rparr>
      else s)"

definition call_matches :: "mock_ctrl \<Rightarrow> mock_call \<Rightarrow> go_value list \<Rightarrow> bool" where
  "call_matches s c args \<longleftrightarrow>
     args_match c args \<and> list_all (\<lambda>p. satisfied (ct_calls s ! p)) (mc_preReqs c) \<and> \<not> call_exhausted c"

definition FindMatch :: "nat \<Rightarrow> string \<Rightarrow> go_value list \<Rightarrow> mock_ctrl \<Rightarrow> nat option" where
  "FindMatch receiver meth args s =
     find (\<lambda>i. call_matches s (ct_calls s ! i) args) (ct_expected s (receiver, meth))"

definition change_call :: "nat \<Rightarrow> (mock_call \<Rightarrow> mock_call) \<Rightarrow> mock_ctrl \<Rightarrow> mock_ctrl" where
  "change_call i f s = s\<lparr>ct_calls := (ct_calls s)[i := f (ct_calls s ! i)]\<rparr>"

definition RecordCallWithMethodType ::
    "nat \<Rightarrow> string \<Rightarrow> method_type \<Rightarrow> expected_arg list \<Rightarrow> (mock_ctrl, nat) effect" where
  "RecordCallWithMethodType receiver meth methodType args s =
     (let i = length (ct_calls s);
          s = s\<lparr>ct_calls := ct_calls s @ [newCall receiver meth methodType args]\<rparr>
      in (i, callSet_Add i s))"

definition dropPrereqs :: "nat \<Rightarrow> (mock_ctrl, nat list) effect" where
  "dropPrereqs i s = (mc_preReqs (ct_calls s ! i), change_call i (\<lambda>c. c\<lparr>mc_preReqs := []\<rparr>) s)"

definition ctrl_Call :: "nat \<Rightarrow> string \<Rightarrow> go_value list \<Rightarrow> (mock_ctrl, go_value list \<times> go_value list) effect" where
  "ctrl_Call receiver meth args s =
     (if ct_fatal s then ((args, []), s)
      else
        (case FindMatch receiver meth args s of
           None \<Rightarrow> ((args, []), s\<lparr>ct_fatal := True\<rparr>)
         | Some i \<Rightarrow>
             (let (preReqCalls, s) = dropPrereqs i s;
                  s = fold callSet_Remove preReqCalls s;
                  s = change_call i (\<lambda>c. c\<lparr>mc_numCalls := mc_numCalls c + 1\<rparr>) s;
                  actions = mc_actions (ct_calls s ! i);
                  s = (if call_exhausted (ct_calls s ! i) then callSet_Remove i s else s)
              in (run_actions actions args [], s))))"

text \<open>What a test says about a call it has recorded.\<close>

definition AnyTimes :: "nat \<Rightarrow> mock_ctrl \<Rightarrow> mock_ctrl" where
  "AnyTimes i = change_call i (\<lambda>c. c\<lparr>mc_minCalls := 0, mc_maxCalls := 100000000\<rparr>)"

definition addAction :: "mock_action \<Rightarrow> nat \<Rightarrow> mock_ctrl \<Rightarrow> mock_ctrl" where
  "addAction action i = change_call i (\<lambda>c. c\<lparr>mc_actions := mc_actions c @ [action]\<rparr>)"

definition Return :: "go_value list \<Rightarrow> nat \<Rightarrow> mock_ctrl \<Rightarrow> mock_ctrl" where
  "Return rets = addAction (\<lambda>args. (args, Some rets))"

definition DoAndReturn :: "(go_value list \<Rightarrow> go_value list \<times> go_value list) \<Rightarrow> nat \<Rightarrow> mock_ctrl \<Rightarrow> mock_ctrl" where
  "DoAndReturn f = addAction (\<lambda>args. case f args of (args, rets) \<Rightarrow> (args, Some rets))"

text \<open>Direct and indirect prerequisites; as many steps as there are calls are enough.\<close>

fun isPreReq :: "nat \<Rightarrow> mock_call list \<Rightarrow> nat \<Rightarrow> nat \<Rightarrow> bool" where
  "isPreReq 0 calls c other = False"
| "isPreReq (Suc n) calls c other =
     list_ex (\<lambda>p. other = p \<or> isPreReq n calls p other) (mc_preReqs (calls ! c))"

definition After :: "nat \<Rightarrow> nat \<Rightarrow> mock_ctrl \<Rightarrow> mock_ctrl" where
  "After c preReq s =
     (if c = preReq \<or> isPreReq (length (ct_calls s)) (ct_calls s) preReq c then s\<lparr>ct_fatal := True\<rparr>
      else change_call c (\<lambda>x. x\<lparr>mc_preReqs := mc_preReqs x @ [preReq]\<rparr>) s)"

fun InOrder :: "nat list \<Rightarrow> mock_ctrl \<Rightarrow> mock_ctrl" where
  "InOrder (a # b # calls) s = InOrder (b # calls) (After b a s)"
| "InOrder _ s = s"

text \<open>The end of the test: it fails for calls that were expected and are missing.\<close>

definition Failures :: "mock_ctrl \<Rightarrow> nat list" where
  "Failures s =
     filter (\<lambda>i. i \<in> set (ct_expected s (call_key (ct_calls s ! i))) \<and> \<not> satisfied (ct_calls s ! i)) [0..<length (ct_calls s)]"

definition test_passes :: "mock_ctrl \<Rightarrow> bool" where
  "test_passes s \<longleftrightarrow> \<not> ct_fatal s \<and> Failures s = []"

end
