(* ===== verification/Expected_Calls.thy ===== *)
theory Expected_Calls
  imports Go_Mock
begin

text \<open>
  What a \<^verbatim>\<open>gomock\<close> controller amounts to: a list of pending calls, in the order in which they were recorded. A mocked
  method takes the first one that matches and whose prerequisites are satisfied; the prerequisites leave the list
  then, and so does the call itself once it was made as often as allowed. The test passes when every call that is left is
  satisfied. The controller, with its two indexed sets of calls and its counters, refines this list.
\<close>

type_synonym pending = "(nat \<times> mock_call) list"

definition awaited :: "pending \<Rightarrow> nat set" where
  "awaited ps = fst ` set (filter (\<lambda>(_, c). \<not> satisfied c) ps)"

definition takes :: "nat \<Rightarrow> string \<Rightarrow> go_value list \<Rightarrow> pending \<Rightarrow> nat \<times> mock_call \<Rightarrow> bool" where
  "takes receiver meth args ps = (\<lambda>(i, c). mc_receiver c = receiver \<and> mc_method c = meth \<and> args_match c args \<and>
     list_all (\<lambda>p. p \<notin> awaited ps) (mc_preReqs c))"

text \<open>What a test does to a call it has recorded, on the list.\<close>

definition change_pending :: "nat \<Rightarrow> (mock_call \<Rightarrow> mock_call) \<Rightarrow> pending \<Rightarrow> pending" where
  "change_pending i f ps = map (\<lambda>(j, c). (j, if j = i then f c else c)) ps"

definition drop_pending :: "nat list \<Rightarrow> pending \<Rightarrow> pending" where
  "drop_pending is ps = filter (\<lambda>(j, _). j \<notin> set is) ps"

definition call_made :: "mock_call \<Rightarrow> mock_call" where
  "call_made c = c\<lparr>mc_preReqs := [], mc_numCalls := mc_numCalls c + 1\<rparr>"

definition pending_call :: "nat \<Rightarrow> string \<Rightarrow> go_value list \<Rightarrow> pending \<Rightarrow> ((go_value list \<times> go_value list) \<times> pending) option" where
  "pending_call receiver meth args ps =
     (case find (takes receiver meth args ps) ps of
        None \<Rightarrow> None
      | Some (i, c) \<Rightarrow>
          Some (run_actions (mc_actions c) args [],
            if call_exhausted (call_made c) then drop_pending (mc_preReqs c @ [i]) ps
            else change_pending i call_made (drop_pending (mc_preReqs c) ps)))"

definition open_call :: "mock_call \<Rightarrow> bool" where
  "open_call c \<longleftrightarrow> mc_numCalls c < mc_maxCalls c \<and> mc_minCalls c \<le> mc_maxCalls c \<and> mc_maxCalls c \<le> 100000000"

text \<open>The relation between a controller and the list.\<close>

definition pends :: "mock_ctrl \<Rightarrow> pending \<Rightarrow> bool" where
  "pends s ps \<longleftrightarrow>
     \<not> ct_fatal s \<and> distinct (map fst ps) \<and>
     (\<forall>(i, c) \<in> set ps. i < length (ct_calls s) \<and> ct_calls s ! i = c \<and> open_call c) \<and>
     (\<forall>i < length (ct_calls s). i \<notin> fst ` set ps \<longrightarrow> satisfied (ct_calls s ! i)) \<and>
     (\<forall>i < length (ct_calls s). \<forall>p \<in> set (mc_preReqs (ct_calls s ! i)). p < i) \<and>
     (\<forall>key. ct_expected s key = map fst (filter (\<lambda>(i, c). call_key c = key) ps))"

lemma pendsD:
  assumes "pends s ps"
  shows "\<not> ct_fatal s" "distinct (map fst ps)"
    "(i, c) \<in> set ps \<Longrightarrow> i < length (ct_calls s) \<and> ct_calls s ! i = c \<and> open_call c"
    "i < length (ct_calls s) \<Longrightarrow> i \<notin> fst ` set ps \<Longrightarrow> satisfied (ct_calls s ! i)"
    "i < length (ct_calls s) \<Longrightarrow> p \<in> set (mc_preReqs (ct_calls s ! i)) \<Longrightarrow> p < i"
    "ct_expected s key = map fst (filter (\<lambda>(i, c). call_key c = key) ps)"
proof -
  show "\<not> ct_fatal s" "distinct (map fst ps)"
    using assms by (simp_all add: pends_def)
  show "ct_expected s key = map fst (filter (\<lambda>(i, c). call_key c = key) ps)"
    using assms by (cases key) (simp add: pends_def)
  show "(i, c) \<in> set ps \<Longrightarrow> i < length (ct_calls s) \<and> ct_calls s ! i = c \<and> open_call c"
    using assms by (auto simp: pends_def)
  show "i < length (ct_calls s) \<Longrightarrow> i \<notin> fst ` set ps \<Longrightarrow> satisfied (ct_calls s ! i)"
    "i < length (ct_calls s) \<Longrightarrow> p \<in> set (mc_preReqs (ct_calls s ! i)) \<Longrightarrow> p < i"
    using assms by (simp_all add: pends_def)
qed

lemma pends_new: "pends NewController []"
  by (simp add: pends_def NewController_def)

lemma fst_change_pending [simp]: "map fst (change_pending i f ps) = map fst ps"
  by (induction ps) (auto simp: change_pending_def)

lemma fst_set_change_pending [simp]: "fst ` set (change_pending i f ps) = fst ` set ps"
  by (metis fst_change_pending set_map)

lemma fst_set_drop_pending [simp]: "fst ` set (drop_pending is ps) = fst ` set ps - set is"
  by (force simp: drop_pending_def)

lemma filter_change_pending:
  assumes "\<And>c. call_key (f c) = call_key c"
  shows "map fst (filter (\<lambda>(i, c). call_key c = key) (change_pending i f ps)) =
    map fst (filter (\<lambda>(i, c). call_key c = key) ps)"
proof (induction ps)
  case (Cons x ps)
  obtain j c where "x = (j, c)" by (cases x)
  with Cons show ?case by (simp add: change_pending_def assms)
qed (simp add: change_pending_def)

section \<open>Calling\<close>

lemma find_map_filter: "find P (map f (filter Q xs)) = map_option f (find (\<lambda>x. Q x \<and> P (f x)) xs)"
  by (induction xs) auto

lemma find_cong': "(\<And>x. x \<in> set xs \<Longrightarrow> P x = Q x) \<Longrightarrow> find P xs = find Q xs"
  by (induction xs) auto

lemma satisfied_iff:
  assumes "pends s ps" "p < length (ct_calls s)"
  shows "satisfied (ct_calls s ! p) \<longleftrightarrow> p \<notin> awaited ps"
proof
  show "p \<notin> awaited ps" if "satisfied (ct_calls s ! p)"
    using that pendsD(3) [OF assms(1)] by (auto simp: awaited_def)
  show "satisfied (ct_calls s ! p)" if none: "p \<notin> awaited ps"
  proof (cases "p \<in> fst ` set ps")
    case True
    then obtain c where "(p, c) \<in> set ps" by force
    with pendsD(3) [OF assms(1)] none show ?thesis by (force simp: awaited_def)
  next
    case False
    with pendsD(4) [OF assms] show ?thesis by simp
  qed
qed

lemma FindMatch_pending:
  assumes "pends s ps"
  shows "FindMatch receiver meth args s = map_option fst (find (takes receiver meth args ps) ps)"
  unfolding takes_def FindMatch_def pendsD(6) [OF assms] find_map_filter
proof (rule arg_cong [where f = "map_option fst"], rule find_cong')
  fix x assume x: "x \<in> set ps"
  obtain i c where ic: "x = (i, c)" by (cases x)
  note call = pendsD(3) [OF assms x [unfolded ic]]
  have "satisfied (ct_calls s ! p) \<longleftrightarrow> p \<notin> awaited ps" if "p \<in> set (mc_preReqs c)" for p
    using satisfied_iff [OF assms] pendsD(5) [OF assms, of i p] call that by simp
  then show "((case x of (i, c) \<Rightarrow> call_key c = (receiver, meth)) \<and> call_matches s (ct_calls s ! fst x) args) =
      (case x of (i, c) \<Rightarrow> mc_receiver c = receiver \<and> mc_method c = meth \<and> args_match c args \<and>
         list_all (\<lambda>p. p \<notin> awaited ps) (mc_preReqs c))"
    using call by (auto simp: ic call_matches_def call_key_def open_call_def call_exhausted_def list_all_iff)
qed

text \<open>Removing calls from the set of expected ones.\<close>

definition indexed :: "mock_ctrl \<Rightarrow> bool" where
  "indexed s \<longleftrightarrow> (\<forall>receiver meth. distinct (ct_expected s (receiver, meth)) \<and>
     (\<forall>j \<in> set (ct_expected s (receiver, meth)). call_key (ct_calls s ! j) = (receiver, meth)))"

lemma indexedD:
  assumes "indexed s"
  shows "distinct (ct_expected s key)" "j \<in> set (ct_expected s key) \<Longrightarrow> call_key (ct_calls s ! j) = key"
  using assms by (cases key, simp add: indexed_def)+

lemma callSet_Remove_expected:
  assumes "indexed s"
  shows "ct_expected (callSet_Remove p s) key = filter (\<lambda>j. j \<noteq> p) (ct_expected s key)"
    "ct_calls (callSet_Remove p s) = ct_calls s" "ct_fatal (callSet_Remove p s) = ct_fatal s"
proof -
  have absent: "filter (\<lambda>j. j \<noteq> p) (ct_expected s key) = ct_expected s key" if "p \<notin> set (ct_expected s key)"
    using that by (simp add: filter_id_conv) blast
  have present: "filter (\<lambda>j. j \<noteq> p) (ct_expected s key) = remove1 p (ct_expected s key)"
    using indexedD(1) [OF assms] by (simp add: distinct_remove1_removeAll removeAll_filter_not_eq) (metis (full_types))
  show "ct_expected (callSet_Remove p s) key = filter (\<lambda>j. j \<noteq> p) (ct_expected s key)"
  proof (cases "key = call_key (ct_calls s ! p)")
    case True
    then show ?thesis using present absent by (simp add: callSet_Remove_def Let_def)
  next
    case False
    then have "p \<notin> set (ct_expected s key)" using indexedD(2) [OF assms] by blast
    then show ?thesis using absent False by (simp add: callSet_Remove_def Let_def)
  qed
qed (simp_all add: callSet_Remove_def Let_def)

lemma fold_Remove_expected:
  assumes "indexed s"
  shows "indexed (fold callSet_Remove is s)"
    "ct_expected (fold callSet_Remove is s) key = filter (\<lambda>j. j \<notin> set is) (ct_expected s key)"
    "ct_calls (fold callSet_Remove is s) = ct_calls s" "ct_fatal (fold callSet_Remove is s) = ct_fatal s"
  using assms
proof (induction "is" arbitrary: s)
  case (Cons p "is")
  have next_indexed: "indexed (callSet_Remove p s)" if "indexed s" for s
    unfolding indexed_def using callSet_Remove_expected [OF that] indexedD [OF that] by simp
  case 1 show ?case using Cons.IH(1) [OF next_indexed] 1 by simp
  case 2 show ?case using Cons.IH(2) [OF next_indexed] callSet_Remove_expected(1) [OF 2] 2 by simp
  case 3 show ?case using Cons.IH(3) [OF next_indexed] callSet_Remove_expected(2) [OF 3] 3 by simp
  case 4 show ?case using Cons.IH(4) [OF next_indexed] callSet_Remove_expected(3) [OF 4] 4 by simp
qed simp_all

lemma pends_indexed: "pends s ps \<Longrightarrow> indexed s"
proof -
  assume p: "pends s ps"
  have "distinct (map fst (filter (\<lambda>(i, c). Q i c) ps))" for Q using pendsD(2) [OF p] by (rule distinct_map_filter)
  moreover have "call_key (ct_calls s ! j) = key" if "j \<in> set (ct_expected s key)" for j key
    using that pendsD(3) [OF p] unfolding pendsD(6) [OF p] by auto
  ultimately show ?thesis unfolding indexed_def pendsD(6) [OF p] by (auto simp: pendsD(6) [OF p])
qed

lemma filter_drop_pending:
  "map fst (filter (\<lambda>(i, c). call_key c = key) (drop_pending is ps)) =
     filter (\<lambda>j. j \<notin> set is) (map fst (filter (\<lambda>(i, c). call_key c = key) ps))"
  by (simp add: drop_pending_def filter_map comp_def case_prod_unfold conj_commute)

text \<open>A call that was made leaves the list of a controller that has counted it and removed what is done.\<close>

lemma pends_made:
  assumes "pends s ps" "(i, c) \<in> set ps" "list_all (\<lambda>p. p \<notin> awaited ps) (mc_preReqs c)"
    and gone: "gone = mc_preReqs c @ (if call_exhausted (call_made c) then [i] else [])"
    and s': "ct_calls s' = (ct_calls s)[i := call_made c]" "ct_fatal s' = ct_fatal s"
      "\<And>key. ct_expected s' key = filter (\<lambda>j. j \<notin> set gone) (ct_expected s key)"
  shows "pends s' (change_pending i call_made (drop_pending gone ps))"
proof -
  note call = pendsD(3) [OF assms(1,2)]
  have key: "call_key (call_made d) = call_key d" for d by (simp add: call_made_def call_key_def)
  have earlier: "p < i" if "p \<in> set (mc_preReqs c)" for p using pendsD(5) [OF assms(1), of i p] that call by simp
  show ?thesis
    unfolding pends_def
  proof (intro conjI allI impI ballI)
    show "\<not> ct_fatal s'" "distinct (map fst (change_pending i call_made (drop_pending gone ps)))"
      using pendsD(1,2) [OF assms(1)] by (simp_all add: s' drop_pending_def distinct_map_filter)
    show "ct_expected s' k = map fst (filter (\<lambda>(i, c). call_key c = k) (change_pending i call_made (drop_pending gone ps)))" for k
      by (simp add: s' pendsD(6) [OF assms(1)] filter_change_pending key filter_drop_pending)
  next
    fix x assume "x \<in> set (change_pending i call_made (drop_pending gone ps))"
    then obtain j d where x: "x = (j, if j = i then call_made d else d)" "(j, d) \<in> set ps" "j \<notin> set gone"
      by (auto simp: change_pending_def drop_pending_def)
    have "open_call (call_made c)" if "\<not> call_exhausted (call_made c)"
      using that call by (auto simp: open_call_def call_made_def call_exhausted_def)
    then show "case x of (j, d) \<Rightarrow> j < length (ct_calls s') \<and> ct_calls s' ! j = d \<and> open_call d"
      using x pendsD(3) [OF assms(1) x(2)] call by (auto simp: s' gone split: if_splits)
  next
    fix j assume j: "j < length (ct_calls s')" "j \<notin> fst ` set (change_pending i call_made (drop_pending gone ps))"
    show "satisfied (ct_calls s' ! j)"
    proof (cases "j = i")
      case True
      have "i \<in> fst ` set ps" using assms(2) by force
      with j(2) True have "i \<in> set gone" by simp
      then have "call_exhausted (call_made c)" using earlier by (auto simp: gone split: if_splits)
      then show ?thesis using True call by (simp add: s' satisfied_def call_exhausted_def call_made_def open_call_def)
    next
      case False
      with j(2) have "j \<notin> fst ` set ps \<or> j \<in> set (mc_preReqs c)" by (auto simp: gone split: if_splits)
      then have "satisfied (ct_calls s ! j)"
        using pendsD(4) [OF assms(1)] satisfied_iff [OF assms(1)] assms(3) j(1) by (auto simp: s' list_all_iff)
      then show ?thesis using False by (simp add: s')
    qed
  next
    fix j p assume "j < length (ct_calls s')" "p \<in> set (mc_preReqs (ct_calls s' ! j))"
    then show "p < j" using pendsD(5) [OF assms(1), of j p] by (cases "j = i") (auto simp: s' call_made_def)
  qed
qed

lemma pending_call_refined:
  assumes "pends s ps"
  shows "case pending_call receiver meth args ps of
      None \<Rightarrow> ctrl_Call receiver meth args s = ((args, []), s\<lparr>ct_fatal := True\<rparr>)
    | Some (out, ps') \<Rightarrow> (\<exists>s'. ctrl_Call receiver meth args s = (out, s') \<and> pends s' ps')"
proof (cases "find (takes receiver meth args ps) ps")
  case None
  then show ?thesis using pendsD(1) [OF assms] by (simp add: pending_call_def ctrl_Call_def FindMatch_pending [OF assms])
next
  case (Some x)
  obtain i c where ic: "x = (i, c)" by (cases x)
  have c: "(i, c) \<in> set ps" "list_all (\<lambda>p. p \<notin> awaited ps) (mc_preReqs c)"
    using Some nth_mem unfolding find_Some_iff takes_def ic by force+
  note call = pendsD(3) [OF assms c(1)]
  define gone where "gone = mc_preReqs c @ (if call_exhausted (call_made c) then [i] else [])"
  define s1 where "s1 = change_call i (\<lambda>c. c\<lparr>mc_preReqs := []\<rparr>) s"
  define s3 where "s3 = change_call i (\<lambda>c. c\<lparr>mc_numCalls := Suc (mc_numCalls c)\<rparr>) (fold callSet_Remove (mc_preReqs c) s1)"
  define s4 where "s4 = (if call_exhausted (call_made c) then callSet_Remove i s3 else s3)"
  have keep: "call_key ((ct_calls s)[i := f (ct_calls s ! i)] ! j) = call_key (ct_calls s ! j)"
    if "\<And>c. call_key (f c) = call_key c" for f j
    using that by (cases "j = i"; cases "i < length (ct_calls s)") (simp_all add: list_update_beyond)
  have s1: "indexed s1"
    using pends_indexed [OF assms] keep [of "\<lambda>c. c\<lparr>mc_preReqs := []\<rparr>"]
    by (simp add: s1_def indexed_def change_call_def call_key_def)
  note s2 = fold_Remove_expected [OF s1, of "mc_preReqs c"]
  have calls3: "ct_calls s3 = (ct_calls s)[i := call_made c]"
    using call by (simp add: s3_def change_call_def s2(3)) (simp add: s1_def change_call_def call_made_def)
  have "call_key (ct_calls s3 ! j) = call_key (ct_calls s1 ! j)" for j
    using call by (cases "j = i") (simp_all add: calls3, simp_all add: s1_def change_call_def call_made_def call_key_def)
  then have "indexed s3"
    using s2(1) unfolding indexed_def s2(3) by (simp add: s3_def change_call_def)
  note s4 = callSet_Remove_expected [OF this, of i]
  have "ctrl_Call receiver meth args s = (run_actions (mc_actions c) args [], s4)"
    using pendsD(1) [OF assms] call Some calls3
    by (simp add: ctrl_Call_def FindMatch_pending [OF assms] ic dropPrereqs_def s1_def [symmetric] s3_def [symmetric]
        s4_def Let_def) (simp add: call_made_def)
  moreover have "pends s4 (change_pending i call_made (drop_pending gone ps))"
  proof (rule pends_made [OF assms c gone_def])
    show "ct_calls s4 = (ct_calls s)[i := call_made c]" by (simp add: s4_def s4 calls3)
    have same: "ct_fatal s3 = ct_fatal s" "ct_expected s3 key = filter (\<lambda>j. j \<notin> set (mc_preReqs c)) (ct_expected s key)" for key
      by (simp_all add: s3_def change_call_def s2(2,4)) (simp_all add: s1_def change_call_def)
    then show "ct_fatal s4 = ct_fatal s" by (simp add: s4_def s4)
    show "ct_expected s4 key = filter (\<lambda>j. j \<notin> set gone) (ct_expected s key)" for key
      by (auto simp: s4_def s4 gone_def same intro: filter_cong)
  qed
  moreover have "change_pending i call_made (drop_pending (mc_preReqs c @ [i]) ps) = drop_pending (mc_preReqs c @ [i]) ps"
    by (auto simp: change_pending_def drop_pending_def intro!: map_idI)
  ultimately show ?thesis using Some by (cases "call_exhausted (call_made c)") (simp_all add: pending_call_def ic gone_def)
qed

section \<open>Recording\<close>

lemma pends_record:
  assumes "pends s ps" "RecordCallWithMethodType receiver meth mt args s = (i, s')"
  shows "i = length (ct_calls s)" "length (ct_calls s') = length (ct_calls s) + 1"
    "pends s' (ps @ [(i, newCall receiver meth mt args)])"
proof -
  let ?c = "newCall receiver meth mt args"
  have c: "open_call ?c" "mc_preReqs ?c = []" "\<not> call_exhausted ?c"
    by (simp_all add: newCall_def open_call_def call_exhausted_def)
  have i: "i = length (ct_calls s)" and s': "s' = s\<lparr>ct_calls := ct_calls s @ [?c],
      ct_expected := (ct_expected s)(call_key ?c := ct_expected s (call_key ?c) @ [i])\<rparr>"
    using assms(2) c(3) by (auto simp: RecordCallWithMethodType_def callSet_Add_def Let_def)
  show "i = length (ct_calls s)" "length (ct_calls s') = length (ct_calls s) + 1" by (simp_all add: i s')
  have fresh: "i \<notin> fst ` set ps" using pendsD(3) [OF assms(1)] by (fastforce simp: i)
  show "pends s' (ps @ [(i, ?c)])"
    unfolding pends_def
  proof (intro conjI allI impI ballI)
    show "\<not> ct_fatal s'" "distinct (map fst (ps @ [(i, ?c)]))"
      using pendsD(1,2) [OF assms(1)] fresh by (simp_all add: s')
    show "ct_expected s' key = map fst (filter (\<lambda>(i, c). call_key c = key) (ps @ [(i, ?c)]))" for key
      using pendsD(6) [OF assms(1), of key] by (cases "key = call_key ?c") (simp_all add: s')
    show "case x of (i, c) \<Rightarrow> i < length (ct_calls s') \<and> ct_calls s' ! i = c \<and> open_call c"
      if "x \<in> set (ps @ [(i, ?c)])" for x
      using that pendsD(3) [OF assms(1)] c(1) by (auto simp: s' i nth_append intro: less_SucI)
  next
    fix j assume j: "j < length (ct_calls s')"
    show "satisfied (ct_calls s' ! j)" if "j \<notin> fst ` set (ps @ [(i, ?c)])"
      using that j pendsD(4) [OF assms(1), of j] by (simp add: s' i nth_append)
    show "p < j" if "p \<in> set (mc_preReqs (ct_calls s' ! j))" for p
      using that j pendsD(5) [OF assms(1), of j p] c(2) by (auto simp: s' i nth_append split: if_splits)
  qed
qed

lemma pends_change:
  assumes "pends s ps" "i < length (ct_calls s)"
    and "\<And>c. call_key (f c) = call_key c" "\<And>c. open_call c \<Longrightarrow> open_call (f c)" "\<And>c. satisfied c \<Longrightarrow> satisfied (f c)"
    and "\<And>p. p \<in> set (mc_preReqs (f (ct_calls s ! i))) \<Longrightarrow> p < i"
  shows "pends (change_call i f s) (change_pending i f ps)"
  unfolding pends_def
proof (intro conjI allI impI ballI)
  show "\<not> ct_fatal (change_call i f s)" "distinct (map fst (change_pending i f ps))"
    using pendsD(1,2) [OF assms(1)] by (simp_all add: change_call_def)
  show "ct_expected (change_call i f s) key = map fst (filter (\<lambda>(i, c). call_key c = key) (change_pending i f ps))" for key
    using pendsD(6) [OF assms(1), of key] assms(3) by (simp add: change_call_def filter_change_pending)
  show "case x of (j, c) \<Rightarrow> j < length (ct_calls (change_call i f s)) \<and> ct_calls (change_call i f s) ! j = c \<and> open_call c"
    if "x \<in> set (change_pending i f ps)" for x
    using that pendsD(3) [OF assms(1)] assms(2,4) by (auto simp: change_pending_def change_call_def)
next
  fix j assume j: "j < length (ct_calls (change_call i f s))"
  show "satisfied (ct_calls (change_call i f s) ! j)" if "j \<notin> fst ` set (change_pending i f ps)"
    using that j pendsD(4) [OF assms(1), of j] assms(5) by (cases "j = i") (simp_all add: change_call_def)
  show "p < j" if "p \<in> set (mc_preReqs (ct_calls (change_call i f s) ! j))" for p
    using that j pendsD(5) [OF assms(1), of j p] assms(6) [of p] by (cases "j = i") (simp_all add: change_call_def)
qed

lemmas change_defs = call_key_def open_call_def satisfied_def

lemma isPreReq_earlier:
  assumes "\<And>i p. i < length calls \<Longrightarrow> p \<in> set (mc_preReqs (calls ! i)) \<Longrightarrow> p < i"
    and "isPreReq n calls c other" "c < length calls"
  shows "other < c"
  using assms(2,3)
proof (induction n arbitrary: c)
  case (Suc n)
  then obtain p where p: "p \<in> set (mc_preReqs (calls ! c))" "other = p \<or> isPreReq n calls p other"
    by (auto simp: list_ex_iff)
  have "p < c" using assms(1) Suc.prems(2) p(1) by blast
  then show ?case using p(2) Suc.IH [of p] Suc.prems(2) by auto
qed simp

lemma pends_After:
  assumes "pends s ps" "p < i" "i < length (ct_calls s)"
  shows "pends (After i p s) (change_pending i (\<lambda>c. c\<lparr>mc_preReqs := mc_preReqs c @ [p]\<rparr>) ps)"
    "length (ct_calls (After i p s)) = length (ct_calls s)"
proof -
  have "\<not> isPreReq (length (ct_calls s)) (ct_calls s) p i"
    using isPreReq_earlier [of "ct_calls s" _ p i] pendsD(5) [OF assms(1)] assms(2,3) by fastforce
  then have After: "After i p s = change_call i (\<lambda>c. c\<lparr>mc_preReqs := mc_preReqs c @ [p]\<rparr>) s"
    using assms(2) by (simp add: After_def)
  then show "length (ct_calls (After i p s)) = length (ct_calls s)" by (simp add: change_call_def)
  show "pends (After i p s) (change_pending i (\<lambda>c. c\<lparr>mc_preReqs := mc_preReqs c @ [p]\<rparr>) ps)"
    unfolding After
    by (rule pends_change [OF assms(1,3)]) (use pendsD(5) [OF assms(1,3)] assms(2) in \<open>auto simp: change_defs\<close>)
qed

lemma pends_addAction:
  assumes "pends s ps" "i < length (ct_calls s)"
  shows "pends (addAction a i s) (change_pending i (\<lambda>c. c\<lparr>mc_actions := mc_actions c @ [a]\<rparr>) ps)"
    "length (ct_calls (addAction a i s)) = length (ct_calls s)"
proof -
  show "pends (addAction a i s) (change_pending i (\<lambda>c. c\<lparr>mc_actions := mc_actions c @ [a]\<rparr>) ps)"
    unfolding addAction_def
    by (rule pends_change [OF assms]) (use pendsD(5) [OF assms] in \<open>simp_all add: change_defs\<close>)
qed (simp add: addAction_def change_call_def)

lemma pends_AnyTimes:
  assumes "pends s ps" "i < length (ct_calls s)"
  shows "pends (AnyTimes i s) (change_pending i (\<lambda>c. c\<lparr>mc_minCalls := 0, mc_maxCalls := 100000000\<rparr>) ps)"
    "length (ct_calls (AnyTimes i s)) = length (ct_calls s)"
proof -
  show "pends (AnyTimes i s) (change_pending i (\<lambda>c. c\<lparr>mc_minCalls := 0, mc_maxCalls := 100000000\<rparr>) ps)"
    unfolding AnyTimes_def
    by (rule pends_change [OF assms]) (use pendsD(5) [OF assms] in \<open>simp_all add: change_defs\<close>)
qed (simp add: AnyTimes_def change_call_def)

lemma test_passes_pends: "pends s ps \<Longrightarrow> test_passes s \<longleftrightarrow> list_all (\<lambda>(_, c). satisfied c) ps"
proof
  assume p: "pends s ps"
  show "list_all (\<lambda>(_, c). satisfied c) ps" if "test_passes s"
  proof (rule ccontr)
    assume "\<not> list_all (\<lambda>(_, c). satisfied c) ps"
    then obtain i c where ic: "(i, c) \<in> set ps" "\<not> satisfied c" by (auto simp: list_all_iff)
    note call = pendsD(3) [OF p ic(1)]
    have "i \<in> set (ct_expected s (call_key c))" using ic unfolding pendsD(6) [OF p] by force
    then have "i \<in> set (Failures s)" using call ic(2) by (auto simp: Failures_def)
    then show False using that by (simp add: test_passes_def)
  qed
  show "test_passes s" if all: "list_all (\<lambda>(_, c). satisfied c) ps"
  proof -
    have "satisfied (ct_calls s ! i)" if "i < length (ct_calls s)" for i
      using satisfied_iff [OF p that] all by (auto simp: awaited_def list_all_iff)
    then show ?thesis using pendsD(1) [OF p] by (simp add: test_passes_def Failures_def filter_empty_conv)
  qed
qed

section \<open>A test as a sequence of steps\<close>

text \<open>
  What a test does with a controller: it records a call, gives it its results, allows it any number of times, orders it after an earlier one, and
  the code under test makes a call.
\<close>

datatype test_step =
    Record nat string method_type "expected_arg list"
  | Give nat mock_action
  | Often nat
  | Order nat nat
  | Make nat string "go_value list"

fun mock_step :: "test_step \<Rightarrow> (mock_ctrl, (go_value list \<times> go_value list) option) effect" where
  "mock_step (Record receiver meth mt args) s = (case RecordCallWithMethodType receiver meth mt args s of (_, s) \<Rightarrow> (None, s))"
| "mock_step (Give i action) s = (None, addAction action i s)"
| "mock_step (Often i) s = (None, AnyTimes i s)"
| "mock_step (Order i p) s = (None, After i p s)"
| "mock_step (Make receiver meth args) s = (case ctrl_Call receiver meth args s of (out, s) \<Rightarrow> (Some out, s))"

fun mock_steps :: "test_step list \<Rightarrow> (mock_ctrl, (go_value list \<times> go_value list) option list) effect" where
  "mock_steps [] s = ([], s)"
| "mock_steps (step # steps) s =
     (case mock_step step s of (out, s) \<Rightarrow> case mock_steps steps s of (outs, s) \<Rightarrow> (out # outs, s))"

text \<open>The same steps on the list, which also knows how many calls were recorded; none where a call is unexpected.\<close>

fun list_step :: "test_step \<Rightarrow> nat \<times> pending \<Rightarrow> ((go_value list \<times> go_value list) option \<times> nat \<times> pending) option" where
  "list_step (Record receiver meth mt args) (n, ps) = Some (None, n + 1, ps @ [(n, newCall receiver meth mt args)])"
| "list_step (Give i action) (n, ps) = Some (None, n, change_pending i (\<lambda>c. c\<lparr>mc_actions := mc_actions c @ [action]\<rparr>) ps)"
| "list_step (Often i) (n, ps) = Some (None, n, change_pending i (\<lambda>c. c\<lparr>mc_minCalls := 0, mc_maxCalls := 100000000\<rparr>) ps)"
| "list_step (Order i p) (n, ps) = Some (None, n, change_pending i (\<lambda>c. c\<lparr>mc_preReqs := mc_preReqs c @ [p]\<rparr>) ps)"
| "list_step (Make receiver meth args) (n, ps) =
     (case pending_call receiver meth args ps of None \<Rightarrow> None | Some (out, ps) \<Rightarrow> Some (Some out, n, ps))"

fun list_steps ::
    "test_step list \<Rightarrow> nat \<times> pending \<Rightarrow> ((go_value list \<times> go_value list) option list \<times> nat \<times> pending) option" where
  "list_steps [] st = Some ([], st)"
| "list_steps (step # steps) st =
     (case list_step step st of
        None \<Rightarrow> None
      | Some (out, st) \<Rightarrow> (case list_steps steps st of None \<Rightarrow> None | Some (outs, st) \<Rightarrow> Some (out # outs, st)))"

text \<open>Calls are named after they are recorded, and ordered after earlier ones.\<close>

fun steps_ok :: "nat \<Rightarrow> test_step list \<Rightarrow> bool" where
  "steps_ok n [] = True"
| "steps_ok n (Record _ _ _ _ # steps) = steps_ok (n + 1) steps"
| "steps_ok n (Give i _ # steps) = (i < n \<and> steps_ok n steps)"
| "steps_ok n (Often i # steps) = (i < n \<and> steps_ok n steps)"
| "steps_ok n (Order i p # steps) = (p < i \<and> i < n \<and> steps_ok n steps)"
| "steps_ok n (Make _ _ _ # steps) = steps_ok n steps"

lemma fatal_kept: "ct_fatal s \<Longrightarrow> ct_fatal (snd (mock_step step s))"
  by (cases step) (auto simp: RecordCallWithMethodType_def callSet_Add_def addAction_def AnyTimes_def After_def change_call_def
      ctrl_Call_def Let_def)

lemma fatal_kept_steps: "ct_fatal s \<Longrightarrow> ct_fatal (snd (mock_steps steps s))"
proof (induction steps arbitrary: s)
  case (Cons step steps)
  have "ct_fatal (snd (mock_steps steps (snd (mock_step step s))))" by (rule Cons.IH [OF fatal_kept [OF Cons.prems]])
  then show ?case by (simp add: split_beta)
qed simp

lemma fold_Remove_length: "length (ct_calls (fold callSet_Remove is s)) = length (ct_calls s)"
  by (induction "is" arbitrary: s) (simp_all add: callSet_Remove_def Let_def)

lemma ctrl_Call_length: "length (ct_calls (snd (ctrl_Call receiver meth args s))) = length (ct_calls s)"
  by (auto simp: ctrl_Call_def dropPrereqs_def change_call_def callSet_Remove_def fold_Remove_length Let_def
      split: option.splits)

text \<open>One step: the list moves with the controller, and the test fails where the list has no such call.\<close>

lemma step_refined:
  assumes "pends s ps" "steps_ok (length (ct_calls s)) (step # steps)"
  shows "case list_step step (length (ct_calls s), ps) of
      None \<Rightarrow> ct_fatal (snd (mock_step step s))
    | Some (out, n, ps') \<Rightarrow> \<exists>s'. mock_step step s = (out, s') \<and> n = length (ct_calls s') \<and> pends s' ps' \<and> steps_ok n steps"
proof (cases step)
  case (Record receiver meth mt args)
  obtain i s' where r: "RecordCallWithMethodType receiver meth mt args s = (i, s')" by fastforce
  show ?thesis using pends_record [OF assms(1) r] assms(2) by (simp add: Record r)
next
  case (Give i action)
  show ?thesis using pends_addAction [OF assms(1), of i action] assms(2) by (simp add: Give)
next
  case (Often i)
  show ?thesis using pends_AnyTimes [OF assms(1), of i] assms(2) by (simp add: Often)
next
  case (Order i p)
  show ?thesis using pends_After [OF assms(1), of p i] assms(2) by (simp add: Order)
next
  case (Make receiver meth args)
  show ?thesis
    using pending_call_refined [OF assms(1), of receiver meth args] ctrl_Call_length [of receiver meth args s] assms(2)
    by (auto simp: Make split: option.splits prod.splits)
qed

lemma steps_refined:
  assumes "pends s ps" "steps_ok (length (ct_calls s)) steps"
  shows "case list_steps steps (length (ct_calls s), ps) of
      None \<Rightarrow> ct_fatal (snd (mock_steps steps s))
    | Some (outs, n, ps') \<Rightarrow> \<exists>s'. mock_steps steps s = (outs, s') \<and> pends s' ps'"
  using assms
proof (induction steps arbitrary: s ps)
  case (Cons step steps)
  note one = step_refined [OF Cons.prems]
  show ?case
  proof (cases "list_step step (length (ct_calls s), ps)")
    case None
    with one have "ct_fatal (snd (mock_step step s))" by simp
    from fatal_kept_steps [OF this, of steps] show ?thesis by (simp add: None split_beta)
  next
    case (Some x)
    obtain out n ps' where x: "x = (out, n, ps')" by (cases x)
    from one obtain s' where s': "mock_step step s = (out, s')" "n = length (ct_calls s')" "pends s' ps'" "steps_ok n steps"
      by (auto simp: Some x)
    show ?thesis
      using Cons.IH [OF s'(3)] s'(1,2,4) by (auto simp: Some x split: option.splits prod.splits)
  qed
qed simp

text \<open>C34. For any test that names calls after it recorded them and orders calls after earlier ones: the controller of the
  mocking library, with its indexed sets of expected and exhausted calls and its counters, refines the list of pending calls.
  The mocked methods return what the list says, the test fails at once at a call that the list does not have, and
  otherwise it passes exactly when every call that is left in the list is satisfied.\<close>

theorem mock_controller_refines:
  assumes "steps_ok 0 steps"
  shows "case list_steps steps (0, []) of
      None \<Rightarrow> \<not> test_passes (snd (mock_steps steps NewController))
    | Some (outs, n, ps) \<Rightarrow> fst (mock_steps steps NewController) = outs \<and>
        (test_passes (snd (mock_steps steps NewController)) \<longleftrightarrow> list_all (\<lambda>(_, c). satisfied c) ps)"
proof -
  have "length (ct_calls NewController) = 0" by (simp add: NewController_def)
  then have "case list_steps steps (0, []) of
      None \<Rightarrow> ct_fatal (snd (mock_steps steps NewController))
    | Some (outs, n, ps') \<Rightarrow> \<exists>s'. mock_steps steps NewController = (outs, s') \<and> pends s' ps'"
    using steps_refined [OF pends_new, of steps] assms by simp
  then show ?thesis
    by (auto simp: test_passes_pends split: option.splits) (simp add: test_passes_def)
qed

section \<open>Controllers with their lists\<close>

text \<open>
  A controller together with the list that it refines. The equations of this section let the simplifier run a test: it rewrites
  what happens to the controller, whose sets and counters stay hidden, and computes the list.
\<close>

typedef tracked = "{(s, ps). pends s ps}"
  using pends_new by blast

definition ctrl_of :: "tracked \<Rightarrow> mock_ctrl" where "ctrl_of x = fst (Rep_tracked x)"
definition pending_of :: "tracked \<Rightarrow> pending" where "pending_of x = snd (Rep_tracked x)"
definition calls_of :: "tracked \<Rightarrow> nat" where "calls_of x = length (ct_calls (ctrl_of x))"

definition track :: "mock_ctrl \<Rightarrow> pending \<Rightarrow> tracked" where "track s ps = Abs_tracked (s, ps)"

lemma pends_tracked: "pends (ctrl_of x) (pending_of x)"
  using Rep_tracked [of x] by (simp add: ctrl_of_def pending_of_def split_beta)

lemma track: "pends s ps \<Longrightarrow> ctrl_of (track s ps) = s" "pends s ps \<Longrightarrow> pending_of (track s ps) = ps"
  by (simp_all add: ctrl_of_def pending_of_def track_def Abs_tracked_inverse)

definition tracked_new :: "nat \<Rightarrow> tracked" where "tracked_new n = track (NewController\<lparr>ct_mocks := n\<rparr>) []"

definition tracked_record :: "nat \<Rightarrow> string \<Rightarrow> method_type \<Rightarrow> expected_arg list \<Rightarrow> tracked \<Rightarrow> tracked" where
  "tracked_record receiver meth mt args x = track (snd (RecordCallWithMethodType receiver meth mt args (ctrl_of x)))
     (pending_of x @ [(calls_of x, newCall receiver meth mt args)])"

definition tracked_action :: "mock_action \<Rightarrow> nat \<Rightarrow> tracked \<Rightarrow> tracked" where
  "tracked_action a i x = (if i < calls_of x then
     track (addAction a i (ctrl_of x)) (change_pending i (\<lambda>c. c\<lparr>mc_actions := mc_actions c @ [a]\<rparr>) (pending_of x)) else x)"

definition tracked_often :: "nat \<Rightarrow> tracked \<Rightarrow> tracked" where
  "tracked_often i x = (if i < calls_of x then
     track (AnyTimes i (ctrl_of x)) (change_pending i (\<lambda>c. c\<lparr>mc_minCalls := 0, mc_maxCalls := 100000000\<rparr>) (pending_of x)) else x)"

definition tracked_after :: "nat \<Rightarrow> nat \<Rightarrow> tracked \<Rightarrow> tracked" where
  "tracked_after i p x = (if p < i \<and> i < calls_of x then
     track (After i p (ctrl_of x)) (change_pending i (\<lambda>c. c\<lparr>mc_preReqs := mc_preReqs c @ [p]\<rparr>) (pending_of x)) else x)"

definition tracked_call :: "nat \<Rightarrow> string \<Rightarrow> go_value list \<Rightarrow> tracked \<Rightarrow> tracked" where
  "tracked_call receiver meth args x =
     (case pending_call receiver meth args (pending_of x) of
        None \<Rightarrow> x | Some (_, ps) \<Rightarrow> track (snd (ctrl_Call receiver meth args (ctrl_of x))) ps)"

lemma tracked_new:
  "NewController\<lparr>ct_mocks := n\<rparr> = ctrl_of (tracked_new n)" "pending_of (tracked_new n) = []" "calls_of (tracked_new n) = 0"
proof -
  have "pends (NewController\<lparr>ct_mocks := n\<rparr>) []" by (simp add: pends_def NewController_def)
  then show "NewController\<lparr>ct_mocks := n\<rparr> = ctrl_of (tracked_new n)" "pending_of (tracked_new n) = []" "calls_of (tracked_new n) = 0"
    by (simp_all add: tracked_new_def track calls_of_def) (simp add: NewController_def)
qed

lemma tracked_record:
  "RecordCallWithMethodType receiver meth mt args (ctrl_of x) = (calls_of x, ctrl_of (tracked_record receiver meth mt args x))"
  "pending_of (tracked_record receiver meth mt args x) = pending_of x @ [(calls_of x, newCall receiver meth mt args)]"
  "calls_of (tracked_record receiver meth mt args x) = calls_of x + 1"
proof -
  obtain i s' where r: "RecordCallWithMethodType receiver meth mt args (ctrl_of x) = (i, s')" by fastforce
  note p = pends_record [OF pends_tracked r]
  from p show "RecordCallWithMethodType receiver meth mt args (ctrl_of x) =
      (calls_of x, ctrl_of (tracked_record receiver meth mt args x))"
    "pending_of (tracked_record receiver meth mt args x) = pending_of x @ [(calls_of x, newCall receiver meth mt args)]"
    "calls_of (tracked_record receiver meth mt args x) = calls_of x + 1"
    by (simp_all add: tracked_record_def r track calls_of_def)
qed

text \<open>The number of calls is known without conditions, so that it is computed once.\<close>

lemma calls_of_tracked:
  "calls_of (tracked_action a i x) = calls_of x" "calls_of (tracked_after i p x) = calls_of x"
  "calls_of (tracked_often i x) = calls_of x"
  using pends_addAction [OF pends_tracked, of i x a] pends_After [OF pends_tracked, of p i x] pends_AnyTimes [OF pends_tracked, of i x]
  by (auto simp: tracked_action_def tracked_after_def tracked_often_def track calls_of_def)

lemma tracked_action:
  "i < calls_of x \<Longrightarrow> addAction a i (ctrl_of x) = ctrl_of (tracked_action a i x)"
  "pending_of (tracked_action a i x) =
     (if i < calls_of x then change_pending i (\<lambda>c. c\<lparr>mc_actions := mc_actions c @ [a]\<rparr>) (pending_of x) else pending_of x)"
  using pends_addAction [OF pends_tracked, of i x a] by (simp_all add: tracked_action_def track calls_of_def)

lemma tracked_often:
  "i < calls_of x \<Longrightarrow> AnyTimes i (ctrl_of x) = ctrl_of (tracked_often i x)"
  "pending_of (tracked_often i x) =
     (if i < calls_of x then change_pending i (\<lambda>c. c\<lparr>mc_minCalls := 0, mc_maxCalls := 100000000\<rparr>) (pending_of x) else pending_of x)"
  using pends_AnyTimes [OF pends_tracked, of i x] by (simp_all add: tracked_often_def track calls_of_def)

lemma tracked_after:
  "p < i \<Longrightarrow> i < calls_of x \<Longrightarrow> After i p (ctrl_of x) = ctrl_of (tracked_after i p x)"
  "pending_of (tracked_after i p x) =
     (if p < i \<and> i < calls_of x then change_pending i (\<lambda>c. c\<lparr>mc_preReqs := mc_preReqs c @ [p]\<rparr>) (pending_of x)
      else pending_of x)"
  using pends_After [OF pends_tracked, of p i x] by (simp_all add: tracked_after_def track calls_of_def)

lemma tracked_call:
  "ctrl_Call receiver meth args (ctrl_of x) =
     (case pending_call receiver meth args (pending_of x) of
        None \<Rightarrow> ((args, []), (ctrl_of x)\<lparr>ct_fatal := True\<rparr>)
      | Some (out, _) \<Rightarrow> (out, ctrl_of (tracked_call receiver meth args x)))"
  "pending_of (tracked_call receiver meth args x) =
     (case pending_call receiver meth args (pending_of x) of None \<Rightarrow> pending_of x | Some (_, ps) \<Rightarrow> ps)"
  using pending_call_refined [OF pends_tracked, of receiver meth args x]
  by (auto simp: tracked_call_def track split: option.splits prod.splits)

text \<open>Whether a recorded call is taken, decided from its receiver and method first.\<close>

lemma takes_recorded:
  "takes receiver meth args ps (i, \<lparr>mc_receiver = r, mc_method = m, mc_methodType = \<lparr>mt_NumIn = n, mt_IsVariadic = v, mt_zeros = z\<rparr>,
     mc_args = ms, mc_preReqs = pre, mc_minCalls = lo, mc_maxCalls = hi, mc_numCalls = k, mc_actions = as\<rparr>) =
   (if r \<noteq> receiver then False else if m \<noteq> meth then False
    else if \<not> list_all (\<lambda>p. p \<notin> awaited ps) pre then False
    else args_match \<lparr>mc_receiver = r, mc_method = m, mc_methodType = \<lparr>mt_NumIn = n, mt_IsVariadic = v, mt_zeros = z\<rparr>,
     mc_args = ms, mc_preReqs = pre, mc_minCalls = lo, mc_maxCalls = hi, mc_numCalls = k, mc_actions = as\<rparr> args)"
  by (simp add: takes_def)

lemma tracked_passes: "test_passes (ctrl_of x) \<longleftrightarrow> list_all (\<lambda>(_, c). satisfied c) (pending_of x)"
  using pends_tracked by (rule test_passes_pends)

text \<open>The equations that compute the list.\<close>

lemmas pending_simps = tracked_new(2,3) calls_of_tracked tracked_record tracked_action tracked_often tracked_after tracked_call
  tracked_passes pending_call_def takes_recorded args_match_def newCall_def change_pending_def drop_pending_def awaited_def
  call_made_def call_exhausted_def satisfied_def

text \<open>A read, any number of times, and a check that is expected after it; and the two in the other order.\<close>

definition sample_steps :: "test_step list" where
  "sample_steps =
     [Record 0 ''Get'' \<lparr>mt_NumIn = 4, mt_IsVariadic = True, mt_zeros = [GoNil]\<rparr>
        [Value GoContext, Value (GoKey ([], ''test'')), Matching Any],
      Often 0,
      Record 1 ''Check'' \<lparr>mt_NumIn = 1, mt_IsVariadic = False, mt_zeros = [GoNil]\<rparr> [Value GoContext],
      Give 1 (\<lambda>args. (args, Some [GoBool True])), Order 1 0]"

definition sample_check :: "test_step" where "sample_check = Make 1 ''Check'' [GoContext]"

definition sample_read :: "test_step" where
  "sample_read = Make 0 ''Get'' [GoContext, GoKey ([], ''test''), GoNil]"

lemma sample_steps_run:
  "list_steps (sample_steps @ [sample_read, sample_read, sample_check]) (0, []) =
     Some ([None, None, None, None, None, Some ([GoContext, GoKey ([], ''test''), GoNil], [GoNil]),
            Some ([GoContext, GoKey ([], ''test''), GoNil], [GoNil]), Some ([GoContext], [GoBool True])], 2, [])"
  "list_steps (sample_steps @ [sample_check, sample_read]) (0, []) = None"
  by (simp_all add: sample_steps_def sample_read_def sample_check_def pending_simps)

theorem mock_controller_refines_run:
  "test_passes (snd (mock_steps (sample_steps @ [sample_read, sample_read, sample_check]) NewController)) \<and>
   \<not> test_passes (snd (mock_steps (sample_steps @ [sample_check, sample_read]) NewController))"
  using mock_controller_refines [of "sample_steps @ [sample_read, sample_read, sample_check]"]
    mock_controller_refines [of "sample_steps @ [sample_check, sample_read]"]
  unfolding sample_steps_run by (simp add: sample_steps_def sample_read_def sample_check_def)

end
