(* ===== verification/Generated_Mocks.thy ===== *)
theory Generated_Mocks
  imports Expected_Calls Device_Config_Controller
begin

text \<open>
  The mocks that \<^verbatim>\<open>mockgen\<close> generated for the interfaces of the operator and for its client: of each a method that
  makes the call, and one of its recorder that expects it. A mock is known by its number at the controller.
  The context of a call is one value. A method returns, besides its result, what its arguments point to
  afterwards, which the actions of a test may have changed.
\<close>

section \<open>Results\<close>

text \<open>\<open>ret0, _ := ret[0].(error)\<close>: the zero value where the result is of another type.\<close>

fun as_error :: "go_value \<Rightarrow> go_error option" where
  "as_error (GoError e) = Some e"
| "as_error _ = None"

fun as_bool :: "go_value \<Rightarrow> bool" where
  "as_bool (GoBool b) = b"
| "as_bool _ = False"

definition ret0 :: "go_value list \<Rightarrow> go_value" where
  "ret0 ret = (case ret of [] \<Rightarrow> GoNil | r # _ \<Rightarrow> r)"

definition returned ::
    "(go_value \<Rightarrow> 'a) \<Rightarrow> (mock_ctrl, go_value list \<times> go_value list) effect \<Rightarrow> (mock_ctrl, 'a \<times> go_value list) effect" where
  "returned as call ctrl = (case call ctrl of ((args, ret), ctrl) \<Rightarrow> ((as (ret0 ret), args), ctrl))"

abbreviation returned_error where "returned_error \<equiv> returned as_error"
abbreviation returned_bool where "returned_bool \<equiv> returned as_bool"
abbreviation returned_value where "returned_value \<equiv> returned (\<lambda>v. v)"

section \<open>Module reconciler\<close>

text \<open>\<^verbatim>\<open>internal/module/mock_module.go\<close>, type \<^verbatim>\<open>MockReconciler\<close>.\<close>

datatype module_Mock = module_Mock (module_id: nat)

datatype module_Recorder = module_Recorder (module_mock: module_Mock)

definition module_NewMock :: "(mock_ctrl, module_Mock) effect" where
  "module_NewMock ctrl = (case new_mock ctrl of (i, ctrl) \<Rightarrow> (module_Mock i, ctrl))"

definition module_EXPECT :: "module_Mock \<Rightarrow> module_Recorder" where
  "module_EXPECT m = module_Recorder m"

definition module_Mock_DeleteModule ::
    "module_Mock \<Rightarrow> device_config \<Rightarrow> (mock_ctrl, go_error option \<times> go_value list) effect" where
  "module_Mock_DeleteModule m dc =
     returned_error (ctrl_Call (module_id m) ''DeleteModule'' [GoContext, GoConfig dc])"

definition module_Recorder_DeleteModule ::
    "module_Recorder \<Rightarrow> expected_arg \<Rightarrow> expected_arg \<Rightarrow> (mock_ctrl, nat) effect" where
  "module_Recorder_DeleteModule mr ctx dc =
     RecordCallWithMethodType (module_id (module_mock mr)) ''DeleteModule''
       \<lparr>mt_NumIn = 2, mt_IsVariadic = False, mt_zeros = [GoNil]\<rparr> [ctx, dc]"

definition module_Mock_ReconcileModule ::
    "module_Mock \<Rightarrow> device_config \<Rightarrow> (mock_ctrl, go_error option \<times> go_value list) effect" where
  "module_Mock_ReconcileModule m dc =
     returned_error (ctrl_Call (module_id m) ''ReconcileModule'' [GoContext, GoConfig dc])"

definition module_Recorder_ReconcileModule ::
    "module_Recorder \<Rightarrow> expected_arg \<Rightarrow> expected_arg \<Rightarrow> (mock_ctrl, nat) effect" where
  "module_Recorder_ReconcileModule mr ctx dc =
     RecordCallWithMethodType (module_id (module_mock mr)) ''ReconcileModule''
       \<lparr>mt_NumIn = 2, mt_IsVariadic = False, mt_zeros = [GoNil]\<rparr> [ctx, dc]"

definition module_Mock_SetDesiredModule ::
    "module_Mock \<Rightarrow> kmm_module option \<Rightarrow> device_config \<Rightarrow> (mock_ctrl, go_error option \<times> go_value list) effect" where
  "module_Mock_SetDesiredModule m_2 m cr =
     returned_error (ctrl_Call (module_id m_2) ''SetDesiredModule'' [GoModule m, GoConfig cr])"

definition module_Recorder_SetDesiredModule ::
    "module_Recorder \<Rightarrow> expected_arg \<Rightarrow> expected_arg \<Rightarrow> (mock_ctrl, nat) effect" where
  "module_Recorder_SetDesiredModule mr m cr =
     RecordCallWithMethodType (module_id (module_mock mr)) ''SetDesiredModule''
       \<lparr>mt_NumIn = 2, mt_IsVariadic = False, mt_zeros = [GoNil]\<rparr> [m, cr]"

section \<open>Node labeler reconciler\<close>

text \<open>\<^verbatim>\<open>internal/node/labeler/mock_labeler.go\<close>, type \<^verbatim>\<open>MockReconciler\<close>.\<close>

datatype labeler_Mock = labeler_Mock (labeler_id: nat)

datatype labeler_Recorder = labeler_Recorder (labeler_mock: labeler_Mock)

definition labeler_NewMock :: "(mock_ctrl, labeler_Mock) effect" where
  "labeler_NewMock ctrl = (case new_mock ctrl of (i, ctrl) \<Rightarrow> (labeler_Mock i, ctrl))"

definition labeler_EXPECT :: "labeler_Mock \<Rightarrow> labeler_Recorder" where
  "labeler_EXPECT m = labeler_Recorder m"

definition labeler_Mock_DeleteNodeLabeler ::
    "labeler_Mock \<Rightarrow> device_config \<Rightarrow> (mock_ctrl, go_error option \<times> go_value list) effect" where
  "labeler_Mock_DeleteNodeLabeler m dc =
     returned_error (ctrl_Call (labeler_id m) ''DeleteNodeLabeler'' [GoContext, GoConfig dc])"

definition labeler_Recorder_DeleteNodeLabeler ::
    "labeler_Recorder \<Rightarrow> expected_arg \<Rightarrow> expected_arg \<Rightarrow> (mock_ctrl, nat) effect" where
  "labeler_Recorder_DeleteNodeLabeler mr ctx dc =
     RecordCallWithMethodType (labeler_id (labeler_mock mr)) ''DeleteNodeLabeler''
       \<lparr>mt_NumIn = 2, mt_IsVariadic = False, mt_zeros = [GoNil]\<rparr> [ctx, dc]"

definition labeler_Mock_DeleteNodeLabelerDaemonSet ::
    "labeler_Mock \<Rightarrow> device_config \<Rightarrow> (mock_ctrl, go_error option \<times> go_value list) effect" where
  "labeler_Mock_DeleteNodeLabelerDaemonSet m dc =
     returned_error (ctrl_Call (labeler_id m) ''DeleteNodeLabelerDaemonSet'' [GoContext, GoConfig dc])"

definition labeler_Recorder_DeleteNodeLabelerDaemonSet ::
    "labeler_Recorder \<Rightarrow> expected_arg \<Rightarrow> expected_arg \<Rightarrow> (mock_ctrl, nat) effect" where
  "labeler_Recorder_DeleteNodeLabelerDaemonSet mr ctx dc =
     RecordCallWithMethodType (labeler_id (labeler_mock mr)) ''DeleteNodeLabelerDaemonSet''
       \<lparr>mt_NumIn = 2, mt_IsVariadic = False, mt_zeros = [GoNil]\<rparr> [ctx, dc]"

definition labeler_Mock_ReconcileNodeLabeler ::
    "labeler_Mock \<Rightarrow> device_config \<Rightarrow> (mock_ctrl, go_error option \<times> go_value list) effect" where
  "labeler_Mock_ReconcileNodeLabeler m dc =
     returned_error (ctrl_Call (labeler_id m) ''ReconcileNodeLabeler'' [GoContext, GoConfig dc])"

definition labeler_Recorder_ReconcileNodeLabeler ::
    "labeler_Recorder \<Rightarrow> expected_arg \<Rightarrow> expected_arg \<Rightarrow> (mock_ctrl, nat) effect" where
  "labeler_Recorder_ReconcileNodeLabeler mr ctx dc =
     RecordCallWithMethodType (labeler_id (labeler_mock mr)) ''ReconcileNodeLabeler''
       \<lparr>mt_NumIn = 2, mt_IsVariadic = False, mt_zeros = [GoNil]\<rparr> [ctx, dc]"

definition labeler_Mock_ReconcileNodeLabelerDaemonSet ::
    "labeler_Mock \<Rightarrow> device_config \<Rightarrow> (mock_ctrl, go_error option \<times> go_value list) effect" where
  "labeler_Mock_ReconcileNodeLabelerDaemonSet m dc =
     returned_error (ctrl_Call (labeler_id m) ''ReconcileNodeLabelerDaemonSet'' [GoContext, GoConfig dc])"

definition labeler_Recorder_ReconcileNodeLabelerDaemonSet ::
    "labeler_Recorder \<Rightarrow> expected_arg \<Rightarrow> expected_arg \<Rightarrow> (mock_ctrl, nat) effect" where
  "labeler_Recorder_ReconcileNodeLabelerDaemonSet mr ctx dc =
     RecordCallWithMethodType (labeler_id (labeler_mock mr)) ''ReconcileNodeLabelerDaemonSet''
       \<lparr>mt_NumIn = 2, mt_IsVariadic = False, mt_zeros = [GoNil]\<rparr> [ctx, dc]"

definition labeler_Mock_SetDesiredNodeLabelerDaemonSet ::
    "labeler_Mock \<Rightarrow> daemon_set option \<Rightarrow> device_config \<Rightarrow> (mock_ctrl, go_error option \<times> go_value list) effect" where
  "labeler_Mock_SetDesiredNodeLabelerDaemonSet m ds cr =
     returned_error (ctrl_Call (labeler_id m) ''SetDesiredNodeLabelerDaemonSet'' [GoDaemonSet ds, GoConfig cr])"

definition labeler_Recorder_SetDesiredNodeLabelerDaemonSet ::
    "labeler_Recorder \<Rightarrow> expected_arg \<Rightarrow> expected_arg \<Rightarrow> (mock_ctrl, nat) effect" where
  "labeler_Recorder_SetDesiredNodeLabelerDaemonSet mr ds cr =
     RecordCallWithMethodType (labeler_id (labeler_mock mr)) ''SetDesiredNodeLabelerDaemonSet''
       \<lparr>mt_NumIn = 2, mt_IsVariadic = False, mt_zeros = [GoNil]\<rparr> [ds, cr]"

section \<open>Node metrics reconciler\<close>

text \<open>\<^verbatim>\<open>internal/node/metrics/mock_metrics.go\<close>, type \<^verbatim>\<open>MockReconciler\<close>.\<close>

datatype metrics_Mock = metrics_Mock (metrics_id: nat)

datatype metrics_Recorder = metrics_Recorder (metrics_mock: metrics_Mock)

definition metrics_NewMock :: "(mock_ctrl, metrics_Mock) effect" where
  "metrics_NewMock ctrl = (case new_mock ctrl of (i, ctrl) \<Rightarrow> (metrics_Mock i, ctrl))"

definition metrics_EXPECT :: "metrics_Mock \<Rightarrow> metrics_Recorder" where
  "metrics_EXPECT m = metrics_Recorder m"

definition metrics_Mock_DeleteNodeMetrics ::
    "metrics_Mock \<Rightarrow> device_config \<Rightarrow> (mock_ctrl, go_error option \<times> go_value list) effect" where
  "metrics_Mock_DeleteNodeMetrics m dc =
     returned_error (ctrl_Call (metrics_id m) ''DeleteNodeMetrics'' [GoContext, GoConfig dc])"

definition metrics_Recorder_DeleteNodeMetrics ::
    "metrics_Recorder \<Rightarrow> expected_arg \<Rightarrow> expected_arg \<Rightarrow> (mock_ctrl, nat) effect" where
  "metrics_Recorder_DeleteNodeMetrics mr ctx dc =
     RecordCallWithMethodType (metrics_id (metrics_mock mr)) ''DeleteNodeMetrics''
       \<lparr>mt_NumIn = 2, mt_IsVariadic = False, mt_zeros = [GoNil]\<rparr> [ctx, dc]"

definition metrics_Mock_DeleteNodeMetricsDaemonSet ::
    "metrics_Mock \<Rightarrow> device_config \<Rightarrow> (mock_ctrl, go_error option \<times> go_value list) effect" where
  "metrics_Mock_DeleteNodeMetricsDaemonSet m dc =
     returned_error (ctrl_Call (metrics_id m) ''DeleteNodeMetricsDaemonSet'' [GoContext, GoConfig dc])"

definition metrics_Recorder_DeleteNodeMetricsDaemonSet ::
    "metrics_Recorder \<Rightarrow> expected_arg \<Rightarrow> expected_arg \<Rightarrow> (mock_ctrl, nat) effect" where
  "metrics_Recorder_DeleteNodeMetricsDaemonSet mr ctx dc =
     RecordCallWithMethodType (metrics_id (metrics_mock mr)) ''DeleteNodeMetricsDaemonSet''
       \<lparr>mt_NumIn = 2, mt_IsVariadic = False, mt_zeros = [GoNil]\<rparr> [ctx, dc]"

definition metrics_Mock_DeleteNodeMetricsService ::
    "metrics_Mock \<Rightarrow> device_config \<Rightarrow> (mock_ctrl, go_error option \<times> go_value list) effect" where
  "metrics_Mock_DeleteNodeMetricsService m dc =
     returned_error (ctrl_Call (metrics_id m) ''DeleteNodeMetricsService'' [GoContext, GoConfig dc])"

definition metrics_Recorder_DeleteNodeMetricsService ::
    "metrics_Recorder \<Rightarrow> expected_arg \<Rightarrow> expected_arg \<Rightarrow> (mock_ctrl, nat) effect" where
  "metrics_Recorder_DeleteNodeMetricsService mr ctx dc =
     RecordCallWithMethodType (metrics_id (metrics_mock mr)) ''DeleteNodeMetricsService''
       \<lparr>mt_NumIn = 2, mt_IsVariadic = False, mt_zeros = [GoNil]\<rparr> [ctx, dc]"

definition metrics_Mock_ReconcileNodeMetrics ::
    "metrics_Mock \<Rightarrow> device_config \<Rightarrow> (mock_ctrl, go_error option \<times> go_value list) effect" where
  "metrics_Mock_ReconcileNodeMetrics m dc =
     returned_error (ctrl_Call (metrics_id m) ''ReconcileNodeMetrics'' [GoContext, GoConfig dc])"

definition metrics_Recorder_ReconcileNodeMetrics ::
    "metrics_Recorder \<Rightarrow> expected_arg \<Rightarrow> expected_arg \<Rightarrow> (mock_ctrl, nat) effect" where
  "metrics_Recorder_ReconcileNodeMetrics mr ctx dc =
     RecordCallWithMethodType (metrics_id (metrics_mock mr)) ''ReconcileNodeMetrics''
       \<lparr>mt_NumIn = 2, mt_IsVariadic = False, mt_zeros = [GoNil]\<rparr> [ctx, dc]"

definition metrics_Mock_ReconcileNodeMetricsDaemonSet ::
    "metrics_Mock \<Rightarrow> device_config \<Rightarrow> (mock_ctrl, go_error option \<times> go_value list) effect" where
  "metrics_Mock_ReconcileNodeMetricsDaemonSet m dc =
     returned_error (ctrl_Call (metrics_id m) ''ReconcileNodeMetricsDaemonSet'' [GoContext, GoConfig dc])"

definition metrics_Recorder_ReconcileNodeMetricsDaemonSet ::
    "metrics_Recorder \<Rightarrow> expected_arg \<Rightarrow> expected_arg \<Rightarrow> (mock_ctrl, nat) effect" where
  "metrics_Recorder_ReconcileNodeMetricsDaemonSet mr ctx dc =
     RecordCallWithMethodType (metrics_id (metrics_mock mr)) ''ReconcileNodeMetricsDaemonSet''
       \<lparr>mt_NumIn = 2, mt_IsVariadic = False, mt_zeros = [GoNil]\<rparr> [ctx, dc]"

definition metrics_Mock_ReconcileNodeMetricsService ::
    "metrics_Mock \<Rightarrow> device_config \<Rightarrow> (mock_ctrl, go_error option \<times> go_value list) effect" where
  "metrics_Mock_ReconcileNodeMetricsService m dc =
     returned_error (ctrl_Call (metrics_id m) ''ReconcileNodeMetricsService'' [GoContext, GoConfig dc])"

definition metrics_Recorder_ReconcileNodeMetricsService ::
    "metrics_Recorder \<Rightarrow> expected_arg \<Rightarrow> expected_arg \<Rightarrow> (mock_ctrl, nat) effect" where
  "metrics_Recorder_ReconcileNodeMetricsService mr ctx dc =
     RecordCallWithMethodType (metrics_id (metrics_mock mr)) ''ReconcileNodeMetricsService''
       \<lparr>mt_NumIn = 2, mt_IsVariadic = False, mt_zeros = [GoNil]\<rparr> [ctx, dc]"

definition metrics_Mock_SetDesiredNodeMetricsDaemonSet ::
    "metrics_Mock \<Rightarrow> daemon_set option \<Rightarrow> device_config \<Rightarrow> (mock_ctrl, go_error option \<times> go_value list) effect" where
  "metrics_Mock_SetDesiredNodeMetricsDaemonSet m ds cr =
     returned_error (ctrl_Call (metrics_id m) ''SetDesiredNodeMetricsDaemonSet'' [GoDaemonSet ds, GoConfig cr])"

definition metrics_Recorder_SetDesiredNodeMetricsDaemonSet ::
    "metrics_Recorder \<Rightarrow> expected_arg \<Rightarrow> expected_arg \<Rightarrow> (mock_ctrl, nat) effect" where
  "metrics_Recorder_SetDesiredNodeMetricsDaemonSet mr ds cr =
     RecordCallWithMethodType (metrics_id (metrics_mock mr)) ''SetDesiredNodeMetricsDaemonSet''
       \<lparr>mt_NumIn = 2, mt_IsVariadic = False, mt_zeros = [GoNil]\<rparr> [ds, cr]"

definition metrics_Mock_SetDesiredNodeMetricsService ::
    "metrics_Mock \<Rightarrow> service option \<Rightarrow> device_config \<Rightarrow> (mock_ctrl, go_error option \<times> go_value list) effect" where
  "metrics_Mock_SetDesiredNodeMetricsService m s cr =
     returned_error (ctrl_Call (metrics_id m) ''SetDesiredNodeMetricsService'' [GoService s, GoConfig cr])"

definition metrics_Recorder_SetDesiredNodeMetricsService ::
    "metrics_Recorder \<Rightarrow> expected_arg \<Rightarrow> expected_arg \<Rightarrow> (mock_ctrl, nat) effect" where
  "metrics_Recorder_SetDesiredNodeMetricsService mr s cr =
     RecordCallWithMethodType (metrics_id (metrics_mock mr)) ''SetDesiredNodeMetricsService''
       \<lparr>mt_NumIn = 2, mt_IsVariadic = False, mt_zeros = [GoNil]\<rparr> [s, cr]"

section \<open>Finalizer updater\<close>

text \<open>\<^verbatim>\<open>internal/finalizers/mock_finalizers.go\<close>, type \<^verbatim>\<open>MockUpdater\<close>.\<close>

datatype finalizers_Mock = finalizers_Mock (finalizers_id: nat)

datatype finalizers_Recorder = finalizers_Recorder (finalizers_mock: finalizers_Mock)

definition finalizers_NewMock :: "(mock_ctrl, finalizers_Mock) effect" where
  "finalizers_NewMock ctrl = (case new_mock ctrl of (i, ctrl) \<Rightarrow> (finalizers_Mock i, ctrl))"

definition finalizers_EXPECT :: "finalizers_Mock \<Rightarrow> finalizers_Recorder" where
  "finalizers_EXPECT m = finalizers_Recorder m"

definition finalizers_Mock_AddDeletionFinalizer ::
    "finalizers_Mock \<Rightarrow> device_config \<Rightarrow> (mock_ctrl, go_error option \<times> go_value list) effect" where
  "finalizers_Mock_AddDeletionFinalizer m cr =
     returned_error (ctrl_Call (finalizers_id m) ''AddDeletionFinalizer'' [GoContext, GoConfig cr])"

definition finalizers_Recorder_AddDeletionFinalizer ::
    "finalizers_Recorder \<Rightarrow> expected_arg \<Rightarrow> expected_arg \<Rightarrow> (mock_ctrl, nat) effect" where
  "finalizers_Recorder_AddDeletionFinalizer mr ctx cr =
     RecordCallWithMethodType (finalizers_id (finalizers_mock mr)) ''AddDeletionFinalizer''
       \<lparr>mt_NumIn = 2, mt_IsVariadic = False, mt_zeros = [GoNil]\<rparr> [ctx, cr]"

definition finalizers_Mock_ContainsDeletionFinalizer ::
    "finalizers_Mock \<Rightarrow> device_config \<Rightarrow> (mock_ctrl, bool \<times> go_value list) effect" where
  "finalizers_Mock_ContainsDeletionFinalizer m cr =
     returned_bool (ctrl_Call (finalizers_id m) ''ContainsDeletionFinalizer'' [GoConfig cr])"

definition finalizers_Recorder_ContainsDeletionFinalizer ::
    "finalizers_Recorder \<Rightarrow> expected_arg \<Rightarrow> (mock_ctrl, nat) effect" where
  "finalizers_Recorder_ContainsDeletionFinalizer mr cr =
     RecordCallWithMethodType (finalizers_id (finalizers_mock mr)) ''ContainsDeletionFinalizer''
       \<lparr>mt_NumIn = 1, mt_IsVariadic = False, mt_zeros = [GoBool False]\<rparr> [cr]"

definition finalizers_Mock_RemoveDeletionFinalizer ::
    "finalizers_Mock \<Rightarrow> device_config \<Rightarrow> (mock_ctrl, go_error option \<times> go_value list) effect" where
  "finalizers_Mock_RemoveDeletionFinalizer m cr =
     returned_error (ctrl_Call (finalizers_id m) ''RemoveDeletionFinalizer'' [GoContext, GoConfig cr])"

definition finalizers_Recorder_RemoveDeletionFinalizer ::
    "finalizers_Recorder \<Rightarrow> expected_arg \<Rightarrow> expected_arg \<Rightarrow> (mock_ctrl, nat) effect" where
  "finalizers_Recorder_RemoveDeletionFinalizer mr ctx cr =
     RecordCallWithMethodType (finalizers_id (finalizers_mock mr)) ''RemoveDeletionFinalizer''
       \<lparr>mt_NumIn = 2, mt_IsVariadic = False, mt_zeros = [GoNil]\<rparr> [ctx, cr]"

section \<open>Condition updater\<close>

text \<open>\<^verbatim>\<open>internal/conditions/mock_conditions.go\<close>, type \<^verbatim>\<open>MockUpdater\<close>.\<close>

datatype conditions_Mock = conditions_Mock (conditions_id: nat)

datatype conditions_Recorder = conditions_Recorder (conditions_mock: conditions_Mock)

definition conditions_NewMock :: "(mock_ctrl, conditions_Mock) effect" where
  "conditions_NewMock ctrl = (case new_mock ctrl of (i, ctrl) \<Rightarrow> (conditions_Mock i, ctrl))"

definition conditions_EXPECT :: "conditions_Mock \<Rightarrow> conditions_Recorder" where
  "conditions_EXPECT m = conditions_Recorder m"

definition conditions_Mock_SetConditionsErrored ::
    "conditions_Mock \<Rightarrow> device_config \<Rightarrow> string \<Rightarrow> string \<Rightarrow> (mock_ctrl, go_error option \<times> go_value list) effect" where
  "conditions_Mock_SetConditionsErrored m cr reason message =
     returned_error (ctrl_Call (conditions_id m) ''SetConditionsErrored'' [GoContext, GoConfig cr, GoString reason, GoString message])"

definition conditions_Recorder_SetConditionsErrored ::
    "conditions_Recorder \<Rightarrow> expected_arg \<Rightarrow> expected_arg \<Rightarrow> expected_arg \<Rightarrow> expected_arg \<Rightarrow> (mock_ctrl, nat) effect" where
  "conditions_Recorder_SetConditionsErrored mr ctx cr reason message =
     RecordCallWithMethodType (conditions_id (conditions_mock mr)) ''SetConditionsErrored''
       \<lparr>mt_NumIn = 4, mt_IsVariadic = False, mt_zeros = [GoNil]\<rparr> [ctx, cr, reason, message]"

definition conditions_Mock_SetConditionsReady ::
    "conditions_Mock \<Rightarrow> device_config \<Rightarrow> string \<Rightarrow> string \<Rightarrow> (mock_ctrl, go_error option \<times> go_value list) effect" where
  "conditions_Mock_SetConditionsReady m cr reason message =
     returned_error (ctrl_Call (conditions_id m) ''SetConditionsReady'' [GoContext, GoConfig cr, GoString reason, GoString message])"

definition conditions_Recorder_SetConditionsReady ::
    "conditions_Recorder \<Rightarrow> expected_arg \<Rightarrow> expected_arg \<Rightarrow> expected_arg \<Rightarrow> expected_arg \<Rightarrow> (mock_ctrl, nat) effect" where
  "conditions_Recorder_SetConditionsReady mr ctx cr reason message =
     RecordCallWithMethodType (conditions_id (conditions_mock mr)) ''SetConditionsReady''
       \<lparr>mt_NumIn = 4, mt_IsVariadic = False, mt_zeros = [GoNil]\<rparr> [ctx, cr, reason, message]"

section \<open>Node selector validator\<close>

text \<open>\<^verbatim>\<open>controllers/mock_nodeselector.go\<close>, type \<^verbatim>\<open>MockNodeSelectorValidator\<close>.\<close>

datatype validator_Mock = validator_Mock (validator_id: nat)

datatype validator_Recorder = validator_Recorder (validator_mock: validator_Mock)

definition validator_NewMock :: "(mock_ctrl, validator_Mock) effect" where
  "validator_NewMock ctrl = (case new_mock ctrl of (i, ctrl) \<Rightarrow> (validator_Mock i, ctrl))"

definition validator_EXPECT :: "validator_Mock \<Rightarrow> validator_Recorder" where
  "validator_EXPECT m = validator_Recorder m"

definition validator_Mock_CheckDeviceConfigForConflictingNodeSelector ::
    "validator_Mock \<Rightarrow> device_config \<Rightarrow> (mock_ctrl, go_error option \<times> go_value list) effect" where
  "validator_Mock_CheckDeviceConfigForConflictingNodeSelector m cr =
     returned_error (ctrl_Call (validator_id m) ''CheckDeviceConfigForConflictingNodeSelector'' [GoContext, GoConfig cr])"

definition validator_Recorder_CheckDeviceConfigForConflictingNodeSelector ::
    "validator_Recorder \<Rightarrow> expected_arg \<Rightarrow> expected_arg \<Rightarrow> (mock_ctrl, nat) effect" where
  "validator_Recorder_CheckDeviceConfigForConflictingNodeSelector mr ctx cr =
     RecordCallWithMethodType (validator_id (validator_mock mr)) ''CheckDeviceConfigForConflictingNodeSelector''
       \<lparr>mt_NumIn = 2, mt_IsVariadic = False, mt_zeros = [GoNil]\<rparr> [ctx, cr]"

section \<open>Client\<close>

text \<open>\<^verbatim>\<open>internal/client/mock_client.go\<close>, type \<^verbatim>\<open>MockClient\<close>.\<close>

datatype client_Mock = client_Mock (client_id: nat)

datatype client_Recorder = client_Recorder (client_mock: client_Mock)

definition client_NewMock :: "(mock_ctrl, client_Mock) effect" where
  "client_NewMock ctrl = (case new_mock ctrl of (i, ctrl) \<Rightarrow> (client_Mock i, ctrl))"

definition client_EXPECT :: "client_Mock \<Rightarrow> client_Recorder" where
  "client_EXPECT m = client_Recorder m"

definition client_Mock_Create ::
    "client_Mock \<Rightarrow> go_value \<Rightarrow> go_value list \<Rightarrow> (mock_ctrl, go_error option \<times> go_value list) effect" where
  "client_Mock_Create m arg1 arg2 =
     returned_error (ctrl_Call (client_id m) ''Create'' ([GoContext, arg1] @ arg2))"

definition client_Recorder_Create ::
    "client_Recorder \<Rightarrow> expected_arg \<Rightarrow> expected_arg \<Rightarrow> expected_arg list \<Rightarrow> (mock_ctrl, nat) effect" where
  "client_Recorder_Create mr arg0 arg1 arg2 =
     RecordCallWithMethodType (client_id (client_mock mr)) ''Create''
       \<lparr>mt_NumIn = 3, mt_IsVariadic = True, mt_zeros = [GoNil]\<rparr> ([arg0, arg1] @ arg2)"

definition client_Mock_Delete ::
    "client_Mock \<Rightarrow> go_value \<Rightarrow> go_value list \<Rightarrow> (mock_ctrl, go_error option \<times> go_value list) effect" where
  "client_Mock_Delete m arg1 arg2 =
     returned_error (ctrl_Call (client_id m) ''Delete'' ([GoContext, arg1] @ arg2))"

definition client_Recorder_Delete ::
    "client_Recorder \<Rightarrow> expected_arg \<Rightarrow> expected_arg \<Rightarrow> expected_arg list \<Rightarrow> (mock_ctrl, nat) effect" where
  "client_Recorder_Delete mr arg0 arg1 arg2 =
     RecordCallWithMethodType (client_id (client_mock mr)) ''Delete''
       \<lparr>mt_NumIn = 3, mt_IsVariadic = True, mt_zeros = [GoNil]\<rparr> ([arg0, arg1] @ arg2)"

definition client_Mock_DeleteAllOf ::
    "client_Mock \<Rightarrow> go_value \<Rightarrow> go_value list \<Rightarrow> (mock_ctrl, go_error option \<times> go_value list) effect" where
  "client_Mock_DeleteAllOf m arg1 arg2 =
     returned_error (ctrl_Call (client_id m) ''DeleteAllOf'' ([GoContext, arg1] @ arg2))"

definition client_Recorder_DeleteAllOf ::
    "client_Recorder \<Rightarrow> expected_arg \<Rightarrow> expected_arg \<Rightarrow> expected_arg list \<Rightarrow> (mock_ctrl, nat) effect" where
  "client_Recorder_DeleteAllOf mr arg0 arg1 arg2 =
     RecordCallWithMethodType (client_id (client_mock mr)) ''DeleteAllOf''
       \<lparr>mt_NumIn = 3, mt_IsVariadic = True, mt_zeros = [GoNil]\<rparr> ([arg0, arg1] @ arg2)"

definition client_Mock_Get ::
    "client_Mock \<Rightarrow> object_key \<Rightarrow> go_value \<Rightarrow> go_value list \<Rightarrow> (mock_ctrl, go_error option \<times> go_value list) effect" where
  "client_Mock_Get m arg1 arg2 arg3 =
     returned_error (ctrl_Call (client_id m) ''Get'' ([GoContext, GoKey arg1, arg2] @ arg3))"

definition client_Recorder_Get ::
    "client_Recorder \<Rightarrow> expected_arg \<Rightarrow> expected_arg \<Rightarrow> expected_arg \<Rightarrow> expected_arg list \<Rightarrow> (mock_ctrl, nat) effect" where
  "client_Recorder_Get mr arg0 arg1 arg2 arg3 =
     RecordCallWithMethodType (client_id (client_mock mr)) ''Get''
       \<lparr>mt_NumIn = 4, mt_IsVariadic = True, mt_zeros = [GoNil]\<rparr> ([arg0, arg1, arg2] @ arg3)"

definition client_Mock_List ::
    "client_Mock \<Rightarrow> go_value \<Rightarrow> go_value list \<Rightarrow> (mock_ctrl, go_error option \<times> go_value list) effect" where
  "client_Mock_List m arg1 arg2 =
     returned_error (ctrl_Call (client_id m) ''List'' ([GoContext, arg1] @ arg2))"

definition client_Recorder_List ::
    "client_Recorder \<Rightarrow> expected_arg \<Rightarrow> expected_arg \<Rightarrow> expected_arg list \<Rightarrow> (mock_ctrl, nat) effect" where
  "client_Recorder_List mr arg0 arg1 arg2 =
     RecordCallWithMethodType (client_id (client_mock mr)) ''List''
       \<lparr>mt_NumIn = 3, mt_IsVariadic = True, mt_zeros = [GoNil]\<rparr> ([arg0, arg1] @ arg2)"

definition client_Mock_Patch ::
    "client_Mock \<Rightarrow> go_value \<Rightarrow> go_value \<Rightarrow> go_value list \<Rightarrow> (mock_ctrl, go_error option \<times> go_value list) effect" where
  "client_Mock_Patch m arg1 arg2 arg3 =
     returned_error (ctrl_Call (client_id m) ''Patch'' ([GoContext, arg1, arg2] @ arg3))"

definition client_Recorder_Patch ::
    "client_Recorder \<Rightarrow> expected_arg \<Rightarrow> expected_arg \<Rightarrow> expected_arg \<Rightarrow> expected_arg list \<Rightarrow> (mock_ctrl, nat) effect" where
  "client_Recorder_Patch mr arg0 arg1 arg2 arg3 =
     RecordCallWithMethodType (client_id (client_mock mr)) ''Patch''
       \<lparr>mt_NumIn = 4, mt_IsVariadic = True, mt_zeros = [GoNil]\<rparr> ([arg0, arg1, arg2] @ arg3)"

definition client_Mock_RESTMapper :: "client_Mock \<Rightarrow> (mock_ctrl, go_value \<times> go_value list) effect" where
  "client_Mock_RESTMapper m =
     returned_value (ctrl_Call (client_id m) ''RESTMapper'' [])"

definition client_Recorder_RESTMapper :: "client_Recorder \<Rightarrow> (mock_ctrl, nat) effect" where
  "client_Recorder_RESTMapper mr =
     RecordCallWithMethodType (client_id (client_mock mr)) ''RESTMapper''
       \<lparr>mt_NumIn = 0, mt_IsVariadic = False, mt_zeros = [GoNil]\<rparr> []"

definition client_Mock_Scheme :: "client_Mock \<Rightarrow> (mock_ctrl, go_value \<times> go_value list) effect" where
  "client_Mock_Scheme m =
     returned_value (ctrl_Call (client_id m) ''Scheme'' [])"

definition client_Recorder_Scheme :: "client_Recorder \<Rightarrow> (mock_ctrl, nat) effect" where
  "client_Recorder_Scheme mr =
     RecordCallWithMethodType (client_id (client_mock mr)) ''Scheme''
       \<lparr>mt_NumIn = 0, mt_IsVariadic = False, mt_zeros = [GoNil]\<rparr> []"

definition client_Mock_Status :: "client_Mock \<Rightarrow> (mock_ctrl, go_value \<times> go_value list) effect" where
  "client_Mock_Status m =
     returned_value (ctrl_Call (client_id m) ''Status'' [])"

definition client_Recorder_Status :: "client_Recorder \<Rightarrow> (mock_ctrl, nat) effect" where
  "client_Recorder_Status mr =
     RecordCallWithMethodType (client_id (client_mock mr)) ''Status''
       \<lparr>mt_NumIn = 0, mt_IsVariadic = False, mt_zeros = [GoNil]\<rparr> []"

definition client_Mock_SubResource ::
    "client_Mock \<Rightarrow> string \<Rightarrow> (mock_ctrl, go_value \<times> go_value list) effect" where
  "client_Mock_SubResource m arg0 =
     returned_value (ctrl_Call (client_id m) ''SubResource'' [GoString arg0])"

definition client_Recorder_SubResource ::
    "client_Recorder \<Rightarrow> expected_arg \<Rightarrow> (mock_ctrl, nat) effect" where
  "client_Recorder_SubResource mr arg0 =
     RecordCallWithMethodType (client_id (client_mock mr)) ''SubResource''
       \<lparr>mt_NumIn = 1, mt_IsVariadic = False, mt_zeros = [GoNil]\<rparr> [arg0]"

definition client_Mock_Update ::
    "client_Mock \<Rightarrow> go_value \<Rightarrow> go_value list \<Rightarrow> (mock_ctrl, go_error option \<times> go_value list) effect" where
  "client_Mock_Update m arg1 arg2 =
     returned_error (ctrl_Call (client_id m) ''Update'' ([GoContext, arg1] @ arg2))"

definition client_Recorder_Update ::
    "client_Recorder \<Rightarrow> expected_arg \<Rightarrow> expected_arg \<Rightarrow> expected_arg list \<Rightarrow> (mock_ctrl, nat) effect" where
  "client_Recorder_Update mr arg0 arg1 arg2 =
     RecordCallWithMethodType (client_id (client_mock mr)) ''Update''
       \<lparr>mt_NumIn = 3, mt_IsVariadic = True, mt_zeros = [GoNil]\<rparr> ([arg0, arg1] @ arg2)"

section \<open>Sub-resource client\<close>

text \<open>\<^verbatim>\<open>internal/client/mock_client.go\<close>, type \<^verbatim>\<open>MockSubResourceClient\<close>.\<close>

datatype subresource_Mock = subresource_Mock (subresource_id: nat)

datatype subresource_Recorder = subresource_Recorder (subresource_mock: subresource_Mock)

definition subresource_NewMock :: "(mock_ctrl, subresource_Mock) effect" where
  "subresource_NewMock ctrl = (case new_mock ctrl of (i, ctrl) \<Rightarrow> (subresource_Mock i, ctrl))"

definition subresource_EXPECT :: "subresource_Mock \<Rightarrow> subresource_Recorder" where
  "subresource_EXPECT m = subresource_Recorder m"

definition subresource_Mock_Create ::
    "subresource_Mock \<Rightarrow> go_value \<Rightarrow> go_value \<Rightarrow> go_value list \<Rightarrow> (mock_ctrl, go_error option \<times> go_value list) effect" where
  "subresource_Mock_Create m arg1 arg2 arg3 =
     returned_error (ctrl_Call (subresource_id m) ''Create'' ([GoContext, arg1, arg2] @ arg3))"

definition subresource_Recorder_Create ::
    "subresource_Recorder \<Rightarrow> expected_arg \<Rightarrow> expected_arg \<Rightarrow> expected_arg \<Rightarrow> expected_arg list \<Rightarrow> (mock_ctrl, nat) effect" where
  "subresource_Recorder_Create mr arg0 arg1 arg2 arg3 =
     RecordCallWithMethodType (subresource_id (subresource_mock mr)) ''Create''
       \<lparr>mt_NumIn = 4, mt_IsVariadic = True, mt_zeros = [GoNil]\<rparr> ([arg0, arg1, arg2] @ arg3)"

definition subresource_Mock_Get ::
    "subresource_Mock \<Rightarrow> go_value \<Rightarrow> go_value \<Rightarrow> go_value list \<Rightarrow> (mock_ctrl, go_error option \<times> go_value list) effect" where
  "subresource_Mock_Get m arg1 arg2 arg3 =
     returned_error (ctrl_Call (subresource_id m) ''Get'' ([GoContext, arg1, arg2] @ arg3))"

definition subresource_Recorder_Get ::
    "subresource_Recorder \<Rightarrow> expected_arg \<Rightarrow> expected_arg \<Rightarrow> expected_arg \<Rightarrow> expected_arg list \<Rightarrow> (mock_ctrl, nat) effect" where
  "subresource_Recorder_Get mr arg0 arg1 arg2 arg3 =
     RecordCallWithMethodType (subresource_id (subresource_mock mr)) ''Get''
       \<lparr>mt_NumIn = 4, mt_IsVariadic = True, mt_zeros = [GoNil]\<rparr> ([arg0, arg1, arg2] @ arg3)"

definition subresource_Mock_Patch ::
    "subresource_Mock \<Rightarrow> go_value \<Rightarrow> go_value \<Rightarrow> go_value list \<Rightarrow> (mock_ctrl, go_error option \<times> go_value list) effect" where
  "subresource_Mock_Patch m arg1 arg2 arg3 =
     returned_error (ctrl_Call (subresource_id m) ''Patch'' ([GoContext, arg1, arg2] @ arg3))"

definition subresource_Recorder_Patch ::
    "subresource_Recorder \<Rightarrow> expected_arg \<Rightarrow> expected_arg \<Rightarrow> expected_arg \<Rightarrow> expected_arg list \<Rightarrow> (mock_ctrl, nat) effect" where
  "subresource_Recorder_Patch mr arg0 arg1 arg2 arg3 =
     RecordCallWithMethodType (subresource_id (subresource_mock mr)) ''Patch''
       \<lparr>mt_NumIn = 4, mt_IsVariadic = True, mt_zeros = [GoNil]\<rparr> ([arg0, arg1, arg2] @ arg3)"

definition subresource_Mock_Update ::
    "subresource_Mock \<Rightarrow> go_value \<Rightarrow> go_value list \<Rightarrow> (mock_ctrl, go_error option \<times> go_value list) effect" where
  "subresource_Mock_Update m arg1 arg2 =
     returned_error (ctrl_Call (subresource_id m) ''Update'' ([GoContext, arg1] @ arg2))"

definition subresource_Recorder_Update ::
    "subresource_Recorder \<Rightarrow> expected_arg \<Rightarrow> expected_arg \<Rightarrow> expected_arg list \<Rightarrow> (mock_ctrl, nat) effect" where
  "subresource_Recorder_Update mr arg0 arg1 arg2 =
     RecordCallWithMethodType (subresource_id (subresource_mock mr)) ''Update''
       \<lparr>mt_NumIn = 3, mt_IsVariadic = True, mt_zeros = [GoNil]\<rparr> ([arg0, arg1] @ arg2)"

text \<open>Everything that a mock is unfolds to the controller.\<close>

lemmas mock_defs =
  module_NewMock_def module_EXPECT_def module_Mock_DeleteModule_def module_Recorder_DeleteModule_def
  module_Mock_ReconcileModule_def module_Recorder_ReconcileModule_def module_Mock_SetDesiredModule_def
  module_Recorder_SetDesiredModule_def labeler_NewMock_def labeler_EXPECT_def labeler_Mock_DeleteNodeLabeler_def
  labeler_Recorder_DeleteNodeLabeler_def labeler_Mock_DeleteNodeLabelerDaemonSet_def
  labeler_Recorder_DeleteNodeLabelerDaemonSet_def labeler_Mock_ReconcileNodeLabeler_def
  labeler_Recorder_ReconcileNodeLabeler_def labeler_Mock_ReconcileNodeLabelerDaemonSet_def
  labeler_Recorder_ReconcileNodeLabelerDaemonSet_def labeler_Mock_SetDesiredNodeLabelerDaemonSet_def
  labeler_Recorder_SetDesiredNodeLabelerDaemonSet_def metrics_NewMock_def metrics_EXPECT_def
  metrics_Mock_DeleteNodeMetrics_def metrics_Recorder_DeleteNodeMetrics_def
  metrics_Mock_DeleteNodeMetricsDaemonSet_def metrics_Recorder_DeleteNodeMetricsDaemonSet_def
  metrics_Mock_DeleteNodeMetricsService_def metrics_Recorder_DeleteNodeMetricsService_def
  metrics_Mock_ReconcileNodeMetrics_def metrics_Recorder_ReconcileNodeMetrics_def
  metrics_Mock_ReconcileNodeMetricsDaemonSet_def metrics_Recorder_ReconcileNodeMetricsDaemonSet_def
  metrics_Mock_ReconcileNodeMetricsService_def metrics_Recorder_ReconcileNodeMetricsService_def
  metrics_Mock_SetDesiredNodeMetricsDaemonSet_def metrics_Recorder_SetDesiredNodeMetricsDaemonSet_def
  metrics_Mock_SetDesiredNodeMetricsService_def metrics_Recorder_SetDesiredNodeMetricsService_def
  finalizers_NewMock_def finalizers_EXPECT_def finalizers_Mock_AddDeletionFinalizer_def
  finalizers_Recorder_AddDeletionFinalizer_def finalizers_Mock_ContainsDeletionFinalizer_def
  finalizers_Recorder_ContainsDeletionFinalizer_def finalizers_Mock_RemoveDeletionFinalizer_def
  finalizers_Recorder_RemoveDeletionFinalizer_def conditions_NewMock_def conditions_EXPECT_def
  conditions_Mock_SetConditionsErrored_def conditions_Recorder_SetConditionsErrored_def
  conditions_Mock_SetConditionsReady_def conditions_Recorder_SetConditionsReady_def validator_NewMock_def
  validator_EXPECT_def validator_Mock_CheckDeviceConfigForConflictingNodeSelector_def
  validator_Recorder_CheckDeviceConfigForConflictingNodeSelector_def client_NewMock_def client_EXPECT_def
  client_Mock_Create_def client_Recorder_Create_def client_Mock_Delete_def client_Recorder_Delete_def
  client_Mock_DeleteAllOf_def client_Recorder_DeleteAllOf_def client_Mock_Get_def client_Recorder_Get_def
  client_Mock_List_def client_Recorder_List_def client_Mock_Patch_def client_Recorder_Patch_def
  client_Mock_RESTMapper_def client_Recorder_RESTMapper_def client_Mock_Scheme_def client_Recorder_Scheme_def
  client_Mock_Status_def client_Recorder_Status_def client_Mock_SubResource_def client_Recorder_SubResource_def
  client_Mock_Update_def client_Recorder_Update_def subresource_NewMock_def subresource_EXPECT_def
  subresource_Mock_Create_def subresource_Recorder_Create_def subresource_Mock_Get_def subresource_Recorder_Get_def
  subresource_Mock_Patch_def subresource_Recorder_Patch_def subresource_Mock_Update_def
  subresource_Recorder_Update_def

section \<open>The mocks as implementations of the interfaces\<close>

text \<open>What a value points to, as an object of a kind.\<close>

fun as_config :: "go_value \<Rightarrow> device_config option" where
  "as_config (GoConfig dc) = Some dc"
| "as_config _ = None"

fun as_module :: "go_value \<Rightarrow> kmm_module option" where
  "as_module (GoModule m) = m"
| "as_module _ = None"

fun as_daemon_set :: "go_value \<Rightarrow> daemon_set option" where
  "as_daemon_set (GoDaemonSet ds) = ds"
| "as_daemon_set _ = None"

fun as_service :: "go_value \<Rightarrow> service option" where
  "as_service (GoService svc) = svc"
| "as_service _ = None"

fun as_node :: "go_value \<Rightarrow> node option" where
  "as_node (GoNode n) = Some n"
| "as_node _ = None"

fun as_items :: "go_value \<Rightarrow> go_value list" where
  "as_items (GoList xs) = xs"
| "as_items _ = []"

text \<open>
  The methods return no more than their interfaces do: the error, or the error and the changed resource. An action
  may replace what a pointer points to, never the type of it, so the given object stands for the other cases.
\<close>

definition error_only :: "(mock_ctrl, go_error option \<times> go_value list) effect \<Rightarrow> (mock_ctrl, go_error option) effect" where
  "error_only call ctrl = (case call ctrl of ((err, _), ctrl) \<Rightarrow> (err, ctrl))"

definition error_and_config ::
    "nat \<Rightarrow> device_config \<Rightarrow> (mock_ctrl, go_error option \<times> go_value list) effect
      \<Rightarrow> (mock_ctrl, go_error option \<times> device_config) effect" where
  "error_and_config i dc call ctrl =
     (case call ctrl of ((err, args), ctrl) \<Rightarrow>
        ((err, case as_config (args ! i) of Some dc \<Rightarrow> dc | None \<Rightarrow> dc), ctrl))"

definition error_or_object ::
    "(go_value \<Rightarrow> 'a) \<Rightarrow> nat \<Rightarrow> (mock_ctrl, go_error option \<times> go_value list) effect \<Rightarrow> (mock_ctrl, go_error + 'a) effect" where
  "error_or_object object i call ctrl =
     (case call ctrl of ((err, args), ctrl) \<Rightarrow>
        (case err of Some err \<Rightarrow> (Inl err, ctrl) | None \<Rightarrow> (Inr (object (args ! i)), ctrl)))"

definition module_implementation :: "module_Mock \<Rightarrow> mock_ctrl module_interface" where
  "module_implementation m =
     \<lparr>mod_ReconcileModule = (\<lambda>dc. error_only (module_Mock_ReconcileModule m dc)),
      mod_SetDesiredModule = (\<lambda>x cr. error_or_object as_module 0 (module_Mock_SetDesiredModule m x cr)),
      mod_DeleteModule = (\<lambda>dc. error_only (module_Mock_DeleteModule m dc))\<rparr>"

definition labeler_implementation :: "labeler_Mock \<Rightarrow> mock_ctrl labeler_interface" where
  "labeler_implementation m =
     \<lparr>lab_ReconcileNodeLabeler = (\<lambda>dc. error_only (labeler_Mock_ReconcileNodeLabeler m dc)),
      lab_DeleteNodeLabeler = (\<lambda>dc. error_only (labeler_Mock_DeleteNodeLabeler m dc)),
      lab_ReconcileNodeLabelerDaemonSet = (\<lambda>dc. error_only (labeler_Mock_ReconcileNodeLabelerDaemonSet m dc)),
      lab_SetDesiredNodeLabelerDaemonSet =
        (\<lambda>x cr. error_or_object as_daemon_set 0 (labeler_Mock_SetDesiredNodeLabelerDaemonSet m x cr)),
      lab_DeleteNodeLabelerDaemonSet = (\<lambda>dc. error_only (labeler_Mock_DeleteNodeLabelerDaemonSet m dc))\<rparr>"

definition metrics_implementation :: "metrics_Mock \<Rightarrow> mock_ctrl metrics_interface" where
  "metrics_implementation m =
     \<lparr>met_ReconcileNodeMetrics = (\<lambda>dc. error_only (metrics_Mock_ReconcileNodeMetrics m dc)),
      met_DeleteNodeMetrics = (\<lambda>dc. error_only (metrics_Mock_DeleteNodeMetrics m dc)),
      met_ReconcileNodeMetricsDaemonSet = (\<lambda>dc. error_only (metrics_Mock_ReconcileNodeMetricsDaemonSet m dc)),
      met_SetDesiredNodeMetricsDaemonSet =
        (\<lambda>x cr. error_or_object as_daemon_set 0 (metrics_Mock_SetDesiredNodeMetricsDaemonSet m x cr)),
      met_DeleteNodeMetricsDaemonSet = (\<lambda>dc. error_only (metrics_Mock_DeleteNodeMetricsDaemonSet m dc)),
      met_ReconcileNodeMetricsService = (\<lambda>dc. error_only (metrics_Mock_ReconcileNodeMetricsService m dc)),
      met_SetDesiredNodeMetricsService =
        (\<lambda>x cr. error_or_object as_service 0 (metrics_Mock_SetDesiredNodeMetricsService m x cr)),
      met_DeleteNodeMetricsService = (\<lambda>dc. error_only (metrics_Mock_DeleteNodeMetricsService m dc))\<rparr>"

definition finalizers_implementation :: "finalizers_Mock \<Rightarrow> mock_ctrl finalizer_updater" where
  "finalizers_implementation m =
     \<lparr>fin_AddDeletionFinalizer = (\<lambda>cr. error_and_config 1 cr (finalizers_Mock_AddDeletionFinalizer m cr)),
      fin_RemoveDeletionFinalizer = (\<lambda>cr. error_and_config 1 cr (finalizers_Mock_RemoveDeletionFinalizer m cr)),
      fin_ContainsDeletionFinalizer =
        (\<lambda>cr ctrl. case finalizers_Mock_ContainsDeletionFinalizer m cr ctrl of ((b, _), ctrl) \<Rightarrow> (b, ctrl))\<rparr>"

definition conditions_implementation :: "conditions_Mock \<Rightarrow> mock_ctrl condition_updater" where
  "conditions_implementation m =
     \<lparr>con_SetConditionsReady =
        (\<lambda>cr reason message. error_and_config 1 cr (conditions_Mock_SetConditionsReady m cr reason message)),
      con_SetConditionsErrored =
        (\<lambda>cr reason message. error_and_config 1 cr (conditions_Mock_SetConditionsErrored m cr reason message))\<rparr>"

definition validator_implementation :: "validator_Mock \<Rightarrow> mock_ctrl node_selector_validator" where
  "validator_implementation m =
     \<lparr>val_CheckDeviceConfigForConflictingNodeSelector =
        (\<lambda>cr. error_only (validator_Mock_CheckDeviceConfigForConflictingNodeSelector m cr))\<rparr>"

text \<open>
  The mock client as the client of one kind. A read is given an empty object to fill in. The writer of the status is
  what \<open>Status\<close> returns, here a mock of a sub-resource client; to call a nil one ends the test.
\<close>

definition no_writer :: "(mock_ctrl, go_error option \<times> go_value list) effect" where
  "no_writer ctrl = ((Some (TextError ''nil pointer dereference''), []), ctrl\<lparr>ct_fatal := True\<rparr>)"

definition through_status ::
    "client_Mock \<Rightarrow> (subresource_Mock \<Rightarrow> (mock_ctrl, go_error option \<times> go_value list) effect)
      \<Rightarrow> (mock_ctrl, go_error option \<times> go_value list) effect" where
  "through_status m write ctrl =
     (case client_Mock_Status m ctrl of ((writer, _), ctrl) \<Rightarrow>
        (case writer of GoMock i \<Rightarrow> write (subresource_Mock i) ctrl | _ \<Rightarrow> no_writer ctrl))"

definition kind_implementation ::
    "client_Mock \<Rightarrow> (('sp, 'st) k8s_object \<Rightarrow> go_value) \<Rightarrow> (go_value \<Rightarrow> ('sp, 'st) k8s_object option)
      \<Rightarrow> ('sp, 'st) k8s_object \<Rightarrow> (mock_ctrl, 'sp, 'st) kind_client" where
  "kind_implementation m boxed unboxed zero =
     (let object = (\<lambda>v. case unboxed v of Some x \<Rightarrow> x | None \<Rightarrow> zero) in
      \<lparr>kc_get = (\<lambda>key. error_or_object object 2 (client_Mock_Get m key (boxed zero) [])),
       kc_list = (\<lambda>sel. error_or_object (\<lambda>v. map object (as_items v)) 1
         (client_Mock_List m (GoList []) (case sel of None \<Rightarrow> [] | Some rs \<Rightarrow> [GoSelector rs]))),
       kc_create = (\<lambda>x. error_or_object object 1 (client_Mock_Create m (boxed x) [])),
       kc_update = (\<lambda>x. error_or_object object 1 (client_Mock_Update m (boxed x) [])),
       kc_patch = (\<lambda>prior x. error_or_object object 1 (client_Mock_Patch m (boxed x) (GoMergeFrom (boxed prior)) [])),
       kc_delete = (\<lambda>x. error_only (client_Mock_Delete m (boxed x) [])),
       kc_status_update = (\<lambda>x. error_or_object object 1 (through_status m (\<lambda>w. subresource_Mock_Update w (boxed x) []))),
       kc_status_patch = (\<lambda>prior x. error_or_object object 1
         (through_status m (\<lambda>w. subresource_Mock_Patch w (boxed x) (GoMergeFrom (boxed prior)) [])))\<rparr>)"

definition zero_config :: device_config where
  "zero_config = \<lparr>metadata = empty_meta, spec = \<lparr>driverImage = [], driverVersion = [], nodeSelector = None\<rparr>,
     status = \<lparr>conditions = []\<rparr>\<rparr>"

definition mock_api :: "client_Mock \<Rightarrow> (nat \<Rightarrow> time) \<Rightarrow> mock_ctrl api" where
  "mock_api m now =
     \<lparr>api_deviceconfigs = kind_implementation m GoConfig as_config zero_config,
      api_modules = kind_implementation m (\<lambda>x. GoModule (Some x)) as_module (named_object [] [] empty_module_spec),
      api_daemonsets = kind_implementation m (\<lambda>x. GoDaemonSet (Some x)) as_daemon_set (named_object [] [] empty_daemon_set_spec),
      api_services = kind_implementation m (\<lambda>x. GoService (Some x)) as_service (named_object [] [] empty_service_spec),
      api_nodes = kind_implementation m GoNode as_node (named_object [] [] no_fields),
      api_now = (\<lambda>_. now)\<rparr>"

text \<open>The fields, for the simplifier.\<close>

definition the_object :: "(go_value \<Rightarrow> 'a option) \<Rightarrow> 'a \<Rightarrow> go_value \<Rightarrow> 'a" where
  "the_object unboxed zero v = (case unboxed v of Some x \<Rightarrow> x | None \<Rightarrow> zero)"

lemma kind_implementation_simps [simp]:
  "kc_get (kind_implementation m boxed unboxed zero) =
     (\<lambda>key. error_or_object (the_object unboxed zero) 2 (client_Mock_Get m key (boxed zero) []))"
  "kc_create (kind_implementation m boxed unboxed zero) =
     (\<lambda>x. error_or_object (the_object unboxed zero) 1 (client_Mock_Create m (boxed x) []))"
  "kc_update (kind_implementation m boxed unboxed zero) =
     (\<lambda>x. error_or_object (the_object unboxed zero) 1 (client_Mock_Update m (boxed x) []))"
  "kc_patch (kind_implementation m boxed unboxed zero) =
     (\<lambda>prior x. error_or_object (the_object unboxed zero) 1
        (client_Mock_Patch m (boxed x) (GoMergeFrom (boxed prior)) []))"
  "kc_delete (kind_implementation m boxed unboxed zero) = (\<lambda>x. error_only (client_Mock_Delete m (boxed x) []))"
  "kc_list (kind_implementation m boxed unboxed zero) =
     (\<lambda>sel. error_or_object (\<lambda>v. map (the_object unboxed zero) (as_items v)) 1
        (client_Mock_List m (GoList []) (case sel of None \<Rightarrow> [] | Some rs \<Rightarrow> [GoSelector rs])))"
  "kc_status_update (kind_implementation m boxed unboxed zero) =
     (\<lambda>x. error_or_object (the_object unboxed zero) 1 (through_status m (\<lambda>w. subresource_Mock_Update w (boxed x) [])))"
  by (simp_all add: kind_implementation_def the_object_def [abs_def] Let_def)

lemma mock_api_simps [simp]:
  "api_deviceconfigs (mock_api m now) = kind_implementation m GoConfig as_config zero_config"
  "api_modules (mock_api m now) =
     kind_implementation m (\<lambda>x. GoModule (Some x)) as_module (named_object [] [] empty_module_spec)"
  "api_daemonsets (mock_api m now) =
     kind_implementation m (\<lambda>x. GoDaemonSet (Some x)) as_daemon_set (named_object [] [] empty_daemon_set_spec)"
  "api_services (mock_api m now) =
     kind_implementation m (\<lambda>x. GoService (Some x)) as_service (named_object [] [] empty_service_spec)"
  "api_nodes (mock_api m now) = kind_implementation m GoNode as_node (named_object [] [] no_fields)"
  "api_now (mock_api m now) = (\<lambda>_. now)"
  by (simp_all add: mock_api_def)

lemmas implementation_defs =
  module_implementation_def labeler_implementation_def metrics_implementation_def finalizers_implementation_def
  conditions_implementation_def validator_implementation_def

lemmas call_defs = error_only_def error_and_config_def error_or_object_def returned_def ret0_def the_object_def
  mock_defs

end
