(* ===== verification/Calls_In_Order.thy ===== *)
theory Calls_In_Order
  imports Expected_Calls
begin

text \<open>
  The usual shape of a test: calls that are expected once, in one order. The list of pending calls is then
  a queue, of which only the first call can be taken, and the equations below run a test along it.
\<close>

section \<open>Calls in order\<close>

text \<open>Calls of which each is a prerequisite of the next, the first one numbered \<open>n\<close> and with prerequisites \<open>pre\<close>.\<close>

fun queue_from :: "nat \<Rightarrow> nat list \<Rightarrow> mock_call list \<Rightarrow> pending" where
  "queue_from n pre [] = []"
| "queue_from n pre (c # cs) = (n, c\<lparr>mc_preReqs := pre\<rparr>) # queue_from (n + 1) [n] cs"

definition awaited_once :: "mock_call \<Rightarrow> bool" where
  "awaited_once c \<longleftrightarrow> mc_numCalls c = 0 \<and> mc_minCalls c = 1 \<and> mc_maxCalls c = 1"

lemma queue_from_ids: "i \<in> fst ` set (queue_from n pre cs) \<Longrightarrow> n \<le> i"
  by (induction cs arbitrary: n pre) fastforce+

lemma queue_from_append: "queue_from n pre (cs @ [c]) =
    queue_from n pre cs @ [(n + length cs, c\<lparr>mc_preReqs := if cs = [] then pre else [n + length cs - 1]\<rparr>)]"
  by (induction cs arbitrary: n pre) auto

text \<open>Only the first one can be taken.\<close>

lemma pending_call_queue:
  assumes "list_all awaited_once (c # cs)" "list_all (\<lambda>p. p < n) pre"
  shows "pending_call receiver meth args (queue_from n pre (c # cs)) =
    (if mc_receiver c = receiver \<and> mc_method c = meth \<and> args_match c args
     then Some (run_actions (mc_actions c) args [], queue_from (n + 1) [n] cs) else None)"
proof -
  define q where "q = queue_from n pre (c # cs)"
  have q: "q = (n, c\<lparr>mc_preReqs := pre\<rparr>) # queue_from (n + 1) [n] cs" by (simp add: q_def)
  have first: "takes receiver meth args q (n, c\<lparr>mc_preReqs := pre\<rparr>) \<longleftrightarrow>
      mc_receiver c = receiver \<and> mc_method c = meth \<and> args_match c args"
  proof -
    have "n \<le> p" if "p \<in> awaited q" for p
    proof -
      have "p \<in> fst ` set q" using that by (auto simp: awaited_def)
      then show ?thesis unfolding q_def by (rule queue_from_ids)
    qed
    then have "p \<notin> awaited q" if "p \<in> set pre" for p
      using that assms(2) by (fastforce simp: list_all_iff)
    then show ?thesis by (auto simp: takes_def list_all_iff args_match_def)
  qed
  have unsatisfied: "\<not> satisfied (snd x)" if "list_all awaited_once ds" "x \<in> set (queue_from k r ds)" for x k r ds
    using that by (induction ds arbitrary: k r) (auto simp: awaited_once_def satisfied_def)
  have all: "awaited q = fst ` set q"
  proof -
    have "\<not> satisfied (snd x)" if "x \<in> set q" for x
      using unsatisfied [OF assms(1)] that unfolding q_def by blast
    then have "filter (\<lambda>(_, c). \<not> satisfied c) q = q" by (simp add: filter_id_conv split_beta)
    then show ?thesis by (simp add: awaited_def)
  qed
  have later: "\<not> takes receiver meth args q x" if "x \<in> set (queue_from k [j] ds)" "j \<in> fst ` set q"
    "set (queue_from k [j] ds) \<subseteq> set q" for x k j ds
    using that
  proof (induction ds arbitrary: k j)
    case (Cons d ds)
    have "k \<in> fst ` set q" using Cons.prems(3) by force
    with Cons show ?case by (cases "x = (k, d\<lparr>mc_preReqs := [j]\<rparr>)") (simp_all add: takes_def all)
  qed simp
  have none: "find (takes receiver meth args q) (queue_from (n + 1) [n] cs) = None"
    unfolding find_None_iff using later [of _ "n + 1" n cs] by (auto simp: q)
  have gone: "drop_pending (pre @ [n]) q = queue_from (n + 1) [n] cs"
  proof -
    have "fst x \<notin> set (pre @ [n])" if "x \<in> set (queue_from (n + 1) [n] cs)" for x
      using queue_from_ids [of "fst x" "n + 1" "[n]" cs] that assms(2) by (force simp: list_all_iff)
    then have "filter (\<lambda>x. fst x \<notin> set (pre @ [n])) (queue_from (n + 1) [n] cs) = queue_from (n + 1) [n] cs"
      by (simp add: filter_id_conv)
    then show ?thesis by (simp add: q drop_pending_def case_prod_unfold)
  qed
  have "call_exhausted (call_made (c\<lparr>mc_preReqs := pre\<rparr>))"
    using assms(1) by (simp add: call_exhausted_def call_made_def awaited_once_def)
  moreover have "find (takes receiver meth args q) q =
      (if takes receiver meth args q (n, c\<lparr>mc_preReqs := pre\<rparr>) then Some (n, c\<lparr>mc_preReqs := pre\<rparr>) else None)"
    using none by (subst (2) q) simp
  ultimately show ?thesis unfolding q_def [symmetric] pending_call_def using gone by (simp add: first)
qed

lemma pending_call_end [simp]: "pending_call receiver meth args [] = None"
  by (simp add: pending_call_def)

text \<open>Recording calls one by one and then ordering them gives such a list.\<close>

definition expects :: "(mock_ctrl, nat) effect \<Rightarrow> mock_call \<Rightarrow> bool" where
  "expects e c \<longleftrightarrow> mc_preReqs c = [] \<and>
     (\<forall>x. \<exists>y. e (ctrl_of x) = (calls_of x, ctrl_of y) \<and> calls_of y = calls_of x + 1 \<and>
              pending_of y = pending_of x @ [(calls_of x, c)])"

lemma expects_record: "expects (RecordCallWithMethodType receiver meth mt args) (newCall receiver meth mt args)"
  using tracked_record by (auto simp: expects_def newCall_def)

lemma change_pending_last:
  "change_pending (calls_of x) f (pending_of x @ [(calls_of x, c)]) = pending_of x @ [(calls_of x, f c)]"
proof -
  have "i < calls_of x" if "(i, d) \<in> set (pending_of x)" for i d
    using pendsD(3) [OF pends_tracked that] by (simp add: calls_of_def)
  then have "map (\<lambda>(j, c). (j, if j = calls_of x then f c else c)) (pending_of x) = pending_of x"
    by (force intro!: map_idI)
  then show ?thesis by (simp add: change_pending_def)
qed

lemma expects_action:
  assumes "expects e c"
  shows "expects (\<lambda>s. case e s of (i, s) \<Rightarrow> (i, addAction a i s)) (c\<lparr>mc_actions := mc_actions c @ [a]\<rparr>)"
  unfolding expects_def
proof (intro conjI allI)
  fix x
  from assms obtain y where y: "e (ctrl_of x) = (calls_of x, ctrl_of y)" "calls_of y = calls_of x + 1"
    "pending_of y = pending_of x @ [(calls_of x, c)]"
    by (auto simp: expects_def)
  show "\<exists>y. (case e (ctrl_of x) of (i, s) \<Rightarrow> (i, addAction a i s)) = (calls_of x, ctrl_of y) \<and> calls_of y = calls_of x + 1 \<and>
      pending_of y = pending_of x @ [(calls_of x, c\<lparr>mc_actions := mc_actions c @ [a]\<rparr>)]"
    by (rule exI [of _ "tracked_action a (calls_of x) y"])
      (simp add: y tracked_action calls_of_tracked change_pending_last)
qed (use assms in \<open>simp add: expects_def\<close>)

fun expect_all :: "(mock_ctrl, nat) effect list \<Rightarrow> (mock_ctrl, nat list) effect" where
  "expect_all [] s = ([], s)"
| "expect_all (e # es) s = (case e s of (i, s) \<Rightarrow> case expect_all es s of (is, s) \<Rightarrow> (i # is, s))"

definition in_order :: "(mock_ctrl, nat) effect list \<Rightarrow> mock_ctrl \<Rightarrow> mock_ctrl" where
  "in_order es s = (case expect_all es s of (is, s) \<Rightarrow> InOrder is s)"

lemma expect_all_tracked:
  assumes "list_all2 expects es cs"
  shows "\<exists>y. expect_all es (ctrl_of x) = ([calls_of x..<calls_of x + length cs], ctrl_of y) \<and>
    calls_of y = calls_of x + length cs \<and> pending_of y = pending_of x @ List.enumerate (calls_of x) cs"
  using assms
proof (induction es cs arbitrary: x rule: list_all2_induct)
  case (Cons e es c cs)
  obtain y where y: "e (ctrl_of x) = (calls_of x, ctrl_of y)" "calls_of y = calls_of x + 1"
    "pending_of y = pending_of x @ [(calls_of x, c)]"
    using Cons.hyps by (auto simp: expects_def)
  obtain z where "expect_all es (ctrl_of y) = ([calls_of y..<calls_of y + length cs], ctrl_of z)"
    "calls_of z = calls_of y + length cs" "pending_of z = pending_of y @ List.enumerate (calls_of y) cs"
    using Cons.IH by blast
  then show ?case using y by (intro exI [of _ z]) (simp add: upt_conv_Cons del: upt_Suc)
next
  case Nil
  then show ?case by (intro exI [of _ x]) simp
qed

lemma InOrder_tracked:
  assumes "n + m \<le> calls_of x"
  shows "\<exists>y. InOrder [n..<n + m] (ctrl_of x) = ctrl_of y \<and> pending_of y =
    map (\<lambda>(i, c). (i, if n < i \<and> i < n + m then c\<lparr>mc_preReqs := mc_preReqs c @ [i - 1]\<rparr> else c)) (pending_of x)"
  using assms
proof (induction m arbitrary: n x)
  case (Suc m)
  show ?case
  proof (cases m)
    case 0
    then show ?thesis by (intro exI [of _ x]) (auto intro!: map_idI [symmetric])
  next
    case (Suc k)
    let ?y = "tracked_after (n + 1) n x"
    have "n + 1 + m \<le> calls_of ?y" using Suc.prems by (simp add: calls_of_tracked)
    from Suc.IH [OF this] obtain z where z: "InOrder [n + 1..<n + 1 + m] (ctrl_of ?y) = ctrl_of z"
      "pending_of z = map (\<lambda>(i, c). (i, if n + 1 < i \<and> i < n + 1 + m then c\<lparr>mc_preReqs := mc_preReqs c @ [i - 1]\<rparr> else c))
         (pending_of ?y)"
      by blast
    have "InOrder [n..<n + Suc m] (ctrl_of x) = InOrder [n + 1..<n + 1 + m] (After (n + 1) n (ctrl_of x))"
      by (simp add: Suc upt_conv_Cons del: upt_Suc)
    also have "After (n + 1) n (ctrl_of x) = ctrl_of ?y" using Suc.prems Suc by (intro tracked_after(1)) simp_all
    finally have "InOrder [n..<n + Suc m] (ctrl_of x) = ctrl_of z" using z(1) by simp
    moreover have "pending_of z =
        map (\<lambda>(i, c). (i, if n < i \<and> i < n + Suc m then c\<lparr>mc_preReqs := mc_preReqs c @ [i - 1]\<rparr> else c)) (pending_of x)"
      unfolding z(2) tracked_after(2) using Suc.prems Suc by (auto simp: change_pending_def)
    ultimately show ?thesis by blast
  qed
next
  case 0
  then show ?case by (intro exI [of _ x]) (auto intro!: map_idI [symmetric])
qed

lemma queue_from_enumerate:
  assumes "\<forall>c \<in> set cs. mc_preReqs c = []"
  shows "map (\<lambda>(i, c). (i, c\<lparr>mc_preReqs := mc_preReqs c @ [i - 1]\<rparr>)) (List.enumerate (Suc n) cs) = queue_from (Suc n) [n] cs"
  using assms by (induction cs arbitrary: n) auto

text \<open>Expectations in order, where none were recorded before.\<close>

lemma in_order_tracked:
  assumes "list_all2 expects es cs" "pending_of x = []"
  shows "\<exists>y. in_order es (ctrl_of x) = ctrl_of y \<and> pending_of y = queue_from (calls_of x) [] cs"
proof -
  obtain y where y: "expect_all es (ctrl_of x) = ([calls_of x..<calls_of x + length cs], ctrl_of y)"
    "calls_of y = calls_of x + length cs" "pending_of y = List.enumerate (calls_of x) cs"
    using expect_all_tracked [OF assms(1), of x] assms(2) by auto
  obtain z where z: "InOrder [calls_of x..<calls_of x + length cs] (ctrl_of y) = ctrl_of z"
    "pending_of z = map (\<lambda>(i, c). (i, if calls_of x < i \<and> i < calls_of x + length cs
       then c\<lparr>mc_preReqs := mc_preReqs c @ [i - 1]\<rparr> else c)) (pending_of y)"
    using InOrder_tracked [of "calls_of x" "length cs" y] y(2) by auto
  have pre: "\<forall>c \<in> set cs. mc_preReqs c = []"
    using assms(1) by (induction rule: list_all2_induct) (auto simp: expects_def)
  have "pending_of z = queue_from (calls_of x) [] cs"
  proof (cases cs)
    case (Cons c ds)
    let ?n = "calls_of x"
    have "map (\<lambda>(i, d). (i, if ?n < i \<and> i < ?n + length cs then d\<lparr>mc_preReqs := mc_preReqs d @ [i - 1]\<rparr> else d))
        (List.enumerate (Suc ?n) ds) = map (\<lambda>(i, d). (i, d\<lparr>mc_preReqs := mc_preReqs d @ [i - 1]\<rparr>)) (List.enumerate (Suc ?n) ds)"
      by (auto simp: Cons in_set_enumerate_eq)
    also have "\<dots> = queue_from (Suc ?n) [?n] ds" using pre Cons by (intro queue_from_enumerate) simp
    finally show ?thesis using pre by (simp add: z(2) y(3) Cons)
  qed (simp add: z(2) y(3))
  then show ?thesis using y(1) z(1) by (auto simp: in_order_def)
qed

declare queue_from.simps(2) [simp del]

section \<open>Expectations with their results\<close>

type_synonym expectation = "(mock_ctrl, nat) effect"

definition returning :: "expectation \<Rightarrow> go_value \<Rightarrow> expectation" where
  "returning e ret s = (case e s of (i, s) \<Rightarrow> (i, Return [ret] i s))"

definition doing :: "expectation \<Rightarrow> (go_value list \<Rightarrow> go_value list \<times> go_value list) \<Rightarrow> expectation" where
  "doing e f s = (case e s of (i, s) \<Rightarrow> (i, DoAndReturn f i s))"

definition any_times :: "expectation \<Rightarrow> expectation" where
  "any_times e s = (case e s of (i, s) \<Rightarrow> (i, AnyTimes i s))"

text \<open>The call that such an expectation records.\<close>

definition scripted ::
    "nat \<Rightarrow> string \<Rightarrow> method_type \<Rightarrow> expected_arg list \<Rightarrow> (go_value list \<Rightarrow> go_value list \<times> go_value list) \<Rightarrow> mock_call" where
  "scripted receiver meth mt args f = (let c = newCall receiver meth mt args in
     c\<lparr>mc_actions := mc_actions c @ [\<lambda>args. case f args of (args, rets) \<Rightarrow> (args, Some rets)]\<rparr>)"

lemma scripted_simps [simp]:
  "mc_receiver (scripted receiver meth mt args f) = receiver" "mc_method (scripted receiver meth mt args f) = meth"
  "awaited_once (scripted receiver meth mt args f)"
  "args_match (scripted receiver meth mt args f) xs = args_match (newCall receiver meth mt args) xs"
  "run_actions (mc_actions (scripted receiver meth mt args f)) xs [] = f xs"
  by (auto simp: scripted_def newCall_def awaited_once_def args_match_def split: prod.split)

lemma expects_doing: "expects (doing (RecordCallWithMethodType receiver meth mt args) f) (scripted receiver meth mt args f)"
  using expects_action [OF expects_record [of receiver meth mt args], of "\<lambda>args. case f args of (args, rets) \<Rightarrow> (args, Some rets)"]
  by (simp add: doing_def [abs_def] DoAndReturn_def scripted_def Let_def)

lemma expects_returning:
  "expects (returning (RecordCallWithMethodType receiver meth mt args) ret) (scripted receiver meth mt args (\<lambda>args. (args, [ret])))"
  using expects_action [OF expects_record [of receiver meth mt args], of "\<lambda>args. (args, Some [ret])"]
  by (simp add: returning_def [abs_def] Return_def scripted_def Let_def)

lemmas scripts = list.rel_intros expects_doing expects_returning

text \<open>Matching, decided for calls as they are recorded.\<close>

lemma mc_args_newCall [simp]:
  "mc_args (newCall receiver meth mt []) = []"
  "mc_args (newCall receiver meth mt (Matching m # args)) = m # mc_args (newCall receiver meth mt args)"
  "mc_args (newCall receiver meth mt (Value v # args)) =
     (if v = GoNil then IsNil else Eq v) # mc_args (newCall receiver meth mt args)"
  "mc_methodType (newCall receiver meth mt args) = mt" "length (mc_args (newCall receiver meth mt args)) = length args"
  by (simp_all add: newCall_def)

lemmas args_match_newCall = args_match_def [of "newCall receiver meth mt args" for receiver meth mt args]

text \<open>What runs a test along its queue.\<close>

lemmas queue_simps = tracked_call tracked_passes pending_call_queue args_match_newCall

end
