(* ===== verification/Unit_Tests.thy ===== *)
theory Unit_Tests
  imports Fake_Client Generated_Mocks Calls_In_Order
begin

declare split_paired_All [simp del] split_paired_Ex [simp del]

text \<open>
  The unit tests of the repository, run on the model: each sets up mocks and what they expect, calls the code under test and looks
  at its result. A test succeeds when its assertions hold and the mocks are content. Tests say of the code what its authors
  expect of it; that the model passes them ties it to the program from another side.
\<close>

abbreviation any where "any \<equiv> Matching Any"
abbreviation the_context where "the_context \<equiv> Value GoContext"
abbreviation no_error where "no_error \<equiv> GoNil"
abbreviation an_error where "an_error s \<equiv> GoError (TextError s)"

definition contains_text :: "string \<Rightarrow> string \<Rightarrow> bool" where
  "contains_text s part = list_ex (\<lambda>i. take (length part) (drop i s) = part) [0..<length s + 1]"

section \<open>The controller\<close>

record test_mocks =
  tm_mr :: module_Mock
  tm_nmr :: metrics_Mock
  tm_nlr :: labeler_Mock
  tm_fu :: finalizers_Mock
  tm_cu :: conditions_Mock
  tm_nsv :: validator_Mock
  tm_c :: client_Mock

definition before_each :: "test_mocks \<times> mock_ctrl" where
  "before_each =
     (let (mr, ctrl) = module_NewMock NewController;
          (nmr, ctrl) = metrics_NewMock ctrl;
          (nlr, ctrl) = labeler_NewMock ctrl;
          (fu, ctrl) = finalizers_NewMock ctrl;
          (cu, ctrl) = conditions_NewMock ctrl;
          (nsv, ctrl) = validator_NewMock ctrl;
          (c, ctrl) = client_NewMock ctrl
      in (\<lparr>tm_mr = mr, tm_nmr = nmr, tm_nlr = nlr, tm_fu = fu, tm_cu = cu, tm_nsv = nsv, tm_c = c\<rparr>, ctrl))"

definition mocked_reconciler :: "(nat \<Rightarrow> time) \<Rightarrow> test_mocks \<Rightarrow> mock_ctrl reconciler" where
  "mocked_reconciler now t =
     NewReconciler (mock_api (tm_c t) now) (module_implementation (tm_mr t)) (metrics_implementation (tm_nmr t))
       (labeler_implementation (tm_nlr t)) (finalizers_implementation (tm_fu t)) (conditions_implementation (tm_cu t))
       (validator_implementation (tm_nsv t))"

text \<open>A read that fills in the metadata and the specification of the test's resource.\<close>

definition found :: "test_mocks \<Rightarrow> object_key \<Rightarrow> device_config \<Rightarrow> expectation" where
  "found t key dc =
     doing (client_Recorder_Get (client_EXPECT (tm_c t)) the_context (Value (GoKey key)) any [])
       (\<lambda>args. (case as_config (args ! 2) of
                  Some d \<Rightarrow> args[2 := GoConfig (d\<lparr>metadata := metadata dc, spec := spec dc\<rparr>)]
                | None \<Rightarrow> args, [no_error]))"

record test_outcome =
  to_result :: ctrl_result
  to_error :: "go_error option"
  to_events :: "event list"
  to_passes :: bool

definition reconcile_test ::
    "(test_mocks \<Rightarrow> mock_ctrl reconciler) \<Rightarrow> (test_mocks \<Rightarrow> mock_ctrl \<Rightarrow> mock_ctrl) \<Rightarrow> object_key \<Rightarrow> test_outcome" where
  "reconcile_test r expected req =
     (case before_each of (t, ctrl) \<Rightarrow>
        (case Reconcile (r t) req \<lparr>cs_world = expected t ctrl, ReconciliationFailed = Map.empty, cs_events = []\<rparr> of
           ((res, err), cs) \<Rightarrow>
             \<lparr>to_result = res, to_error = err, to_events = cs_events cs, to_passes = test_passes (cs_world cs)\<rparr>))"

definition succeeded :: "test_outcome \<Rightarrow> bool" where
  "succeeded out \<longleftrightarrow> to_passes out \<and> to_error out = None \<and> \<not> Requeue (to_result out)"

definition failed_with :: "string list \<Rightarrow> test_outcome \<Rightarrow> bool" where
  "failed_with texts out \<longleftrightarrow> to_passes out \<and> \<not> Requeue (to_result out) \<and>
     (case to_error out of None \<Rightarrow> False | Some err \<Rightarrow> list_all (contains_text (error_text err)) texts)"

text \<open>The expectations of the tests.\<close>

definition expect_check :: "test_mocks \<Rightarrow> device_config \<Rightarrow> go_value \<Rightarrow> expectation" where
  "expect_check t dc ret = returning (validator_Recorder_CheckDeviceConfigForConflictingNodeSelector
     (validator_EXPECT (tm_nsv t)) the_context (Value (GoConfig dc))) ret"

definition expect_contains :: "test_mocks \<Rightarrow> device_config \<Rightarrow> bool \<Rightarrow> expectation" where
  "expect_contains t dc ret =
     returning (finalizers_Recorder_ContainsDeletionFinalizer (finalizers_EXPECT (tm_fu t)) (Value (GoConfig dc))) (GoBool ret)"

definition expect_add :: "test_mocks \<Rightarrow> device_config \<Rightarrow> go_value \<Rightarrow> expectation" where
  "expect_add t dc ret =
     returning (finalizers_Recorder_AddDeletionFinalizer (finalizers_EXPECT (tm_fu t)) the_context (Value (GoConfig dc))) ret"

definition expect_remove :: "test_mocks \<Rightarrow> device_config \<Rightarrow> go_value \<Rightarrow> expectation" where
  "expect_remove t dc ret =
     returning (finalizers_Recorder_RemoveDeletionFinalizer (finalizers_EXPECT (tm_fu t)) the_context (Value (GoConfig dc))) ret"

definition expect_module :: "test_mocks \<Rightarrow> device_config \<Rightarrow> go_value \<Rightarrow> expectation" where
  "expect_module t dc ret =
     returning (module_Recorder_ReconcileModule (module_EXPECT (tm_mr t)) the_context (Value (GoConfig dc))) ret"

definition expect_delete :: "test_mocks \<Rightarrow> device_config \<Rightarrow> go_value \<Rightarrow> expectation" where
  "expect_delete t dc ret =
     returning (module_Recorder_DeleteModule (module_EXPECT (tm_mr t)) the_context (Value (GoConfig dc))) ret"

definition expect_labeler :: "test_mocks \<Rightarrow> device_config \<Rightarrow> go_value \<Rightarrow> expectation" where
  "expect_labeler t dc ret =
     returning (labeler_Recorder_ReconcileNodeLabeler (labeler_EXPECT (tm_nlr t)) the_context (Value (GoConfig dc))) ret"

definition expect_metrics :: "test_mocks \<Rightarrow> device_config \<Rightarrow> go_value \<Rightarrow> expectation" where
  "expect_metrics t dc ret =
     returning (metrics_Recorder_ReconcileNodeMetrics (metrics_EXPECT (tm_nmr t)) the_context (Value (GoConfig dc))) ret"

definition expect_errored :: "test_mocks \<Rightarrow> device_config \<Rightarrow> string \<Rightarrow> expectation" where
  "expect_errored t dc reason = returning (conditions_Recorder_SetConditionsErrored
     (conditions_EXPECT (tm_cu t)) the_context (Value (GoConfig dc)) (Value (GoString reason)) any) no_error"

definition expect_ready :: "test_mocks \<Rightarrow> device_config \<Rightarrow> string \<Rightarrow> expectation" where
  "expect_ready t dc reason = returning (conditions_Recorder_SetConditionsReady
     (conditions_EXPECT (tm_cu t)) the_context (Value (GoConfig dc)) (Value (GoString reason)) any) no_error"

definition expect_read :: "test_mocks \<Rightarrow> object_key \<Rightarrow> go_value \<Rightarrow> expectation" where
  "expect_read t key ret = returning (client_Recorder_Get (client_EXPECT (tm_c t)) the_context (Value (GoKey key)) any []) ret"

lemmas expect_defs = expect_check_def expect_contains_def expect_add_def expect_remove_def expect_module_def expect_delete_def
  expect_labeler_def expect_metrics_def expect_errored_def expect_ready_def expect_read_def found_def

text \<open>The tests, in the order of \<^verbatim>\<open>controllers/deviceconfig_controller_test.go\<close>.\<close>

definition not_found_test :: "(nat \<Rightarrow> time) \<Rightarrow> object_key \<Rightarrow> test_outcome" where
  "not_found_test now key = reconcile_test (mocked_reconciler now)
     (\<lambda>t. in_order [expect_read t key (GoError (NewNotFound ''deviceconfigs'' (snd key)))]) key"

definition generic_error_test :: "(nat \<Rightarrow> time) \<Rightarrow> object_key \<Rightarrow> test_outcome" where
  "generic_error_test now key = reconcile_test (mocked_reconciler now)
     (\<lambda>t. in_order [expect_read t key (GoError (StatusError StatusReasonServiceUnavailable 503 ''Service unavailable''))]) key"

definition all_created_test :: "(nat \<Rightarrow> time) \<Rightarrow> object_key \<Rightarrow> device_config \<Rightarrow> test_outcome" where
  "all_created_test now key dc = reconcile_test (mocked_reconciler now)
     (\<lambda>t. in_order [found t key dc, expect_check t dc no_error, expect_contains t dc False, expect_add t dc no_error,
        expect_module t dc no_error, expect_labeler t dc no_error, expect_metrics t dc no_error,
        expect_ready t dc ''Reconciled'']) key"

definition module_error_test :: "(nat \<Rightarrow> time) \<Rightarrow> object_key \<Rightarrow> device_config \<Rightarrow> test_outcome" where
  "module_error_test now key dc = reconcile_test (mocked_reconciler now)
     (\<lambda>t. in_order [found t key dc, expect_check t dc no_error, expect_contains t dc False, expect_add t dc no_error,
        expect_module t dc (an_error ''some-error''), expect_errored t dc ReasonModuleFailed]) key"

definition metrics_error_test :: "(nat \<Rightarrow> time) \<Rightarrow> object_key \<Rightarrow> device_config \<Rightarrow> test_outcome" where
  "metrics_error_test now key dc = reconcile_test (mocked_reconciler now)
     (\<lambda>t. in_order [found t key dc, expect_check t dc no_error, expect_contains t dc False, expect_add t dc no_error,
        expect_module t dc no_error, expect_labeler t dc no_error, expect_metrics t dc (an_error ''some-error''),
        expect_errored t dc ReasonNodeMetricsFailed]) key"

definition add_finalizer_error_test :: "(nat \<Rightarrow> time) \<Rightarrow> object_key \<Rightarrow> device_config \<Rightarrow> test_outcome" where
  "add_finalizer_error_test now key dc = reconcile_test (mocked_reconciler now)
     (\<lambda>t. in_order [found t key dc, expect_check t dc no_error, expect_contains t dc False,
        expect_add t dc (an_error ''some-error'')]) key"

text \<open>The test of a conflict runs the real reconcilers and updaters, over the mock client.\<close>

definition real_reconciler ::
    "(nat \<Rightarrow> time) \<Rightarrow> scheme \<Rightarrow> controller_settings \<Rightarrow> test_mocks \<Rightarrow> mock_ctrl reconciler" where
  "real_reconciler now sch st t =
     (let c = mock_api (tm_c t) now in
      NewReconciler c (module_NewReconciler c sch st) (metrics_NewReconciler c sch st) (labeler_NewReconciler c sch st)
        (finalizers_NewUpdater c) (conditions_NewUpdater c) (validator_implementation (tm_nsv t)))"

definition conflict_test ::
    "(nat \<Rightarrow> time) \<Rightarrow> scheme \<Rightarrow> controller_settings \<Rightarrow> object_key \<Rightarrow> device_config \<Rightarrow> test_outcome" where
  "conflict_test now sch st key dc = reconcile_test (real_reconciler now sch st)
     (\<lambda>t ctrl. in_order [found t key dc] (snd (expect_check t dc (an_error ''an error'') ctrl))) key"

text \<open>A resource that is being deleted. The updater of conditions and the validator, nil there, are mocks that expect nothing.\<close>

definition delete_error_test :: "(nat \<Rightarrow> time) \<Rightarrow> object_key \<Rightarrow> device_config \<Rightarrow> test_outcome" where
  "delete_error_test now key dc = reconcile_test (mocked_reconciler now)
     (\<lambda>t ctrl. in_order [expect_contains t dc True, expect_delete t dc (an_error ''something went wrong'')]
        (in_order [found t key dc] ctrl)) key"

definition deleted_test :: "(nat \<Rightarrow> time) \<Rightarrow> object_key \<Rightarrow> device_config \<Rightarrow> test_outcome" where
  "deleted_test now key dc = reconcile_test (mocked_reconciler now)
     (\<lambda>t ctrl. in_order [expect_contains t dc True, expect_delete t dc no_error, expect_remove t dc no_error]
        (in_order [found t key dc] ctrl)) key"

definition remove_finalizer_error_test :: "(nat \<Rightarrow> time) \<Rightarrow> object_key \<Rightarrow> device_config \<Rightarrow> test_outcome" where
  "remove_finalizer_error_test now key dc = reconcile_test (mocked_reconciler now)
     (\<lambda>t ctrl. in_order [expect_contains t dc True, expect_delete t dc no_error, expect_remove t dc (an_error ''some error'')]
        (in_order [found t key dc] ctrl)) key"

definition no_finalizer_test :: "(nat \<Rightarrow> time) \<Rightarrow> object_key \<Rightarrow> device_config \<Rightarrow> test_outcome" where
  "no_finalizer_test now key dc = reconcile_test (mocked_reconciler now)
     (\<lambda>t. in_order [found t key dc, expect_contains t dc False]) key"

lemmas controller_test_defs = not_found_test_def generic_error_test_def all_created_test_def module_error_test_def
  metrics_error_test_def add_finalizer_error_test_def conflict_test_def delete_error_test_def deleted_test_def
  remove_finalizer_error_test_def no_finalizer_test_def

lemma before_each_eq:
  "before_each = (\<lparr>tm_mr = module_Mock 0, tm_nmr = metrics_Mock 1, tm_nlr = labeler_Mock 2, tm_fu = finalizers_Mock 3,
     tm_cu = conditions_Mock 4, tm_nsv = validator_Mock 5, tm_c = client_Mock 6\<rparr>, ctrl_of (tracked_new 7))"
  unfolding tracked_new(1) [symmetric] by (simp add: before_each_def mock_defs new_mock_def NewController_def)

lemma same_config: "status dc = status zero_config \<Longrightarrow> zero_config\<lparr>metadata := metadata dc, spec := spec dc\<rparr> = dc"
  by (cases dc) (simp add: zero_config_def)


lemma mocked_reconciler_simps [simp]:
  "rc_Get (mocked_reconciler now t) = (\<lambda>key. error_or_object (the_object as_config zero_config) 2
     (client_Mock_Get (tm_c t) key (GoConfig zero_config) []))"
  "mr_ReconcileModule (mocked_reconciler now t) = (\<lambda>dc. error_only (module_Mock_ReconcileModule (tm_mr t) dc))"
  "mr_DeleteModule (mocked_reconciler now t) = (\<lambda>dc. error_only (module_Mock_DeleteModule (tm_mr t) dc))"
  "nlr_ReconcileNodeLabeler (mocked_reconciler now t) = (\<lambda>dc. error_only (labeler_Mock_ReconcileNodeLabeler (tm_nlr t) dc))"
  "nmr_ReconcileNodeMetrics (mocked_reconciler now t) = (\<lambda>dc. error_only (metrics_Mock_ReconcileNodeMetrics (tm_nmr t) dc))"
  "fu_AddDeletionFinalizer (mocked_reconciler now t) =
     (\<lambda>cr. error_and_config 1 cr (finalizers_Mock_AddDeletionFinalizer (tm_fu t) cr))"
  "fu_RemoveDeletionFinalizer (mocked_reconciler now t) =
     (\<lambda>cr. error_and_config 1 cr (finalizers_Mock_RemoveDeletionFinalizer (tm_fu t) cr))"
  "fu_ContainsDeletionFinalizer (mocked_reconciler now t) =
     (\<lambda>cr ctrl. case finalizers_Mock_ContainsDeletionFinalizer (tm_fu t) cr ctrl of ((b, _), ctrl) \<Rightarrow> (b, ctrl))"
  "cu_SetConditionsReady (mocked_reconciler now t) =
     (\<lambda>cr reason message. error_and_config 1 cr (conditions_Mock_SetConditionsReady (tm_cu t) cr reason message))"
  "cu_SetConditionsErrored (mocked_reconciler now t) =
     (\<lambda>cr reason message. error_and_config 1 cr (conditions_Mock_SetConditionsErrored (tm_cu t) cr reason message))"
  "nsv_Check (mocked_reconciler now t) =
     (\<lambda>cr. error_only (validator_Mock_CheckDeviceConfigForConflictingNodeSelector (tm_nsv t) cr))"
  by (simp_all add: mocked_reconciler_def NewReconciler_def implementation_defs)

lemmas run_defs = Reconcile_def outside_def call_defs add_missing_finalizer_def
  reconcile_stages_def stage_failed_def reconcile_deletion_def deleteDeviceConfigResources_def Let_def

lemma reconcile_test_in_order:
  assumes "list_all2 expects (es (fst before_each)) cs"
    and "\<And>x. pending_of x = queue_from 0 [] cs \<Longrightarrow>
      P (case Reconcile (r (fst before_each)) req \<lparr>cs_world = ctrl_of x, ReconciliationFailed = Map.empty, cs_events = []\<rparr> of
           ((res, err), cs) \<Rightarrow>
             \<lparr>to_result = res, to_error = err, to_events = cs_events cs, to_passes = test_passes (cs_world cs)\<rparr>)"
  shows "P (reconcile_test r (\<lambda>t. in_order (es t)) req)"
proof -
  obtain x where "in_order (es (fst before_each)) (ctrl_of (tracked_new 7)) = ctrl_of x" "pending_of x = queue_from 0 [] cs"
    using in_order_tracked [OF assms(1), of "tracked_new 7"] by (auto simp: tracked_new)
  with assms(2) [of x] show ?thesis by (simp add: reconcile_test_def before_each_eq)
qed


lemmas outcome_defs = succeeded_def failed_with_def empty_result_def

lemma read_error_tests:
  "succeeded (not_found_test now key)" "failed_with [] (generic_error_test now key)"
  unfolding controller_test_defs expect_defs mock_defs
  by (rule reconcile_test_in_order, (rule scripts)+, simp add: before_each_eq,
      simp add: run_defs queue_simps outcome_defs NewNotFound_def IsNotFound_StatusError)+

lemma all_created:
  assumes "status dc = status zero_config" "time_IsZero (om_deletionTimestamp (metadata dc))"
  shows "succeeded (all_created_test now key dc)"
  unfolding controller_test_defs expect_defs mock_defs
  by (rule reconcile_test_in_order, (rule scripts)+, simp add: before_each_eq,
      simp add: run_defs queue_simps outcome_defs same_config [OF assms(1)] assms(2))

lemma stage_error_tests:
  assumes "status dc = status zero_config" "time_IsZero (om_deletionTimestamp (metadata dc))"
  shows "failed_with [''some-error''] (module_error_test now key dc)"
    "failed_with [''some-error''] (metrics_error_test now key dc)"
    "failed_with [''some-error''] (add_finalizer_error_test now key dc)"
  unfolding controller_test_defs expect_defs mock_defs
  by (rule reconcile_test_in_order, (rule scripts)+, simp add: before_each_eq,
      simp add: run_defs queue_simps outcome_defs contains_text_def same_config [OF assms(1)] assms(2))+

text \<open>The tests that record in two groups are run on the whole list.\<close>

lemmas record_defs = reconcile_test_def before_each_eq returning_def doing_def in_order_def Return_def DoAndReturn_def pending_simps

lemma no_finalizer:
  assumes "status dc = status zero_config" "\<not> time_IsZero (om_deletionTimestamp (metadata dc))"
  shows "succeeded (no_finalizer_test now key dc)"
  unfolding controller_test_defs expect_defs mock_defs
  by (rule reconcile_test_in_order, (rule scripts)+, simp add: before_each_eq,
      simp add: run_defs queue_simps outcome_defs same_config [OF assms(1)] assms(2))

lemma deletion_tests:
  assumes "status dc = status zero_config" "\<not> time_IsZero (om_deletionTimestamp (metadata dc))"
  shows "succeeded (deleted_test now key dc)"
  unfolding controller_test_defs expect_defs mock_defs
  by (simp add: record_defs, simp add: run_defs pending_simps outcome_defs same_config [OF assms(1)] assms(2))

lemma deletion_error_tests:
  assumes "status dc = status zero_config" "\<not> time_IsZero (om_deletionTimestamp (metadata dc))"
  shows "failed_with [''failed to delete DeviceConfig resources'', ''something went wrong''] (delete_error_test now key dc)"
    "failed_with [] (remove_finalizer_error_test now key dc)"
  unfolding controller_test_defs expect_defs mock_defs
  by (simp add: record_defs, simp add: run_defs pending_simps outcome_defs same_config [OF assms(1)] assms(2)
      contains_text_def errorf_w_def)+

lemma conflict_tests:
  assumes "status dc = status zero_config" "time_IsZero (om_deletionTimestamp (metadata dc))"
  shows "succeeded (conflict_test now sch st key dc)"
    "map ev_type (to_events (conflict_test now sch st key dc)) = [EventTypeWarning]"
    "contains_text (ev_message (hd (to_events (conflict_test now sch st key dc)))) ''Conflicting DeviceConfig NodeSelectors found''"
  unfolding controller_test_defs expect_defs mock_defs real_reconciler_def
  by (simp_all add: record_defs)
    (simp_all add: run_defs NewReconciler_def validator_implementation_def pending_simps outcome_defs contains_text_def
      conflict_message_def record_event_def same_config [OF assms(1)] assms(2))

text \<open>
  C33. The unit tests of the controller pass on the model, for every request, any resource that is not being deleted and any
  that is. With mocks for all collaborators: a resource that is gone is no error, a failing read is one; everything is
  called once, in order, for a new resource; a failing module, metrics or finalizer step is returned and the first two are
  reported with their reason, the later stages not being called; a conflict of node selectors is no error, records one
  warning and calls nothing else; a deleted resource loses its module and then its finalizer, with the failures
  of either returned, and without a finalizer nothing is done.
\<close>

theorem controller_tests_pass:
  assumes "status dc = status zero_config" "time_IsZero (om_deletionTimestamp (metadata dc))"
    and "status gone = status zero_config" "\<not> time_IsZero (om_deletionTimestamp (metadata gone))"
  shows "succeeded (not_found_test now key) \<and> failed_with [] (generic_error_test now key) \<and>
    succeeded (all_created_test now key dc) \<and>
    failed_with [''some-error''] (module_error_test now key dc) \<and>
    failed_with [''some-error''] (metrics_error_test now key dc) \<and>
    failed_with [''some-error''] (add_finalizer_error_test now key dc) \<and>
    succeeded (conflict_test now sch st key dc) \<and>
    map ev_type (to_events (conflict_test now sch st key dc)) = [EventTypeWarning] \<and>
    contains_text (ev_message (hd (to_events (conflict_test now sch st key dc)))) ''Conflicting DeviceConfig NodeSelectors found'' \<and>
    failed_with [''failed to delete DeviceConfig resources'', ''something went wrong''] (delete_error_test now key gone) \<and>
    succeeded (deleted_test now key gone) \<and>
    failed_with [] (remove_finalizer_error_test now key gone) \<and>
    succeeded (no_finalizer_test now key gone)"
  by (intro conjI read_error_tests all_created [OF assms(1,2)] stage_error_tests [OF assms(1,2)] conflict_tests [OF assms(1,2)]
      deletion_tests [OF assms(3,4)] deletion_error_tests [OF assms(3,4)] no_finalizer [OF assms(3,4)])

text \<open>The resources of the tests.\<close>

definition testDeviceConfigName :: string where "testDeviceConfigName = ''test''"

definition makeTestDeviceConfig :: "(device_config \<Rightarrow> device_config) list \<Rightarrow> device_config" where
  "makeTestDeviceConfig opts =
     fold (\<lambda>option dc. option dc) opts (zero_config\<lparr>metadata := (metadata zero_config)\<lparr>om_name := testDeviceConfigName\<rparr>\<rparr>)"

definition deletedAt :: "time \<Rightarrow> device_config \<Rightarrow> device_config" where
  "deletedAt now dc = dc\<lparr>metadata := (metadata dc)\<lparr>om_deletionTimestamp := Some now\<rparr>\<rparr>"

theorem controller_tests_pass_run:
  "succeeded (all_created_test (\<lambda>_. 1) ([], testDeviceConfigName) (makeTestDeviceConfig [])) \<and>
   succeeded (deleted_test (\<lambda>_. 1) ([], testDeviceConfigName) (makeTestDeviceConfig [deletedAt 1]))"
  using controller_tests_pass [of "makeTestDeviceConfig []" "makeTestDeviceConfig [deletedAt 1]" "\<lambda>_. 1" "([], testDeviceConfigName)"]
  by (simp add: makeTestDeviceConfig_def deletedAt_def zero_config_def empty_meta_def time_IsZero_def)

end
