(* ===== verification/Reconciler_Tests.thy ===== *)
theory Reconciler_Tests
  imports Unit_Tests
begin

declare split_paired_All [simp del] split_paired_Ex [simp del]

text \<open>
  The unit tests of the three reconcilers of cluster objects, over a mock client: what they return where
  the client finds nothing, fails to read, to create or to delete, and what they write into the objects.
\<close>

section \<open>Tests over a mock client\<close>

definition with_client ::
    "(nat \<Rightarrow> time) \<Rightarrow> (client_Mock \<Rightarrow> mock_ctrl \<Rightarrow> mock_ctrl) \<Rightarrow> (mock_ctrl api \<Rightarrow> (mock_ctrl, 'a) effect) \<Rightarrow> 'a \<times> bool" where
  "with_client now expected run =
     (case client_NewMock NewController of (c, ctrl) \<Rightarrow>
        (case run (mock_api c now) (expected c ctrl) of (r, ctrl) \<Rightarrow> (r, test_passes ctrl)))"

definition returns_no_error :: "go_error option \<times> bool \<Rightarrow> bool" where
  "returns_no_error out \<longleftrightarrow> snd out \<and> fst out = None"

definition returns_error :: "go_error option \<times> bool \<Rightarrow> bool" where
  "returns_error out \<longleftrightarrow> snd out \<and> fst out \<noteq> None"

text \<open>Nothing is found, as often as the code looks, and the creation returns a value.\<close>

definition absent_then_created :: "string \<Rightarrow> string \<Rightarrow> go_value \<Rightarrow> client_Mock \<Rightarrow> mock_ctrl \<Rightarrow> mock_ctrl" where
  "absent_then_created resource name ret c ctrl =
     in_order [returning (client_Recorder_Create (client_EXPECT c) the_context any []) ret]
       (in_order [any_times (returning (client_Recorder_Get (client_EXPECT c) the_context any any [])
          (GoError (NewNotFound resource name)))] ctrl)"

definition read_fails :: "client_Mock \<Rightarrow> mock_ctrl \<Rightarrow> mock_ctrl" where
  "read_fails c = in_order [returning (client_Recorder_Get (client_EXPECT c) the_context any any [])
     (an_error ''some-other-that-not-found-error'')]"

definition delete_returns :: "go_value \<Rightarrow> client_Mock \<Rightarrow> mock_ctrl \<Rightarrow> mock_ctrl" where
  "delete_returns ret c = in_order [returning (client_Recorder_Delete (client_EXPECT c) the_context any []) ret]"

text \<open>The six tests that each of the four objects has.\<close>

definition object_tests_pass ::
    "(nat \<Rightarrow> time) \<Rightarrow> string \<Rightarrow> string \<Rightarrow> (mock_ctrl api \<Rightarrow> (mock_ctrl, go_error option) effect)
      \<Rightarrow> (mock_ctrl api \<Rightarrow> (mock_ctrl, go_error option) effect) \<Rightarrow> bool" where
  "object_tests_pass now resource name reconcile delete \<longleftrightarrow>
     returns_no_error (with_client now (absent_then_created resource name no_error) reconcile) \<and>
     returns_error (with_client now (absent_then_created resource name (an_error ''some-error'')) reconcile) \<and>
     returns_error (with_client now read_fails reconcile) \<and>
     returns_no_error (with_client now (delete_returns no_error) delete) \<and>
     returns_no_error (with_client now (delete_returns (GoError (NewNotFound resource name))) delete) \<and>
     returns_error (with_client now (delete_returns (an_error ''some-error'')) delete)"

lemma with_client_eq:
  "with_client now expected run =
     (case run (mock_api (client_Mock 0) now) (expected (client_Mock 0) (ctrl_of (tracked_new 1))) of
        (r, ctrl) \<Rightarrow> (r, test_passes ctrl))"
  unfolding tracked_new(1) [symmetric] by (simp add: with_client_def mock_defs new_mock_def NewController_def)

lemmas client_test_defs = absent_then_created_def read_fails_def delete_returns_def any_times_def
  returning_def doing_def in_order_def Return_def DoAndReturn_def mock_defs

lemmas outcome_tests = returns_error_def returns_no_error_def

lemma ensure_creates:
  assumes "f (named_object name ns zero) = Inr y" "ObjectKeyFromObject y = (ns, name)"
  shows "returns_no_error (with_client now (absent_then_created resource rname no_error)
      (\<lambda>api. ensure_object (kind_implementation (client_Mock 0) boxed unboxed z) name ns zero f prefix))"
    "returns_error (with_client now (absent_then_created resource rname (an_error ''some-error''))
      (\<lambda>api. ensure_object (kind_implementation (client_Mock 0) boxed unboxed z) name ns zero f prefix))"
    "returns_error (with_client now read_fails
      (\<lambda>api. ensure_object (kind_implementation (client_Mock 0) boxed unboxed z) name ns zero f prefix))"
  unfolding with_client_eq
  by (simp_all add: client_test_defs pending_simps)
    (simp_all add: ensure_object_def CreateOrPatch_def mutate_def call_defs assms pending_simps outcome_tests Let_def)

lemma remove_deletes:
  "returns_no_error (with_client now (delete_returns no_error)
     (\<lambda>api. remove_object (kind_implementation (client_Mock 0) boxed unboxed z) obj prefix))"
  "returns_no_error (with_client now (delete_returns (GoError (NewNotFound resource rname)))
     (\<lambda>api. remove_object (kind_implementation (client_Mock 0) boxed unboxed z) obj prefix))"
  "returns_error (with_client now (delete_returns (an_error ''some-error''))
     (\<lambda>api. remove_object (kind_implementation (client_Mock 0) boxed unboxed z) obj prefix))"
  unfolding with_client_eq
  by (simp_all add: client_test_defs pending_simps)
    (simp_all add: remove_object_def call_defs pending_simps outcome_tests)

text \<open>All six at once, for an object that is ensured and removed as the reconcilers do.\<close>

lemma object_tests:
  assumes "\<And>c. reconcile (mock_api c now) = ensure_object (kind_implementation c boxed unboxed z) name ns zero f prefix"
    and "\<And>c. delete (mock_api c now) = remove_object (kind_implementation c boxed unboxed z) obj prefix'"
    and "f (named_object name ns zero) = Inr y" "ObjectKeyFromObject y = (ns, name)"
  shows "object_tests_pass now resource rname reconcile delete"
  unfolding object_tests_pass_def with_client_eq assms(1,2)
  by (intro conjI ensure_creates [where f = f and name = name and zero = zero, OF assms(3,4), unfolded with_client_eq] remove_deletes [unfolded with_client_eq])

text \<open>What else the tests ask: a nil object is refused.\<close>

definition refuses_nil :: "string \<Rightarrow> go_error + 'a \<Rightarrow> bool" where
  "refuses_nil text out \<longleftrightarrow> (case out of Inl err \<Rightarrow> contains_text (error_text err) text | Inr _ \<Rightarrow> False)"

lemma module_tests:
  "object_tests_pass now ''modules'' (GetModuleName dc)
     (\<lambda>c. mod_ReconcileModule (module_NewReconciler c (AddToScheme base) st) dc)
     (\<lambda>c. mod_DeleteModule (module_NewReconciler c (AddToScheme base) st) dc)"
  by (rule object_tests [where f = "\<lambda>m. SetDesiredModule (AddToScheme base) st (Some m) dc", OF _ _ module_writer.accepts_new])
    (auto simp: module_NewReconciler_def ReconcileModule_eq [abs_def] DeleteModule_eq [abs_def])

lemma labeler_tests:
  "object_tests_pass now ''daemonsets'' (getNodeLabelerName dc)
     (\<lambda>c. lab_ReconcileNodeLabelerDaemonSet (labeler_NewReconciler c (AddToScheme base) st) dc)
     (\<lambda>c. lab_DeleteNodeLabelerDaemonSet (labeler_NewReconciler c (AddToScheme base) st) dc)"
  by (rule object_tests [where f = "\<lambda>ds. SetDesiredNodeLabelerDaemonSet (AddToScheme base) st (Some ds) dc",
        OF _ _ labeler_writer.accepts_new])
    (auto simp: labeler_NewReconciler_def ReconcileNodeLabelerDaemonSet_eq [abs_def] DeleteNodeLabelerDaemonSet_eq [abs_def])

lemma metrics_tests:
  "object_tests_pass now ''daemonsets'' (GetNodeMetricsName dc)
     (\<lambda>c. met_ReconcileNodeMetricsDaemonSet (metrics_NewReconciler c (AddToScheme base) st) dc)
     (\<lambda>c. met_DeleteNodeMetricsDaemonSet (metrics_NewReconciler c (AddToScheme base) st) dc)"
  by (rule object_tests [where f = "\<lambda>ds. SetDesiredNodeMetricsDaemonSet (AddToScheme base) st (Some ds) dc",
        OF _ _ metrics_writer.accepts_new])
    (auto simp: metrics_NewReconciler_def ReconcileNodeMetricsDaemonSet_eq [abs_def] DeleteNodeMetricsDaemonSet_eq [abs_def])

lemma metrics_service_tests:
  "object_tests_pass now ''services'' (GetNodeMetricsName dc)
     (\<lambda>c. met_ReconcileNodeMetricsService (metrics_NewReconciler c (AddToScheme base) st) dc)
     (\<lambda>c. met_DeleteNodeMetricsService (metrics_NewReconciler c (AddToScheme base) st) dc)"
  by (rule object_tests [where f = "\<lambda>svc. SetDesiredNodeMetricsService (AddToScheme base) (Some svc) dc",
        OF _ _ service_writer.accepts_new])
    (auto simp: metrics_NewReconciler_def ReconcileNodeMetricsService_eq [abs_def] DeleteNodeMetricsService_eq [abs_def])

section \<open>Tests of the desired objects\<close>

text \<open>
  The objects of these tests have the name \<open>a-name\<close> and lie in the namespace of the resource, whose node selector has one
  label; resource, label and settings are arbitrary here. What is asked of a written object is a predicate on it, with one conjunct for each test.
\<close>

definition selecting :: "string \<Rightarrow> string \<Rightarrow> device_config \<Rightarrow> device_config" where
  "selecting key val dc = dc\<lparr>spec := (spec dc)\<lparr>nodeSelector := Some (fmap_of_list [(key, val)])\<rparr>\<rparr>"

definition a_name :: "device_config \<Rightarrow> 'sp \<Rightarrow> ('sp, other_fields) k8s_object" where
  "a_name dc zero = named_object ''a-name'' (om_namespace (metadata dc)) zero"

definition written_with :: "('a \<Rightarrow> bool) \<Rightarrow> go_error + 'a \<Rightarrow> bool" where
  "written_with P out = (case out of Inl _ \<Rightarrow> False | Inr obj \<Rightarrow> P obj)"

definition module_as_tested :: "device_config \<Rightarrow> string \<Rightarrow> string \<Rightarrow> kmm_module \<Rightarrow> bool" where
  "module_as_tested dc key val m =
     (let loader = ms_moduleLoader (spec m); c = ml_container loader in
      (case ms_selector (spec m) of None \<Rightarrow> False | Some sel \<Rightarrow> fmlookup sel key = Some val) \<and>
      mlc_imagePullPolicy c = PullAlways \<and> length (mlc_kernelMappings c) = 1 \<and>
      km_containerImage (mlc_kernelMappings c ! 0) =
        driverImage (spec dc) @ '':'' @ driverVersion (spec dc) @ ''-${KERNEL_FULL_VERSION}'' \<and>
      mp_moduleName (mlc_modprobe c) = ''habanalabs'' \<and> mp_firmwarePath (mlc_modprobe c) = ''/opt/lib/firmware'' \<and>
      ml_serviceAccountName loader = driverServiceAccount \<and>
      (case ms_devicePlugin (spec m) of None \<Rightarrow> False | Some dp \<Rightarrow> dp_serviceAccountName dp = devicePluginServiceAccount))"

definition pod_as_tested :: "string \<Rightarrow> string \<Rightarrow> string \<Rightarrow> string \<Rightarrow> string \<Rightarrow> daemon_set \<Rightarrow> bool" where
  "pod_as_tested key val account cname img ds =
     (let pod = pt_spec (ds_template (spec ds)); c = ps_containers pod ! 0 in
      fmlookup (ps_nodeSelector pod) key = Some val \<and> ps_hostPID pod \<and> ps_serviceAccountName pod = account \<and>
      length (ps_containers pod) = 1 \<and> c_name c = cname \<and> c_image c = img \<and> c_imagePullPolicy c = PullAlways \<and>
      (case c_securityContext c of
         None \<Rightarrow> False | Some sec \<Rightarrow> sec_privileged sec = Some True \<and> sec_runAsUser sec = Some 0) \<and>
      length (c_volumeMounts c) = 1 \<and> length (ps_volumes pod) = 1)"

definition has_ports :: "daemon_set \<Rightarrow> bool" where
  "has_ports ds = (c_ports (ps_containers (pt_spec (ds_template (spec ds))) ! 0) \<noteq> [])"

definition service_as_tested :: "service \<Rightarrow> bool" where
  "service_as_tested s =
     (let port = svc_ports (spec s) ! 0 in
      length (svc_ports (spec s)) = 1 \<and> sp_port port = nodeMetricsPort \<and> sp_targetPort port = FromInt nodeMetricsPort \<and>
      sp_protocol port = ProtocolTCP \<and> fmlookup (om_annotations (metadata s)) ''prometheus.io/scrape'' \<noteq> None)"

lemma selecting_simps [simp]:
  "metadata (selecting key val dc) = metadata dc" "driverImage (spec (selecting key val dc)) = driverImage (spec dc)"
  "driverVersion (spec (selecting key val dc)) = driverVersion (spec dc)"
  "fmlookup (GetNodeSelector (selecting key val dc) ts) key = Some val"
  by (simp_all add: selecting_def GetNodeSelector_def)

lemma owned_by_written [simp]:
  "spec (owned_by dc obj) = spec obj" "om_annotations (metadata (owned_by dc obj)) = om_annotations (metadata obj)"
  by (simp_all add: owned_by_def upsertOwnerRef_def Let_def split: option.split)

lemma desired_module_tests:
  "written_with (module_as_tested dc key val)
     (SetDesiredModule (AddToScheme base) st (Some (a_name dc empty_module_spec)) (selecting key val dc))"
  using module_writer.accepts_new [where base = base and st = st and cr = "selecting key val dc" and name = "''a-name''" and zero = empty_module_spec]
  by (simp add: a_name_def written_with_def module_as_tested_def desired_module_spec_def makeModuleLoader_def
      makeKernelMappings_def makeDevicePlugin_def Let_def)

lemma desired_labeler_tests:
  "written_with (pod_as_tested key val nodeLabelerServiceAccount nodeLabelerSuffix (NodeLabelerImage st))
     (SetDesiredNodeLabelerDaemonSet (AddToScheme base) st (Some (a_name dc empty_daemon_set_spec)) (selecting key val dc))"
  using labeler_writer.accepts_new [where base = base and st = st and cr = "selecting key val dc" and name = "''a-name''" and zero = empty_daemon_set_spec]
  by (simp add: a_name_def written_with_def pod_as_tested_def labeler_template_def makeNodeLabelerContainer_def
      new_container_def Let_def)

lemma desired_metrics_tests:
  "written_with (\<lambda>ds. pod_as_tested key val nodeMetricsServiceAccount nodeMetricsSuffix (NodeMetricsImage st) ds \<and> has_ports ds)
     (SetDesiredNodeMetricsDaemonSet (AddToScheme base) st (Some (a_name dc empty_daemon_set_spec)) (selecting key val dc))"
  using metrics_writer.accepts_new [where base = base and st = st and cr = "selecting key val dc" and name = "''a-name''" and zero = empty_daemon_set_spec]
  by (simp add: a_name_def written_with_def pod_as_tested_def has_ports_def metrics_template_def makeNodeMetricsContainer_def
      new_container_def Let_def)

lemma desired_service_tests:
  "written_with service_as_tested
     (SetDesiredNodeMetricsService (AddToScheme base) (Some (a_name dc empty_service_spec)) (selecting key val dc))"
  using service_writer.accepts_new [where base = base and cr = "selecting key val dc" and name = "''a-name''" and zero = empty_service_spec]
  by (simp add: a_name_def written_with_def service_as_tested_def desired_service_spec_def scrape_annotations_def Let_def)

text \<open>
  C35. The unit tests of the three reconcilers of cluster objects pass on the model, for every resource and all settings. Over a
  mock client, each of the Module, the two DaemonSets and the Service is created where none is found; a failure to read or to
  create it is returned; its deletion succeeds where there was nothing to delete, and any other failure is returned. In each case
  the client was called as expected, in the expected order. A nil object is refused with the text that the tests ask for. A
  given object is written as the tests ask: the Module with the node selector, image, kernel module, firmware and service accounts; the
  pods with node selector, host processes, service account, one privileged container run as root with its name, image, ports, mount and volume; the Service with
  its port, target port, protocol and annotation.
\<close>

theorem reconciler_tests_pass:
  "object_tests_pass now ''modules'' (GetModuleName dc)
     (\<lambda>c. mod_ReconcileModule (module_NewReconciler c (AddToScheme base) st) dc)
     (\<lambda>c. mod_DeleteModule (module_NewReconciler c (AddToScheme base) st) dc) \<and>
   object_tests_pass now ''daemonsets'' (getNodeLabelerName dc)
     (\<lambda>c. lab_ReconcileNodeLabelerDaemonSet (labeler_NewReconciler c (AddToScheme base) st) dc)
     (\<lambda>c. lab_DeleteNodeLabelerDaemonSet (labeler_NewReconciler c (AddToScheme base) st) dc) \<and>
   object_tests_pass now ''daemonsets'' (GetNodeMetricsName dc)
     (\<lambda>c. met_ReconcileNodeMetricsDaemonSet (metrics_NewReconciler c (AddToScheme base) st) dc)
     (\<lambda>c. met_DeleteNodeMetricsDaemonSet (metrics_NewReconciler c (AddToScheme base) st) dc) \<and>
   object_tests_pass now ''services'' (GetNodeMetricsName dc)
     (\<lambda>c. met_ReconcileNodeMetricsService (metrics_NewReconciler c (AddToScheme base) st) dc)
     (\<lambda>c. met_DeleteNodeMetricsService (metrics_NewReconciler c (AddToScheme base) st) dc) \<and>
   refuses_nil ''module cannot be nil'' (SetDesiredModule (AddToScheme base) st None dc) \<and>
   refuses_nil ''daemonset cannot be nil'' (SetDesiredNodeLabelerDaemonSet (AddToScheme base) st None dc) \<and>
   refuses_nil ''daemonset cannot be nil'' (SetDesiredNodeMetricsDaemonSet (AddToScheme base) st None dc) \<and>
   refuses_nil ''service cannot be nil'' (SetDesiredNodeMetricsService (AddToScheme base) None dc) \<and>
   written_with (module_as_tested dc key val)
     (SetDesiredModule (AddToScheme base) st (Some (a_name dc empty_module_spec)) (selecting key val dc)) \<and>
   written_with (pod_as_tested key val nodeLabelerServiceAccount nodeLabelerSuffix (NodeLabelerImage st))
     (SetDesiredNodeLabelerDaemonSet (AddToScheme base) st (Some (a_name dc empty_daemon_set_spec)) (selecting key val dc)) \<and>
   written_with (\<lambda>ds. pod_as_tested key val nodeMetricsServiceAccount nodeMetricsSuffix (NodeMetricsImage st) ds \<and> has_ports ds)
     (SetDesiredNodeMetricsDaemonSet (AddToScheme base) st (Some (a_name dc empty_daemon_set_spec)) (selecting key val dc)) \<and>
   written_with service_as_tested
     (SetDesiredNodeMetricsService (AddToScheme base) (Some (a_name dc empty_service_spec)) (selecting key val dc))"
  using module_tests labeler_tests metrics_tests metrics_service_tests
    desired_module_tests desired_labeler_tests desired_metrics_tests desired_service_tests
  by (simp add: refuses_nil_def contains_text_def SetDesiredModule_def [where m = None] SetDesiredNodeLabelerDaemonSet_def [where ds = None]
      SetDesiredNodeMetricsDaemonSet_def [where ds = None] SetDesiredNodeMetricsService_def [where s = None])

end
