(* ===== verification/Updater_Tests.thy ===== *)
theory Updater_Tests
  imports Reconciler_Tests
begin

declare split_paired_All [simp del] split_paired_Ex [simp del]

text \<open>
  The unit tests of the finalizer and the condition updater. They expect the client to be given the very resource that the updater
  changes in place, so the expected argument is, here, the changed resource.
\<close>

section \<open>Finalizers\<close>

definition update_expected :: "device_config \<Rightarrow> client_Mock \<Rightarrow> expectation" where
  "update_expected dc c = client_Recorder_Update (client_EXPECT c) the_context (Value (GoConfig dc)) []"

text \<open>Without a result of its own a call returns zero values, here no error.\<close>

definition finalizer_test ::
    "(nat \<Rightarrow> time) \<Rightarrow> (client_Mock \<Rightarrow> expectation)
      \<Rightarrow> (mock_ctrl finalizer_updater \<Rightarrow> (mock_ctrl, go_error option \<times> device_config) effect)
      \<Rightarrow> (go_error option \<times> device_config) \<times> bool" where
  "finalizer_test now e run = with_client now (\<lambda>c ctrl. snd (e c ctrl)) (\<lambda>api. run (finalizers_NewUpdater api))"

definition finalizer_tests_pass :: "(nat \<Rightarrow> time) \<Rightarrow> device_config \<Rightarrow> bool" where
  "finalizer_tests_pass now dc \<longleftrightarrow>
     (case finalizer_test now (update_expected (finalized dc)) (\<lambda>u. fin_AddDeletionFinalizer u dc) of
        ((err, out), ok) \<Rightarrow> ok \<and> err = None \<and> DeviceConfigDeletionFinalizer \<in> set (om_finalizers (metadata out))) \<and>
     (case finalizer_test now (\<lambda>c. returning (update_expected (finalized dc) c) (an_error ''some error''))
             (\<lambda>u. fin_AddDeletionFinalizer u dc) of
        ((err, _), ok) \<Rightarrow> ok \<and> err \<noteq> None) \<and>
     (case finalizer_test now (update_expected (unfinalized dc)) (\<lambda>u. fin_RemoveDeletionFinalizer u dc) of
        ((err, out), ok) \<Rightarrow> ok \<and> err = None \<and> DeviceConfigDeletionFinalizer \<notin> set (om_finalizers (metadata out))) \<and>
     (case finalizer_test now (\<lambda>c. returning (update_expected (unfinalized dc) c) (an_error ''some error''))
             (\<lambda>u. fin_RemoveDeletionFinalizer u dc) of
        ((err, _), ok) \<Rightarrow> ok \<and> err \<noteq> None)"

lemma finalizer_tests: "finalizer_tests_pass now dc"
  unfolding finalizer_tests_pass_def finalizer_test_def with_client_eq
  by (intro conjI; simp add: update_expected_def client_test_defs pending_simps;
      simp add: finalizers_NewUpdater_def AddDeletionFinalizer_eq RemoveDeletionFinalizer_eq call_defs pending_simps
        finalized_def unfinalized_def ContainsDeletionFinalizer_iff)

section \<open>Conditions\<close>

text \<open>The writer of the status is a second mock, which the client's \<open>Status\<close> returns.\<close>

definition condition_test ::
    "(nat \<Rightarrow> time) \<Rightarrow> device_config \<Rightarrow> (expectation \<Rightarrow> expectation)
      \<Rightarrow> (mock_ctrl condition_updater \<Rightarrow> (mock_ctrl, go_error option \<times> device_config) effect)
      \<Rightarrow> (go_error option \<times> device_config) \<times> bool" where
  "condition_test now written answer run =
     with_client now
       (\<lambda>c ctrl.
          case subresource_NewMock ctrl of (w, ctrl) \<Rightarrow>
          case returning (client_Recorder_Status (client_EXPECT c)) (GoMock (subresource_id w)) ctrl of (_, ctrl) \<Rightarrow>
            snd (answer (subresource_Recorder_Update (subresource_EXPECT w) the_context (Value (GoConfig written)) []) ctrl))
       (\<lambda>api. run (conditions_NewUpdater api))"

definition shows_conditions :: "(string \<times> condition_status \<times> string \<times> string) list \<Rightarrow> device_config \<Rightarrow> bool" where
  "shows_conditions cs dc \<longleftrightarrow>
     map (\<lambda>c. (cond_type c, cond_status c, cond_reason c, cond_message c)) (conditions (status dc)) = cs"

definition condition_tests_pass :: "(nat \<Rightarrow> time) \<Rightarrow> device_config \<Rightarrow> string \<Rightarrow> string \<Rightarrow> bool" where
  "condition_tests_pass now dc reason message \<longleftrightarrow>
     (let dc = set_conditions [] dc;
          ready = set_conditions (ready_conditions (now 0) (now 1) reason message []) dc;
          errored = set_conditions (errored_conditions (now 0) (now 1) reason message []) dc
      in (case condition_test now ready (\<lambda>e. returning e no_error) (\<lambda>u. con_SetConditionsReady u dc reason message) of
            ((err, out), ok) \<Rightarrow> ok \<and> err = None \<and>
              shows_conditions [(''Ready'', ConditionTrue, reason, message), (''Errored'', ConditionFalse, ''Ready'', [])] out) \<and>
         (case condition_test now ready (\<lambda>e. returning e (an_error ''some error''))
                 (\<lambda>u. con_SetConditionsReady u dc reason message) of
            ((err, _), ok) \<Rightarrow> ok \<and> err \<noteq> None) \<and>
         (case condition_test now errored (\<lambda>e. returning e no_error) (\<lambda>u. con_SetConditionsErrored u dc reason message) of
            ((err, out), ok) \<Rightarrow> ok \<and> err = None \<and>
              shows_conditions [(''Ready'', ConditionFalse, ''Errored'', []), (''Errored'', ConditionTrue, reason, message)] out) \<and>
         (case condition_test now errored (\<lambda>e. returning e (an_error ''some error''))
                 (\<lambda>u. con_SetConditionsErrored u dc reason message) of
            ((err, _), ok) \<Rightarrow> ok \<and> err \<noteq> None))"

lemma new_mock_tracked: "new_mock (ctrl_of (tracked_new n)) = (n, ctrl_of (tracked_new (n + 1)))"
  unfolding tracked_new(1) [symmetric] by (simp add: new_mock_def)

lemma set_conditions_twice [simp]: "set_conditions cs (set_conditions ds dc) = set_conditions cs dc"
  by (simp_all add: set_conditions_def)

lemma condition_tests: "condition_tests_pass now dc reason message"
proof -
  have ready: "map (\<lambda>c. (cond_type c, cond_status c, cond_reason c, cond_message c)) (ready_conditions t1 t2 reason message []) =
      [(''Ready'', ConditionTrue, reason, message), (''Errored'', ConditionFalse, ''Ready'', [])]" for t1 t2
    by (simp add: ready_conditions_def SetStatusCondition_Nil SetStatusCondition_Cons new_transition_def new_condition_def
        Ready_def Errored_def)
  have errored: "map (\<lambda>c. (cond_type c, cond_status c, cond_reason c, cond_message c)) (errored_conditions t1 t2 reason message []) =
      [(''Ready'', ConditionFalse, ''Errored'', []), (''Errored'', ConditionTrue, reason, message)]" for t1 t2
    by (simp add: errored_conditions_def SetStatusCondition_Nil SetStatusCondition_Cons new_transition_def new_condition_def
        Ready_def Errored_def)
  show ?thesis
    unfolding condition_tests_pass_def condition_test_def with_client_eq Let_def
    by (intro conjI; simp add: client_test_defs new_mock_tracked pending_simps;
        simp add: conditions_NewUpdater_def SetConditionsReady_def SetConditionsErrored_def write_status_def through_status_def
          call_defs pending_simps shows_conditions_def ready errored)
qed

text \<open>
  C36. The unit tests of the two updaters pass on the model, for every resource, reason and message. The finalizer updater sends the
  client one update, with the finalizer or without it, and returns its failure. The condition updater writes the status through
  the writer that the client returns: Ready and Errored, in this order, true and false or false and true, the given reason
  and message on the true one; a failure of the write is returned.
\<close>

theorem updater_tests_pass:
  "finalizer_tests_pass now dc \<and> condition_tests_pass now dc reason message \<and>
   fst (fin_ContainsDeletionFinalizer (finalizers_NewUpdater (mock_api c now)) (with_finalizers [DeviceConfigDeletionFinalizer] dc) ctrl) \<and>
   \<not> fst (fin_ContainsDeletionFinalizer (finalizers_NewUpdater (mock_api c now)) (with_finalizers [] dc) ctrl)"
  using finalizer_tests condition_tests
  by (simp add: finalizers_NewUpdater_def ContainsDeletionFinalizer_iff)

end
