(* ===== verification/Json_Merge.thy ===== *)
theory Json_Merge
  imports Workload_Types
begin

text \<open>
  JSON merge patches (vendored \<^verbatim>\<open>github.com/evanphx/json-patch\<close>): the client computes the patch between two documents, the server
  applies it to the document that it has. Go's maps of decoded values are finite maps, and null is a value of its own. Numbers are
  whole, as in all objects of the operator.
\<close>

datatype json =
    JNull
  | JBool bool
  | JNum int
  | JStr string
  | JArr "json list"
  | JObj "(string, json) fmap"

type_synonym json_doc = "(string, json) fmap"

section \<open>Loops over the entries of a map\<close>

text \<open>The entries that the body of a loop sets, where it sets none but that of its own key.\<close>

definition collect_entries :: "('k \<Rightarrow> 'v \<Rightarrow> 'w option) \<Rightarrow> ('k, 'v) fmap \<Rightarrow> ('k, 'w) fmap" where
  "collect_entries f m =
     fmmap_keys (\<lambda>k v. the (f k v))
       (fmfilter (\<lambda>k. case fmlookup m k of None \<Rightarrow> False | Some v \<Rightarrow> f k v \<noteq> None) m)"

lemma collect_entries_lookup [simp]:
  "fmlookup (collect_entries f m) k = (case fmlookup m k of None \<Rightarrow> None | Some v \<Rightarrow> f k v)"
  by (auto simp: collect_entries_def split: option.splits)

lemma collect_entries_cong [fundef_cong]:
  assumes "m = n" "\<And>k v. fmlookup n k = Some v \<Longrightarrow> f k v = g k v"
  shows "collect_entries f m = collect_entries g n"
  using assms by (intro fmap_ext) (simp split: option.split)

lemma fmpred_cong [fundef_cong]:
  assumes "m = n" "\<And>k v. fmlookup n k = Some v \<Longrightarrow> P k v = Q k v"
  shows "fmpred P m = fmpred Q n"
  using assms by (simp add: fmpred_iff)

lemma json_size: "fmlookup m k = Some v \<Longrightarrow> size v < Suc (size_fmap (\<lambda>_. 0) size m)"
proof -
  assume "fmlookup m k = Some v"
  then have "(k, v) \<in> fset (fset_of_fmap m)" by simp
  from member_le_sum [OF this, of "\<lambda>(a, b). Suc (size b)"] show ?thesis
    by (simp add: split_def)
qed

lemma list_size: "x \<in> set xs \<Longrightarrow> size x < Suc (size_list size xs)"
  by (induction xs) auto

lemma zip_size: "(x, y) \<in> set (zip xs ys) \<Longrightarrow> size y < Suc (size_list size ys)"
  by (induction xs ys rule: list_induct2') auto

section \<open>The difference of two documents\<close>

fun typeOf :: "json \<Rightarrow> string" where
  "typeOf JNull = ''nil''"
| "typeOf (JBool _) = ''bool''"
| "typeOf (JNum _) = ''float64''"
| "typeOf (JStr _) = ''string''"
| "typeOf (JArr _) = ''[]interface {}''"
| "typeOf (JObj _) = ''map[string]interface {}''"

function (sequential) matchesValue :: "json \<Rightarrow> json \<Rightarrow> bool"
  and matchesArray :: "json list \<Rightarrow> json list \<Rightarrow> bool" where
  "matchesValue (JStr at) (JStr bt) = (bt = at)"
| "matchesValue (JNum at) (JNum bt) = (bt = at)"
| "matchesValue (JBool at) (JBool bt) = (bt = at)"
| "matchesValue JNull JNull = True"
| "matchesValue (JObj at) (JObj bt) =
     (if fcard (fmdom bt) \<noteq> fcard (fmdom at) then False
      else fmpred (\<lambda>key bv. case fmlookup at key of None \<Rightarrow> False | Some av \<Rightarrow> matchesValue av bv) bt)"
| "matchesValue (JArr at) (JArr bt) = matchesArray at bt"
| "matchesValue _ _ = False"
| "matchesArray a b =
     (if length a \<noteq> length b then False else list_all (\<lambda>(av, bv). matchesValue av bv) (zip a b))"
  by pat_completeness auto

termination
  by (relation "measure (case_sum (\<lambda>(_, bv). 2 * size bv) (\<lambda>(_, b). 2 * size_list size b + 1))")
     (auto dest: json_size zip_size)

function getDiff :: "json_doc \<Rightarrow> json_doc \<Rightarrow> json_doc" where
  "getDiff a b =
     collect_entries
       (\<lambda>key bv.
          case fmlookup a key of
            None \<Rightarrow> Some bv
          | Some av \<Rightarrow>
              if typeOf av \<noteq> typeOf bv then Some bv
              else
                (case (av, bv) of
                   (JObj at, JObj bt) \<Rightarrow>
                     (let dst = getDiff at bt in if dst \<noteq> fmempty then Some (JObj dst) else None)
                 | (JArr at, JArr bt) \<Rightarrow> if \<not> matchesArray at bt then Some bv else None
                 | (JNull, JNull) \<Rightarrow> None
                 | _ \<Rightarrow> if \<not> matchesValue av bv then Some bv else None)) b
     ++\<^sub>f fmmap (\<lambda>_. JNull) (fmfilter (\<lambda>key. fmlookup b key = None) a)"
  by pat_completeness auto

termination
  by (relation "measure (\<lambda>(a, b). size_fmap (\<lambda>_. 0) size b)") (auto dest: json_size)

declare getDiff.simps [simp del] matchesArray.simps [simp del]

section \<open>Applying a patch\<close>

function (sequential) pruneNulls :: "json \<Rightarrow> json" where
  "pruneNulls (JObj doc) = JObj (collect_entries (\<lambda>k v. if v = JNull then None else Some (pruneNulls v)) doc)"
| "pruneNulls (JArr ary) = JArr (map pruneNulls ary)"
| "pruneNulls n = n"
  by pat_completeness auto

termination
  by (relation "measure size") (auto dest: json_size list_size)

function mergeDocs :: "json_doc \<Rightarrow> json_doc \<Rightarrow> bool \<Rightarrow> json_doc"
  and merge :: "json \<Rightarrow> json \<Rightarrow> bool \<Rightarrow> json" where
  "mergeDocs doc patch mergeMerge =
     fmfilter (\<lambda>k. fmlookup patch k \<noteq> Some JNull) doc ++\<^sub>f
     collect_entries
       (\<lambda>k v.
          if v = JNull then (if mergeMerge then Some JNull else None)
          else
            (case fmlookup doc k of
               None \<Rightarrow> Some (if \<not> mergeMerge then pruneNulls v else v)
             | Some cur \<Rightarrow>
                 if cur = JNull then Some (if \<not> mergeMerge then pruneNulls v else v)
                 else Some (merge cur v mergeMerge))) patch"
| "merge cur patch mergeMerge =
     (case cur of
        JObj curDoc \<Rightarrow>
          (case patch of
             JObj patchDoc \<Rightarrow> JObj (mergeDocs curDoc patchDoc mergeMerge)
           | _ \<Rightarrow> patch)
      | _ \<Rightarrow> pruneNulls patch)"
  by pat_completeness auto

termination
  by (relation "measure (case_sum (\<lambda>(_, patch, _). 2 * size_fmap (\<lambda>_. 0) size patch + 1) (\<lambda>(_, patch, _). 2 * size patch))")
     (auto dest: json_size)

declare mergeDocs.simps [simp del] merge.simps [simp del]

section \<open>What the functions compute\<close>

lemma fmdom_subset_eq:
  assumes "fcard (fmdom b) = fcard (fmdom a)" "fmdom b |\<subseteq>| fmdom a"
  shows "fmdom a = fmdom b"
  using assms by (metis fcard_seteq order.refl)

lemma matches_eq: "matchesValue av bv = (av = bv)" "matchesArray xs ys = (xs = ys)"
proof (induction av bv and xs ys rule: matchesValue_matchesArray.induct)
  case (5 at bt)
  show ?case
  proof (cases "fcard (fmdom bt) = fcard (fmdom at)")
    case True
    have "at = bt" if same: "\<And>k bv. fmlookup bt k = Some bv \<Longrightarrow> fmlookup at k = Some bv"
    proof -
      have "fmdom bt |\<subseteq>| fmdom at" using same by (auto intro: fmdomI elim!: fmdomE)
      then have "fmdom at = fmdom bt" using fmdom_subset_eq True by metis
      then show ?thesis using same by (intro fmap_ext) (metis fmdom_notD fmdomE)
    qed
    moreover have "(case fmlookup at k of None \<Rightarrow> False | Some av \<Rightarrow> matchesValue av bv) = (fmlookup at k = Some bv)"
      if "fmlookup bt k = Some bv" for k bv
      using 5 [OF _ that] True by (auto split: option.split)
    ultimately show ?thesis using True by (auto simp: fmpred_iff)
  qed auto
next
  case (8 a b)
  then show ?case
    by (auto simp: matchesArray.simps list_all_iff list_eq_iff_zip_eq split_def)
qed auto

text \<open>A difference is empty exactly between equal documents.\<close>

definition entry_diff :: "json \<Rightarrow> json \<Rightarrow> json option" where
  "entry_diff av bv =
     (if av = bv then None
      else case (av, bv) of (JObj at, JObj bt) \<Rightarrow> Some (JObj (getDiff at bt)) | _ \<Rightarrow> Some bv)"

lemma typeOf_differs: "typeOf av \<noteq> typeOf bv \<Longrightarrow> av \<noteq> bv" by auto

lemma getDiff_lookup_raw:
  "fmlookup (getDiff a b) k =
     (case fmlookup b k of
        None \<Rightarrow> if fmlookup a k = None then None else Some JNull
      | Some bv \<Rightarrow>
          (case fmlookup a k of
             None \<Rightarrow> Some bv
           | Some av \<Rightarrow>
               (case (av, bv) of
                  (JObj at, JObj bt) \<Rightarrow> if getDiff at bt = fmempty then None else Some (JObj (getDiff at bt))
                | _ \<Rightarrow> if av = bv then None else Some bv)))"
proof (cases "fmlookup b k")
  case None
  then show ?thesis by (subst getDiff.simps) (auto intro: fmdomI split: option.split)
next
  case (Some bv)
  then have out: "k |\<notin>| fmdom (fmmap (\<lambda>_. JNull) (fmfilter (\<lambda>key. fmlookup b key = None) a))" by (auto elim!: fmdomE split: if_splits)
  show ?thesis
  proof (cases "fmlookup a k")
    case None
    with Some out show ?thesis by (subst getDiff.simps) auto
  next
    case a: (Some av)
    show ?thesis
      using Some a out by (subst getDiff.simps) (cases av; cases bv; auto simp: matches_eq)
  qed
qed

lemma getDiff_empty: "getDiff a b = fmempty \<longleftrightarrow> a = b"
proof (induction a b rule: getDiff.induct)
  case (1 a b)
  have IH: "getDiff at bt = fmempty \<longleftrightarrow> at = bt"
    if "fmlookup b k = Some (JObj bt)" "fmlookup a k = Some (JObj at)" for k at bt
    using 1 [OF that] by simp
  have "fmlookup (getDiff a b) k = None \<longleftrightarrow> fmlookup a k = fmlookup b k" for k
    using IH [of k] unfolding getDiff_lookup_raw
    by (auto split: option.splits json.splits)
  then have "(\<forall>k. fmlookup (getDiff a b) k = None) \<longleftrightarrow> a = b" by (auto intro: fmap_ext)
  then show ?case by (metis fmap_ext fmempty_lookup)
qed

lemma getDiff_lookup:
  "fmlookup (getDiff a b) k =
     (case fmlookup b k of
        None \<Rightarrow> if fmlookup a k = None then None else Some JNull
      | Some bv \<Rightarrow> (case fmlookup a k of None \<Rightarrow> Some bv | Some av \<Rightarrow> entry_diff av bv))"
  unfolding getDiff_lookup_raw entry_diff_def by (auto simp: getDiff_empty split: option.split json.split)

lemma mergeDocs_lookup:
  "fmlookup (mergeDocs doc patch False) k =
     (case fmlookup patch k of
        None \<Rightarrow> fmlookup doc k
      | Some v \<Rightarrow>
          if v = JNull then None
          else (case fmlookup doc k of
                  None \<Rightarrow> Some (pruneNulls v)
                | Some cur \<Rightarrow> Some (if cur = JNull then pruneNulls v else merge cur v False)))"
  by (subst mergeDocs.simps) (auto simp: fmlookup_dom_iff split: option.split)

text \<open>Objects that hold no null; in arrays nulls are kept.\<close>

function (sequential) null_free :: "json \<Rightarrow> bool" where
  "null_free (JObj doc) = fmpred (\<lambda>_ v. v \<noteq> JNull \<and> null_free v) doc"
| "null_free (JArr ary) = list_all null_free ary"
| "null_free _ = True"
  by pat_completeness auto

termination
  by (relation "measure size") (auto dest: json_size list_size)

lemma pruneNulls_id: "null_free v \<Longrightarrow> pruneNulls v = v"
proof (induction v rule: null_free.induct)
  case (1 doc)
  then show ?case by (auto simp: fmpred_iff intro!: fmap_ext split: option.split)
next
  case (2 ary)
  then show ?case by (simp add: list_all_iff map_idI)
qed simp_all

lemma pruneNulls_merge: "pruneNulls (JObj patch) = JObj (mergeDocs fmempty patch False)"
  by (auto intro!: fmap_ext simp: mergeDocs_lookup split: option.split)

section \<open>Round trip and concurrency\<close>

text \<open>The value at a path of keys.\<close>

fun at_path :: "string list \<Rightarrow> json \<Rightarrow> json option" where
  "at_path [] v = Some v"
| "at_path (k # ks) (JObj doc) = (case fmlookup doc k of None \<Rightarrow> None | Some v \<Rightarrow> at_path ks v)"
| "at_path _ _ = None"

text \<open>Both versions have objects all the way to the last key of the path.\<close>

fun reached_by_both :: "string list \<Rightarrow> json_doc \<Rightarrow> json_doc \<Rightarrow> bool" where
  "reached_by_both [] a b = False"
| "reached_by_both [k] a b = True"
| "reached_by_both (k # ks) a b =
     (case (fmlookup a k, fmlookup b k) of
        (Some (JObj a'), Some (JObj b')) \<Rightarrow> reached_by_both ks a' b'
      | _ \<Rightarrow> False)"

definition is_object :: "json option \<Rightarrow> bool" where
  "is_object v = (case v of Some (JObj _) \<Rightarrow> True | _ \<Rightarrow> False)"

lemma merge_roundtrip: "null_free (JObj b) \<Longrightarrow> mergeDocs a (getDiff a b) False = b"
proof (induction a b rule: getDiff.induct)
  case (1 a b)
  have nf: "v \<noteq> JNull" "null_free v" "pruneNulls v = v" if "fmlookup b k = Some v" for k v
    using 1(2) that pruneNulls_id by (auto simp: fmpred_iff)
  have IH: "mergeDocs at (getDiff at bt) False = bt" if "fmlookup a k = Some (JObj at)" "fmlookup b k = Some (JObj bt)" for k at bt
    using 1(1) [OF that(2,1)] nf [OF that(2)] by simp
  show ?case
  proof (rule fmap_ext)
    fix k
    show "fmlookup (mergeDocs a (getDiff a b) False) k = fmlookup b k"
    proof (cases "fmlookup b k")
      case None
      then show ?thesis by (simp add: mergeDocs_lookup getDiff_lookup split: option.split)
    next
      case (Some v)
      note v = nf [OF Some]
      show ?thesis
      proof (cases "fmlookup a k")
        case None
        with Some v show ?thesis by (simp add: mergeDocs_lookup getDiff_lookup)
      next
        case a: (Some u)
        show ?thesis
        proof (cases "u = v")
          case True
          with a Some show ?thesis by (simp add: mergeDocs_lookup getDiff_lookup entry_diff_def)
        next
          case False
          with a Some v show ?thesis
            using IH [of k]
            by (cases u; cases v)
               (auto simp: mergeDocs_lookup getDiff_lookup entry_diff_def merge.simps simp del: pruneNulls.simps)
        qed
      qed
    qed
  qed
qed

text \<open>Where both versions have an object, the patch is applied to the object that is stored, or to an empty one.\<close>

definition object_under :: "json_doc \<Rightarrow> string \<Rightarrow> json_doc" where
  "object_under c k = (case fmlookup c k of Some (JObj c') \<Rightarrow> c' | _ \<Rightarrow> fmempty)"

lemma object_under_path:
  "at_path (k' # ks) (JObj (object_under c k)) = (case fmlookup c k of None \<Rightarrow> None | Some v \<Rightarrow> at_path (k' # ks) v)"
  by (auto simp: object_under_def split: option.splits json.splits)

lemma merged_object:
  assumes "fmlookup a k = Some (JObj a')" "fmlookup b k = Some (JObj b')" "a' \<noteq> b'"
  shows "fmlookup (mergeDocs c (getDiff a b) False) k = Some (JObj (mergeDocs (object_under c k) (getDiff a' b') False))"
  using assms pruneNulls_merge
  by (auto simp: mergeDocs_lookup getDiff_lookup entry_diff_def object_under_def merge.simps simp del: pruneNulls.simps
      split: option.split json.split)

lemma reached_under:
  assumes "reached_by_both (k # k' # ks) a b" "null_free (JObj b)"
  obtains a' b' where "fmlookup a k = Some (JObj a')" "fmlookup b k = Some (JObj b')" "reached_by_both (k' # ks) a' b'"
    "null_free (JObj b')"
proof -
  obtain a' where a: "fmlookup a k = Some (JObj a')"
    using assms(1) by (auto split: option.splits json.splits)
  obtain b' where b: "fmlookup b k = Some (JObj b')"
    using assms(1) a by (auto split: option.splits json.splits)
  have "null_free (JObj b')" using fmpredD [OF assms(2) [unfolded null_free.simps] b] by simp
  with that [OF a b] assms(1) a b show thesis by simp
qed

lemma merge_at_path:
  assumes "reached_by_both p a b" "null_free (JObj b)"
  shows "at_path p (JObj a) = at_path p (JObj b) \<Longrightarrow>
      at_path p (JObj (mergeDocs c (getDiff a b) False)) = at_path p (JObj c)"
    "at_path p (JObj a) \<noteq> at_path p (JObj b) \<Longrightarrow> \<not> is_object (at_path p (JObj b)) \<Longrightarrow>
      at_path p (JObj (mergeDocs c (getDiff a b) False)) = at_path p (JObj b)"
  using assms
proof (induction p a b arbitrary: c rule: reached_by_both.induct)
  case (2 k a b)
  {
    case 1
    then show ?case by (auto simp: mergeDocs_lookup getDiff_lookup entry_diff_def split: option.splits)
  next
    case 2
    then have nf: "\<And>v. fmlookup b k = Some v \<Longrightarrow> v \<noteq> JNull \<and> pruneNulls v = v"
      by (auto simp: fmpred_iff pruneNulls_id)
    with 2(1,2) show ?case
      by (cases "fmlookup b k"; cases "fmlookup a k")
         (auto simp: mergeDocs_lookup getDiff_lookup entry_diff_def is_object_def merge.simps simp del: pruneNulls.simps
           split: option.splits json.splits)
  }
next
  case (3 k k' ks a b)
  let ?p = "k' # ks"
  have red: "at_path (k # ?p) (JObj d) = (case fmlookup d k of None \<Rightarrow> None | Some v \<Rightarrow> at_path ?p v)" for d by simp
  {
    case 1
    from 1(2,3) obtain a' b' where ab: "fmlookup a k = Some (JObj a')" "fmlookup b k = Some (JObj b')" "reached_by_both ?p a' b'"
      "null_free (JObj b')" by (rule reached_under)
    show ?case
    proof (cases "a' = b'")
      case True
      with ab(1,2) show ?thesis by (simp add: mergeDocs_lookup getDiff_lookup entry_diff_def)
    next
      case False
      note m = merged_object [OF ab(1,2) False, of c]
      have "at_path ?p (JObj (mergeDocs (object_under c k) (getDiff a' b') False)) = at_path ?p (JObj (object_under c k))"
        using 1(1) ab by (intro 3(1) [OF _ refl refl]) (simp_all add: red)
      then show ?thesis unfolding red m by (simp add: object_under_path [simplified])
    qed
  next
    case 2
    from 2(3,4) obtain a' b' where ab: "fmlookup a k = Some (JObj a')" "fmlookup b k = Some (JObj b')" "reached_by_both ?p a' b'"
      "null_free (JObj b')" by (rule reached_under)
    with 2(1) have "a' \<noteq> b'" by (auto simp: red)
    note m = merged_object [OF ab(1,2) this, of c]
    have "at_path ?p (JObj (mergeDocs (object_under c k) (getDiff a' b') False)) = at_path ?p (JObj b')"
      using 2(1,2) ab by (intro 3(2) [OF _ refl refl]) (simp_all add: red)
    then show ?case unfolding red m using ab(2) by simp
  }
qed simp_all

text \<open>
  C38. The patch between two documents is empty exactly if they are equal, and applied to the first it yields the second. Applied to any
  third document, whatever others did to it, it changes only what differs: at a path through objects of both versions, a value on which
  they agree stays what is stored, at any depth, and one that differs and is no object becomes that of the second version (a list as a
  whole; a key that is gone is removed). The second version holds no null outside of arrays, as null means removal in a patch.
\<close>

theorem merge_patch_concurrent:
  assumes "null_free (JObj b)"
  shows "(getDiff a b = fmempty \<longleftrightarrow> a = b) \<and> mergeDocs a (getDiff a b) False = b \<and>
    (reached_by_both p a b \<longrightarrow>
       (at_path p (JObj a) = at_path p (JObj b) \<longrightarrow>
          at_path p (JObj (mergeDocs c (getDiff a b) False)) = at_path p (JObj c)) \<and>
       (at_path p (JObj a) \<noteq> at_path p (JObj b) \<longrightarrow> \<not> is_object (at_path p (JObj b)) \<longrightarrow>
          at_path p (JObj (mergeDocs c (getDiff a b) False)) = at_path p (JObj b)))"
  using getDiff_empty merge_roundtrip [OF assms] merge_at_path [OF _ assms] by blast

definition sample_doc :: "int \<Rightarrow> json list \<Rightarrow> (string \<times> json) list \<Rightarrow> json_doc" where
  "sample_doc n xs rest =
     fmap_of_list ((''spec'', JObj (fmap_of_list [(''replicas'', JNum n), (''ports'', JArr xs), (''paused'', JBool False)])) # rest)"

definition doc_before :: json_doc where
  "doc_before = sample_doc 1 [JNum 80] [(''gone'', JBool True)]"

definition doc_after :: json_doc where
  "doc_after = sample_doc 2 [JNum 80] []"

definition doc_stored :: json_doc where
  "doc_stored = sample_doc 5 [JNum 443] [(''gone'', JBool False), (''mine'', JStr ''x'')]"

theorem merge_patch_concurrent_witness:
  "null_free (JObj doc_after) \<and> doc_before \<noteq> doc_after \<and>
   mergeDocs doc_before (getDiff doc_before doc_after) False = doc_after \<and>
   (let merged = JObj (mergeDocs doc_stored (getDiff doc_before doc_after) False) in
    at_path [''spec'', ''ports''] merged = Some (JArr [JNum 443]) \<and> at_path [''spec'', ''replicas''] merged = Some (JNum 2) \<and>
    at_path [''gone''] merged = None \<and> at_path [''mine''] merged = Some (JStr ''x''))"
proof -
  have nf: "null_free (JObj doc_after)" by code_simp
  have path: "reached_by_both [''spec'', ''ports''] doc_before doc_after" "reached_by_both [''spec'', ''replicas''] doc_before doc_after"
    by code_simp+
  have vals: "at_path [''spec'', ''ports''] (JObj doc_before) = at_path [''spec'', ''ports''] (JObj doc_after)"
    "at_path [''spec'', ''ports''] (JObj doc_stored) = Some (JArr [JNum 443])"
    "at_path [''spec'', ''replicas''] (JObj doc_before) \<noteq> at_path [''spec'', ''replicas''] (JObj doc_after)"
    "at_path [''spec'', ''replicas''] (JObj doc_after) = Some (JNum 2)" "\<not> is_object (Some (JNum 2))" "\<not> is_object None"
    "at_path [''gone''] (JObj doc_before) \<noteq> at_path [''gone''] (JObj doc_after)" "at_path [''gone''] (JObj doc_after) = None"
    "at_path [''mine''] (JObj doc_before) = at_path [''mine''] (JObj doc_after)" "at_path [''mine''] (JObj doc_stored) = Some (JStr ''x'')"
    "doc_before \<noteq> doc_after"
    by code_simp+
  note concurrent = merge_patch_concurrent [OF nf, where a = doc_before and c = doc_stored]
  show ?thesis
    using nf path vals concurrent [of "[''spec'', ''ports'']"] concurrent [of "[''spec'', ''replicas'']"] concurrent [of "[''gone'']"] concurrent [of "[''mine'']"]
    unfolding Let_def by (metis reached_by_both.simps(2))
qed

end
