(* ===== verification/Json_Objects.thy ===== *)
theory Json_Objects
  imports Merge_Patch Json_Merge
begin

text \<open>
  The merge of typed objects in \<open>Merge_Patch\<close> is what the JSON functions of \<open>Json_Merge\<close> do to the documents of these objects. A
  field that JSON omits when it is empty is absent from the document then. A point in time is a number here, the source writes it as text.
\<close>

section \<open>Documents of object metadata\<close>

definition put :: "string \<Rightarrow> json option \<Rightarrow> json_doc \<Rightarrow> json_doc" where
  "put k v d = (case v of None \<Rightarrow> d | Some j \<Rightarrow> fmupd k j d)"

lemma put_lookup [simp]:
  "fmlookup (put k v d) k' = (if k = k' then (case v of None \<Rightarrow> fmlookup d k' | Some j \<Rightarrow> Some j) else fmlookup d k')"
  by (simp add: put_def split: option.split)

definition string_json :: "string \<Rightarrow> json option" where
  "string_json s = (if s = [] then None else Some (JStr s))"

definition list_json :: "('a \<Rightarrow> json) \<Rightarrow> 'a list \<Rightarrow> json option" where
  "list_json f xs = (if xs = [] then None else Some (JArr (map f xs)))"

definition map_json :: "labels \<Rightarrow> json option" where
  "map_json m = (if m = fmempty then None else Some (JObj (fmmap JStr m)))"

definition owner_json :: "owner_reference \<Rightarrow> json" where
  "owner_json ref = JObj
     (put ''apiVersion'' (Some (JStr (or_apiVersion ref)))
     (put ''kind'' (Some (JStr (or_kind ref)))
     (put ''name'' (Some (JStr (or_name ref)))
     (put ''uid'' (Some (JStr (or_uid ref)))
     (put ''controller'' (map_option JBool (or_controller ref))
     (put ''blockOwnerDeletion'' (map_option JBool (or_blockOwnerDeletion ref)) fmempty))))))"

definition time_json :: "time option \<Rightarrow> json option" where
  "time_json t = map_option (\<lambda>t. if t = 0 then JNull else JNum (int t)) t"

definition meta_json :: "object_meta \<Rightarrow> json_doc" where
  "meta_json m =
     put ''name'' (string_json (om_name m))
     (put ''namespace'' (string_json (om_namespace m))
     (put ''uid'' (string_json (om_uid m))
     (put ''resourceVersion'' (string_json (om_resourceVersion m))
     (put ''deletionTimestamp'' (time_json (om_deletionTimestamp m))
     (put ''finalizers'' (list_json JStr (om_finalizers m))
     (put ''ownerReferences'' (list_json owner_json (om_ownerReferences m))
     (put ''labels'' (map_json (om_labels m))
     (put ''annotations'' (map_json (om_annotations m)) fmempty))))))))"

text \<open>And back: an absent field has its zero value.\<close>

definition json_string :: "json option \<Rightarrow> string" where
  "json_string v = (case v of Some (JStr s) \<Rightarrow> s | _ \<Rightarrow> [])"

definition json_bool :: "json option \<Rightarrow> bool option" where
  "json_bool v = (case v of Some (JBool x) \<Rightarrow> Some x | _ \<Rightarrow> None)"

definition json_list :: "(json \<Rightarrow> 'a) \<Rightarrow> json option \<Rightarrow> 'a list" where
  "json_list f v = (case v of Some (JArr xs) \<Rightarrow> map f xs | _ \<Rightarrow> [])"

definition json_map :: "json option \<Rightarrow> labels" where
  "json_map v = (case v of Some (JObj d) \<Rightarrow> fmmap (\<lambda>v. json_string (Some v)) d | _ \<Rightarrow> fmempty)"

definition json_time :: "json option \<Rightarrow> time option" where
  "json_time v = (case v of Some (JNum n) \<Rightarrow> Some (nat n) | _ \<Rightarrow> None)"

definition json_owner :: "json \<Rightarrow> owner_reference" where
  "json_owner v =
     (let d = (case v of JObj d \<Rightarrow> d | _ \<Rightarrow> fmempty) in
      \<lparr>or_apiVersion = json_string (fmlookup d ''apiVersion''), or_kind = json_string (fmlookup d ''kind''),
       or_name = json_string (fmlookup d ''name''), or_uid = json_string (fmlookup d ''uid''),
       or_controller = json_bool (fmlookup d ''controller''),
       or_blockOwnerDeletion = json_bool (fmlookup d ''blockOwnerDeletion'')\<rparr>)"

definition json_meta :: "json_doc \<Rightarrow> object_meta" where
  "json_meta d =
     \<lparr>om_name = json_string (fmlookup d ''name''), om_namespace = json_string (fmlookup d ''namespace''),
      om_uid = json_string (fmlookup d ''uid''), om_resourceVersion = json_string (fmlookup d ''resourceVersion''),
      om_deletionTimestamp = json_time (fmlookup d ''deletionTimestamp''),
      om_finalizers = json_list (\<lambda>v. json_string (Some v)) (fmlookup d ''finalizers''),
      om_ownerReferences = json_list json_owner (fmlookup d ''ownerReferences''),
      om_labels = json_map (fmlookup d ''labels''), om_annotations = json_map (fmlookup d ''annotations'')\<rparr>"

section \<open>Round trip\<close>

lemma json_string_json [simp]: "json_string (string_json s) = s"
  by (simp add: string_json_def json_string_def)

lemma json_string_JStr [simp]: "json_string (Some (JStr s)) = s"
  by (simp add: json_string_def)

lemma json_bool_json [simp]: "json_bool (map_option JBool x) = x"
  by (cases x) (simp_all add: json_bool_def)

lemma json_owner_json [simp]: "json_owner (owner_json ref) = ref"
  by (cases ref; cases "or_controller ref"; cases "or_blockOwnerDeletion ref")
     (auto simp: json_owner_def owner_json_def json_bool_def)

lemma json_list_json [simp]: "(\<And>x. g (f x) = x) \<Longrightarrow> json_list g (list_json f xs) = xs"
  by (simp add: json_list_def list_json_def o_def)

lemma json_map_json [simp]: "json_map (map_json m) = m"
proof (cases "m = fmempty")
  case False
  have "fmmap (\<lambda>v. json_string (Some v)) (fmmap JStr m) = m"
    by (rule fmap_ext) (simp add: option.map_comp o_def option.map_ident)
  with False show ?thesis by (simp add: json_map_def map_json_def)
qed (simp add: json_map_def map_json_def)

lemma json_time_json: "t \<noteq> Some 0 \<Longrightarrow> json_time (time_json t) = t"
  by (cases t) (auto simp: json_time_def time_json_def)

lemma meta_lookup:
  "fmlookup (meta_json m) ''name'' = string_json (om_name m)"
  "fmlookup (meta_json m) ''namespace'' = string_json (om_namespace m)"
  "fmlookup (meta_json m) ''uid'' = string_json (om_uid m)"
  "fmlookup (meta_json m) ''resourceVersion'' = string_json (om_resourceVersion m)"
  "fmlookup (meta_json m) ''deletionTimestamp'' = time_json (om_deletionTimestamp m)"
  "fmlookup (meta_json m) ''finalizers'' = list_json JStr (om_finalizers m)"
  "fmlookup (meta_json m) ''ownerReferences'' = list_json owner_json (om_ownerReferences m)"
  "fmlookup (meta_json m) ''labels'' = map_json (om_labels m)"
  "fmlookup (meta_json m) ''annotations'' = map_json (om_annotations m)"
  by (simp_all add: meta_json_def split: option.splits)

lemma json_meta_json:
  assumes "om_deletionTimestamp m \<noteq> Some 0"
  shows "json_meta (meta_json m) = m"
  using assms by (cases m) (simp add: json_meta_def meta_lookup json_time_json)

lemma null_free_put [simp]:
  assumes "null_free (JObj d)" "\<And>j. v = Some j \<Longrightarrow> j \<noteq> JNull \<and> null_free j"
  shows "null_free (JObj (put k v d))"
  using assms by (auto simp: put_def fmpred_iff split: option.split if_splits)

lemma null_free_empty: "null_free (JObj fmempty)"
  by simp

lemma null_free_owner: "owner_json ref \<noteq> JNull \<and> null_free (owner_json ref)"
  unfolding owner_json_def by (auto intro!: null_free_put simp del: null_free.simps(1) simp: null_free_empty)

lemma null_free_values:
  "string_json s = Some j \<Longrightarrow> j \<noteq> JNull \<and> null_free j"
  "map_json m = Some j \<Longrightarrow> j \<noteq> JNull \<and> null_free j"
  "t \<noteq> Some 0 \<Longrightarrow> time_json t = Some j \<Longrightarrow> j \<noteq> JNull \<and> null_free j"
  "list_json JStr fs = Some j \<Longrightarrow> j \<noteq> JNull \<and> null_free j"
  "list_json owner_json os = Some j \<Longrightarrow> j \<noteq> JNull \<and> null_free j"
  using null_free_owner
  by (auto simp: string_json_def map_json_def time_json_def list_json_def fmpred_iff list_all_iff split: if_splits)

lemma null_free_meta: "om_deletionTimestamp m \<noteq> Some 0 \<Longrightarrow> null_free (JObj (meta_json m))"
  unfolding meta_json_def by (intro null_free_put) (auto dest: null_free_values simp del: null_free.simps(1) simp: null_free_empty)

section \<open>Merging\<close>

lemma merged_value:
  assumes "null_free (JObj a)" "\<not> is_object (fmlookup a k)"
  shows "fmlookup (mergeDocs s (getDiff b a) False) k =
    (if fmlookup b k = fmlookup a k then fmlookup s k else fmlookup a k)"
proof -
  have at: "at_path [k] (JObj d) = fmlookup d k" for d by (simp split: option.split)
  have r: "reached_by_both [k] b a" by simp
  show ?thesis
    using merge_at_path [where c = s, OF r assms(1), unfolded at] assms(2) by auto
qed

lemma not_objects:
  "\<not> is_object (string_json s)" "\<not> is_object (time_json t)" "\<not> is_object (list_json f xs)"
  by (simp_all add: is_object_def string_json_def time_json_def list_json_def split: option.split)

lemma merged_field:
  assumes "null_free (JObj a)" "fmlookup b k = enc x" "fmlookup a k = enc y" "fmlookup s k = enc z"
    "\<And>v. \<not> is_object (enc v)" "dec (enc x) = x" "dec (enc y) = y" "dec (enc z) = z"
  shows "dec (fmlookup (mergeDocs s (getDiff b a) False) k) = merge_atom x y z"
proof -
  have "enc x = enc y \<longleftrightarrow> x = y" using assms(6,7) by metis
  then show ?thesis
    using merged_value [OF assms(1), of k s b] assms by (simp add: merge_atom_def)
qed

lemma getDiff_from_empty: "getDiff fmempty d = d"
  by (rule fmap_ext) (simp add: getDiff_lookup split: option.split)

lemma merged_object_or_none:
  assumes "null_free (JObj a)" "fmlookup a k = Some (JObj a')" "fmlookup b k = None \<or> fmlookup b k = Some (JObj (object_under b k))"
    "fmlookup b k \<noteq> fmlookup a k" "fmlookup s k = None \<or> fmlookup s k = Some (JObj (object_under s k))"
  shows "fmlookup (mergeDocs s (getDiff b a) False) k =
    Some (JObj (mergeDocs (object_under s k) (getDiff (object_under b k) a') False))"
proof (cases "fmlookup b k = None")
  case True
  then have d: "fmlookup (getDiff b a) k = Some (JObj a')" "object_under b k = fmempty"
    using assms(2) by (simp_all add: getDiff_lookup object_under_def)
  have "pruneNulls (JObj a') = JObj (mergeDocs fmempty a' False)" by (rule pruneNulls_merge)
  with d assms(5) show ?thesis
    by (cases "fmlookup s k"; cases "the (fmlookup s k)")
       (auto simp: mergeDocs_lookup getDiff_from_empty merge.simps object_under_def simp del: pruneNulls.simps)
next
  case False
  with assms(3) have b: "fmlookup b k = Some (JObj (object_under b k))" by simp
  moreover have "object_under b k \<noteq> a'" using assms(2,4) b by auto
  ultimately show ?thesis using assms(2) by (intro merged_object)
qed

lemma map_object: "object_under d k = fmmap JStr m" if "fmlookup d k = map_json m"
  using that by (simp add: object_under_def map_json_def)

lemma fmmap_JStr_inj: "fmmap JStr x = fmmap JStr y \<longleftrightarrow> x = y"
proof
  assume eq: "fmmap JStr x = fmmap JStr y"
  show "x = y"
  proof (rule fmap_ext)
    fix k
    have "map_option JStr (fmlookup x k) = map_option JStr (fmlookup y k)" using arg_cong [OF eq, of "\<lambda>m. fmlookup m k"] by simp
    then show "fmlookup x k = fmlookup y k" by (cases "fmlookup x k"; cases "fmlookup y k") auto
  qed
qed simp

lemma merged_strings:
  "fmlookup (mergeDocs (fmmap JStr z) (getDiff (fmmap JStr x) (fmmap JStr y)) False) l =
     map_option JStr (fmlookup (merge_entries x y z) l)"
proof -
  have "null_free (JObj (fmmap JStr y))" by (auto simp: fmpred_iff)
  moreover have "\<not> is_object (fmlookup (fmmap JStr y) l)" by (simp add: is_object_def split: option.split)
  moreover have "map_option JStr u = map_option JStr v \<longleftrightarrow> u = v" for u v by (cases u; cases v) auto
  ultimately show ?thesis
    using merged_value [of "fmmap JStr y" l "fmmap JStr z" "fmmap JStr x"] by (simp add: merge_entries_lookup)
qed

lemma merged_map:
  assumes "null_free (JObj a)" "fmlookup b k = map_json x" "fmlookup a k = map_json y" "fmlookup s k = map_json z"
  shows "json_map (fmlookup (mergeDocs s (getDiff b a) False) k) = merge_map x y z"
proof (cases "y = fmempty \<or> x = y")
  case True
  then show ?thesis
  proof (cases "x = y")
    case True
    then have "fmlookup (mergeDocs s (getDiff b a) False) k = fmlookup s k"
      using assms by (simp add: mergeDocs_lookup getDiff_lookup entry_diff_def split: option.split)
    moreover have "merge_map x y z = z" using True by (auto simp: merge_map_def merge_entries_lookup intro: fmap_ext)
    ultimately show ?thesis using assms(4) by simp
  next
    case False
    with True assms have "fmlookup (mergeDocs s (getDiff b a) False) k = None"
      by (subst merged_value) (auto simp: map_json_def is_object_def)
    then show ?thesis using False True by (simp add: merge_map_def json_map_def)
  qed
next
  case False
  note obj = assms(2-4) [THEN map_object]
  have "fmlookup (mergeDocs s (getDiff b a) False) k =
      Some (JObj (mergeDocs (fmmap JStr z) (getDiff (fmmap JStr x) (fmmap JStr y)) False))"
    using False assms obj by (subst merged_object_or_none [where a' = "fmmap JStr y"]) (auto simp: map_json_def fmmap_JStr_inj)
  then have "fmlookup (json_map (fmlookup (mergeDocs s (getDiff b a) False) k)) l = fmlookup (merge_entries x y z) l" for l
    by (simp add: json_map_def merged_strings option.map_comp o_def option.map_ident)
  then show ?thesis using False by (auto simp: merge_map_def intro: fmap_ext)
qed

text \<open>
  C39. The merge of object metadata that the in-memory server uses is what the JSON functions do: the patch between the documents of
  two versions, applied to the document that is stored and decoded again, gives the metadata with each field merged by itself
  (finalizers and owner references as whole lists, labels and annotations entry by entry). Points in time are not Go's zero time, whose JSON is null.
\<close>

theorem merge_meta_refines:
  assumes "om_deletionTimestamp b \<noteq> Some 0" "om_deletionTimestamp a \<noteq> Some 0" "om_deletionTimestamp s \<noteq> Some 0"
  shows "json_meta (mergeDocs (meta_json s) (getDiff (meta_json b) (meta_json a)) False) = merge_meta b a s"
proof -
  note nf = null_free_meta [OF assms(2)]
  note str = merged_field [where enc = string_json and dec = json_string, OF nf _ _ _ not_objects(1) json_string_json json_string_json json_string_json]
  note time = merged_field [where enc = time_json and dec = json_time, OF nf _ _ _ not_objects(2) assms(1) [THEN json_time_json] assms(2) [THEN json_time_json] assms(3) [THEN json_time_json]]
  have fin: "json_list (\<lambda>v. json_string (Some v)) (list_json JStr xs) = xs" for xs by simp
  have own: "json_list json_owner (list_json owner_json xs) = xs" for xs by simp
  note fins = merged_field [where enc = "list_json JStr" and dec = "json_list (\<lambda>v. json_string (Some v))", OF nf _ _ _ not_objects(3) fin fin fin]
  note owns = merged_field [where enc = "list_json owner_json" and dec = "json_list json_owner", OF nf _ _ _ not_objects(3) own own own]
  show ?thesis
    unfolding json_meta_def merge_meta_def
    by (simp add: str time fins owns merged_map [OF nf] meta_lookup)
qed

definition meta_before :: object_meta where
  "meta_before = empty_meta\<lparr>om_name := ''dc'', om_resourceVersion := ''1'', om_labels := fmap_of_list [(''team'', ''a'')]\<rparr>"

definition meta_after :: object_meta where
  "meta_after = meta_before\<lparr>om_finalizers := [''f''], om_labels := fmap_of_list [(''team'', ''b''), (''app'', ''x'')]\<rparr>"

definition meta_stored :: object_meta where
  "meta_stored = meta_before\<lparr>om_resourceVersion := ''2'', om_labels := fmap_of_list [(''team'', ''c''), (''tier'', ''y'')]\<rparr>"

theorem merge_meta_refines_witness:
  "json_meta (mergeDocs (meta_json meta_stored) (getDiff (meta_json meta_before) (meta_json meta_after)) False) =
     meta_stored\<lparr>om_finalizers := [''f''], om_labels := fmap_of_list [(''team'', ''b''), (''tier'', ''y''), (''app'', ''x'')]\<rparr>"
proof -
  have t: "om_deletionTimestamp meta_before \<noteq> Some 0" "om_deletionTimestamp meta_after \<noteq> Some 0" "om_deletionTimestamp meta_stored \<noteq> Some 0"
    by (simp_all add: meta_before_def meta_after_def meta_stored_def empty_meta_def)
  have "merge_meta meta_before meta_after meta_stored =
      meta_stored\<lparr>om_finalizers := [''f''], om_labels := fmap_of_list [(''team'', ''b''), (''tier'', ''y''), (''app'', ''x'')]\<rparr>"
    by code_simp
  then show ?thesis using merge_meta_refines [OF t] by simp
qed

end
