(* ===== verification/Spec2Isabelle.thy ===== *)
theory Spec2Isabelle
  imports Sample_Lagging_Runs Sample_Stale_Runs Main_Program Deep_Copies Updater_Tests Json_Objects
begin

text \<open>
  \<^bold>\<open>The Habana AI operator: model and correctness.\<close>

  The operator watches \<open>DeviceConfig\<close> resources and keeps, for each of them, a \<open>Module\<close> of the Kernel
  Module Management operator (driver and device plugin), a DaemonSet that labels nodes, and a
  DaemonSet and a Service that export metrics. This library models its Go code under \<^verbatim>\<open>main.go\<close>,
  \<^verbatim>\<open>api\<close>, \<^verbatim>\<open>controllers\<close> and \<^verbatim>\<open>internal\<close>, and of the vendored libraries the functions on which its
  behaviour rests. Definitions have the names of the source.

  \<^bold>\<open>Conventions.\<close> A Go map is a finite map, a slice a list, a string a list of characters. A function
  that returns an error returns a sum or an optional error. Code that talks to the cluster takes and
  returns the state of the outside world (\<open>('s, 'a) effect\<close>); a function that changes an object in
  place returns it. What is read of a clock or enumerated from a Go map is an argument or is shown not
  to matter (\<open>Label_Selectors\<close>, and the copy of a map in \<open>Desired_State\<close>). Log lines are left out.

  \<^bold>\<open>Data.\<close>
  \<^item> \<open>Operator_Prelude\<close>: error values with the reasons of an API status and their wrapping chain
    (\<^verbatim>\<open>api/errors\<close>), decimal text, conversions to 32 and 64 bits.
  \<^item> \<open>Kube_Objects\<close>: object metadata, group and version, the \<open>DeviceConfig\<close> API and its node selector
    (\<^verbatim>\<open>api/v1alpha1\<close>).
  \<^item> \<open>Label_Selectors\<close>, \<open>Resource_Quantity\<close>, \<open>Workload_Types\<close>: selectors, quantities and the objects the
    operator writes. A record has the fields that the operator sets and, in one map, all others.
  \<^item> \<open>Operator_Settings\<close>: \<^verbatim>\<open>internal/settings\<close>, read from the environment.

  \<^bold>\<open>Interfaces.\<close> \<open>Client_Interface\<close> has the operations of the API client as records over an arbitrary
  world, and the promises of a well-behaved server as locales: \<open>object_reader\<close>, its extensions
  \<open>child_client\<close> (for the objects the operator creates) and \<open>owner_client\<close> (for the resource
  itself), and \<open>object_lister\<close>. \<open>Desired_State\<close> has the contract of a function that writes a desired state
  (\<open>desired_state\<close>), proves the get-and-create-or-patch step once on any server that keeps its
  promises (\<open>ensured\<close>), and gives the form that all four such functions of this operator have
  (\<open>owned_writer\<close>, a sub-locale of \<open>desired_state\<close>). \<open>Node_Selector\<close> has the validation over any two
  complete listers (\<open>validation\<close>), \<open>Guarded_Reconciler\<close> the contract of a client whose calls stay within a set of states
  (\<open>carrying_client\<close>) and the assertions that collaborators carry through a reconciliation (\<open>guarded_reconciler\<close>),
  \<open>Simulated_Reconciler\<close> the relation between two sets of collaborators under which their controllers do the same
  (\<open>simulated_reconciler\<close>), \<open>Lagging_Stages\<close> the step of a desired state on a lagging cache (\<open>lagging_stage\<close>), \<open>Go_Memory\<close> the contract of a deep copy (\<open>deep_copier\<close>, and \<open>two_copiers\<close>
  for a struct of two fields). Each locale is interpreted on the model's own definitions: the
  writers in \<open>Module_Reconciler\<close>, \<open>Node_Labeler\<close> and \<open>Node_Metrics\<close>, the server's promises in \<open>Fake_Cluster\<close>, the
  stages and the validation in \<open>Operator_Cluster\<close>, the carried assertions in \<open>Stale_Cluster\<close>, \<open>Stale_Safety\<close> and \<open>Lagging_Reads\<close>,
  the simulation in \<open>Caches_In_Sync\<close>, the lagging stages in \<open>Lagging_Stages\<close>, the copies in \<open>Deep_Copies\<close>. The Go interfaces between the parts of the
  operator are records of functions, implemented by the operator and, a second time, by the mocks.

  \<^bold>\<open>Operations.\<close>
  \<^item> \<open>Controller_Util\<close>: controller references, \<^verbatim>\<open>CreateOrPatch\<close>, finalizers (\<^verbatim>\<open>controllerutil\<close>). The removal of
    a finalizer is the source's index loop, with its termination, and is shown to be a filter.
  \<^item> \<open>Module_Reconciler\<close>, \<open>Node_Labeler\<close>, \<open>Node_Metrics\<close>: \<^verbatim>\<open>internal/module\<close> and \<^verbatim>\<open>internal/node\<close>.
  \<^item> \<open>Status_Conditions\<close>, \<open>Finalizer_Updater\<close>: \<^verbatim>\<open>internal/conditions\<close> and \<^verbatim>\<open>internal/finalizers\<close>.
  \<^item> \<open>Node_Selector\<close>: \<^verbatim>\<open>controllers/nodeselector.go\<close>.
  \<^item> \<open>Device_Config_Controller\<close>: \<^verbatim>\<open>controllers/deviceconfig_controller.go\<close> over a record of collaborators. Its
    state is the world, the gauge of \<^verbatim>\<open>internal/metrics\<close> and the recorded events. \<open>operator_reconciler\<close> is
    the reconciler with the collaborators that \<^verbatim>\<open>main.go\<close> wires together.
  \<^item> \<open>Main_Program\<close>: the scheme, the watched namespace and the start of the program over any manager, with every exit and its message.
  \<^item> \<open>Json_Merge\<close>: the difference of two JSON documents (\<^verbatim>\<open>json-patch/v5/merge.go\<close>, which the client calls) and the application of a merge
    patch (\<^verbatim>\<open>json-patch/merge.go\<close>, which the in-memory server calls), on nested documents with arrays, nulls and changes of type.
    \<open>Merge_Patch\<close> has the same on the typed objects, field by field, and \<open>Json_Objects\<close> proves that they agree for the metadata of objects.
  \<^item> \<open>Fake_Client\<close>, \<open>Fake_Cluster\<close>: the in-memory API server of the vendored test client, one
    tracker per kind of object, and the world that has one tracker for each of the five kinds.
  \<^item> \<open>Work_Queue\<close>, \<open>Event_Source\<close>, \<open>Control_Loop\<close>: the vendored work queue with its back-off, the watches and handlers that the
    controller's builder sets up, and the worker that takes requests, reconciles them and puts failed ones back.
  \<^item> \<open>Cached_Reads\<close>: the manager's client, which reads from the stores of informers and writes to the server, in a world that keeps
    all its past states; the informer of each kind has seen some of them. A schedule says what others do, and which cache
    catches up, before each single call. The operator's code is the one of the other theories, run with this client.
  \<^item> \<open>Go_Memory\<close>, \<open>Deep_Copies\<close>: memory with references, and \<^verbatim>\<open>api/v1alpha1/zz_generated.deepcopy.go\<close> on it.
  \<^item> \<open>Go_Mock\<close>, \<open>Generated_Mocks\<close>: the controller of the vendored \<^verbatim>\<open>gomock\<close>, and the eight generated
    mocks (\<^verbatim>\<open>mock_*.go\<close>) with their recorders, as implementations of the interfaces.

  \<^bold>\<open>What is shown.\<close>
  \<^item> For arbitrary collaborators (\<open>Controller_Safety\<close>): order of the stages, what deletion, conflicts and
    errors do and do not do, and that result, gauge, events and world are exactly those of the first step that fails, where the
    steps of a reconciliation are a list that is run up to the first failure (\<open>first_failure\<close>, used for the start of the program too). That something is not called is stated as
    independence: replaced by any other function, it makes no difference.
  \<^item> For an arbitrary server: when \<^verbatim>\<open>CreateOrPatch\<close> writes, the two updates of the finalizer and of the
    conditions, and, with the promises of the locales, that the step of a desired state converges.
  \<^item> On the in-memory cluster (\<open>Operator_Cluster\<close>, \<open>Reconcile_Outcomes\<close>, \<open>Operator_Lifecycle\<close>): one reconciliation provisions a
    resource; a second one replaces its conditions only; deletion removes the Module, then the
    finalizer; the validation is exact; every outcome of a reconciliation, its error exactly, and that it touches the
    objects of its own resource only. The server keeps its objects well formed under any sequence of requests (\<open>Fake_Client\<close>); and, as
    invariants of a step relation in which users, other controllers, nodes, time and the operator
    act in any order, the cluster stays well-formed and no Module is left without its \<open>DeviceConfig\<close>.
  \<^item> With lagging caches and with others acting in the middle of reconciliations (\<open>Stale_Reads\<close>, \<open>Stale_Cluster\<close>,
    \<open>Stale_Safety\<close>): still no Module is left without its \<open>DeviceConfig\<close>. It rests on the server's refusal of updates from outdated
    versions, on the finalizer being written before anything is created, and on its being removed last.
  \<^item> With caches that have caught up (\<open>Caches_In_Sync\<close>): a reconciliation does what it does without caches, although they do not
    follow its own writes, so that from any state one reconciliation repairs what happened while they lagged.
  \<^item> The loop on lagging caches (\<open>Lagging_Loop\<close>). The operator's client is the one of \<open>Cached_Reads\<close>; when a cache catches up, the
    changes that it goes through are announced, and the handlers hear of them later; others act at any time. At any time every
    resource is done, or on its way to the worker, or was last refused for a conflict of node selectors, after which the operator does not
    come back by itself; so when the loop rests with caches that are up to date, everything that the operator watches is as those resources ask for that were not refused. It
    rests on what a reconciliation leaves behind that returns no error: \<open>Lagging_Reads\<close> says that history grows and caches move
    forward only; \<open>Lagging_Stages\<close>, of one object, that it was in the desired state at some time since it was read, or has changed
    since, with the resource as its controller (a merge patch made from an outdated object writes only what differs, which \<open>sharp\<close> in \<open>Merge_Patch\<close>
    states, so the object is left as desired or unlike what was read); \<open>Lagging_Reconciliation\<close> the same of whole reconciliations. What changes later names the resource in an
    event. The metrics Service is left out of it, as it is not watched. And rest can always be reached (\<open>Lagging_Recovery\<close>): left alone,
    the caches catch up, the handlers are called, and one undisturbed reconciliation after the other settles what is queued, if
    by then no two resources select a common node and no other controller owns an object of a live one.
  \<^item> Refinement (\<open>Lifecycle_Refinement\<close>): the cluster, seen as a map from resources to phases of their life, makes only
    steps of a small state machine.
  \<^item> Termination (\<open>Control_Loop\<close>): on a cluster in which every resource can be reconciled and that nobody else changes, the loop around
    the reconciler, fed by the changes that it makes itself, settles. \<open>Event_Source\<close> says exactly which events make which requests due.
  \<^item> Between the objects (\<open>Workload_Properties\<close>): selectors, labels, ports, resources, node selectors.
  \<^item> Merge patches (\<open>Json_Merge\<close>): a patch is empty between equal documents only, turns the first document into the second, and changes of any other
    document only what differs between the two, at any depth.
  \<^item> Deep copies share no memory with the original and have its value (\<open>Deep_Copies\<close>).
  \<^item> The mock controller refines a list of pending calls (\<open>Expected_Calls\<close>, with \<open>Calls_In_Order\<close> for calls in one
    order), and the repository's unit tests pass on the model (\<open>Unit_Tests\<close>, \<open>Reconciler_Tests\<close>, \<open>Updater_Tests\<close>).
  \<^item> \<open>Sample_Cluster\<close>, \<open>Sample_Runs\<close>, \<open>Sample_Loops\<close>, \<open>Sample_Stale_Runs\<close> and \<open>Sample_Lagging_Runs\<close> hold concrete clusters and apply each property with hypotheses to one.

  \<^bold>\<open>Bounds.\<close> The loops of the modelled code are structural recursion, except
  the removal of a finalizer, whose measure is the number of elements behind the index, the decimal
  text of a number, and the search for a prerequisite among the calls of a mock controller. That one follows numbers of
  calls and has as fuel the number of recorded calls, which is enough since a prerequisite is recorded before the call
  that needs it. A call that is allowed any number of times may be made 100000000 times, the bound of \<^verbatim>\<open>gomock\<close>.
  Resource versions count modulo \<open>2 ^ 64\<close> as in the source, and the runs with lagging caches are shown safe as long as
  they make fewer writes than that; quantities are parsed with
  the 64-bit fast path and the decimal fallback.

  \<^bold>\<open>Assumptions on a cluster.\<close> \<open>cluster_ok\<close> says that each stored object lies under its key, has a
  name and a version, survives its encoding and, if it is being deleted, has a finalizer left, and that
  nodes have no namespace. It holds of an empty cluster and every step of the life cycle keeps it.
  A resource whose node selector is an empty map is decoded with none, so edits of users are those that
  survive the encoding. In the runs with lagging caches nothing of this is assumed of the world; users do not touch the operator's finalizer, and a
  new resource gets a version that none had before under its name, as from a real server (the in-memory one starts again at 1).

  \<^bold>\<open>Not modelled.\<close> Logging but for the messages of a failed start, the flag parser (what it returns is an argument of \<open>main\<close>, its exits are
  modelled), JSON text (documents are values, with whole numbers), leader election, the registration with Prometheus, and how an informer fills its
  store: in the runs with lagging caches the stores are states that the server had, elsewhere a get reads the server. Of \<^verbatim>\<open>gomock\<close> the messages of failed tests,
  \<^verbatim>\<open>Do\<close>, \<^verbatim>\<open>SetArg\<close> and the matchers that no test uses. The
  garbage collector, which removes DaemonSets and Service of a deleted resource through their owner
  references, and the Kernel Module Management operator are other controllers: of the latter the life cycle has the
  freedom to change and to remove Modules.
\<close>

end
